(* ===== verification/Prelude.thy ===== *)
theory Prelude
  imports Main
begin

text \<open>
  Shared vocabulary of the development: Python exceptions as a datatype and fallible code as
  a sum, the string operations of the Python standard library that the gateway uses, parsed
  YAML/JSON documents, and the generic lemmas the component theories rely on.

  A Python \<open>str\<close> is a \<open>string\<close> (a list of \<open>char\<close>): the model covers texts whose code
  points are below 256, and \<open>lower\<close> and \<open>strip\<close> follow Unicode on that range.  Bytes are
  \<open>char\<close>s as well.
\<close>

section \<open>Errors as values\<close>

text \<open>
  One constructor per exception class the modelled code raises; messages are not modelled.
  \<open>OutsideModel\<close> marks an input whose value the model's texts and numbers do not cover.
  \<open>StaleFileError\<close> is a subclass of \<open>ValueError\<close>; \<open>PublicDispatchDenied\<close> and \<open>UnsafeDelta\<close> are subclasses of \<open>PermissionError\<close> in the
  source, which \<open>is_permission_error\<close> records.
\<close>

datatype py_error =
    ValueError | PermissionError | KeyError | TypeError | OSError | FileNotFoundError
  | AttributeError | StaleFileError | RuntimeError | ResourceCleanupError | JobCapacityError | PublicDispatchDenied | UnsafeDelta
  | IntegrityError | DatabaseError | EOFError | OutsideModel

type_synonym 'a result = "py_error + 'a"

fun is_permission_error :: "py_error \<Rightarrow> bool" where
  "is_permission_error PermissionError = True"
| "is_permission_error PublicDispatchDenied = True"
| "is_permission_error UnsafeDelta = True"
| "is_permission_error _ = False"

fun rbind :: "'e + 'a \<Rightarrow> ('a \<Rightarrow> 'e + 'b) \<Rightarrow> 'e + 'b" where
  "rbind (Inl e) f = Inl e"
| "rbind (Inr x) f = f x"

text \<open>\<open>require b e\<close> is the statement \<open>if not b: raise e\<close>.\<close>

definition require :: "bool \<Rightarrow> 'e \<Rightarrow> 'e + unit" where
  "require b e = (if b then Inr () else Inl e)"

text \<open>\<open>rmap_list f xs\<close> runs a fallible body over a list and collects its results.\<close>

fun rmap_list :: "('a \<Rightarrow> 'e + 'b) \<Rightarrow> 'a list \<Rightarrow> 'e + 'b list" where
  "rmap_list f [] = Inr []"
| "rmap_list f (x # xs) = rbind (f x) (\<lambda>y. rbind (rmap_list f xs) (\<lambda>ys. Inr (y # ys)))"

text \<open>\<open>rcheck_list f xs\<close> runs a fallible check over a list and stops at the first error.\<close>

fun rcheck_list :: "('a \<Rightarrow> 'e + unit) \<Rightarrow> 'a list \<Rightarrow> 'e + unit" where
  "rcheck_list f [] = Inr ()"
| "rcheck_list f (x # xs) = rbind (f x) (\<lambda>_. rcheck_list f xs)"

named_theorems result_simps

lemma rbind_Inr_iff [simp, result_simps]:
  "rbind m f = Inr y \<longleftrightarrow> (\<exists>x. m = Inr x \<and> f x = Inr y)"
  by (cases m) auto

lemma rbind_Inl_iff [result_simps]:
  "rbind m f = Inl e \<longleftrightarrow> m = Inl e \<or> (\<exists>x. m = Inr x \<and> f x = Inl e)"
  by (cases m) auto

text \<open>A guard that raises; peeled one at a time with \<open>unfolded\<close> where a function has many.\<close>

lemma guard_Inr_iff: "(if b then Inl e else r) = Inr y \<longleftrightarrow> \<not> b \<and> r = Inr y"
  by simp

lemma accept_Inr_iff: "(if b then Inr x else Inl e) = Inr y \<longleftrightarrow> b \<and> x = y"
  by simp

lemma require_Inr_iff [simp, result_simps]: "require b e = Inr u \<longleftrightarrow> b"
  by (simp add: require_def)

lemma require_Inl_iff [simp, result_simps]: "require b e = Inl e' \<longleftrightarrow> \<not> b \<and> e' = e"
  by (auto simp: require_def)

lemma require_True [simp]: "require True e = Inr ()"
  by (simp add: require_def)

lemma require_False [simp]: "require False e = Inl e"
  by (simp add: require_def)

lemma rcheck_list_ok [simp, result_simps]:
  "rcheck_list f xs = Inr u \<longleftrightarrow> (\<forall>x \<in> set xs. f x = Inr ())"
  by (induction xs) auto

lemma rmap_list_ok: "rmap_list f xs = Inr ys \<Longrightarrow> list_all2 (\<lambda>x y. f x = Inr y) xs ys"
  by (induction xs arbitrary: ys) auto

lemma rmap_list_length: "rmap_list f xs = Inr ys \<Longrightarrow> length ys = length xs"
  by (induction xs arbitrary: ys) auto

lemma rmap_list_member:
  "rmap_list f xs = Inr ys \<Longrightarrow> y \<in> set ys \<Longrightarrow> \<exists>x \<in> set xs. f x = Inr y"
  by (induction xs arbitrary: ys) auto


section \<open>Strings\<close>

abbreviation sep :: char where "sep \<equiv> CHR ''/''"

definition char_code :: "char \<Rightarrow> nat" where
  "char_code c = of_char c"

definition in_range :: "char \<Rightarrow> char \<Rightarrow> char \<Rightarrow> bool" where
  "in_range lo hi c \<longleftrightarrow> char_code lo \<le> char_code c \<and> char_code c \<le> char_code hi"

definition is_digit :: "char \<Rightarrow> bool" where
  "is_digit c = in_range (CHR ''0'') (CHR ''9'') c"

definition is_alpha :: "char \<Rightarrow> bool" where
  "is_alpha c \<longleftrightarrow> in_range (CHR ''a'') (CHR ''z'') c \<or> in_range (CHR ''A'') (CHR ''Z'') c"

definition is_alnum :: "char \<Rightarrow> bool" where
  "is_alnum c \<longleftrightarrow> is_alpha c \<or> is_digit c"

definition is_hex :: "char \<Rightarrow> bool" where
  "is_hex c \<longleftrightarrow> is_digit c \<or> in_range (CHR ''a'') (CHR ''f'') c"

text \<open>\<open>str.lower\<close> on code points below 256: ASCII letters and the Latin-1 capitals.\<close>

definition lower_char :: "char \<Rightarrow> char" where
  "lower_char c = (let n = char_code c in
     if (65 \<le> n \<and> n \<le> 90) \<or> (192 \<le> n \<and> n \<le> 222 \<and> n \<noteq> 215) then char_of (n + 32) else c)"

definition py_lower :: "string \<Rightarrow> string" where
  "py_lower s = map lower_char s"

definition is_space :: "char \<Rightarrow> bool" where
  "is_space c = (let n = char_code c in
     (9 \<le> n \<and> n \<le> 13) \<or> (28 \<le> n \<and> n \<le> 32) \<or> n = 133 \<or> n = 160)"

definition py_strip :: "string \<Rightarrow> string" where
  "py_strip s = rev (dropWhile is_space (rev (dropWhile is_space s)))"

definition starts_with :: "'a list \<Rightarrow> 'a list \<Rightarrow> bool" where
  "starts_with p s \<longleftrightarrow> take (length p) s = p"

definition ends_with :: "'a list \<Rightarrow> 'a list \<Rightarrow> bool" where
  "ends_with p s \<longleftrightarrow> starts_with (rev p) (rev s)"

fun contains :: "'a list \<Rightarrow> 'a list \<Rightarrow> bool" where
  "contains p [] = (p = [])"
| "contains p (c # s) = (starts_with p (c # s) \<or> contains p s)"

text \<open>\<open>s.split(c)\<close> with an explicit separator: never the empty list.\<close>

fun split_on :: "'a \<Rightarrow> 'a list \<Rightarrow> 'a list list" where
  "split_on d [] = [[]]"
| "split_on d (c # s) = (if c = d then [] # split_on d s
     else (case split_on d s of [] \<Rightarrow> [[c]] | w # ws \<Rightarrow> (c # w) # ws))"

fun join_with :: "'a \<Rightarrow> 'a list list \<Rightarrow> 'a list" where
  "join_with d [] = []"
| "join_with d [w] = w"
| "join_with d (w # v # ws) = w @ d # join_with d (v # ws)"

definition py_replace :: "char \<Rightarrow> char \<Rightarrow> string \<Rightarrow> string" where
  "py_replace a b s = map (\<lambda>c. if c = a then b else c) s"

text \<open>The number of bytes of a text encoded as UTF-8 (code points below 256).\<close>

definition utf8_len :: "string \<Rightarrow> nat" where
  "utf8_len s = sum_list (map (\<lambda>c. if char_code c < 128 then 1 else 2) s)"

text \<open>\<open>re.fullmatch\<close> of a single character class with a repetition range.\<close>

definition class_match :: "(char \<Rightarrow> bool) \<Rightarrow> nat \<Rightarrow> nat \<Rightarrow> string \<Rightarrow> bool" where
  "class_match P lo hi s \<longleftrightarrow> lo \<le> length s \<and> length s \<le> hi \<and> list_all P s"

text \<open>\<open>str(n)\<close> of a natural number.\<close>

fun decimal :: "nat \<Rightarrow> string" where
  "decimal n = (if n < 10 then [char_of (48 + n)] else decimal (n div 10) @ [char_of (48 + n mod 10)])"

declare decimal.simps [simp del]

lemma starts_with_append [simp]: "starts_with p (p @ s)"
  by (simp add: starts_with_def)

lemma starts_with_Nil [simp]: "starts_with [] s"
  by (simp add: starts_with_def)

lemma starts_with_iff: "starts_with p s \<longleftrightarrow> (\<exists>t. s = p @ t)"
  unfolding starts_with_def by (metis append_eq_conv_conj append_take_drop_id)

lemma starts_with_Cons [simp]:
  "starts_with (a # p) (b # s) \<longleftrightarrow> a = b \<and> starts_with p s"
  by (auto simp: starts_with_def)

lemma starts_with_Cons_Nil [simp]: "\<not> starts_with (a # p) []"
  by (simp add: starts_with_def)

lemma ends_with_iff: "ends_with p s \<longleftrightarrow> (\<exists>t. s = t @ p)"
  unfolding ends_with_def starts_with_iff by (metis rev_append rev_rev_ident)

lemma split_on_not_Nil [simp]: "split_on d s \<noteq> []"
  by (induction s) (auto split: list.splits)

lemma split_on_no_sep: "w \<in> set (split_on d s) \<Longrightarrow> d \<notin> set w"
  by (induction s arbitrary: w) (auto split: if_splits list.splits)

lemma join_split_on [simp]: "join_with d (split_on d s) = s"
proof (induction s)
  case Nil
  then show ?case by simp
next
  case (Cons c s)
  obtain w ws where w: "split_on d s = w # ws" by (cases "split_on d s") auto
  with Cons show ?case by (cases ws) auto
qed

lemma split_on_single: "d \<notin> set w \<Longrightarrow> split_on d w = [w]"
  by (induction w) auto

lemma split_on_append_sep: "d \<notin> set w \<Longrightarrow> split_on d (w @ d # s) = w # split_on d s"
  by (induction w) auto

lemma split_on_append: "split_on d (a @ d # b) = split_on d a @ split_on d b"
  by (induction a) (auto split: list.splits)

lemma split_join_with:
  "ws \<noteq> [] \<Longrightarrow> \<forall>w \<in> set ws. d \<notin> set w \<Longrightarrow> split_on d (join_with d ws) = ws"
proof (induction ws rule: induct_list012)
  case (3 w v ws)
  then show ?case by (auto simp: split_on_append_sep)
qed (auto simp: split_on_single)

lemma join_with_Cons: "ws \<noteq> [] \<Longrightarrow> join_with d (w # ws) = w @ d # join_with d ws"
  by (cases ws) auto

lemma join_with_append:
  "us \<noteq> [] \<Longrightarrow> vs \<noteq> [] \<Longrightarrow> join_with d (us @ vs) = join_with d us @ d # join_with d vs"
  by (induction us rule: induct_list012) (auto simp: join_with_Cons)

lemma class_match_length: "class_match P lo hi s \<Longrightarrow> lo \<le> length s \<and> length s \<le> hi"
  by (simp add: class_match_def)

lemma length_le_utf8_len: "length s \<le> utf8_len s"
  by (induction s) (auto simp: utf8_len_def)


text \<open>Hexadecimal and decimal number texts.\<close>

definition hex_digit :: "nat \<Rightarrow> char" where
  "hex_digit n = ''0123456789abcdef'' ! n"

definition hex4 :: "nat \<Rightarrow> string" where
  "hex4 n = [hex_digit (n div 4096 mod 16), hex_digit (n div 256 mod 16), hex_digit (n div 16 mod 16), hex_digit (n mod 16)]"

definition hex_value :: "char \<Rightarrow> nat" where
  "hex_value c = (if is_digit c then char_code c - 48 else char_code c - 87)"

definition parse_hex4 :: "string \<Rightarrow> nat option" where
  "parse_hex4 h = (if length h = 4 \<and> list_all is_hex h
     then Some (foldl (\<lambda>n c. 16 * n + hex_value c) 0 h) else None)"

definition decimal_value :: "string \<Rightarrow> int" where
  "decimal_value s = foldl (\<lambda>n c. 10 * n + (int (char_code c) - 48)) 0 s"

lemma hex_digit_value: "n < 16 \<Longrightarrow> is_hex (hex_digit n) \<and> hex_value (hex_digit n) = n"
proof -
  have "list_all (\<lambda>n. is_hex (hex_digit n) \<and> hex_value (hex_digit n) = n) [0..<16]"
    by code_simp
  then show "n < 16 \<Longrightarrow> is_hex (hex_digit n) \<and> hex_value (hex_digit n) = n"
    by (simp add: list_all_iff)
qed

lemma is_hex_cases: "is_hex c \<Longrightarrow> \<exists>n < 16. c = hex_digit n"
proof -
  assume "is_hex c"
  moreover have "char_code (CHR ''0'') = 48" "char_code (CHR ''9'') = 57" "char_code (CHR ''a'') = 97"
    "char_code (CHR ''f'') = 102" by code_simp+
  ultimately have "(48 \<le> char_code c \<and> char_code c < 58) \<or> (97 \<le> char_code c \<and> char_code c < 103)"
    unfolding is_hex_def is_digit_def in_range_def by linarith
  then have "char_code c \<in> set ([48..<58] @ [97..<103])" unfolding set_append set_upt by auto
  moreover have "list_all (\<lambda>k. char_of (k::nat) \<in> set ''0123456789abcdef'') ([48..<58] @ [97..<103])" by code_simp
  ultimately have "char_of (char_code c) \<in> set ''0123456789abcdef''" unfolding list_all_iff by blast
  moreover have "char_of (char_code c) = c" by (simp add: char_code_def)
  ultimately have "c \<in> set ''0123456789abcdef''" by metis
  then obtain n where "n < length ''0123456789abcdef''" "''0123456789abcdef'' ! n = c" by (metis in_set_conv_nth)
  then show ?thesis by (auto simp: hex_digit_def intro!: exI [of _ n])
qed

lemma parse_hex4_iff: "parse_hex4 h = Some n \<longleftrightarrow> h = hex4 n \<and> n < 65536"
proof
  assume "parse_hex4 h = Some n"
  then have h: "length h = 4" "list_all is_hex h" and n: "n = foldl (\<lambda>n c. 16 * n + hex_value c) 0 h"
    by (auto simp: parse_hex4_def split: if_splits)
  from h(1) obtain a b c d where abcd: "h = [a, b, c, d]" by (auto simp: numeral_eq_Suc length_Suc_conv)
  with h(2) obtain p q r s where d: "p < 16" "q < 16" "r < 16" "s < 16"
    "a = hex_digit p" "b = hex_digit q" "c = hex_digit r" "d = hex_digit s" by (auto dest!: is_hex_cases)
  with n abcd have v: "n = ((p * 16 + q) * 16 + r) * 16 + s" by (simp add: hex_digit_value)
  have step: "(x * 16 + y) div 16 = x" "(x * 16 + y) mod 16 = y" if "y < 16" for x y :: nat
    using that by simp_all
  have n16: "n div 16 = (p * 16 + q) * 16 + r" and m: "n mod 16 = s" unfolding v using step d(4) by blast+
  have "n div 16 div 16 = p * 16 + q" and m2: "n div 16 mod 16 = r" unfolding n16 using step d(3) by blast+
  then have n256: "n div 256 = p * 16 + q" by (simp add: div_mult2_eq [symmetric])
  have "n div 256 div 16 = p" and m3: "n div 256 mod 16 = q" unfolding n256 using step d(2) by blast+
  then have "n div 4096 = p" by (simp add: div_mult2_eq [symmetric])
  with d(1) have m4: "n div 4096 mod 16 = p" by simp
  have "n = p * 4096 + q * 256 + r * 16 + s" unfolding v by simp
  with d(1-4) have "n < 65536" by linarith
  note m m2 m3 m4 this
  with d abcd show "h = hex4 n \<and> n < 65536" by (simp add: hex4_def)
next
  assume "h = hex4 n \<and> n < 65536"
  moreover have "16 * (16 * (16 * (n div 4096) + n div 256 mod 16) + n div 16 mod 16) + n mod 16 = n"
  proof -
    have d: "k = 16 * (k div 16) + k mod 16" for k :: nat by simp
    have "n div 16 div 16 = n div 256" "n div 256 div 16 = n div 4096" by (simp_all add: div_mult2_eq [symmetric])
    then have e: "n div 16 = 16 * (n div 256) + n div 16 mod 16" "n div 256 = 16 * (n div 4096) + n div 256 mod 16"
      using d [of "n div 16"] d [of "n div 256"] by metis+
    show ?thesis unfolding e(2) [symmetric] e(1) [symmetric] d [of n, symmetric] ..
  qed
  ultimately show "parse_hex4 h = Some n"
    by (simp add: parse_hex4_def hex4_def hex_digit_value)
qed

lemma hex4_length [simp]: "length (hex4 n) = 4"
  by (simp add: hex4_def)


section \<open>Parsed documents\<close>

text \<open>
  A YAML or JSON document after parsing.  The loaders of the source refuse duplicate and
  non-string keys, so a mapping is a list of fields with string keys.
\<close>

datatype pyval = PNone | PBool bool | PInt int | PStr string | PList "pyval list"
  | PDict "(string \<times> pyval) list"

definition field_names :: "('k \<times> 'a) list \<Rightarrow> 'k set" where
  "field_names d = set (map fst d)"

fun is_pstr :: "pyval \<Rightarrow> bool" where
  "is_pstr (PStr _) = True"
| "is_pstr _ = False"

fun the_str :: "pyval \<Rightarrow> string" where
  "the_str (PStr s) = s"
| "the_str _ = []"

lemma is_pstr_iff: "is_pstr v \<longleftrightarrow> (\<exists>s. v = PStr s)"
  by (cases v) auto

lemma PList_case_Inr: "(case v of PList xs \<Rightarrow> f xs | _ \<Rightarrow> Inl e) = Inr y \<longleftrightarrow> (\<exists>xs. v = PList xs \<and> f xs = Inr y)"
  by (cases v) auto

lemma PDict_case_Inr: "(case v of PDict d \<Rightarrow> f d | _ \<Rightarrow> Inl e) = Inr y \<longleftrightarrow> (\<exists>d. v = PDict d \<and> f d = Inr y)"
  by (cases v) auto

lemma the_only_Inr: "(case xs of [x] \<Rightarrow> f x | _ \<Rightarrow> Inl e) = Inr y \<longleftrightarrow> (\<exists>x. xs = [x] \<and> f x = Inr y)"
  by (auto split: list.splits)

lemma the_str_member: "list_all is_pstr xs \<Longrightarrow> s \<in> the_str ` set xs \<longleftrightarrow> PStr s \<in> set xs"
  by (induction xs) (auto simp: is_pstr_iff)

lemma filter_unique:
  assumes "filter P xs = [x]"
  shows "x \<in> set xs \<and> P x \<and> (\<forall>y \<in> set xs. P y \<longrightarrow> y = x)"
proof -
  have "{y \<in> set xs. P y} = {x}" using arg_cong [OF assms, of set] by simp
  then show ?thesis by blast
qed

lemma map_filter_member: "x \<in> set xs \<Longrightarrow> f x = Some y \<Longrightarrow> y \<in> set (List.map_filter f xs)"
  by (force simp: List.map_filter_def)

lemma map_of_Some_field: "map_of d k = Some v \<Longrightarrow> k \<in> field_names d"
  by (force simp: field_names_def dest: map_of_SomeD)

lemma field_names_map_of: "k \<in> field_names d \<longleftrightarrow> (\<exists>v. map_of d k = Some v)"
  unfolding field_names_def set_map by (metis map_of_eq_None_iff not_Some_eq)

text \<open>A dictionary as an association list in insertion order; \<open>dict_set\<close> is \<open>d[k] = v\<close>.\<close>

type_synonym pydict = "(string \<times> pyval) list"

definition dict_set :: "'k \<Rightarrow> 'v \<Rightarrow> ('k \<times> 'v) list \<Rightarrow> ('k \<times> 'v) list" where
  "dict_set k v d = (if k \<in> field_names d then map (\<lambda>p. if fst p = k then (k, v) else p) d
     else d @ [(k, v)])"

definition dict_pop :: "'k \<Rightarrow> ('k \<times> 'v) list \<Rightarrow> ('k \<times> 'v) list" where
  "dict_pop k d = filter (\<lambda>p. fst p \<noteq> k) d"

definition dict_get :: "pydict \<Rightarrow> string \<Rightarrow> pyval" where
  "dict_get d k = (case map_of d k of None \<Rightarrow> PNone | Some v \<Rightarrow> v)"

text \<open>Python truth values of a document.\<close>

fun truthy :: "pyval \<Rightarrow> bool" where
  "truthy PNone = False"
| "truthy (PBool b) = b"
| "truthy (PInt i) = (i \<noteq> 0)"
| "truthy (PStr s) = (s \<noteq> [])"
| "truthy (PList xs) = (xs \<noteq> [])"
| "truthy (PDict d) = (d \<noteq> [])"

lemma map_of_overwrite_other:
  "j \<noteq> k \<Longrightarrow> map_of (map (\<lambda>p. if fst p = k then (k, v) else p) d) j = map_of d j"
  by (induction d) auto

lemma map_of_overwrite_same:
  "map_of d k \<noteq> None \<Longrightarrow> map_of (map (\<lambda>p. if fst p = k then (k, v) else p) d) k = Some v"
  by (induction d) (auto split: if_splits)

lemma map_of_snoc_new:
  "map_of d k = None \<Longrightarrow> map_of (d @ [(k, v)]) j = (if j = k then Some v else map_of d j)"
  by (induction d) (auto split: if_splits)

lemma map_of_dict_set: "map_of (dict_set k v d) j = (if j = k then Some v else map_of d j)"
proof (cases "map_of d k")
  case None
  then have "k \<notin> field_names d" by (simp add: field_names_map_of)
  with None show ?thesis by (simp add: dict_set_def map_of_snoc_new del: map_of_append)
next
  case (Some w)
  then have "k \<in> field_names d" by (simp add: field_names_map_of)
  with Some show ?thesis by (simp add: dict_set_def map_of_overwrite_other map_of_overwrite_same)
qed

lemma dict_get_dict_set [simp]: "dict_get (dict_set k v d) j = (if j = k then v else dict_get d j)"
  by (simp add: dict_get_def map_of_dict_set)

lemma map_of_dict_pop: "map_of (dict_pop k d) j = (if j = k then None else map_of d j)"
  by (induction d) (auto simp: dict_pop_def)

lemma map_fst_overwrite: "map fst (map (\<lambda>p. if fst p = k then (k, v) else p) d) = map fst d"
  by (induction d) simp_all

lemma map_fst_dict_set:
  "map fst (dict_set k v d) = (if k \<in> fst ` set d then map fst d else map fst d @ [k])"
  using map_fst_overwrite [of k v d] by (simp add: dict_set_def field_names_def)

lemma keys_dict_set: "fst ` set (dict_set k v d) = insert k (fst ` set d)"
  using arg_cong [OF map_fst_dict_set [of k v d], of set] by (auto split: if_splits)

lemma set_dict_set: "set (dict_set k v d) \<subseteq> insert (k, v) (set d)"
  by (auto simp: dict_set_def split: if_splits)

lemma distinct_dict_set: "distinct (map fst d) \<Longrightarrow> distinct (map fst (dict_set k v d))"
  by (simp add: map_fst_dict_set)


section \<open>Tables\<close>

text \<open>
  A database table with a primary key is a list of rows; \<open>row_of\<close> selects the row with a
  key, \<open>drop_rows\<close> is \<open>DELETE ... WHERE\<close>, \<open>update_rows\<close> is \<open>UPDATE ... WHERE\<close>.
\<close>

definition drop_rows :: "('r \<Rightarrow> bool) \<Rightarrow> 'r list \<Rightarrow> 'r list" where
  "drop_rows P t = filter (\<lambda>r. \<not> P r) t"

definition update_rows :: "('r \<Rightarrow> bool) \<Rightarrow> ('r \<Rightarrow> 'r) \<Rightarrow> 'r list \<Rightarrow> 'r list" where
  "update_rows P f t = map (\<lambda>r. if P r then f r else r) t"

lemma set_drop_rows [simp]: "set (drop_rows P t) = {r \<in> set t. \<not> P r}"
  by (auto simp: drop_rows_def)

lemma length_drop_rows: "length (drop_rows P t) \<le> length t"
  by (simp add: drop_rows_def)

lemma length_update_rows [simp]: "length (update_rows P f t) = length t"
  by (simp add: update_rows_def)

lemma set_update_rows: "set (update_rows P f t) = (\<lambda>r. if P r then f r else r) ` set t"
  by (simp add: update_rows_def)

lemma map_key_update_rows:
  "(\<And>r. k (f r) = k r) \<Longrightarrow> map k (update_rows P f t) = map k t"
  by (simp add: update_rows_def)

lemma distinct_map_drop_rows: "distinct (map k t) \<Longrightarrow> distinct (map k (drop_rows P t))"
  by (simp add: drop_rows_def distinct_map_filter)

lemma map_of_drop_rows:
  "map_of (drop_rows (\<lambda>p. fst p \<in> T) l) k = (if k \<in> T then None else map_of l k)"
  by (induction l) (auto simp: drop_rows_def)

lemma find_map_key:
  "(\<And>r. k (g r) = k r) \<Longrightarrow> find (\<lambda>r. k r = x) (map g t) = map_option g (find (\<lambda>r. k r = x) t)"
  by (induction t) auto

lemma find_update_rows:
  "(\<And>r. k (f r) = k r) \<Longrightarrow>
   find (\<lambda>r. k r = x) (update_rows P f t) = map_option (\<lambda>r. if P r then f r else r) (find (\<lambda>r. k r = x) t)"
  unfolding update_rows_def by (rule find_map_key) simp

lemma find_append: "find P (xs @ ys) = (case find P xs of None \<Rightarrow> find P ys | Some x \<Rightarrow> Some x)"
  by (induction xs) auto

lemma find_SomeD: "find P xs = Some x \<Longrightarrow> x \<in> set xs \<and> P x"
  by (induction xs) (auto split: if_splits)

lemma find_key_mem: "x \<in> set t \<Longrightarrow> distinct (map k t) \<Longrightarrow> find (\<lambda>r. k r = k x) t = Some x"
  by (induction t) (auto simp: image_iff)

lemma find_key_None: "find (\<lambda>r. k r = x) t = None \<longleftrightarrow> x \<notin> k ` set t"
  by (auto simp: find_None_iff)


section \<open>Decoding UTF-8\<close>

definition utf8_cont :: "nat \<Rightarrow> bool" where
  "utf8_cont b \<longleftrightarrow> 128 \<le> b \<and> b \<le> 191"

text \<open>The bounds of the second byte of a three- or four-byte sequence.\<close>

definition utf8_second :: "nat \<Rightarrow> nat \<Rightarrow> bool" where
  "utf8_second a b \<longleftrightarrow> utf8_cont b \<and> (a = 224 \<longrightarrow> 160 \<le> b) \<and> (a = 237 \<longrightarrow> b \<le> 159) \<and> (a = 240 \<longrightarrow> 144 \<le> b) \<and> (a = 244 \<longrightarrow> b \<le> 143)"

definition REPLACEMENT :: "nat list" where
  "REPLACEMENT = [239, 191, 189]"

text \<open>The UTF-8 bytes of \<open>bytes.decode("utf-8", errors="replace")\<close>: each maximal broken sequence becomes one U+FFFD.\<close>

fun utf8_replace :: "nat list \<Rightarrow> nat list" where
  "utf8_replace [] = []"
| "utf8_replace (a # s) =
     (if a < 128 then a # utf8_replace s
      else if 194 \<le> a \<and> a \<le> 223 then
        (case s of b # t \<Rightarrow> if utf8_cont b then a # b # utf8_replace t else REPLACEMENT @ utf8_replace s | [] \<Rightarrow> REPLACEMENT)
      else if 224 \<le> a \<and> a \<le> 239 then
        (case s of
           [] \<Rightarrow> REPLACEMENT
         | b # t \<Rightarrow> if \<not> utf8_second a b then REPLACEMENT @ utf8_replace s
             else (case t of [] \<Rightarrow> REPLACEMENT
               | c # u \<Rightarrow> if utf8_cont c then a # b # c # utf8_replace u else REPLACEMENT @ utf8_replace t))
      else if 240 \<le> a \<and> a \<le> 244 then
        (case s of
           [] \<Rightarrow> REPLACEMENT
         | b # t \<Rightarrow> if \<not> utf8_second a b then REPLACEMENT @ utf8_replace s
             else (case t of [] \<Rightarrow> REPLACEMENT
               | c # u \<Rightarrow> if \<not> utf8_cont c then REPLACEMENT @ utf8_replace t
                   else (case u of [] \<Rightarrow> REPLACEMENT
                     | d # w \<Rightarrow> if utf8_cont d then a # b # c # d # utf8_replace w else REPLACEMENT @ utf8_replace u)))
      else REPLACEMENT @ utf8_replace s)"

text \<open>The text of some bytes, itself as UTF-8 bytes.\<close>

definition decode_replace :: "string \<Rightarrow> string" where
  "decode_replace s = map char_of (utf8_replace (map char_code s))"

definition ascii :: "string \<Rightarrow> bool" where
  "ascii s \<longleftrightarrow> list_all (\<lambda>c. char_code c < 128) s"

lemma ascii_simps [simp]: "ascii []" "ascii (c # s) \<longleftrightarrow> char_code c < 128 \<and> ascii s" "ascii (s @ t) \<longleftrightarrow> ascii s \<and> ascii t"
  by (auto simp: ascii_def)

lemma utf8_replace_ascii: "\<forall>b \<in> set s. b < 128 \<Longrightarrow> utf8_replace s = s"
  by (induction s) auto

lemma decode_replace_ascii [simp]: "ascii s \<Longrightarrow> decode_replace s = s"
  by (induction s) (simp_all add: decode_replace_def char_code_def)

section \<open>Shared contracts\<close>

text \<open>
  A ledger in which a key can be consumed once: the state records the used keys and a
  consumption succeeds only for an unused one.  \<open>accepted\<close> runs a sequence of attempts.
\<close>

fun accepted :: "('a \<Rightarrow> 's \<Rightarrow> 'e + 's) \<Rightarrow> 'a list \<Rightarrow> 's \<Rightarrow> 'a list \<times> 's" where
  "accepted consume [] s = ([], s)"
| "accepted consume (a # as) s = (case consume a s of
     Inl _ \<Rightarrow> accepted consume as s
   | Inr s' \<Rightarrow> (let (done_as, s'') = accepted consume as s' in (a # done_as, s'')))"

locale single_use =
  fixes consume :: "'a \<Rightarrow> 's \<Rightarrow> 'e + 's"
    and key :: "'a \<Rightarrow> 'k"
    and used :: "'s \<Rightarrow> 'k set"
  assumes consume_fresh: "consume a s = Inr s' \<Longrightarrow> key a \<notin> used s"
    and consume_marks: "consume a s = Inr s' \<Longrightarrow> used s' = insert (key a) (used s)"
begin

lemma replay_refused: "key a \<in> used s \<Longrightarrow> \<exists>e. consume a s = Inl e"
  using consume_fresh by (cases "consume a s") auto

lemma accepted_once:
  assumes "accepted consume as s = (done_as, s')"
  shows "distinct (map key done_as) \<and> key ` set done_as \<inter> used s = {} \<and> used s' = used s \<union> key ` set done_as
    \<and> set done_as \<subseteq> set as"
  using assms
proof (induction as arbitrary: s done_as s')
  case (Cons a as)
  show ?case
  proof (cases "consume a s")
    case (Inl e)
    with Cons show ?thesis by fastforce
  next
    case (Inr s1)
    obtain d s2 where d: "accepted consume as s1 = (d, s2)" by fastforce
    from Cons.IH [OF d] consume_fresh [OF Inr] consume_marks [OF Inr] Cons.prems Inr d
    show ?thesis by (auto simp: disjoint_iff)
  qed
qed simp

end

text \<open>A ledger whose entries also have to be valid when they are consumed.\<close>

locale expiring_use = single_use consume key used
  for consume :: "'a \<Rightarrow> 's \<Rightarrow> 'e + 's" and key :: "'a \<Rightarrow> 'k" and used :: "'s \<Rightarrow> 'k set" +
  fixes valid :: "'a \<Rightarrow> bool"
  assumes consume_valid: "consume a s = Inr s' \<Longrightarrow> valid a"
begin

lemma accepted_valid: "accepted consume as s = (done_as, s') \<Longrightarrow> a \<in> set done_as \<Longrightarrow> valid a"
proof (induction as arbitrary: s done_as)
  case (Cons b as)
  then show ?case by (fastforce split: sum.splits prod.splits dest: consume_valid)
qed simp

end

text \<open>A counted resource with a capacity: no step raises the count above it.\<close>

locale bounded_resource =
  fixes held :: "'s \<Rightarrow> nat" and capacity :: nat and step :: "'s \<Rightarrow> 's \<Rightarrow> bool"
  assumes step_bound: "step s s' \<Longrightarrow> held s' \<le> max capacity (held s)"
begin

lemma held_bounded: "step\<^sup>*\<^sup>* s s' \<Longrightarrow> held s' \<le> max capacity (held s)"
  by (induction rule: rtranclp_induct) (auto dest: step_bound)

lemma held_capacity: "step\<^sup>*\<^sup>* s s' \<Longrightarrow> held s \<le> capacity \<Longrightarrow> held s' \<le> capacity"
  using held_bounded by fastforce

end

text \<open>
  A framed encoding: a decoder takes one frame off the front of a stream and is inverse to the encoder,
  so a sequence of frames has one reading.
\<close>

locale framed_codec =
  fixes encode :: "'a \<Rightarrow> 'b list" and decode :: "'b list \<Rightarrow> ('a \<times> 'b list) option" and fits :: "'a \<Rightarrow> bool"
  assumes decode_encode: "fits a \<Longrightarrow> decode (encode a @ rest) = Some (a, rest)"
    and encode_decode: "decode s = Some (a, rest) \<Longrightarrow> fits a \<and> s = encode a @ rest"
    and encode_nonempty: "encode a \<noteq> []"
begin

lemma decode_shrinks: "decode s = Some (a, rest) \<Longrightarrow> length rest < length s"
  using encode_decode [of s a rest] encode_nonempty [of a] by auto

lemma frames_unique:
  "list_all fits xs \<Longrightarrow> list_all fits ys \<Longrightarrow> concat (map encode xs) = concat (map encode ys) \<Longrightarrow> xs = ys"
proof (induction xs arbitrary: ys)
  case Nil
  then show ?case using encode_nonempty by (cases ys) auto
next
  case (Cons x xs)
  have "ys \<noteq> []"
  proof
    assume "ys = []"
    with Cons.prems(3) encode_nonempty [of x] show False by simp
  qed
  then obtain y ys' where ys: "ys = y # ys'" by (cases ys) simp_all
  have x: "decode (encode x @ concat (map encode xs)) = Some (x, concat (map encode xs))"
    using Cons.prems(1) by (intro decode_encode) simp
  have y: "decode (encode y @ concat (map encode ys')) = Some (y, concat (map encode ys'))"
    using Cons.prems(2) ys by (intro decode_encode) simp
  have e: "encode x @ concat (map encode xs) = encode y @ concat (map encode ys')" using Cons.prems(3) ys by simp
  have "Some (x, concat (map encode xs)) = Some (y, concat (map encode ys'))"
    unfolding x [symmetric] y [symmetric] e ..
  then have "x = y" "concat (map encode xs) = concat (map encode ys')" by simp_all
  moreover have "xs = ys'" using calculation(2) Cons.prems(1,2) ys by (intro Cons.IH) simp_all
  ultimately show ?case using ys by simp
qed

end

end
