(* ===== verification/Roster.thy ===== *)
theory Roster
  imports Prelude
begin

text \<open>
  \<open>agents/roster.py\<close> and \<open>agents/policy.py\<close>: the fixed public agent identities, the inventory that
  never borrows another runtime, and the command policy every adapter renders.
\<close>

section \<open>The public roster\<close>

definition PUBLIC_AGENT_ROSTER :: "(string \<times> string \<times> string) list" where
  "PUBLIC_AGENT_ROSTER =
    [(''codex_review'', ''codex_review'', ''codex''),
     (''codex_impl'', ''codex_impl'', ''codex''),
     (''codex_research'', ''codex_research'', ''codex''),
     (''copilot_agent'', ''copilot_agent'', ''copilot_agent''),
     (''opencode_free'', ''opencode_free'', ''opencode''),
     (''claude_agent'', ''claude_agent'', ''claude''),
     (''agy_agent'', ''agy_agent'', ''agy'')]"

definition PUBLIC_AGENT_IDS :: "string list" where
  "PUBLIC_AGENT_IDS = map fst PUBLIC_AGENT_ROSTER"

definition str_field :: "pydict \<Rightarrow> string \<Rightarrow> string" where
  "str_field d k = (case map_of d k of Some (PStr s) \<Rightarrow> s | _ \<Rightarrow> ''None'')"

definition unconfigured_entry :: "string \<Rightarrow> string \<Rightarrow> string \<Rightarrow> pydict" where
  "unconfigured_entry agent_id nick worker_cli =
    [(''agent'', PStr agent_id), (''alias'', PStr nick), (''worker_cli'', PStr worker_cli),
     (''provider'', PStr ''unknown''), (''configured_model'', PStr ''unknown''),
     (''effective_model'', PStr ''unknown''), (''actual_model_used'', PStr ''unknown''),
     (''available'', PBool False), (''registered'', PBool False), (''capabilities'', PList []),
     (''supports_read_only'', PBool False),
     (''description'', PStr ''Named identity is not configured; no runtime fallback.'')]"

definition roster_entry :: "pydict \<Rightarrow> string \<Rightarrow> pydict" where
  "roster_entry row worker_cli =
     (let entry = dict_set ''registered'' (PBool True) row
      in if map_of entry ''worker_cli'' \<noteq> Some (PStr worker_cli)
         then dict_set ''routing_error''
                (PStr (''Named identity runtime mismatch: expected '' @ worker_cli @ '', got ''
                       @ str_field entry ''worker_cli''))
                (dict_set ''available'' (PBool False) entry)
         else entry)"

text \<open>\<open>found\<close> is a dictionary comprehension: the last row of an agent wins.\<close>

definition public_agent_inventory :: "(string \<times> pydict) list \<Rightarrow> pydict list" where
  "public_agent_inventory discovered =
     map (\<lambda>(agent_id, nick, worker_cli).
            case map_of (rev discovered) agent_id of
              Some row \<Rightarrow> roster_entry row worker_cli
            | None \<Rightarrow> unconfigured_entry agent_id nick worker_cli) PUBLIC_AGENT_ROSTER"

lemma map_of_rev_discovered:
  "map_of (rev discovered) a = Some row \<Longrightarrow> (a, row) \<in> set discovered"
  by (metis map_of_SomeD set_rev)

lemma roster_entry_agent:
  "map_of (roster_entry row cli) ''agent'' = map_of row ''agent''"
  by (simp add: roster_entry_def Let_def map_of_dict_set)

lemma roster_entry_available:
  "map_of (roster_entry row cli) ''available'' = Some (PBool True) \<Longrightarrow>
     map_of (roster_entry row cli) ''worker_cli'' = Some (PStr cli)"
  by (auto simp: roster_entry_def Let_def map_of_dict_set split: if_splits)

text \<open>
  The inventory lists exactly the roster identities in order, and a row shown as available
  really was discovered under that identity and runs on the runtime the roster names for it:
  no identity is served by another runtime.
\<close>

theorem inventory_no_substitution:
  assumes "\<And>a row. (a, row) \<in> set discovered \<Longrightarrow> map_of row ''agent'' = Some (PStr a)"
  shows "map (\<lambda>row. map_of row ''agent'') (public_agent_inventory discovered)
      = map (\<lambda>a. Some (PStr a)) PUBLIC_AGENT_IDS
    \<and> (\<forall>row \<in> set (public_agent_inventory discovered).
         map_of row ''available'' = Some (PBool True) \<longrightarrow>
         (\<exists>a nick cli. (a, nick, cli) \<in> set PUBLIC_AGENT_ROSTER \<and> a \<in> fst ` set discovered
            \<and> map_of row ''agent'' = Some (PStr a) \<and> map_of row ''worker_cli'' = Some (PStr cli)))"
proof
  have "map_of (case map_of (rev discovered) a of Some row \<Rightarrow> roster_entry row cli
      | None \<Rightarrow> unconfigured_entry a nick cli) ''agent'' = Some (PStr a)" for a nick cli
    using assms map_of_rev_discovered [of discovered a]
    by (auto simp: roster_entry_agent unconfigured_entry_def split: option.splits)
  then show "map (\<lambda>row. map_of row ''agent'') (public_agent_inventory discovered)
      = map (\<lambda>a. Some (PStr a)) PUBLIC_AGENT_IDS"
    by (simp add: public_agent_inventory_def PUBLIC_AGENT_IDS_def case_prod_beta')
next
  show "\<forall>row \<in> set (public_agent_inventory discovered).
         map_of row ''available'' = Some (PBool True) \<longrightarrow>
         (\<exists>a nick cli. (a, nick, cli) \<in> set PUBLIC_AGENT_ROSTER \<and> a \<in> fst ` set discovered
            \<and> map_of row ''agent'' = Some (PStr a) \<and> map_of row ''worker_cli'' = Some (PStr cli))"
  proof (intro ballI impI)
    fix row assume "row \<in> set (public_agent_inventory discovered)"
      and av: "map_of row ''available'' = Some (PBool True)"
    then obtain a nick cli where r: "(a, nick, cli) \<in> set PUBLIC_AGENT_ROSTER"
      and row: "row = (case map_of (rev discovered) a of Some row \<Rightarrow> roster_entry row cli
        | None \<Rightarrow> unconfigured_entry a nick cli)"
      by (auto simp: public_agent_inventory_def)
    then obtain src where s: "map_of (rev discovered) a = Some src" "row = roster_entry src cli"
      using av by (auto simp: unconfigured_entry_def split: option.splits)
    with av have "map_of row ''worker_cli'' = Some (PStr cli)" by (simp add: roster_entry_available)
    moreover have "map_of row ''agent'' = Some (PStr a)" "a \<in> fst ` set discovered"
      using s assms map_of_rev_discovered [OF s(1)] by (force simp: roster_entry_agent)+
    ultimately show "\<exists>a nick cli. (a, nick, cli) \<in> set PUBLIC_AGENT_ROSTER \<and> a \<in> fst ` set discovered
        \<and> map_of row ''agent'' = Some (PStr a) \<and> map_of row ''worker_cli'' = Some (PStr cli)"
      using r by blast
  qed
qed

definition demo_discovered :: "(string \<times> pydict) list" where
  "demo_discovered = [(''agy_agent'', [(''agent'', PStr ''agy_agent''), (''worker_cli'', PStr ''agy''),
      (''available'', PBool True)])]"

theorem inventory_no_substitution_witness:
  "map (\<lambda>row. map_of row ''agent'') (public_agent_inventory demo_discovered)
     = map (\<lambda>a. Some (PStr a)) PUBLIC_AGENT_IDS
   \<and> map_of (last (public_agent_inventory demo_discovered)) ''available'' = Some (PBool True)"
proof -
  have "map_of row ''agent'' = Some (PStr a)" if "(a, row) \<in> set demo_discovered" for a row
    using that by (auto simp: demo_discovered_def)
  from inventory_no_substitution [OF this]
  have "map (\<lambda>row. map_of row ''agent'') (public_agent_inventory demo_discovered)
     = map (\<lambda>a. Some (PStr a)) PUBLIC_AGENT_IDS" by blast
  moreover have "map_of (last (public_agent_inventory demo_discovered)) ''available'' = Some (PBool True)"
    by code_simp
  ultimately show ?thesis by blast
qed


section \<open>The command policy of delegated agents\<close>

definition SENSITIVE_COMMANDS :: "string list" where
  "SENSITIVE_COMMANDS =
    [''git push --force'', ''git push -f'', ''git push --force-with-lease'', ''git push --delete'',
     ''git push --mirror'', ''git remote'', ''git branch -D'', ''git branch -d'',
     ''git branch --delete'', ''git reset --hard'', ''git clean'', ''git filter-branch'',
     ''gh repo delete'', ''gh release'', ''gh pr merge'', ''gh auth'', ''rm -rf'', ''rm -fr'',
     ''sudo'', ''su'', ''systemctl'', ''apt'', ''apt-get'', ''dnf'', ''snap'', ''npm publish'',
     ''twine upload'', ''docker push'', ''ssh'', ''scp'']"

definition COMMIT_COMMANDS :: "string list" where
  "COMMIT_COMMANDS = [''git commit'']"

definition PUSH_COMMANDS :: "string list" where
  "PUSH_COMMANDS = [''git push'']"

definition LOCAL_MUTATION_COMMANDS :: "string list" where
  "LOCAL_MUTATION_COMMANDS =
    [''git branch -D'', ''git branch -d'', ''git branch --delete'', ''git reset --hard'', ''git clean'']"

record execution_policy =
  workspace_write :: bool
  ep_shell :: bool
  ep_tests :: bool
  git_read :: bool
  git_commit :: bool
  git_push :: bool
  destructive :: bool
  ep_credentials :: bool
  external_deploy :: bool

definition default_policy :: execution_policy where
  "default_policy = \<lparr>workspace_write = True, ep_shell = True, ep_tests = True, git_read = True,
     git_commit = False, git_push = False, destructive = False, ep_credentials = False,
     external_deploy = False\<rparr>"

definition for_workspace :: "bool \<Rightarrow> bool \<Rightarrow> bool \<Rightarrow> execution_policy" where
  "for_workspace writable allow_commit allow_push =
     (if \<not> writable then default_policy\<lparr>workspace_write := False\<rparr>
      else default_policy\<lparr>git_commit := True, git_push := False\<rparr>)"

definition denied_commands :: "execution_policy \<Rightarrow> string list" where
  "denied_commands p =
     filter (\<lambda>command. \<not> (workspace_write p \<and> command \<in> set LOCAL_MUTATION_COMMANDS)) SENSITIVE_COMMANDS
     @ (if \<not> git_commit p then COMMIT_COMMANDS else [])
     @ (if \<not> git_push p then PUSH_COMMANDS else [])"

text \<open>
  Whatever a request asks for, every push form and every host command stays denied; a read-only
  workspace denies all sensitive commands and commits, and a writable one lifts exactly the commit
  and the five local branch, reset and clean commands.
\<close>

theorem denied_commands_of_workspace:
  "set (denied_commands (for_workspace w c p)) =
     set SENSITIVE_COMMANDS \<union> set PUSH_COMMANDS
       \<union> (if w then {} else set COMMIT_COMMANDS) - (if w then set LOCAL_MUTATION_COMMANDS else {})
   \<and> set PUSH_COMMANDS \<inter> set LOCAL_MUTATION_COMMANDS = {}"
  by (cases w) (auto simp: denied_commands_def for_workspace_def default_policy_def
      PUSH_COMMANDS_def COMMIT_COMMANDS_def LOCAL_MUTATION_COMMANDS_def)

end
