(* ===== verification/Paths.thy ===== *)
theory Paths
  imports Prelude
begin

text \<open>
  \<open>workspaces/paths.py\<close>: the traversal and disclosure boundary of every workspace file
  operation.  The host file system appears only through its symbolic links: a finite table
  from canonical locations (component lists) to link targets.  \<open>os.path.normpath\<close>,
  \<open>realpath\<close> and \<open>relpath\<close> of the standard library are modelled as the interpreter
  computes them on POSIX; path texts contain no NUL (the host refuses them before any lookup).
\<close>

section \<open>POSIX path functions of the standard library\<close>

type_synonym links = "(string list \<times> string) list"

record host_fs =
  fs_links :: links
  fs_cwd :: "string list"

definition is_abs :: "string \<Rightarrow> bool" where
  "is_abs p = starts_with ''/'' p"

text \<open>The component stack of \<open>normpath\<close> (\<open>initial\<close>: the path starts with a slash).\<close>

fun norm_comps :: "bool \<Rightarrow> string list \<Rightarrow> string list \<Rightarrow> string list" where
  "norm_comps initial acc [] = rev acc"
| "norm_comps initial acc (c # comps) =
     (if c = [] \<or> c = ''.'' then norm_comps initial acc comps
      else if c \<noteq> ''..'' \<or> (\<not> initial \<and> acc = []) \<or> (acc \<noteq> [] \<and> hd acc = ''..'')
      then norm_comps initial (c # acc) comps
      else norm_comps initial (tl acc) comps)"

definition initial_slashes :: "string \<Rightarrow> nat" where
  "initial_slashes p = (if starts_with ''//'' p \<and> \<not> starts_with ''///'' p then 2
     else if starts_with ''/'' p then 1 else 0)"

definition normpath :: "string \<Rightarrow> string" where
  "normpath p = (if p = [] then ''.'' else
     (let n = initial_slashes p;
          r = replicate n sep @ join_with sep (norm_comps (n > 0) [] (split_on sep p))
      in if r = [] then ''.'' else r))"

definition path_join :: "string \<Rightarrow> string \<Rightarrow> string" where
  "path_join a b = (if starts_with ''/'' b then b
     else if a = [] \<or> ends_with ''/'' a then a @ b else a @ ''/'' @ b)"

text \<open>The text of a canonical location.\<close>

definition to_path :: "string list \<Rightarrow> string" where
  "to_path comps = ''/'' @ join_with sep comps"

text \<open>
  \<open>posixpath._joinrealpath\<close> on component lists.  \<open>seen\<close> caches resolved links and marks
  the link being resolved with \<open>None\<close>; meeting a marked link is a symlink loop, where the
  non-strict mode returns the path unresolved (\<open>False\<close>).  Each nested link spends one unit of
  fuel; \<open>real_join_terminates\<close> shows that the number of links is enough.
\<close>

type_synonym seen = "(string list \<times> string list option) list"

definition join_rest :: "string list \<Rightarrow> string list \<Rightarrow> string list" where
  "join_rest base rest = (if length rest > 1 \<and> hd rest = [] then rest else base @ rest)"

fun real_join :: "nat \<Rightarrow> links \<Rightarrow> string list \<Rightarrow> string list \<Rightarrow> seen
    \<Rightarrow> (string list \<times> bool \<times> seen) option" where
  "real_join fuel L path [] seen = Some (path, True, seen)"
| "real_join fuel L path (name # rest) seen =
     (if name = [] \<or> name = ''.'' then real_join fuel L path rest seen
      else if name = ''..'' then real_join fuel L (butlast path) rest seen
      else (case map_of L (path @ [name]) of
          None \<Rightarrow> real_join fuel L (path @ [name]) rest seen
        | Some target \<Rightarrow>
            (case map_of seen (path @ [name]) of
               Some (Some p) \<Rightarrow> real_join fuel L p rest seen
             | Some None \<Rightarrow> Some (join_rest (path @ [name]) rest, False, seen)
             | None \<Rightarrow>
                 (case fuel of 0 \<Rightarrow> None
                  | Suc f \<Rightarrow>
                     (case real_join f L (if is_abs target then [] else path)
                             (split_on sep target) ((path @ [name], None) # seen) of
                        None \<Rightarrow> None
                      | Some (p, ok, seen') \<Rightarrow>
                          if \<not> ok then Some (join_rest p rest, False, seen')
                          else real_join fuel L p rest ((path @ [name], Some p) # seen'))))))"

text \<open>\<open>abspath\<close> of the joined path: absolute, so only the component stack remains.\<close>

definition realpath_comps :: "host_fs \<Rightarrow> string \<Rightarrow> string list" where
  "realpath_comps fs p =
     (case real_join (length (fs_links fs)) (fs_links fs)
             (if is_abs p then [] else fs_cwd fs) (split_on sep p) [] of
        None \<Rightarrow> []
      | Some (comps, ok, seen) \<Rightarrow> norm_comps True [] comps)"

definition realpath :: "host_fs \<Rightarrow> string \<Rightarrow> string" where
  "realpath fs p = to_path (realpath_comps fs p)"

fun common_prefix :: "'a list \<Rightarrow> 'a list \<Rightarrow> nat" where
  "common_prefix (x # xs) (y # ys) = (if x = y then Suc (common_prefix xs ys) else 0)"
| "common_prefix _ _ = 0"

text \<open>\<open>os.path.relpath\<close> between two absolute normalised paths.\<close>

definition relpath :: "string \<Rightarrow> string \<Rightarrow> string" where
  "relpath path start =
     (let start_list = filter (\<lambda>x. x \<noteq> []) (split_on sep start);
          path_list = filter (\<lambda>x. x \<noteq> []) (split_on sep path);
          i = common_prefix start_list path_list;
          rel_list = replicate (length start_list - i) ''..'' @ drop i path_list
      in if rel_list = [] then ''.'' else join_with sep rel_list)"


section \<open>The workspace boundary\<close>

definition SENSITIVE_NAMES_LOWER :: "string list" where
  "SENSITIVE_NAMES_LOWER =
    [''.git'', ''.ssh'', ''.env'', ''id_rsa'', ''id_ed25519'', ''secrets.env'', ''auth.json'',
     ''credentials.json'', ''.credentials.json'', ''.aws'', ''.codex'', ''.claude'',
     ''.copilot'', ''.copilot-agent'', ''.opencode'', ''.github-copilot'', ''.antigravitycli'',
     ''.gemini'', ''.bashrc'', ''.bash_profile'', ''.profile'', ''.zshrc'', ''.gnupg'']"

definition PRIVATE_SUBPATHS :: "string list" where
  "PRIVATE_SUBPATHS =
    [''.config/github-copilot'', ''.config/agy'', ''.config/antigravity'',
     ''.config/opencode'', ''.local/share/opencode'']"

definition sensitive_component :: "string \<Rightarrow> bool" where
  "sensitive_component p = (let p_lower = py_lower p in
     p_lower \<in> set SENSITIVE_NAMES_LOWER
     \<or> starts_with ''.env'' p_lower
     \<or> starts_with ''.codex-'' p_lower
     \<or> ends_with ''.env'' p_lower \<or> ends_with ''.pem'' p_lower \<or> ends_with ''.key'' p_lower)"

definition path_parts :: "string \<Rightarrow> string list" where
  "path_parts s = split_on sep (py_replace (CHR 0x5C) sep s)"

definition check_sensitive_components :: "string \<Rightarrow> unit result" where
  "check_sensitive_components path_str =
     (let parts = path_parts path_str;
          lowered = py_lower (join_with sep parts)
      in if list_ex (\<lambda>private. contains (''/'' @ private @ ''/'') (''/'' @ lowered @ ''/''))
              PRIVATE_SUBPATHS
         then Inl ValueError
         else rcheck_list (\<lambda>p. require (\<not> sensitive_component p) ValueError) parts)"

definition validate_workspace_path :: "host_fs \<Rightarrow> string \<Rightarrow> string \<Rightarrow> bool \<Rightarrow> string result" where
  "validate_workspace_path fs ws_root rel_path allow_root =
     (let real_root = realpath fs ws_root in
      if rel_path = [] \<or> rel_path = ''.'' then
        (if allow_root then Inr real_root else Inl ValueError)
      else if is_abs rel_path \<or> starts_with ''/'' rel_path then Inl ValueError
      else
       (let clean_rel = normpath rel_path in
        if starts_with ''..'' clean_rel \<or> clean_rel = ''..'' then Inl ValueError
        else rbind (check_sensitive_components clean_rel) (\<lambda>_.
          (let target = realpath fs (path_join real_root clean_rel) in
           if \<not> (target = real_root \<or> starts_with (real_root @ ''/'') target) then Inl ValueError
           else rbind (check_sensitive_components (relpath target real_root)) (\<lambda>_.
             Inr target)))))"


section \<open>Termination of link resolution\<close>

definition unseen :: "links \<Rightarrow> seen \<Rightarrow> string list set" where
  "unseen L seen = fst ` set L - fst ` set seen"

lemma finite_unseen [simp]: "finite (unseen L seen)"
  by (simp add: unseen_def)

lemma card_unseen_Cons:
  "map_of L p = Some t \<Longrightarrow> map_of seen p = None \<Longrightarrow>
     card (unseen L ((p, v) # seen)) < card (unseen L seen)"
proof -
  assume a: "map_of L p = Some t" "map_of seen p = None"
  then have "p \<in> unseen L seen"
    by (force simp: unseen_def map_of_eq_None_iff dest: map_of_SomeD)
  moreover have "unseen L ((p, v) # seen) = unseen L seen - {p}"
    by (auto simp: unseen_def)
  ultimately show ?thesis by (metis card_Diff1_less finite_unseen)
qed

lemma card_unseen_mono:
  "fst ` set seen \<subseteq> fst ` set seen' \<Longrightarrow> card (unseen L seen') \<le> card (unseen L seen)"
  by (rule card_mono) (auto simp: unseen_def)


text \<open>The recursion of \<open>real_join\<close> as one induction rule with a case per kind of step.\<close>

lemma real_join_induct [case_names Done Skip Up Plain Cached Loop NoFuel Link]:
  assumes Done: "\<And>fuel L path seen. P fuel L path [] seen"
    and Skip: "\<And>fuel L path name rest seen. name = [] \<or> name = ''.'' \<Longrightarrow> P fuel L path rest seen
      \<Longrightarrow> P fuel L path (name # rest) seen"
    and Up: "\<And>fuel L path rest seen. P fuel L (butlast path) rest seen
      \<Longrightarrow> P fuel L path (''..'' # rest) seen"
    and Plain: "\<And>fuel L path name rest seen. name \<noteq> [] \<Longrightarrow> name \<noteq> ''.'' \<Longrightarrow> name \<noteq> ''..''
      \<Longrightarrow> map_of L (path @ [name]) = None \<Longrightarrow> P fuel L (path @ [name]) rest seen
      \<Longrightarrow> P fuel L path (name # rest) seen"
    and Cached: "\<And>fuel L path name rest seen t p. name \<noteq> [] \<Longrightarrow> name \<noteq> ''.'' \<Longrightarrow> name \<noteq> ''..''
      \<Longrightarrow> map_of L (path @ [name]) = Some t \<Longrightarrow> map_of seen (path @ [name]) = Some (Some p)
      \<Longrightarrow> P fuel L p rest seen \<Longrightarrow> P fuel L path (name # rest) seen"
    and Loop: "\<And>fuel L path name rest seen t. name \<noteq> [] \<Longrightarrow> name \<noteq> ''.'' \<Longrightarrow> name \<noteq> ''..''
      \<Longrightarrow> map_of L (path @ [name]) = Some t \<Longrightarrow> map_of seen (path @ [name]) = Some None
      \<Longrightarrow> P fuel L path (name # rest) seen"
    and NoFuel: "\<And>L path name rest seen t. name \<noteq> [] \<Longrightarrow> name \<noteq> ''.'' \<Longrightarrow> name \<noteq> ''..''
      \<Longrightarrow> map_of L (path @ [name]) = Some t \<Longrightarrow> map_of seen (path @ [name]) = None
      \<Longrightarrow> P 0 L path (name # rest) seen"
    and Link: "\<And>f L path name rest seen t. name \<noteq> [] \<Longrightarrow> name \<noteq> ''.'' \<Longrightarrow> name \<noteq> ''..''
      \<Longrightarrow> map_of L (path @ [name]) = Some t \<Longrightarrow> map_of seen (path @ [name]) = None
      \<Longrightarrow> P f L (if is_abs t then [] else path) (split_on sep t) ((path @ [name], None) # seen)
      \<Longrightarrow> (\<And>p seen'. real_join f L (if is_abs t then [] else path) (split_on sep t)
              ((path @ [name], None) # seen) = Some (p, True, seen')
            \<Longrightarrow> P (Suc f) L p rest ((path @ [name], Some p) # seen'))
      \<Longrightarrow> P (Suc f) L path (name # rest) seen"
  shows "P fuel L path comps seen"
proof (induction fuel L path comps seen rule: real_join.induct)
  case (1 fuel L path seen)
  show ?case by (rule Done)
next
  case (2 fuel L path name rest seen)
  show ?case
  proof (cases "name = [] \<or> name = ''.'' \<or> name = ''..''")
    case True
    then consider "name = [] \<or> name = ''.''" | "name = ''..''" "\<not> (name = [] \<or> name = ''.'')" by blast
    then show ?thesis
    proof cases
      case 1
      with 2(1) show ?thesis by (simp add: Skip)
    next
      case 2
      have "P fuel L (butlast path) rest seen" by (rule "2.IH"(2)) (use 2 in auto)
      with 2 show ?thesis by (simp add: Up)
    qed
  next
    case False
    note plain = this
    show ?thesis
    proof (cases "map_of L (path @ [name])")
      case None
      with plain 2(3) Plain show ?thesis by blast
    next
      case (Some t)
      note link = this
      show ?thesis
      proof (cases "map_of seen (path @ [name])")
        case None
        show ?thesis
        proof (cases fuel)
          case 0
          with plain link None NoFuel show ?thesis by blast
        next
          case (Suc f)
          with plain link None 2(4,5) show ?thesis
            by (auto intro!: Link)
        qed
      next
        case (Some w)
        with plain link 2(6) show ?thesis
          by (cases w) (auto intro: Loop Cached)
      qed
    qed
  qed
qed

lemma real_join_seen_grows:
  "real_join fuel L path comps seen = Some (p, ok, seen') \<Longrightarrow> fst ` set seen \<subseteq> fst ` set seen'"
proof (induction fuel L path comps seen arbitrary: p ok seen' rule: real_join_induct)
  case (Link f L path name rest seen t)
  then show ?case
    by (auto split: option.splits prod.splits if_splits)
qed (auto split: if_splits)

lemma real_join_total:
  "card (unseen L seen) \<le> fuel \<Longrightarrow> real_join fuel L path comps seen \<noteq> None"
proof (induction fuel L path comps seen rule: real_join_induct)
  case (NoFuel L path name rest seen t)
  then show ?case using card_unseen_Cons [OF NoFuel(4,5)] by fastforce
next
  case (Link f L path name rest seen t)
  let ?np = "path @ [name]"
  let ?inner = "real_join f L (if is_abs t then [] else path) (split_on sep t) ((?np, None) # seen)"
  have "?inner \<noteq> None"
    using Link.IH(1) card_unseen_Cons [OF Link(4,5), of None] Link.prems by simp
  then obtain q ok s' where q: "?inner = Some (q, ok, s')" by (metis option.exhaust prod_cases3)
  have "fst ` set seen \<subseteq> fst ` set ((?np, Some q) # s')"
    using real_join_seen_grows [OF q] by auto
  then have c: "card (unseen L ((?np, Some q) # s')) \<le> Suc f"
    by (rule le_trans [OF card_unseen_mono Link.prems])
  have h: "real_join (Suc f) L q rest ((?np, Some q) # s') \<noteq> None" if "ok"
    by (rule Link.IH(2) [OF _ c]) (simp add: q that)
  show ?case
  proof (cases ok)
    case True
    then show ?thesis using Link(1-5) q h by (simp del: map_of.simps)
  next
    case False
    then show ?thesis using Link(1-5) q by (simp del: map_of.simps)
  qed
next
  case (Skip fuel L path name rest seen)
  then show ?case by auto
next
  case (Cached fuel L path name rest seen t p)
  then show ?case by simp
qed simp_all


lemma card_unseen_length: "card (unseen L []) \<le> length L"
proof -
  have "unseen L [] = set (map fst L)" by (simp add: unseen_def)
  then show ?thesis by (metis card_length length_map)
qed

lemma real_join_terminates:
  "\<exists>comps ok seen. real_join (length L) L path names [] = Some (comps, ok, seen)"
  using real_join_total [OF card_unseen_length] by (metis option.exhaust prod_cases3)

lemma real_join_more_fuel:
  "real_join fuel L path comps seen = Some r \<Longrightarrow> real_join (fuel + k) L path comps seen = Some r"
proof (induction fuel L path comps seen arbitrary: r rule: real_join_induct)
  case (Link f L path name rest seen t)
  obtain q ok s' where q: "real_join f L (if is_abs t then [] else path) (split_on sep t) ((path @ [name], None) # seen) = Some (q, ok, s')"
    using Link.hyps Link.prems by (auto split: option.splits)
  from Link.IH(1) [OF this] Link.IH(2) Link.hyps Link.prems q show ?case
    by (cases ok) (simp_all del: map_of.simps)
qed (auto split: if_splits)


section \<open>What a resolved path looks like\<close>

definition no_seps :: "string list \<Rightarrow> bool" where
  "no_seps comps \<longleftrightarrow> (\<forall>c \<in> set comps. sep \<notin> set c)"

definition plain_name :: "string \<Rightarrow> bool" where
  "plain_name c \<longleftrightarrow> c \<noteq> [] \<and> c \<noteq> ''.'' \<and> c \<noteq> ''..'' \<and> sep \<notin> set c"

text \<open>No location on the way to \<open>comps\<close> is a symbolic link.\<close>

definition link_free :: "links \<Rightarrow> string list \<Rightarrow> bool" where
  "link_free L comps \<longleftrightarrow>
     list_all (\<lambda>n. map_of L (take n comps) = None) [1..<Suc (length comps)]"

definition seen_ok :: "(string list \<Rightarrow> bool) \<Rightarrow> seen \<Rightarrow> bool" where
  "seen_ok Q seen \<longleftrightarrow> (\<forall>k p. map_of seen k = Some (Some p) \<longrightarrow> Q p)"

definition wf_fs :: "host_fs \<Rightarrow> bool" where
  "wf_fs fs \<longleftrightarrow> list_all plain_name (fs_cwd fs) \<and> link_free (fs_links fs) (fs_cwd fs)"

lemma no_seps_simps [simp]:
  "no_seps []" "no_seps (c # cs) \<longleftrightarrow> sep \<notin> set c \<and> no_seps cs"
  "no_seps (as @ bs) \<longleftrightarrow> no_seps as \<and> no_seps bs" "no_seps (split_on sep t)"
  by (auto simp: no_seps_def dest: split_on_no_sep)

lemma no_seps_butlast: "no_seps cs \<Longrightarrow> no_seps (butlast cs)"
  by (auto simp: no_seps_def dest: in_set_butlastD)

lemma plain_no_seps: "list_all plain_name cs \<Longrightarrow> no_seps cs"
  by (auto simp: no_seps_def plain_name_def list_all_iff)

lemma seen_ok_simps [simp]:
  "seen_ok Q []" "seen_ok Q seen \<Longrightarrow> seen_ok Q ((k, None) # seen)"
  "seen_ok Q seen \<Longrightarrow> Q p \<Longrightarrow> seen_ok Q ((k, Some p) # seen)"
  by (auto simp: seen_ok_def)

lemma link_free_iff:
  "link_free L comps \<longleftrightarrow> (\<forall>n. 0 < n \<longrightarrow> n \<le> length comps \<longrightarrow> map_of L (take n comps) = None)"
  unfolding link_free_def list_all_iff set_upt
  by (metis One_nat_def Suc_le_eq atLeastLessThan_iff less_Suc_eq_le)

lemma link_free_Nil [simp]: "link_free L []"
  by (simp add: link_free_def)

lemma link_free_snoc:
  "link_free L path \<Longrightarrow> map_of L (path @ [name]) = None \<Longrightarrow> link_free L (path @ [name])"
  by (auto simp: link_free_iff le_Suc_eq)

lemma link_free_butlast: "link_free L path \<Longrightarrow> link_free L (butlast path)"
  by (auto simp: link_free_iff take_butlast)

text \<open>Names in the result come from names of the input and of link targets.\<close>

lemma real_join_no_seps:
  "real_join fuel L path comps seen = Some (p, ok, seen') \<Longrightarrow>
     no_seps path \<Longrightarrow> no_seps comps \<Longrightarrow> seen_ok no_seps seen \<Longrightarrow> no_seps p \<and> seen_ok no_seps seen'"
proof (induction fuel L path comps seen arbitrary: p ok seen' rule: real_join_induct)
  case (Up fuel L path rest seen)
  then show ?case by (simp add: no_seps_butlast)
next
  case (Cached fuel L path name rest seen t q)
  have "no_seps q" using Cached.prems(4) Cached.hyps(5) by (auto simp: seen_ok_def)
  with Cached show ?case by simp
next
  case (Link f L path name rest seen t)
  let ?np = "path @ [name]"
  obtain q k s' where q: "real_join f L (if is_abs t then [] else path) (split_on sep t)
      ((?np, None) # seen) = Some (q, k, s')"
    using Link by (auto split: option.splits)
  have a: "no_seps q \<and> seen_ok no_seps s'"
    by (rule Link.IH(1) [OF q]) (use Link.prems in auto)
  show ?case
  proof (cases k)
    case True
    with Link q have r: "real_join (Suc f) L q rest ((?np, Some q) # s') = Some (p, ok, seen')"
      by simp
    show ?thesis by (rule Link.IH(2) [OF _ r]) (use a q True Link.prems in auto)
  next
    case False
    with Link q a show ?thesis by (auto simp: join_rest_def)
  qed
qed (auto simp: join_rest_def split: if_splits)

text \<open>A resolution that met no loop has followed every link.\<close>

definition resolved :: "links \<Rightarrow> string list \<Rightarrow> bool" where
  "resolved L comps \<longleftrightarrow> link_free L comps \<and> list_all plain_name comps"

lemma resolved_butlast: "resolved L path \<Longrightarrow> resolved L (butlast path)"
  by (auto simp: resolved_def link_free_butlast list_all_iff dest: in_set_butlastD)

lemma real_join_resolved:
  "real_join fuel L path comps seen = Some (p, True, seen') \<Longrightarrow> resolved L path \<Longrightarrow>
     no_seps comps \<Longrightarrow> seen_ok (resolved L) seen \<Longrightarrow> resolved L p \<and> seen_ok (resolved L) seen'"
proof (induction fuel L path comps seen arbitrary: p seen' rule: real_join_induct)
  case (Up fuel L path rest seen)
  then show ?case by (simp add: resolved_butlast)
next
  case (Plain fuel L path name rest seen)
  then have "resolved L (path @ [name])"
    by (simp add: resolved_def link_free_snoc plain_name_def)
  with Plain show ?case by simp
next
  case (Cached fuel L path name rest seen t q)
  have "resolved L q" using Cached.prems(4) Cached.hyps(5) by (auto simp: seen_ok_def)
  with Cached show ?case by simp
next
  case (Link f L path name rest seen t)
  let ?np = "path @ [name]"
  obtain q s' where q: "real_join f L (if is_abs t then [] else path) (split_on sep t)
      ((?np, None) # seen) = Some (q, True, s')"
    using Link by (auto split: option.splits if_splits)
  have a: "resolved L q \<and> seen_ok (resolved L) s'"
    by (rule Link.IH(1) [OF q]) (use Link.prems in \<open>auto simp: resolved_def\<close>)
  from Link q have r: "real_join (Suc f) L q rest ((?np, Some q) # s') = Some (p, True, seen')"
    by simp
  show ?case by (rule Link.IH(2) [OF q r]) (use a Link.prems in auto)
qed (auto split: if_splits)

text \<open>The component stack of an absolute path keeps plain names only.\<close>

lemma norm_comps_plain:
  "no_seps comps \<Longrightarrow> list_all plain_name acc \<Longrightarrow> list_all plain_name (norm_comps True acc comps)"
proof (induction "True" acc comps rule: norm_comps.induct)
  case (2 acc c comps)
  have "acc \<noteq> [] \<Longrightarrow> hd acc \<noteq> ''..''" using 2(5) by (cases acc) (auto simp: plain_name_def)
  moreover have "list_all plain_name (tl acc)" using 2(5) by (cases acc) auto
  moreover have "c \<noteq> [] \<Longrightarrow> c \<noteq> ''.'' \<Longrightarrow> c \<noteq> ''..'' \<Longrightarrow> plain_name c"
    using 2(4) by (simp add: plain_name_def)
  ultimately show ?case using 2 by auto
qed (auto simp: list_all_iff)

lemma norm_comps_id:
  "list_all plain_name comps \<Longrightarrow> norm_comps init acc comps = rev acc @ comps"
  by (induction comps arbitrary: acc) (auto simp: plain_name_def)

lemma realpath_comps_plain:
  assumes "wf_fs fs"
  shows "list_all plain_name (realpath_comps fs p)"
proof -
  obtain comps ok seen where r: "real_join (length (fs_links fs)) (fs_links fs)
      (if is_abs p then [] else fs_cwd fs) (split_on sep p) [] = Some (comps, ok, seen)"
    using real_join_terminates by blast
  have "no_seps (if is_abs p then [] else fs_cwd fs)"
    using assms by (simp add: wf_fs_def plain_no_seps)
  then have "no_seps comps" using real_join_no_seps [OF r] by simp
  then show ?thesis by (simp add: realpath_comps_def r norm_comps_plain)
qed


section \<open>Confinement\<close>

definition nonempty_parts :: "string \<Rightarrow> string list" where
  "nonempty_parts s = filter (\<lambda>x. x \<noteq> []) (split_on sep s)"

lemma split_to_path: "list_all plain_name cs \<Longrightarrow>
    split_on sep (to_path cs) = [] # (if cs = [] then [[]] else cs)"
  using plain_no_seps [of cs]
  by (cases "cs = []") (auto simp: to_path_def no_seps_def split_join_with)

lemma nonempty_parts_to_path: "list_all plain_name cs \<Longrightarrow> nonempty_parts (to_path cs) = cs"
  by (auto simp: nonempty_parts_def split_to_path list_all_iff plain_name_def filter_id_conv)

lemma common_prefix_append: "common_prefix xs (xs @ ys) = length xs"
  by (induction xs) auto

lemma relpath_below:
  assumes "list_all plain_name (root @ below)"
  shows "relpath (to_path (root @ below)) (to_path root) =
    (if below = [] then ''.'' else join_with sep below)"
  using nonempty_parts_to_path [OF assms] nonempty_parts_to_path [of root] assms
  by (simp add: relpath_def nonempty_parts_def common_prefix_append)

text \<open>A textual prefix test with a trailing slash is a test on components.\<close>

lemma to_path_prefix:
  assumes "list_all plain_name root" "list_all plain_name cs"
    and "starts_with (to_path root @ ''/'') (to_path cs)"
  shows "\<exists>below. cs = root @ below"
proof -
  from assms(3) obtain x where x: "to_path cs = to_path root @ sep # x"
    by (auto simp: starts_with_iff)
  have "nonempty_parts (to_path cs) = nonempty_parts (to_path root) @ nonempty_parts x"
    by (simp add: x nonempty_parts_def split_on_append)
  with assms(1,2) show ?thesis by (simp add: nonempty_parts_to_path)
qed

lemma path_parts_join:
  "cs \<noteq> [] \<Longrightarrow> path_parts (join_with sep cs) = concat (map path_parts cs)"
proof (induction cs rule: induct_list012)
  case (3 c d cs)
  have "path_parts (join_with sep (c # d # cs)) = path_parts c @ path_parts (join_with sep (d # cs))"
    by (simp add: path_parts_def py_replace_def split_on_append)
  with 3 show ?case by simp
qed (auto simp: path_parts_def py_replace_def)

definition public_name :: "string \<Rightarrow> bool" where
  "public_name c \<longleftrightarrow> plain_name c \<and> (\<forall>p \<in> set (path_parts c). \<not> sensitive_component p)"

lemma check_sensitive_ok_parts:
  "check_sensitive_components s = Inr u \<Longrightarrow> \<forall>p \<in> set (path_parts s). \<not> sensitive_component p"
  by (auto simp: check_sensitive_components_def Let_def split: if_splits)

text \<open>
  C1.  A path that \<open>validate_workspace_path\<close> returns lies inside the canonical workspace root,
  and every component below the root is a plain name (no empty, dot, dot-dot or slash) none of
  whose parts is a protected name, whatever symbolic links the request went through.
\<close>

theorem validate_workspace_path_confined:
  assumes "wf_fs fs" and "validate_workspace_path fs ws_root rel_path allow_root = Inr target"
  shows "\<exists>below. target = to_path (realpath_comps fs ws_root @ below) \<and> list_all public_name below"
proof (cases "rel_path = [] \<or> rel_path = ''.''")
  case True
  with assms(2) have "target = to_path (realpath_comps fs ws_root @ [])"
    by (auto simp: validate_workspace_path_def Let_def realpath_def split: if_splits)
  then show ?thesis by (intro exI [of _ "[]"]) simp
next
  case False
  let ?root = "realpath_comps fs ws_root"
  let ?cs = "realpath_comps fs (path_join (to_path ?root) (normpath rel_path))"
  have plain: "list_all plain_name ?root" "list_all plain_name ?cs"
    using realpath_comps_plain [OF assms(1)] by auto
  from assms(2) False have t: "target = to_path ?cs"
    and inside: "to_path ?cs = to_path ?root \<or> starts_with (to_path ?root @ ''/'') (to_path ?cs)"
    and clean: "check_sensitive_components (relpath (to_path ?cs) (to_path ?root)) = Inr ()"
    by (auto simp: validate_workspace_path_def Let_def realpath_def split: if_splits)
  obtain below where b: "?cs = ?root @ below"
  proof (cases "to_path ?cs = to_path ?root")
    case True
    then have "?cs = ?root" using nonempty_parts_to_path plain by metis
    then show ?thesis using that [of "[]"] by simp
  next
    case False
    with inside to_path_prefix [OF plain] that show ?thesis by blast
  qed
  have pb: "list_all plain_name below" using plain(2) b by simp
  have "\<forall>c \<in> set below. \<forall>p \<in> set (path_parts c). \<not> sensitive_component p"
  proof (cases "below = []")
    case False
    then have "check_sensitive_components (join_with sep below) = Inr ()"
      using clean relpath_below [of ?root below] plain(2) b by simp
    from check_sensitive_ok_parts [OF this] False show ?thesis by (simp add: path_parts_join)
  qed simp
  with pb have "list_all public_name below" by (simp add: public_name_def list_all_iff)
  with t b show ?thesis by auto
qed

definition demo_fs :: host_fs where
  "demo_fs = \<lparr>fs_links = [([''srv'', ''w'', ''ln''], ''src/lib''), ([''srv'', ''w'', ''up''], ''/etc'')],
     fs_cwd = [''srv'']\<rparr>"

lemma wf_demo_fs: "wf_fs demo_fs"
  by code_simp

theorem validate_workspace_path_confined_witness:
  "validate_workspace_path demo_fs ''/srv/w'' ''ln/b/../a.py'' False = Inr ''/srv/w/src/lib/a.py''
   \<and> (\<exists>below. ''/srv/w/src/lib/a.py'' = to_path (realpath_comps demo_fs ''/srv/w'' @ below)
       \<and> list_all public_name below)"
proof -
  have v: "validate_workspace_path demo_fs ''/srv/w'' ''ln/b/../a.py'' False = Inr ''/srv/w/src/lib/a.py''"
    by code_simp
  from validate_workspace_path_confined [OF wf_demo_fs v] v show ?thesis by blast
qed

lemma realpath_link_free:
  assumes "wf_fs fs"
  shows "\<exists>comps ok seen. real_join (length (fs_links fs)) (fs_links fs)
      (if is_abs p then [] else fs_cwd fs) (split_on sep p) [] = Some (comps, ok, seen)
    \<and> (\<not> ok \<or> (link_free (fs_links fs) comps \<and> realpath fs p = to_path comps))"
proof -
  obtain comps ok seen where r: "real_join (length (fs_links fs)) (fs_links fs)
      (if is_abs p then [] else fs_cwd fs) (split_on sep p) [] = Some (comps, ok, seen)"
    using real_join_terminates by blast
  have start: "resolved (fs_links fs) (if is_abs p then [] else fs_cwd fs)"
    using assms by (simp add: wf_fs_def resolved_def)
  have "link_free (fs_links fs) comps \<and> realpath fs p = to_path comps" if ok
  proof -
    have "resolved (fs_links fs) comps"
      using real_join_resolved [OF _ start] r that by fastforce
    with r show ?thesis by (simp add: resolved_def realpath_def realpath_comps_def norm_comps_id)
  qed
  with r show ?thesis by blast
qed

text \<open>The path whose resolution \<open>validate_workspace_path\<close> returns.\<close>

definition validated_request :: "host_fs \<Rightarrow> string \<Rightarrow> string \<Rightarrow> string" where
  "validated_request fs ws_root rel_path = (if rel_path = [] \<or> rel_path = ''.'' then ws_root
     else path_join (realpath fs ws_root) (normpath rel_path))"

lemma validate_workspace_path_realpath:
  "validate_workspace_path fs ws_root rel_path allow_root = Inr target \<Longrightarrow>
     target = realpath fs (validated_request fs ws_root rel_path)"
  by (auto simp: validate_workspace_path_def validated_request_def Let_def split: if_splits)

text \<open>
  A path the check returns without having met a cycle is canonical: the text of a location with no symbolic link on the way.
\<close>

lemma validate_workspace_path_link_free:
  assumes "wf_fs fs" and "validate_workspace_path fs ws_root rel_path allow_root = Inr target"
  shows "\<exists>comps ok seen. real_join (length (fs_links fs)) (fs_links fs)
      (if is_abs (validated_request fs ws_root rel_path) then [] else fs_cwd fs)
      (split_on sep (validated_request fs ws_root rel_path)) [] = Some (comps, ok, seen)
    \<and> (\<not> ok \<or> (link_free (fs_links fs) comps \<and> target = to_path comps))"
  using realpath_link_free [OF assms(1)] validate_workspace_path_realpath [OF assms(2)] by simp

text \<open>
  The path check over resolutions that may run out of fuel: \<open>None\<close> when one of the resolutions the request reaches does.
\<close>

definition resolve_fuel :: "nat \<Rightarrow> host_fs \<Rightarrow> string \<Rightarrow> string option" where
  "resolve_fuel n fs p =
     (case real_join n (fs_links fs) (if is_abs p then [] else fs_cwd fs) (split_on sep p) [] of
        None \<Rightarrow> None
      | Some (comps, ok, seen) \<Rightarrow> Some (to_path (norm_comps True [] comps)))"

definition validate_fuel :: "nat \<Rightarrow> host_fs \<Rightarrow> string \<Rightarrow> string \<Rightarrow> bool \<Rightarrow> string result option" where
  "validate_fuel n fs ws_root rel_path allow_root =
     (case resolve_fuel n fs ws_root of
        None \<Rightarrow> None
      | Some real_root \<Rightarrow>
          if rel_path = [] \<or> rel_path = ''.'' then Some (if allow_root then Inr real_root else Inl ValueError)
          else if is_abs rel_path then Some (Inl ValueError)
          else
           (let clean_rel = normpath rel_path in
            if starts_with ''..'' clean_rel then Some (Inl ValueError)
            else (case check_sensitive_components clean_rel of
                Inl e \<Rightarrow> Some (Inl e)
              | Inr _ \<Rightarrow> (case resolve_fuel n fs (path_join real_root clean_rel) of
                  None \<Rightarrow> None
                | Some target \<Rightarrow>
                    if target \<noteq> real_root \<and> \<not> starts_with (real_root @ ''/'') target then Some (Inl ValueError)
                    else (case check_sensitive_components (relpath target real_root) of
                        Inl e \<Rightarrow> Some (Inl e) | Inr _ \<Rightarrow> Some (Inr target))))))"

lemma resolve_fuel_enough: "resolve_fuel (length (fs_links fs) + k) fs p = Some (realpath fs p)"
proof -
  obtain comps ok seen where r: "real_join (length (fs_links fs)) (fs_links fs)
      (if is_abs p then [] else fs_cwd fs) (split_on sep p) [] = Some (comps, ok, seen)"
    using real_join_terminates by blast
  from real_join_more_fuel [OF this, of k] r show ?thesis
    by (simp add: resolve_fuel_def realpath_def realpath_comps_def)
qed

text \<open>
  C2.  The path check returns for every request, accepted or refused, and every file system, cycles of links included:
  run with an explicit bound on the depth of nested link resolutions, it ends within the number of links, more does not
  change it, and what it returns is the result of \<open>validate_workspace_path\<close>.
\<close>

theorem validate_workspace_path_terminates:
  "validate_fuel (length (fs_links fs) + k) fs ws_root rel_path allow_root
     = Some (validate_workspace_path fs ws_root rel_path allow_root)"
  by (auto simp: validate_fuel_def validate_workspace_path_def Let_def resolve_fuel_enough is_abs_def starts_with_iff split: sum.splits)

text \<open>Two links that point at each other: one unit is not enough, two are.\<close>

definition loop_fs :: host_fs where
  "loop_fs = \<lparr>fs_links = [([''w'', ''a''], ''b''), ([''w'', ''b''], ''a'')], fs_cwd = []\<rparr>"

lemma fuel_of_a_cycle: "validate_fuel 1 loop_fs ''/w'' ''a/f'' False = None \<and> validate_fuel 2 loop_fs ''/w'' ''a/f'' False = Some (Inr ''/w/a/f'')"
  by code_simp
text \<open>
  The root guard is textual: a request spelled \<open>./\<close> is normalised to the workspace root after
  the guard, so the root directory is returned although the caller did not allow it.
\<close>

theorem root_guard_is_textual:
  "validate_workspace_path demo_fs ''/srv/w'' ''.'' False = Inl ValueError
   \<and> validate_workspace_path demo_fs ''/srv/w'' ''./'' False = Inr ''/srv/w''"
  by code_simp

end
