(* ===== verification/Action_Policy.thy ===== *)
theory Action_Policy
  imports Roster Paths
begin

unbundle bit_operations_syntax

text \<open>
  \<open>action_policy.py\<close>: the owner's action modes.  The operator document is validated once, pinned
  by the identity of its directory and file, and consulted for every action; a permissive
  document never lifts a technical lock.  The parsed YAML text (a third-party parser) and the
  SHA-256 digest of its bytes are inputs of the model.
\<close>

section \<open>Modes and actions\<close>

datatype mode = ALLOW | SCOPE | APPROVAL | LOCKED

definition mode_of_text :: "string \<Rightarrow> mode option" where
  "mode_of_text s = map_of [(''ALLOW'', ALLOW), (''SCOPE'', SCOPE), (''APPROVAL'', APPROVAL),
     (''LOCKED'', LOCKED)] s"

fun mode_rank :: "mode \<Rightarrow> nat" where
  "mode_rank ALLOW = 0"
| "mode_rank SCOPE = 1"
| "mode_rank APPROVAL = 2"
| "mode_rank LOCKED = 3"

text \<open>Modes are ordered by restriction, so the library's \<open>Max\<close> and \<open>sorted\<close> apply.\<close>

instantiation mode :: linorder
begin

definition less_eq_mode :: "mode \<Rightarrow> mode \<Rightarrow> bool" where
  "less_eq_mode a b \<longleftrightarrow> mode_rank a \<le> mode_rank b"

definition less_mode :: "mode \<Rightarrow> mode \<Rightarrow> bool" where
  "less_mode a b \<longleftrightarrow> mode_rank a < mode_rank b"

instance
proof
  fix a b :: mode
  show "a \<le> b \<Longrightarrow> b \<le> a \<Longrightarrow> a = b"
    by (cases a; cases b) (auto simp: less_eq_mode_def)
qed (auto simp: less_eq_mode_def less_mode_def)

end

definition ALLOW_ACTIONS :: "string list" where
  "ALLOW_ACTIONS =
    [''get_capabilities'', ''server_deploy_info'', ''list_workspaces'', ''workspace_info'',
     ''list_agents'', ''list_files'', ''search_text'', ''read_file'', ''list_artifacts'',
     ''read_artifact'', ''git_status'', ''git_diff'', ''git_log'', ''git_show'', ''git_branch'',
     ''job_status'', ''job_output'', ''job_result'']"

definition SCOPE_ACTIONS :: "string list" where
  "SCOPE_ACTIONS =
    [''write_file'', ''apply_patch'', ''mkdir'', ''move_path'', ''trash_path'', ''exec_run'',
     ''exec_start'', ''https_download'', ''job_cancel'', ''git_commit'', ''git_add'',
     ''git_checkout'', ''git_fetch'', ''git_pull'', ''dispatch_agent'']"

definition APPROVAL_ACTIONS :: "string list" where
  "APPROVAL_ACTIONS = [''local_http_request'']"

definition LOCKED_ACTIONS :: "string list" where
  "LOCKED_ACTIONS = [''git_push'']"

text \<open>\<open>DEFAULT_ACTION_MODES\<close>: a later group overrides an earlier one, as in the dictionary display.\<close>

definition DEFAULT_ACTION_MODES :: "(string \<times> mode) list" where
  "DEFAULT_ACTION_MODES =
     map (\<lambda>n. (n, LOCKED)) LOCKED_ACTIONS @ map (\<lambda>n. (n, APPROVAL)) APPROVAL_ACTIONS
     @ map (\<lambda>n. (n, SCOPE)) SCOPE_ACTIONS @ map (\<lambda>n. (n, ALLOW)) ALLOW_ACTIONS"

definition baseline_of :: "string \<Rightarrow> mode option" where
  "baseline_of = map_of DEFAULT_ACTION_MODES"

section \<open>The operator document\<close>

text \<open>\<open>_unique_mapping\<close>: YAML mappings with non-string or repeated keys are refused.\<close>

fun unique_mapping :: "(string \<times> pyval) list \<Rightarrow> (pyval \<times> pyval) list \<Rightarrow> pydict result" where
  "unique_mapping res [] = Inr res"
| "unique_mapping res ((k, v) # nodes) =
     (case k of
        PStr key \<Rightarrow> if key \<in> field_names res then Inl ValueError else unique_mapping (res @ [(key, v)]) nodes
      | _ \<Rightarrow> Inl ValueError)"

lemma unique_mapping_distinct:
  "unique_mapping res nodes = Inr d \<Longrightarrow> distinct (map fst res) \<Longrightarrow> distinct (map fst d)"
  by (induction res nodes rule: unique_mapping.induct)
     (auto simp: field_names_def split: pyval.splits if_splits)

record scoped_row =
  sr_action :: string
  sr_mode :: mode
  sr_workspace :: "string option"
  sr_agent :: "string option"

text \<open>\<open>len(row)\<close>: action, mode and the selectors given.\<close>

definition row_len :: "scoped_row \<Rightarrow> nat" where
  "row_len r = 2 + (if sr_workspace r = None then 0 else 1) + (if sr_agent r = None then 0 else 1)"

definition workspace_selector :: "string \<Rightarrow> bool" where
  "workspace_selector s \<longleftrightarrow> s \<noteq> [] \<and> is_alnum (hd s)
     \<and> class_match (\<lambda>c. is_alnum c \<or> c \<in> set ''_.-'') 0 127 (tl s)"

definition validate_selectors :: "pyval \<Rightarrow> pyval \<Rightarrow> unit result" where
  "validate_selectors workspace_id agent =
     rbind (require (case workspace_id of PNone \<Rightarrow> True | PStr s \<Rightarrow> workspace_selector s | _ \<Rightarrow> False) ValueError)
       (\<lambda>_. require (case agent of PNone \<Rightarrow> True | PStr a \<Rightarrow> a \<in> set PUBLIC_AGENT_IDS | _ \<Rightarrow> False) ValueError)"

definition opt_text :: "pydict \<Rightarrow> string \<Rightarrow> string option" where
  "opt_text d k = (case map_of d k of Some (PStr s) \<Rightarrow> Some s | _ \<Rightarrow> None)"

definition parse_mode :: "pyval \<Rightarrow> mode option" where
  "parse_mode v = (case v of PStr s \<Rightarrow> mode_of_text s | _ \<Rightarrow> None)"

definition parse_action_modes :: "pydict \<Rightarrow> (string \<times> mode) list result" where
  "parse_action_modes modes = rmap_list (\<lambda>(action, v).
     if baseline_of action = None then Inl ValueError
     else (case parse_mode v of None \<Rightarrow> Inl ValueError | Some m \<Rightarrow> Inr (action, m))) modes"

definition parse_scoped_row :: "pyval \<Rightarrow> scoped_row result" where
  "parse_scoped_row v = (case v of
     PDict row \<Rightarrow>
       if \<not> ({''action'', ''mode''} \<subseteq> field_names row)
          \<or> \<not> (field_names row \<subseteq> {''action'', ''mode'', ''workspace_id'', ''agent''})
          \<or> ({''workspace_id'', ''agent''} \<inter> field_names row = {}) then Inl ValueError
       else (case (dict_get row ''action'', parse_mode (dict_get row ''mode'')) of
           (PStr action, Some m) \<Rightarrow>
             if baseline_of action = None then Inl ValueError
             else rbind (validate_selectors (dict_get row ''workspace_id'') (dict_get row ''agent'')) (\<lambda>_.
               if list_ex (\<lambda>key. map_of row key = Some PNone) [''workspace_id'', ''agent''] then Inl ValueError
               else Inr \<lparr>sr_action = action, sr_mode = m, sr_workspace = opt_text row ''workspace_id'',
                         sr_agent = opt_text row ''agent''\<rparr>)
         | _ \<Rightarrow> Inl ValueError)
   | _ \<Rightarrow> Inl ValueError)"

definition validate_document :: "pyval \<Rightarrow> ((string \<times> mode) list \<times> scoped_row list) result" where
  "validate_document document = (case document of
     PDict d \<Rightarrow>
       if \<not> ({''version'', ''action_modes''} \<subseteq> field_names d)
          \<or> \<not> (field_names d \<subseteq> {''version'', ''action_modes'', ''scoped_modes''}) then Inl ValueError
       else if dict_get d ''version'' \<noteq> PInt 1 then Inl ValueError
       else (case dict_get d ''action_modes'' of
           PDict modes \<Rightarrow> rbind (parse_action_modes modes) (\<lambda>overrides.
             (case (case map_of d ''scoped_modes'' of None \<Rightarrow> PList [] | Some v \<Rightarrow> v) of
                PList scoped \<Rightarrow> rbind (rmap_list parse_scoped_row scoped) (\<lambda>rows. Inr (overrides, rows))
              | _ \<Rightarrow> Inl ValueError))
         | _ \<Rightarrow> Inl ValueError)
   | _ \<Rightarrow> Inl ValueError)"

section \<open>Control files\<close>

text \<open>\<open>os.stat\<close> results; \<open>st_mode\<close> permission bits as a number, the file type separately.\<close>

datatype file_type = Regular | Directory | Symlink | CharDevice | Special

record stat =
  st_type :: file_type
  st_mode :: int
  st_uid :: int
  st_gid :: int
  st_dev :: int
  st_ino :: int
  st_nlink :: int
  st_size :: int
  st_mtime_ns :: int
  st_ctime_ns :: int

text \<open>What a no-follow open of a control file finds.\<close>

datatype 'a lookup = Missing | IsLink | Found stat 'a

record control_files =
  dir_stat :: stat
  policy_file :: "(string \<times> pyval) lookup"   \<comment> \<open>raw bytes and the parsed document\<close>

type_synonym control_identity =
  "(int \<times> int \<times> int \<times> int \<times> int) \<times> (int \<times> int \<times> int \<times> int \<times> int \<times> int \<times> int \<times> string) option"

definition owner_or_root :: "int \<Rightarrow> stat \<Rightarrow> bool" where
  "owner_or_root me s \<longleftrightarrow> st_uid s = 0 \<or> st_uid s = me"

definition control_identity :: "(string \<Rightarrow> string) \<Rightarrow> int \<Rightarrow> control_files \<Rightarrow> control_identity result" where
  "control_identity sha me env =
     (let d = dir_stat env in
      if \<not> owner_or_root me d \<or> st_mode d AND 18 \<noteq> 0 then Inl PermissionError
      else (let parent = (st_dev d, st_ino d, st_uid d, st_gid d, st_mode d) in
        case policy_file env of
          Missing \<Rightarrow> Inr (parent, None)
        | IsLink \<Rightarrow> Inl OSError
        | Found s (raw, doc) \<Rightarrow>
            if st_type s \<noteq> Regular \<or> \<not> owner_or_root me s \<or> st_mode s AND 63 \<noteq> 0
               \<or> st_nlink s \<noteq> 1 \<or> st_size s > 65536 then Inl PermissionError
            else Inr (parent, Some (st_dev s, st_ino s, st_uid s, st_gid s, st_mode s,
                   st_mtime_ns s, st_ctime_ns s, sha raw))))"

definition load_overrides :: "int \<Rightarrow> control_files \<Rightarrow> ((string \<times> mode) list \<times> scoped_row list) result" where
  "load_overrides me env = (case policy_file env of
     Missing \<Rightarrow> Inr ([], [])
   | IsLink \<Rightarrow> Inl OSError
   | Found s (raw, doc) \<Rightarrow>
       if st_type s \<noteq> Regular then Inl PermissionError
       else if \<not> owner_or_root me s \<or> st_mode s AND 63 \<noteq> 0 then Inl PermissionError
       else if st_size s > 65536 then Inl ValueError
       else validate_document doc)"

record operator_policy =
  op_overrides :: "(string \<times> mode) list"
  op_scoped :: "scoped_row list"
  op_signature :: control_identity

definition within :: "string list \<Rightarrow> string list \<Rightarrow> bool" where
  "within root p \<longleftrightarrow> starts_with root p"

text \<open>
  The constructor reads the control files three times (identity, content, identity); the three
  snapshots may differ, which the final comparison refuses.
\<close>

definition new_operator_policy ::
  "(string \<Rightarrow> string) \<Rightarrow> int \<Rightarrow> host_fs \<Rightarrow> string \<Rightarrow> string list
    \<Rightarrow> control_files \<Rightarrow> control_files \<Rightarrow> control_files \<Rightarrow> operator_policy result" where
  "new_operator_policy sha me fs config_dir workspace_roots env1 env2 env3 =
     (let cfg = realpath_comps fs config_dir in
      if list_ex (\<lambda>root. within (realpath_comps fs root) cfg) workspace_roots then Inl PermissionError
      else rbind (control_identity sha me env1) (\<lambda>initial_identity.
           rbind (load_overrides me env2) (\<lambda>(overrides, rows).
           rbind (control_identity sha me env3) (\<lambda>signature.
             if signature \<noteq> initial_identity then Inl PermissionError
             else Inr \<lparr>op_overrides = overrides, op_scoped = rows, op_signature = signature\<rparr>))))"

definition assert_control :: "(string \<Rightarrow> string) \<Rightarrow> int \<Rightarrow> operator_policy \<Rightarrow> control_files \<Rightarrow> unit result" where
  "assert_control sha me p env = rbind (control_identity sha me env) (\<lambda>now.
     require (now = op_signature p) PermissionError)"


section \<open>Effective modes\<close>

definition selector_matches :: "string option \<Rightarrow> pyval \<Rightarrow> bool" where
  "selector_matches sel v = (case sel of None \<Rightarrow> True | Some s \<Rightarrow> v = PStr s)"

definition matching_rows :: "operator_policy \<Rightarrow> string \<Rightarrow> pyval \<Rightarrow> pyval \<Rightarrow> scoped_row list" where
  "matching_rows p action workspace_id agent =
     filter (\<lambda>r. sr_action r = action \<and> selector_matches (sr_workspace r) workspace_id
               \<and> selector_matches (sr_agent r) agent) (op_scoped p)"

definition global_mode :: "operator_policy \<Rightarrow> string \<Rightarrow> mode \<Rightarrow> mode" where
  "global_mode p action baseline = (case map_of (op_overrides p) action of None \<Rightarrow> baseline | Some m \<Rightarrow> m)"

definition resolve_mode :: "mode \<Rightarrow> mode \<Rightarrow> scoped_row list \<Rightarrow> mode" where
  "resolve_mode baseline glob matching =
     (if baseline = LOCKED \<or> glob = LOCKED \<or> list_ex (\<lambda>r. sr_mode r = LOCKED) matching then LOCKED
      else if matching = [] then glob
      else (let specificity = Max (set (map row_len matching))
            in Max (set (map sr_mode (filter (\<lambda>r. row_len r = specificity) matching)))))"

definition effective_mode :: "(string \<Rightarrow> string) \<Rightarrow> int \<Rightarrow> operator_policy \<Rightarrow> control_files
    \<Rightarrow> string \<Rightarrow> pyval \<Rightarrow> pyval \<Rightarrow> mode result" where
  "effective_mode sha me p env action workspace_id agent =
     (case baseline_of action of
        None \<Rightarrow> Inl PermissionError
      | Some baseline \<Rightarrow>
          rbind (assert_control sha me p env) (\<lambda>_.
          rbind (validate_selectors workspace_id agent) (\<lambda>_.
            Inr (resolve_mode baseline (global_mode p action baseline)
                   (matching_rows p action workspace_id agent)))))"

record snapshot_row =
  sn_action :: string
  sn_mode :: mode
  sn_scope_condition :: bool

definition sorted_actions :: "string list" where
  "sorted_actions =
    [''apply_patch'', ''dispatch_agent'', ''exec_run'', ''exec_start'', ''get_capabilities'',
     ''git_add'', ''git_branch'', ''git_checkout'', ''git_commit'', ''git_diff'', ''git_fetch'',
     ''git_log'', ''git_pull'', ''git_push'', ''git_show'', ''git_status'', ''https_download'',
     ''job_cancel'', ''job_output'', ''job_result'', ''job_status'', ''list_agents'',
     ''list_artifacts'', ''list_files'', ''list_workspaces'', ''local_http_request'', ''mkdir'',
     ''move_path'', ''read_artifact'', ''read_file'', ''search_text'', ''server_deploy_info'',
     ''trash_path'', ''workspace_info'', ''write_file'']"

definition policy_snapshot :: "(string \<Rightarrow> string) \<Rightarrow> int \<Rightarrow> operator_policy \<Rightarrow> control_files
    \<Rightarrow> pyval \<Rightarrow> pyval \<Rightarrow> snapshot_row list result" where
  "policy_snapshot sha me p env workspace_id agent =
     rmap_list (\<lambda>action.
       rbind (effective_mode sha me p env action workspace_id agent) (\<lambda>m.
         Inr \<lparr>sn_action = action, sn_mode = m,
              sn_scope_condition = (m = SCOPE \<or> list_ex (\<lambda>r. sr_action r = action) (op_scoped p))\<rparr>))
       sorted_actions"

definition check_dispatch :: "(string \<Rightarrow> string) \<Rightarrow> int \<Rightarrow> operator_policy \<Rightarrow> control_files
    \<Rightarrow> pydict \<Rightarrow> unit result" where
  "check_dispatch sha me p env arguments =
     (case (case map_of arguments ''read_only'' of None \<Rightarrow> PBool True | Some v \<Rightarrow> v) of
        PBool read_only \<Rightarrow>
          if read_only then Inr ()
          else rbind (effective_mode sha me p env ''git_commit''
                 (dict_get arguments ''workspace_id'') (dict_get arguments ''agent''))
               (\<lambda>m. require (m \<noteq> LOCKED \<and> m \<noteq> APPROVAL) PermissionError)
      | _ \<Rightarrow> Inl PermissionError)"

definition check :: "(string \<Rightarrow> string) \<Rightarrow> int \<Rightarrow> operator_policy \<Rightarrow> control_files
    \<Rightarrow> string \<Rightarrow> pydict \<Rightarrow> mode result" where
  "check sha me p env action arguments =
     (case effective_mode sha me p env action (dict_get arguments ''workspace_id'') (dict_get arguments ''agent'') of
        Inl ValueError \<Rightarrow> Inl PermissionError
      | Inl e \<Rightarrow> Inl e
      | Inr mode \<Rightarrow>
         (case baseline_of action of None \<Rightarrow> Inl KeyError
          | Some baseline \<Rightarrow>
             rbind (if action = ''dispatch_agent'' then check_dispatch sha me p env arguments else Inr ()) (\<lambda>_.
               if mode = LOCKED \<or> baseline = LOCKED then Inl PermissionError
               else if mode = APPROVAL \<and> baseline \<in> {ALLOW, SCOPE} then Inl PermissionError
               else if mode = SCOPE \<and> baseline = ALLOW \<and> \<not> truthy (dict_get arguments ''workspace_id'')
               then Inl PermissionError
               else Inr mode)))"


section \<open>Properties\<close>

lemma mode_le_LOCKED [simp]: "m \<le> LOCKED"
  by (cases m) (auto simp: less_eq_mode_def)

lemma sorted_actions_complete: "sorted_actions = remdups sorted_actions
    \<and> set sorted_actions = set (map fst DEFAULT_ACTION_MODES)"
  by code_simp

lemma effective_mode_Inr:
  "effective_mode sha me p env action w a = Inr m \<Longrightarrow>
   \<exists>b. baseline_of action = Some b \<and> m = resolve_mode b (global_mode p action b) (matching_rows p action w a)
     \<and> assert_control sha me p env = Inr ()"
  by (auto simp: effective_mode_def split: option.splits)

text \<open>
  C7.  A lock is absolute: if the built-in baseline, the operator's override or any matching scoped
  row locks an action, no document, selector or argument makes the gateway accept it.
\<close>

theorem locked_actions_stay_locked:
  assumes "baseline_of action = Some LOCKED \<or> map_of (op_overrides p) action = Some LOCKED
    \<or> (\<exists>r \<in> set (matching_rows p action (dict_get arguments ''workspace_id'') (dict_get arguments ''agent'')).
          sr_mode r = LOCKED)"
  shows "\<exists>e. check sha me p env action arguments = Inl e"
proof (cases "check sha me p env action arguments")
  case (Inr m)
  then obtain m' b where e: "effective_mode sha me p env action
      (dict_get arguments ''workspace_id'') (dict_get arguments ''agent'') = Inr m'"
    and b: "baseline_of action = Some b" and m': "m' \<noteq> LOCKED" "b \<noteq> LOCKED"
    by (auto simp: check_def split: sum.splits option.splits if_splits py_error.splits)
  from effective_mode_Inr [OF e] b
  have "m' = resolve_mode b (global_mode p action b)
      (matching_rows p action (dict_get arguments ''workspace_id'') (dict_get arguments ''agent''))" by auto
  with assms b have "m' = LOCKED"
    by (auto simp: resolve_mode_def global_mode_def list_ex_iff)
  with m' show ?thesis by simp
qed auto

lemma check_Inr:
  assumes "check sha me p env action arguments = Inr m"
  shows "\<exists>baseline. baseline_of action = Some baseline \<and> baseline \<noteq> LOCKED \<and> m \<noteq> LOCKED
    \<and> (m = APPROVAL \<longrightarrow> baseline = APPROVAL)
    \<and> (m = SCOPE \<and> baseline = ALLOW \<longrightarrow> truthy (dict_get arguments ''workspace_id''))
    \<and> assert_control sha me p env = Inr ()"
proof -
  from assms obtain b where b: "baseline_of action = Some b"
    and e: "effective_mode sha me p env action
      (dict_get arguments ''workspace_id'') (dict_get arguments ''agent'') = Inr m"
    and "b \<noteq> LOCKED" "m \<noteq> LOCKED" "\<not> (m = APPROVAL \<and> b \<in> {ALLOW, SCOPE})"
    "\<not> (m = SCOPE \<and> b = ALLOW \<and> \<not> truthy (dict_get arguments ''workspace_id''))"
    by (auto simp: check_def split: sum.splits option.splits if_splits py_error.splits)
  with effective_mode_Inr [OF e] show ?thesis by (cases b) auto
qed

text \<open>
  C8.  What \<open>check\<close> lets through is never weaker than the built-in table allows: an accepted action
  is known, unlocked on both levels, an approval mode appears only where approval is built in, and
  an action narrowed from ALLOW to SCOPE names its workspace.
\<close>

theorem check_accepts_only_permitted:
  assumes "check sha me p env action arguments = Inr m"
  shows "\<exists>baseline. baseline_of action = Some baseline \<and> baseline \<noteq> LOCKED \<and> m \<noteq> LOCKED
    \<and> (m = APPROVAL \<longrightarrow> baseline = APPROVAL)
    \<and> (m = SCOPE \<and> baseline = ALLOW \<longrightarrow> truthy (dict_get arguments ''workspace_id''))
    \<and> assert_control sha me p env = Inr ()"
  using assms by (rule check_Inr)

lemma most_specific_row:
  assumes "rows \<noteq> []" and "m = resolve_mode b glob rows" and "m \<noteq> LOCKED"
  shows "\<exists>r \<in> set rows. sr_mode r = m
    \<and> (\<forall>r' \<in> set rows. row_len r' \<le> row_len r \<and> (row_len r' = row_len r \<longrightarrow> sr_mode r' \<le> m))"
proof -
  define best where "best = Max (set (map row_len rows))"
  define top where "top = filter (\<lambda>r. row_len r = best) rows"
  from assms have m: "m = Max (set (map sr_mode top))"
    by (auto simp: resolve_mode_def Let_def best_def top_def split: if_splits)
  have "best \<in> set (map row_len rows)"
    unfolding best_def using assms(1) by (intro Max_in) auto
  then have "top \<noteq> []" by (auto simp: top_def filter_empty_conv)
  then have "m \<in> set (map sr_mode top)" unfolding m by (intro Max_in) auto
  then obtain r where r: "r \<in> set top" "sr_mode r = m" by auto
  have "row_len r' \<le> best" if "r' \<in> set rows" for r'
    unfolding best_def using that by (intro Max_ge) auto
  moreover have "sr_mode r' \<le> m" if "r' \<in> set rows" "row_len r' = best" for r'
    unfolding m using that by (intro Max_ge) (auto simp: top_def)
  ultimately show ?thesis using r by (auto simp: top_def)
qed

lemma resolve_mode_LOCKED:
  "resolve_mode b glob rows = LOCKED \<longleftrightarrow> b = LOCKED \<or> glob = LOCKED \<or> (\<exists>r \<in> set rows. sr_mode r = LOCKED)"
proof (cases "rows = []")
  case False
  let ?top = "filter (\<lambda>r. row_len r = Max (set (map row_len rows))) rows"
  have "Max (set (map row_len rows)) \<in> set (map row_len rows)" using False by (intro Max_in) auto
  then have "set (map sr_mode ?top) \<noteq> {}" by (auto simp: filter_empty_conv)
  then have "Max (set (map sr_mode ?top)) \<in> set (map sr_mode ?top)" by (rule Max_in [OF finite_set])
  then show ?thesis by (auto simp: resolve_mode_def Let_def list_ex_iff)
qed (simp add: resolve_mode_def)

text \<open>
  C9.  How a mode is decided, for every action, workspace and agent.  It is LOCKED exactly when the built-in mode, the
  override or any matching row, however unspecific, is LOCKED.  Otherwise, with no matching row, it is the override or
  else the built-in mode; with matching rows it is the mode of one of greatest specificity, and at least as restrictive as
  every other row of that specificity.
\<close>

theorem effective_mode_decided:
  assumes "effective_mode sha me p env action w a = Inr m"
  shows "\<exists>b. baseline_of action = Some b
    \<and> (m = LOCKED \<longleftrightarrow> b = LOCKED \<or> map_of (op_overrides p) action = Some LOCKED
         \<or> (\<exists>r \<in> set (matching_rows p action w a). sr_mode r = LOCKED))
    \<and> (m = LOCKED \<or> matching_rows p action w a \<noteq> []
         \<or> m = (case map_of (op_overrides p) action of None \<Rightarrow> b | Some glob \<Rightarrow> glob))
    \<and> (m = LOCKED \<or> matching_rows p action w a = []
         \<or> (\<exists>r \<in> set (matching_rows p action w a). sr_mode r = m
              \<and> (\<forall>r' \<in> set (matching_rows p action w a). row_len r' \<le> row_len r
                    \<and> (row_len r' = row_len r \<longrightarrow> sr_mode r' \<le> m))))"
proof -
  from effective_mode_Inr [OF assms] obtain b where b: "baseline_of action = Some b"
    and m: "m = resolve_mode b (global_mode p action b) (matching_rows p action w a)" by blast
  have "m = LOCKED \<longleftrightarrow> b = LOCKED \<or> map_of (op_overrides p) action = Some LOCKED
      \<or> (\<exists>r \<in> set (matching_rows p action w a). sr_mode r = LOCKED)"
    unfolding m resolve_mode_LOCKED by (auto simp: global_mode_def split: option.splits)
  moreover have "m = LOCKED \<or> m = (case map_of (op_overrides p) action of None \<Rightarrow> b | Some glob \<Rightarrow> glob)"
    if "matching_rows p action w a = []"
    using that by (auto simp: m resolve_mode_def global_mode_def)
  ultimately show ?thesis using b most_specific_row [OF _ m] by blast
qed

text \<open>
  The policy is pinned: once loaded, an accepted action implies that the control directory and
  file have the identity, permissions, times and digest they had before the document was read; any
  other state of the control files is refused, whatever the action.
\<close>

theorem changed_control_files_refused:
  assumes "new_operator_policy sha me fs cfg roots env1 env2 env3 = Inr p"
    and "control_identity sha me env \<noteq> control_identity sha me env1"
  shows "\<exists>e. check sha me p env action arguments = Inl e"
proof (cases "check sha me p env action arguments")
  case (Inr m)
  then have "assert_control sha me p env = Inr ()" using check_Inr by blast
  with assms show ?thesis
    by (auto simp: new_operator_policy_def assert_control_def Let_def split: if_splits)
qed auto

section \<open>A concrete operator policy\<close>

definition demo_dir :: stat where
  "demo_dir = \<lparr>st_type = Directory, st_mode = 448, st_uid = 1000, st_gid = 1000, st_dev = 1, st_ino = 7,
     st_nlink = 2, st_size = 4096, st_mtime_ns = 0, st_ctime_ns = 0\<rparr>"

definition demo_file :: stat where
  "demo_file = demo_dir\<lparr>st_type := Regular, st_mode := 384, st_ino := 8, st_nlink := 1, st_size := 100\<rparr>"

definition demo_document :: pyval where
  "demo_document = PDict [(''version'', PInt 1),
     (''action_modes'', PDict [(''read_file'', PStr ''SCOPE''), (''exec_run'', PStr ''LOCKED'')]),
     (''scoped_modes'', PList
        [PDict [(''action'', PStr ''write_file''), (''mode'', PStr ''ALLOW''), (''workspace_id'', PStr ''w1'')],
         PDict [(''action'', PStr ''write_file''), (''mode'', PStr ''SCOPE''), (''workspace_id'', PStr ''w1''),
                (''agent'', PStr ''codex_impl'')]])]"

definition demo_control :: control_files where
  "demo_control = \<lparr>dir_stat = demo_dir, policy_file = Found demo_file (''raw'', demo_document)\<rparr>"

definition demo_policy :: operator_policy where
  "demo_policy = (case new_operator_policy id 1000 demo_fs ''/srv/cfg'' [''/srv/w'']
     demo_control demo_control demo_control of Inr p \<Rightarrow> p | Inl _ \<Rightarrow> undefined)"

lemma demo_policy_loads:
  "new_operator_policy id 1000 demo_fs ''/srv/cfg'' [''/srv/w''] demo_control demo_control demo_control
     = Inr demo_policy"
  "demo_policy = \<lparr>op_overrides = [(''read_file'', SCOPE), (''exec_run'', LOCKED)],
     op_scoped = [\<lparr>sr_action = ''write_file'', sr_mode = ALLOW, sr_workspace = Some ''w1'', sr_agent = None\<rparr>,
       \<lparr>sr_action = ''write_file'', sr_mode = SCOPE, sr_workspace = Some ''w1'', sr_agent = Some ''codex_impl''\<rparr>],
     op_signature = ((1, 7, 1000, 1000, 448), Some (1, 8, 1000, 1000, 384, 0, 0, ''raw''))\<rparr>"
proof -
  have e: "new_operator_policy id 1000 demo_fs ''/srv/cfg'' [''/srv/w''] demo_control demo_control demo_control
    = Inr \<lparr>op_overrides = [(''read_file'', SCOPE), (''exec_run'', LOCKED)],
     op_scoped = [\<lparr>sr_action = ''write_file'', sr_mode = ALLOW, sr_workspace = Some ''w1'', sr_agent = None\<rparr>,
       \<lparr>sr_action = ''write_file'', sr_mode = SCOPE, sr_workspace = Some ''w1'', sr_agent = Some ''codex_impl''\<rparr>],
     op_signature = ((1, 7, 1000, 1000, 448), Some (1, 8, 1000, 1000, 384, 0, 0, ''raw''))\<rparr>"
    by code_simp
  then show "new_operator_policy id 1000 demo_fs ''/srv/cfg'' [''/srv/w''] demo_control demo_control demo_control
     = Inr demo_policy"
    "demo_policy = \<lparr>op_overrides = [(''read_file'', SCOPE), (''exec_run'', LOCKED)],
     op_scoped = [\<lparr>sr_action = ''write_file'', sr_mode = ALLOW, sr_workspace = Some ''w1'', sr_agent = None\<rparr>,
       \<lparr>sr_action = ''write_file'', sr_mode = SCOPE, sr_workspace = Some ''w1'', sr_agent = Some ''codex_impl''\<rparr>],
     op_signature = ((1, 7, 1000, 1000, 448), Some (1, 8, 1000, 1000, 384, 0, 0, ''raw''))\<rparr>"
    by (simp_all add: demo_policy_def)
qed

theorem locked_actions_stay_locked_witness:
  "baseline_of ''git_push'' = Some LOCKED \<and> (\<exists>e. check id 1000 demo_policy demo_control ''git_push'' [] = Inl e)"
proof -
  have "baseline_of ''git_push'' = Some LOCKED" by code_simp
  then show ?thesis using locked_actions_stay_locked by blast
qed

theorem check_accepts_only_permitted_witness:
  "check id 1000 demo_policy demo_control ''read_file'' [(''workspace_id'', PStr ''w1'')] = Inr SCOPE
   \<and> (\<exists>baseline. baseline_of ''read_file'' = Some baseline \<and> baseline \<noteq> LOCKED \<and> SCOPE \<noteq> LOCKED
      \<and> (SCOPE = APPROVAL \<longrightarrow> baseline = APPROVAL)
      \<and> (SCOPE = SCOPE \<and> baseline = ALLOW \<longrightarrow> truthy (dict_get [(''workspace_id'', PStr ''w1'')] ''workspace_id''))
      \<and> assert_control id 1000 demo_policy demo_control = Inr ())"
proof -
  have c: "check id 1000 demo_policy demo_control ''read_file'' [(''workspace_id'', PStr ''w1'')] = Inr SCOPE"
    unfolding demo_policy_loads(2) by code_simp
  from check_accepts_only_permitted [OF c] c show ?thesis by blast
qed

theorem effective_mode_decided_witness:
  "effective_mode id 1000 demo_policy demo_control ''write_file'' (PStr ''w1'') (PStr ''codex_impl'') = Inr SCOPE
   \<and> (\<exists>r \<in> set (matching_rows demo_policy ''write_file'' (PStr ''w1'') (PStr ''codex_impl'')). sr_mode r = SCOPE
       \<and> (\<forall>r' \<in> set (matching_rows demo_policy ''write_file'' (PStr ''w1'') (PStr ''codex_impl'')).
            row_len r' \<le> row_len r \<and> (row_len r' = row_len r \<longrightarrow> sr_mode r' \<le> SCOPE)))"
proof -
  have e: "effective_mode id 1000 demo_policy demo_control ''write_file'' (PStr ''w1'') (PStr ''codex_impl'') = Inr SCOPE"
    unfolding demo_policy_loads(2) by code_simp
  have r: "matching_rows demo_policy ''write_file'' (PStr ''w1'') (PStr ''codex_impl'') \<noteq> []"
    unfolding demo_policy_loads(2) by code_simp
  from effective_mode_decided [OF e] r e show ?thesis by blast
qed

theorem changed_control_files_refused_witness:
  "\<exists>e. check id 1000 demo_policy (demo_control\<lparr>policy_file := Found (demo_file\<lparr>st_mtime_ns := 5\<rparr>) (''raw'', demo_document)\<rparr>)
     ''list_files'' [] = Inl e"
proof -
  have "control_identity id 1000 (demo_control\<lparr>policy_file := Found (demo_file\<lparr>st_mtime_ns := 5\<rparr>) (''raw'', demo_document)\<rparr>)
      \<noteq> control_identity id 1000 demo_control"
    by code_simp
  from changed_control_files_refused [OF demo_policy_loads(1) this] show ?thesis .
qed

end
