(* ===== verification/Registry.thy ===== *)
theory Registry
  imports Paths "HOL-Library.List_Lexorder" "HOL-Library.Char_ord"
begin

text \<open>
  \<open>workspaces/registry.py\<close>: the table of workspaces clients may name.  Directory listings of
  auto-discovery roots and the file tests of the inspection report are functions of the host.
\<close>

record workspace =
  ws_id :: string
  ws_path :: string
  writable :: bool
  description :: string
  allow_execute :: bool
  allow_git :: bool
  allow_artifacts :: bool
  allow_agent_dispatch :: bool
  auto_discover :: bool
  local_http_ports :: "int list"

type_synonym registry = "(string \<times> workspace) list"

text \<open>A configuration entry: absent keys take the constructor's defaults.\<close>

record ws_config =
  wc_path :: "string option"
  wc_writable :: "bool option"
  wc_description :: "string option"
  wc_execute :: "bool option"
  wc_git :: "bool option"
  wc_artifacts :: "bool option"
  wc_dispatch :: "bool option"
  wc_ports :: "int list option"
  wc_discover :: "bool option"

record host =
  h_fs :: host_fs
  h_home :: string
  h_isdir :: "string \<Rightarrow> bool"
  h_exists :: "string \<Rightarrow> bool"
  h_scandir :: "string \<Rightarrow> (string \<times> bool) list option"  \<comment> \<open>names and \<open>is_dir(follow_symlinks=False)\<close>\<close>

definition default_to :: "'a \<Rightarrow> 'a option \<Rightarrow> 'a" where
  "default_to d x = (case x of None \<Rightarrow> d | Some v \<Rightarrow> v)"

text \<open>\<open>os.path.expanduser\<close> for the service's own home (\<open>~\<close> and \<open>~/...\<close>).\<close>

definition expanduser :: "string \<Rightarrow> string \<Rightarrow> string" where
  "expanduser home p = (if p = ''~'' \<or> starts_with ''~/'' p then home @ tl p else p)"

definition sanitize_ports :: "int list \<Rightarrow> int list" where
  "sanitize_ports ps = sort (remdups (filter (\<lambda>p. 1 \<le> p \<and> p \<le> 65535) ps))"

definition register :: "host \<Rightarrow> workspace \<Rightarrow> registry \<Rightarrow> registry" where
  "register h w reg = dict_set (ws_id w)
     (w\<lparr>ws_path := realpath (h_fs h) (expanduser (h_home h) (ws_path w)),
        local_http_ports := sanitize_ports (local_http_ports w)\<rparr>) reg"

definition configured :: "string \<Rightarrow> ws_config \<Rightarrow> workspace" where
  "configured name data = \<lparr>ws_id = name, ws_path = default_to [] (wc_path data),
     writable = default_to True (wc_writable data),
     description = default_to [] (wc_description data),
     allow_execute = default_to True (wc_execute data),
     allow_git = default_to True (wc_git data),
     allow_artifacts = default_to True (wc_artifacts data),
     allow_agent_dispatch = default_to False (wc_dispatch data),
     auto_discover = default_to False (wc_discover data),
     local_http_ports = default_to [] (wc_ports data)\<rparr>"

text \<open>A discovered project inherits its parent's permissions, without loopback ports.\<close>

definition discovered :: "workspace \<Rightarrow> string \<Rightarrow> workspace" where
  "discovered parent name = parent\<lparr>ws_id := name, ws_path := path_join (ws_path parent) name,
     description := ''Auto-discovered project in '' @ ws_id parent,
     auto_discover := False, local_http_ports := []\<rparr>"

fun discover_entries :: "host \<Rightarrow> workspace \<Rightarrow> (string \<times> bool) list \<Rightarrow> registry \<Rightarrow> registry" where
  "discover_entries h parent [] reg = reg"
| "discover_entries h parent ((name, is_dir) # es) reg =
     (if starts_with ''.'' name \<or> name \<in> field_names reg then discover_entries h parent es reg
      else if is_dir then discover_entries h parent es (register h (discovered parent name) reg)
      else discover_entries h parent es reg)"

definition discover_in :: "host \<Rightarrow> registry \<Rightarrow> workspace \<Rightarrow> registry" where
  "discover_in h reg ws =
     (if auto_discover ws \<and> h_isdir h (ws_path ws)
      then (case h_scandir h (ws_path ws) of None \<Rightarrow> reg | Some es \<Rightarrow> discover_entries h ws es reg)
      else reg)"

definition new_registry :: "host \<Rightarrow> (string \<times> ws_config) list \<Rightarrow> registry" where
  "new_registry h workspaces =
     (let reg = foldl (\<lambda>reg (name, data). register h (configured name data) reg) [] workspaces
      in foldl (discover_in h) reg (map snd reg))"

definition get :: "registry \<Rightarrow> string \<Rightarrow> workspace result" where
  "get reg name = (case map_of reg name of None \<Rightarrow> Inl KeyError | Some w \<Rightarrow> Inr w)"

record listing =
  li_workspace :: workspace
  li_exists :: bool

definition list_all_ws :: "host \<Rightarrow> registry \<Rightarrow> listing list" where
  "list_all_ws h reg = map (\<lambda>(name, w). \<lparr>li_workspace = w, li_exists = h_isdir h (ws_path w)\<rparr>) reg"

text \<open>The language report: marker files first, then file suffixes until two languages are known.\<close>

definition R_MARKERS :: "string list" where
  "R_MARKERS = [''DESCRIPTION'', ''renv.lock'', ''NAMESPACE'']"

definition PY_MARKERS :: "string list" where
  "PY_MARKERS = [''pyproject.toml'', ''requirements.txt'', ''setup.py'', ''Pipfile'']"

definition add_language :: "string \<Rightarrow> string list \<Rightarrow> string list" where
  "add_language l ls = (if l \<in> set ls then ls else ls @ [l])"

definition present_markers :: "host \<Rightarrow> string \<Rightarrow> string list \<Rightarrow> string list" where
  "present_markers h root names = filter (\<lambda>n. h_exists h (path_join root n)) names"

definition file_language :: "string list \<Rightarrow> string \<Rightarrow> string list" where
  "file_language ls f =
     (if list_ex (\<lambda>sfx. ends_with sfx f) [''.R'', ''.r'', ''.Rmd'', ''.qmd''] then add_language ''R'' ls
      else if ends_with ''.py'' f then add_language ''Python'' ls else ls)"

text \<open>\<open>walk\<close> is what \<open>os.walk\<close> yields below the root with hidden directories pruned: the file
  names of each directory, in order.\<close>

fun walk_languages :: "string list list \<Rightarrow> string list \<Rightarrow> string list" where
  "walk_languages [] ls = ls"
| "walk_languages (files # walk) ls =
     (let ls' = foldl file_language ls files
      in if length ls' \<ge> 2 then ls' else walk_languages walk ls')"

definition detect_languages :: "host \<Rightarrow> string \<Rightarrow> string list list \<Rightarrow> string list \<times> string list" where
  "detect_languages h root walk =
     (let r = present_markers h root R_MARKERS; p = present_markers h root PY_MARKERS;
          langs = (if r = [] then [] else [''R'']) @ (if p = [] then [] else [''Python''])
      in (if langs = [] then walk_languages walk [] else langs, r @ p))"


section \<open>Properties\<close>

lemma sanitize_ports_ok: "sorted_wrt (<) (sanitize_ports ps) \<and> (\<forall>p \<in> set (sanitize_ports ps). 1 \<le> p \<and> p \<le> 65535)"
  by (auto simp: sanitize_ports_def strict_sorted_iff)

lemma get_Inr [simp]: "get reg name = Inr w \<longleftrightarrow> map_of reg name = Some w"
  by (simp add: get_def split: option.splits)

lemma map_of_register: "map_of (register h w reg) n = (if n = ws_id w
    then Some (w\<lparr>ws_path := realpath (h_fs h) (expanduser (h_home h) (ws_path w)),
        local_http_ports := sanitize_ports (local_http_ports w)\<rparr>)
    else map_of reg n)"
  by (auto simp: register_def map_of_dict_set)

text \<open>What every registered workspace satisfies.\<close>

definition ws_ok :: "registry \<Rightarrow> bool" where
  "ws_ok reg \<longleftrightarrow> (\<forall>n w. map_of reg n = Some w \<longrightarrow>
     ws_id w = n \<and> sorted_wrt (<) (local_http_ports w) \<and> (\<forall>p \<in> set (local_http_ports w). 1 \<le> p \<and> p \<le> 65535))"

lemma ws_ok_register: "ws_ok reg \<Longrightarrow> ws_ok (register h w reg)"
  by (auto simp: ws_ok_def map_of_register sanitize_ports_ok)

lemma ws_ok_discover_entries: "ws_ok reg \<Longrightarrow> ws_ok (discover_entries h parent es reg)"
  by (induction h parent es reg rule: discover_entries.induct) (auto simp: ws_ok_register)

lemma ws_ok_foldl_discover: "ws_ok reg \<Longrightarrow> ws_ok (foldl (discover_in h) reg ws)"
  by (induction ws arbitrary: reg) (auto simp: discover_in_def ws_ok_discover_entries split: option.splits)

lemma ws_ok_foldl_register:
  "ws_ok reg \<Longrightarrow> ws_ok (foldl (\<lambda>reg (name, data). register h (configured name data) reg) reg cs)"
  by (induction cs arbitrary: reg) (auto simp: ws_ok_register)

text \<open>
  Every workspace a client can name is filed under its own id, and its loopback ports are a
  strictly increasing list of ports between 1 and 65535, whatever the configuration listed.
\<close>

theorem registry_wellformed:
  assumes "get (new_registry h cfg) name = Inr w"
  shows "ws_id w = name \<and> sorted_wrt (<) (local_http_ports w)
    \<and> (\<forall>p \<in> set (local_http_ports w). 1 \<le> p \<and> p \<le> 65535)"
proof -
  have "ws_ok []" by (simp add: ws_ok_def)
  then have "ws_ok (new_registry h cfg)"
    by (simp add: new_registry_def Let_def ws_ok_foldl_discover ws_ok_foldl_register)
  with assms show ?thesis by (auto simp: ws_ok_def)
qed

text \<open>The permission flags a discovered workspace shares with the root it was found in.\<close>

definition same_permissions :: "workspace \<Rightarrow> workspace \<Rightarrow> bool" where
  "same_permissions a b \<longleftrightarrow> writable a = writable b \<and> allow_execute a = allow_execute b
     \<and> allow_git a = allow_git b \<and> allow_artifacts a = allow_artifacts b
     \<and> allow_agent_dispatch a = allow_agent_dispatch b"

definition inherits :: "host \<Rightarrow> workspace list \<Rightarrow> registry \<Rightarrow> registry \<Rightarrow> bool" where
  "inherits h parents base reg \<longleftrightarrow> (\<forall>n w. map_of reg n = Some w \<longrightarrow> map_of base n = Some w
     \<or> (map_of base n = None \<and> (\<exists>p \<in> set parents. auto_discover p \<and> same_permissions w p
          \<and> \<not> starts_with ''.'' n \<and> \<not> auto_discover w \<and> local_http_ports w = []
          \<and> ws_path w = realpath (h_fs h) (expanduser (h_home h) (path_join (ws_path p) n)))))
   \<and> (\<forall>n w. map_of base n = Some w \<longrightarrow> map_of reg n = Some w)"

lemma inherits_discover_entries:
  "inherits h parents base reg \<Longrightarrow> p \<in> set parents \<Longrightarrow> auto_discover p \<Longrightarrow>
     inherits h parents base (discover_entries h p es reg)"
proof (induction h p es reg rule: discover_entries.induct)
  case (2 h p name is_dir es reg)
  show ?case
  proof (cases "starts_with ''.'' name \<or> name \<in> field_names reg \<or> \<not> is_dir")
    case True
    with 2 show ?thesis by auto
  next
    case False
    then have new: "map_of reg name = None" by (auto simp: field_names_map_of)
    with 2(4) have base: "map_of base name = None" by (cases "map_of base name") (auto simp: inherits_def)
    have "inherits h parents base (register h (discovered p name) reg)"
      using 2(4-6) False base
      by (auto simp: inherits_def map_of_register discovered_def same_permissions_def sanitize_ports_def)
    with 2 False show ?thesis by auto
  qed
qed simp

lemma inherits_foldl:
  "inherits h parents base reg \<Longrightarrow> set ws \<subseteq> set parents \<Longrightarrow>
     inherits h parents base (foldl (discover_in h) reg ws)"
  by (induction ws arbitrary: reg)
     (auto simp: discover_in_def inherits_discover_entries split: option.splits)

text \<open>
  Auto-discovery adds but never overrides: a configured workspace keeps its entry, and every
  other entry is a non-hidden child of a configured auto-discovery root with exactly that root's
  permission flags, no loopback ports and no further discovery.
\<close>

theorem discovery_inherits_permissions:
  assumes "base = foldl (\<lambda>reg (name, data). register h (configured name data) reg) [] cfg"
  shows "inherits h (map snd base) base (new_registry h cfg)"
proof -
  have "inherits h (map snd base) base base" by (auto simp: inherits_def)
  from inherits_foldl [OF this] assms show ?thesis by (simp add: new_registry_def Let_def)
qed

definition demo_host :: host where
  "demo_host = \<lparr>h_fs = demo_fs, h_home = ''/home/u'', h_isdir = (\<lambda>p. p = ''/srv/w''),
     h_exists = (\<lambda>p. p = ''/srv/w/setup.py''),
     h_scandir = (\<lambda>p. if p = ''/srv/w'' then Some [(''.git'', True), (''proj'', True), (''notes.txt'', False)] else None)\<rparr>"

definition demo_ws_config :: ws_config where
  "demo_ws_config = \<lparr>wc_path = Some ''/srv/w'', wc_writable = None, wc_description = None, wc_execute = Some False,
     wc_git = None, wc_artifacts = None, wc_dispatch = None, wc_ports = Some [70000, 8080, 80, 8080],
     wc_discover = Some True\<rparr>"

definition demo_registry :: registry where
  "demo_registry = new_registry demo_host [(''main'', demo_ws_config)]"

theorem registry_wellformed_witness:
  "\<exists>w. get demo_registry ''main'' = Inr w \<and> local_http_ports w = [80, 8080] \<and> ws_id w = ''main''
     \<and> sorted_wrt (<) (local_http_ports w)"
proof -
  have "map_option local_http_ports (map_of demo_registry ''main'') = Some [80, 8080]"
    by code_simp
  then obtain w where w: "get (new_registry demo_host [(''main'', demo_ws_config)]) ''main'' = Inr w"
      "local_http_ports w = [80, 8080]"
    by (auto simp: demo_registry_def)
  from registry_wellformed [OF w(1)] w show ?thesis unfolding demo_registry_def by blast
qed

theorem discovery_inherits_permissions_witness:
  "inherits demo_host (map snd (foldl (\<lambda>reg (name, data). register demo_host (configured name data) reg) []
      [(''main'', demo_ws_config)]))
     (foldl (\<lambda>reg (name, data). register demo_host (configured name data) reg) [] [(''main'', demo_ws_config)])
     demo_registry
   \<and> map fst demo_registry = [''main'', ''proj'']"
proof -
  have "map fst demo_registry = [''main'', ''proj'']" by code_simp
  with discovery_inherits_permissions [OF refl, of demo_host "[(''main'', demo_ws_config)]"]
  show ?thesis by (simp add: demo_registry_def)
qed

end
