(* ===== verification/Ingress.thy ===== *)
theory Ingress
  imports Prelude Complex_Main
begin

text \<open>
  \<open>auth.py\<close> and \<open>middleware.py\<close>: the HTTP security boundary.  API keys, host patterns, the
  sliding-window rate limiter and the ASGI middleware that decides which requests reach the
  application, as which principal, and with which body.  Clock values are real numbers.
\<close>

section \<open>API keys\<close>

lemma length_py_strip: "length (py_strip s) \<le> length s"
  unfolding py_strip_def by (metis length_dropWhile_le length_rev le_trans)

lemma starts_with_length: "starts_with p s \<Longrightarrow> length p \<le> length s"
  by (auto simp: starts_with_iff)

text \<open>
  The loop strips every leading \<open>bearer \<close> (case-insensitively); each round removes at least
  seven characters, so the length of the text bounds the rounds.
\<close>

function strip_bearer :: "string \<Rightarrow> string" where
  "strip_bearer s = (if starts_with ''bearer '' (py_lower s) then strip_bearer (py_strip (drop 7 s)) else s)"
  by pat_completeness auto

termination
proof (relation "measure length")
  fix s assume "starts_with ''bearer '' (py_lower s)"
  then have "7 \<le> length s" by (auto dest!: starts_with_length simp: py_lower_def)
  then have "length (drop 7 s) < length s" by simp
  then show "(py_strip (drop 7 s), s) \<in> measure length"
    using length_py_strip [of "drop 7 s"] by simp
qed simp

declare strip_bearer.simps [simp del]

text \<open>\<open>hmac.compare_digest\<close> is equality of the byte texts.\<close>

definition verify_api_key :: "string \<Rightarrow> string list \<Rightarrow> bool" where
  "verify_api_key provided_key keys =
     (if provided_key = [] \<or> keys = [] then False
      else (let clean_prov = strip_bearer (py_strip provided_key)
            in list_ex (\<lambda>k. k \<noteq> [] \<and> clean_prov = py_strip k) keys))"

section \<open>Host patterns\<close>

text \<open>
  \<open>fnmatch\<close>: a star, a question mark, a bracket class (closed by the first \<open>]\<close> that is not its
  first member, negated by \<open>!\<close>), and every other character for itself.
\<close>

fun class_members :: "string \<Rightarrow> char \<Rightarrow> bool" where
  "class_members [] c = False"
| "class_members (a # CHR ''-'' # b # rest) c = (in_range a b c \<or> class_members rest c)"
| "class_members (a # rest) c = (a = c \<or> class_members rest c)"

definition class_hit :: "string \<Rightarrow> char \<Rightarrow> bool" where
  "class_hit body c = (case body of
     [] \<Rightarrow> False
   | x # xs \<Rightarrow> if x = CHR ''!'' then \<not> class_members xs c else class_members body c)"

text \<open>Where the class that opens a pattern tail ends: the body and what follows the bracket.\<close>

definition split_class :: "string \<Rightarrow> (string \<times> string) option" where
  "split_class p =
     (let skip = (if starts_with ''!]'' p then 2 else if starts_with ''!'' p then 1
                  else if starts_with '']'' p then 1 else 0);
          body = takeWhile (\<lambda>c. c \<noteq> CHR '']'') (drop skip p);
          rest = dropWhile (\<lambda>c. c \<noteq> CHR '']'') (drop skip p)
      in case rest of [] \<Rightarrow> None | r # rs \<Rightarrow> Some (take skip p @ body, rs))"

lemma split_class_length: "split_class p = Some (body, rest) \<Longrightarrow> length rest < length p"
proof -
  assume "split_class p = Some (body, rest)"
  then obtain k r where "dropWhile (\<lambda>c. c \<noteq> CHR '']'') (drop k p) = r # rest"
    by (auto simp: split_class_def Let_def split: list.splits)
  then have "length (r # rest) \<le> length (drop k p)" by (metis length_dropWhile_le)
  then show ?thesis by simp
qed

function fnmatch :: "string \<Rightarrow> string \<Rightarrow> bool" where
  "fnmatch s [] = (s = [])"
| "fnmatch s (q # p) =
     (if q = CHR ''*'' then fnmatch s p \<or> (if s = [] then False else fnmatch (tl s) (q # p))
      else if s = [] then False
      else if q = CHR ''?'' then fnmatch (tl s) p
      else if q = CHR ''['' then
        (case split_class p of
           None \<Rightarrow> hd s = q \<and> fnmatch (tl s) p
         | Some (body, rest) \<Rightarrow> class_hit body (hd s) \<and> fnmatch (tl s) rest)
      else hd s = q \<and> fnmatch (tl s) p)"
  by pat_completeness auto
termination
  by (relation "measures [\<lambda>(s, p). length p, \<lambda>(s, p). length s]") (auto dest: split_class_length)

declare fnmatch.simps(2) [simp del]

definition is_host_allowed :: "string \<Rightarrow> string list \<Rightarrow> bool" where
  "is_host_allowed host_header allowed_hosts =
     (if host_header = [] then False
      else (let host_clean = py_lower (py_strip host_header)
            in list_ex (\<lambda>pattern.
                 let pat_clean = py_lower pattern in
                 fnmatch host_clean pat_clean
                 \<or> (CHR '':'' \<in> set host_clean \<and> CHR '':'' \<notin> set pat_clean
                    \<and> fnmatch (hd (split_on (CHR '':'') host_clean)) pat_clean)) allowed_hosts))"

section \<open>The sliding-window rate limiter\<close>

record limiter =
  max_requests :: nat
  window_seconds :: real
  requests :: "string \<Rightarrow> real list"
  last_cleanup :: real

definition new_limiter :: "nat \<Rightarrow> real \<Rightarrow> real \<Rightarrow> limiter" where
  "new_limiter n w now =
     \<lparr>max_requests = n, window_seconds = w, requests = (\<lambda>_. []), last_cleanup = now\<rparr>"

text \<open>The periodic sweep drops every client whose newest request left the window.\<close>

definition sweep_idle :: "real \<Rightarrow> limiter \<Rightarrow> limiter" where
  "sweep_idle now l =
     (if now - last_cleanup l > 60 then
        l\<lparr>requests := (\<lambda>ip. let reqs = requests l ip in
            if reqs = [] \<or> last reqs \<le> now - window_seconds l then [] else reqs),
          last_cleanup := now\<rparr>
      else l)"

definition is_allowed :: "real \<Rightarrow> string \<Rightarrow> limiter \<Rightarrow> bool \<times> limiter" where
  "is_allowed now client_ip l0 =
     (let l = sweep_idle now l0;
          cutoff = now - window_seconds l;
          kept = filter (\<lambda>t. t > cutoff) (requests l client_ip)
      in if length kept \<ge> max_requests l
         then (False, l\<lparr>requests := (requests l)(client_ip := kept)\<rparr>)
         else (True, l\<lparr>requests := (requests l)(client_ip := kept @ [now])\<rparr>))"


section \<open>The middleware\<close>

text \<open>ASGI messages and the request scope; headers are decoded byte texts.\<close>

datatype message = HttpRequest string bool  \<comment> \<open>\<open>body\<close>, \<open>more_body\<close>\<close>
  | HttpDisconnect

record scope =
  sc_type :: string
  sc_path :: "string option"
  sc_method :: "string option"
  sc_headers :: "(string \<times> string) list"
  sc_client :: "string option"

record mw_config =
  api_key :: string
  allowed_hosts :: "string list"
  header_name :: string
  legacy_header_name :: "string option"
  max_payload_bytes :: nat
  relay_key :: "string option"
  internal_client_key :: "string option"

datatype principal = Public | Internal

text \<open>
  What one call does: hand the request to the application (with the principal set for the call,
  if any, and the messages the application may read), answer with an error status, or return
  without an answer because the client went away or sends nothing more, or raise.
\<close>

datatype receive_stream = Untouched | Replay "message list"

datatype outcome =
    ToApp "principal option" receive_stream
  | Reject nat
  | Dropped
  | Raised py_error

definition PUBLIC_PATHS :: "string list" where
  "PUBLIC_PATHS = [''/health'', ''/openapi.json'', ''/docs'', ''/docs/'', ''/docs/oauth2-redirect'', ''/redoc'']"

definition OAUTH_PROBE_PATHS :: "string list" where
  "OAUTH_PROBE_PATHS = [''/.well-known/oauth-protected-resource/mcp'', ''/.well-known/oauth-protected-resource'']"

definition FORWARDED_HEADERS :: "string list" where
  "FORWARDED_HEADERS = [''forwarded'', ''x-forwarded-for'', ''x-forwarded-host'', ''x-real-ip'']"

text \<open>\<open>dict(headers)\<close>: the last of several headers with one name wins.\<close>

definition header_dict :: "(string \<times> string) list \<Rightarrow> string \<Rightarrow> string option" where
  "header_dict hs = map_of (rev hs)"

definition or_default :: "'a \<Rightarrow> 'a option \<Rightarrow> 'a" where
  "or_default d x = (case x of None \<Rightarrow> d | Some v \<Rightarrow> v)"

definition path_in :: "string option \<Rightarrow> string list \<Rightarrow> bool" where
  "path_in p ps = (case p of None \<Rightarrow> False | Some q \<Rightarrow> q \<in> set ps)"

definition is_loopback :: "string option \<Rightarrow> bool" where
  "is_loopback c \<longleftrightarrow> c = Some ''127.0.0.1'' \<or> c = Some ''::1''"

text \<open>
  Constructor check: the internal credential differs from the public and the relay credential.
\<close>

definition new_middleware :: "mw_config \<Rightarrow> mw_config result" where
  "new_middleware c = (case internal_client_key c of
     None \<Rightarrow> Inr c
   | Some k \<Rightarrow> if k \<noteq> [] \<and> (api_key c = k \<or> relay_key c = Some k) then Inl PermissionError else Inr c)"

text \<open>The relay reads at most 32768 bytes, chunk by chunk, and stops at the first message that is
  not part of a request.\<close>

fun relay_body :: "string \<Rightarrow> message list \<Rightarrow> nat + string option" where
  "relay_body data [] = Inr None"
| "relay_body data (HttpDisconnect # ms) = Inr None"
| "relay_body data (HttpRequest body again # ms) =
     (if length (data @ body) > 32768 then Inl 413
      else if again then relay_body (data @ body) ms
      else Inr (Some (data @ body)))"

text \<open>The buffered body of an ordinary request.\<close>

fun buffer_body :: "nat \<Rightarrow> message list \<Rightarrow> nat \<Rightarrow> message list
    \<Rightarrow> nat + message list option" where
  "buffer_body limit buffered used [] = Inr None"
| "buffer_body limit buffered used (HttpDisconnect # ms) = Inr (Some (buffered @ [HttpDisconnect]))"
| "buffer_body limit buffered used (HttpRequest body again # ms) =
     (if used + length body > limit then Inl 413
      else if again then buffer_body limit (buffered @ [HttpRequest body again]) (used + length body) ms
      else Inr (Some (buffered @ [HttpRequest body again])))"

text \<open>The delegation relay: a separate, narrow credential that never falls back to the API key.\<close>

definition relay_request :: "mw_config \<Rightarrow> real \<Rightarrow> scope \<Rightarrow> message list \<Rightarrow> limiter \<Rightarrow> outcome \<times> limiter" where
  "relay_request c now sc msgs l =
     (let headers = header_dict (sc_headers sc);
          provided = or_default [] (headers ''authorization'');
          expected = (case relay_key c of None \<Rightarrow> [] | Some k \<Rightarrow> if k = [] then [] else ''Bearer '' @ k)
      in if \<not> is_loopback (sc_client sc) \<or> expected = [] \<or> provided \<noteq> expected then (Reject 401, l)
         else if sc_method sc \<noteq> Some ''POST'' then (Reject 405, l)
         else (let (ok, l') = is_allowed now (or_default [] (sc_client sc)) l in
           if \<not> ok then (Reject 429, l')
           else (case relay_body [] msgs of
               Inl status \<Rightarrow> (Reject status, l')
             | Inr None \<Rightarrow> (Dropped, l')
             | Inr (Some data) \<Rightarrow>
                 (ToApp (Some Internal) (Replay [HttpRequest data False, HttpDisconnect]), l'))))"

definition upper_method :: "scope \<Rightarrow> string" where
  "upper_method sc = map (\<lambda>c. if in_range (CHR ''a'') (CHR ''z'') c then char_of (char_code c - 32) else c)
     (or_default ''GET'' (sc_method sc))"

text \<open>
  \<open>str.isdigit\<close> also accepts the superscript digits of Latin-1, which \<open>int\<close> refuses,
  and \<open>int\<close> refuses more than 4300 digits.
\<close>

definition isdigit :: "string \<Rightarrow> bool" where
  "isdigit s \<longleftrightarrow> s \<noteq> [] \<and> list_all (\<lambda>c. is_digit c \<or> char_code c \<in> {178, 179, 185}) s"

definition parse_int :: "string \<Rightarrow> nat result" where
  "parse_int s = (if s \<noteq> [] \<and> list_all is_digit s \<and> length s \<le> 4300
     then Inr (foldl (\<lambda>n c. 10 * n + (char_code c - 48)) 0 s) else Inl ValueError)"

text \<open>The credential text: the configured header, then the legacy header, then \<open>authorization\<close>.\<close>

definition provided_key :: "mw_config \<Rightarrow> (string \<Rightarrow> string option) \<Rightarrow> string" where
  "provided_key c headers =
     (let h1 = headers (py_lower (header_name c));
          h2 = (case h1 of Some v \<Rightarrow> Some v
                | None \<Rightarrow> (case legacy_header_name c of None \<Rightarrow> None
                            | Some n \<Rightarrow> if n = [] then None else headers (py_lower n)));
          h3 = (case h2 of Some v \<Rightarrow> Some v | None \<Rightarrow> headers ''authorization'')
      in or_default [] h3)"

text \<open>Who the caller is: an internal client must connect directly from the local machine.\<close>

definition authenticate :: "mw_config \<Rightarrow> scope \<Rightarrow> nat + principal" where
  "authenticate c sc =
     (let headers = header_dict (sc_headers sc);
          key = provided_key c headers;
          internal = (case internal_client_key c of None \<Rightarrow> False
                      | Some k \<Rightarrow> k \<noteq> [] \<and> verify_api_key key [k])
      in if internal \<and> (\<not> is_loopback (sc_client sc)
            \<or> list_ex (\<lambda>name. headers name \<noteq> None) FORWARDED_HEADERS) then Inl 401
         else if \<not> internal \<and> \<not> verify_api_key key [api_key c] then Inl 401
         else Inr (if internal then Internal else Public))"

definition deliver :: "mw_config \<Rightarrow> scope \<Rightarrow> message list \<Rightarrow> principal \<Rightarrow> outcome" where
  "deliver c sc msgs who =
     (if upper_method sc \<in> set [''POST'', ''PUT'', ''PATCH''] then
        if path_in (sc_path sc) [''/mcp'', ''/mcp/''] then ToApp (Some who) Untouched
        else (case buffer_body (max_payload_bytes c) [] 0 msgs of
            Inl status \<Rightarrow> Reject status
          | Inr None \<Rightarrow> Dropped
          | Inr (Some buffered) \<Rightarrow> ToApp (Some who) (Replay buffered))
      else ToApp (Some who) Untouched)"

definition middleware_call :: "mw_config \<Rightarrow> real \<Rightarrow> scope \<Rightarrow> message list \<Rightarrow> limiter \<Rightarrow> outcome \<times> limiter" where
  "middleware_call c now sc msgs l =
     (if sc_type sc \<noteq> ''http'' then (ToApp None Untouched, l)
      else if path_in (sc_path sc) PUBLIC_PATHS then (ToApp None Untouched, l)
      else if sc_path sc = Some ''/internal/delegation/v1'' then relay_request c now sc msgs l
      else
       (let headers = header_dict (sc_headers sc) in
        if \<not> is_host_allowed (or_default [] (headers ''host'')) (allowed_hosts c) then (Reject 403, l)
        else
         (let (ok, l') = is_allowed now (or_default ''unknown'' (sc_client sc)) l;
              content_length = or_default [] (headers ''content-length'')
          in if \<not> ok then (Reject 429, l')
             else (case (if isdigit content_length then parse_int content_length else Inr 0) of
                 Inl e \<Rightarrow> (Raised e, l')
               | Inr n \<Rightarrow>
                 if n > max_payload_bytes c then (Reject 413, l')
                 else if upper_method sc \<in> set [''GET'', ''HEAD''] \<and> path_in (sc_path sc) OAUTH_PROBE_PATHS
                 then (ToApp None Untouched, l')
                 else (case authenticate c sc of
                     Inl status \<Rightarrow> (Reject status, l')
                   | Inr who \<Rightarrow> (deliver c sc msgs who, l'))))))"


section \<open>The rate bound\<close>

text \<open>A run of calls with their clock readings, and the times admitted for one client.\<close>

fun run_limiter :: "(real \<times> string) list \<Rightarrow> limiter \<Rightarrow> (real \<times> string) list \<times> limiter" where
  "run_limiter [] l = ([], l)"
| "run_limiter ((now, ip) # calls) l =
     (let (ok, l') = is_allowed now ip l; (hits, l'') = run_limiter calls l'
      in (if ok then (now, ip) # hits else hits, l''))"

definition admitted_between :: "real \<Rightarrow> real \<Rightarrow> string \<Rightarrow> (real \<times> string) list \<Rightarrow> nat" where
  "admitted_between lo hi ip hits = length (filter (\<lambda>(t, i). i = ip \<and> lo < t \<and> t \<le> hi) hits)"

text \<open>
  The link between the limiter's memory and the true history \<open>hist\<close> of a client: what was
  forgotten had already left the window at \<open>now\<close>, and no window of the history is over the limit.
\<close>

definition window_count :: "real \<Rightarrow> real \<Rightarrow> real list \<Rightarrow> nat" where
  "window_count w hi ts = length (filter (\<lambda>t. hi - w < t \<and> t \<le> hi) ts)"

definition remembers :: "real \<Rightarrow> limiter \<Rightarrow> (string \<Rightarrow> real list) \<Rightarrow> bool" where
  "remembers now l hist \<longleftrightarrow> (\<forall>ip. \<exists>old. hist ip = old @ requests l ip
     \<and> (\<forall>t \<in> set old. t \<le> now - window_seconds l)
     \<and> sorted (hist ip) \<and> (\<forall>t \<in> set (hist ip). t \<le> now)
     \<and> (\<forall>hi. window_count (window_seconds l) hi (hist ip) \<le> max_requests l))"

lemma remembers_later:
  assumes "remembers now l hist" and "now \<le> now'"
  shows "remembers now' l hist"
  unfolding remembers_def
proof
  fix ip
  from assms(1) obtain old where o: "hist ip = old @ requests l ip"
      "\<forall>t \<in> set old. t \<le> now - window_seconds l" "sorted (hist ip)" "\<forall>t \<in> set (hist ip). t \<le> now"
      "\<forall>hi. window_count (window_seconds l) hi (hist ip) \<le> max_requests l"
    unfolding remembers_def by blast
  have "\<forall>t \<in> set old. t \<le> now' - window_seconds l" "\<forall>t \<in> set (hist ip). t \<le> now'"
    using o(2,4) assms(2) by (auto intro: order_trans)
  with o show "\<exists>old. hist ip = old @ requests l ip \<and> (\<forall>t \<in> set old. t \<le> now' - window_seconds l)
     \<and> sorted (hist ip) \<and> (\<forall>t \<in> set (hist ip). t \<le> now')
     \<and> (\<forall>hi. window_count (window_seconds l) hi (hist ip) \<le> max_requests l)" by blast
qed

lemma sorted_all_le_last: "sorted (ts :: real list) \<Longrightarrow> ts \<noteq> [] \<Longrightarrow> last ts \<le> c \<Longrightarrow> t \<in> set ts \<Longrightarrow> t \<le> c"
  by (induction ts) (auto split: if_splits, meson last_in_set order_trans)

lemma remembers_sweep:
  assumes "remembers now l hist"
  shows "remembers now (sweep_idle now l) hist"
proof (cases "now - last_cleanup l > 60")
  case False
  with assms show ?thesis by (simp add: sweep_idle_def)
next
  case True
  show ?thesis unfolding remembers_def
  proof
    fix ip
    from assms obtain old where o: "hist ip = old @ requests l ip"
        "\<forall>t \<in> set old. t \<le> now - window_seconds l" "sorted (hist ip)" "\<forall>t \<in> set (hist ip). t \<le> now"
        "\<forall>hi. window_count (window_seconds l) hi (hist ip) \<le> max_requests l"
      unfolding remembers_def by blast
    have all_old: "requests l ip \<noteq> [] \<Longrightarrow> last (requests l ip) \<le> now - window_seconds l \<Longrightarrow>
        \<forall>t \<in> set (hist ip). t \<le> now - window_seconds l"
      using o(1-3) sorted_all_le_last [of "requests l ip"] by (auto simp: sorted_append)
    show "\<exists>old. hist ip = old @ requests (sweep_idle now l) ip
       \<and> (\<forall>t \<in> set old. t \<le> now - window_seconds (sweep_idle now l))
       \<and> sorted (hist ip) \<and> (\<forall>t \<in> set (hist ip). t \<le> now)
       \<and> (\<forall>hi. window_count (window_seconds (sweep_idle now l)) hi (hist ip) \<le> max_requests (sweep_idle now l))"
    proof (cases "requests l ip = [] \<or> last (requests l ip) \<le> now - window_seconds l")
      case gone: True
      then have "\<forall>t \<in> set (hist ip). t \<le> now - window_seconds l" using all_old o(1,2) by fastforce
      with gone True o show ?thesis by (intro exI [of _ "hist ip"]) (simp add: sweep_idle_def Let_def)
    next
      case kept: False
      with True o show ?thesis by (intro exI [of _ old]) (simp add: sweep_idle_def Let_def)
    qed
  qed
qed


lemma window_count_append [simp]: "window_count w hi (xs @ ys) = window_count w hi xs + window_count w hi ys"
  by (simp add: window_count_def)

lemma window_count_old: "\<forall>t \<in> set ts. t \<le> hi - w \<Longrightarrow> window_count w hi ts = 0"
  by (auto simp: window_count_def filter_empty_conv)

lemma window_count_le: "window_count w hi ts \<le> length ts"
  by (simp add: window_count_def)

lemma window_count_filter:
  "now \<le> hi \<Longrightarrow> window_count w hi (filter (\<lambda>t. t > now - w) ts) = window_count w hi ts"
  unfolding window_count_def filter_filter by (rule arg_cong [of _ _ length], rule filter_cong) auto

lemma sweep_params [simp]:
  "window_seconds (sweep_idle now l) = window_seconds l" "max_requests (sweep_idle now l) = max_requests l"
  by (simp_all add: sweep_idle_def)

lemma is_allowed_params:
  "is_allowed now ip l = (ok, l') \<Longrightarrow> window_seconds l' = window_seconds l \<and> max_requests l' = max_requests l"
  by (auto simp: is_allowed_def Let_def split: if_splits)

lemma filter_gt_suffix:
  assumes "sorted (ts :: real list)"
  shows "\<exists>old. ts = old @ filter (\<lambda>t. t > c) ts \<and> (\<forall>t \<in> set old. t \<le> c)"
  using assms
proof (induction ts)
  case (Cons a ts)
  show ?case
  proof (cases "a > c")
    case True
    with Cons.prems have "filter (\<lambda>t. t > c) (a # ts) = a # ts" by (auto simp: filter_id_conv)
    then show ?thesis by (intro exI [of _ "[]"]) simp
  next
    case False
    with Cons obtain old where "ts = old @ filter (\<lambda>t. t > c) ts" "\<forall>t \<in> set old. t \<le> c" by auto
    with False show ?thesis by (intro exI [of _ "a # old"]) simp
  qed
qed simp

lemma is_allowed_remembers:
  assumes "remembers now l hist" and step: "is_allowed now ip l = (ok, l')"
  shows "remembers now l' (if ok then hist(ip := hist ip @ [now]) else hist)"
proof -
  define m where "m = sweep_idle now l"
  define kept where "kept = filter (\<lambda>t. t > now - window_seconds m) (requests m ip)"
  have m: "remembers now m hist" using remembers_sweep [OF assms(1)] by (simp add: m_def)
  have l': "ok = (length kept < max_requests m)"
      "l' = m\<lparr>requests := (requests m)(ip := (if ok then kept @ [now] else kept))\<rparr>"
    using step by (auto simp: is_allowed_def Let_def m_def kept_def split: if_splits)
  show ?thesis unfolding remembers_def
  proof
    fix j
    let ?hist = "if ok then hist(ip := hist ip @ [now]) else hist"
    from m obtain old where o: "hist j = old @ requests m j"
        "\<forall>t \<in> set old. t \<le> now - window_seconds m" "sorted (hist j)" "\<forall>t \<in> set (hist j). t \<le> now"
        "\<forall>hi. window_count (window_seconds m) hi (hist j) \<le> max_requests m"
      unfolding remembers_def by blast
    show "\<exists>old. ?hist j = old @ requests l' j \<and> (\<forall>t \<in> set old. t \<le> now - window_seconds l')
       \<and> sorted (?hist j) \<and> (\<forall>t \<in> set (?hist j). t \<le> now)
       \<and> (\<forall>hi. window_count (window_seconds l') hi (?hist j) \<le> max_requests l')"
    proof (cases "j = ip")
      case False
      with o l'(2) show ?thesis by (intro exI [of _ old]) auto
    next
      case True
      have "sorted (requests m ip)" using o(1,3) True by (simp add: sorted_append)
      then obtain d where d: "requests m ip = d @ kept" "\<forall>t \<in> set d. t \<le> now - window_seconds m"
        using filter_gt_suffix unfolding kept_def by blast
      have count: "window_count (window_seconds m) hi (hist ip @ [now]) \<le> max_requests m" if "ok" for hi
      proof (cases "now \<le> hi")
        case True
        have "window_count (window_seconds m) hi (old @ d) = 0"
          using o(2) d(2) True by (intro window_count_old) auto
        then have "window_count (window_seconds m) hi (hist ip) = window_count (window_seconds m) hi kept"
          using o(1) d(1) \<open>j = ip\<close> by simp
        then have "window_count (window_seconds m) hi (hist ip) < max_requests m"
          using window_count_le [of "window_seconds m" hi kept] l'(1) that by linarith
        then show ?thesis by (simp add: window_count_def)
      next
        case False
        then have "window_count (window_seconds m) hi [now] = 0" by (simp add: window_count_def)
        then show ?thesis using o(5) True by simp
      qed
      from o d l' True count show ?thesis
        by (intro exI [of _ "old @ d"]) (auto simp: sorted_append)
    qed
  qed
qed

lemma run_limiter_params:
  "run_limiter calls l = (hits, l') \<Longrightarrow> window_seconds l' = window_seconds l \<and> max_requests l' = max_requests l"
  by (induction calls l arbitrary: hits l' rule: run_limiter.induct)
     (auto simp: Let_def split: prod.splits if_splits dest!: is_allowed_params)

definition times_of :: "string \<Rightarrow> (real \<times> string) list \<Rightarrow> real list" where
  "times_of ip hits = map fst (filter (\<lambda>(t, i). i = ip) hits)"

lemma run_limiter_remembers:
  "run_limiter calls l = (hits, l') \<Longrightarrow> remembers now l hist \<Longrightarrow> sorted (now # map fst calls) \<Longrightarrow>
   \<exists>later. remembers later l' (\<lambda>ip. hist ip @ times_of ip hits)"
proof (induction calls l arbitrary: hits l' now hist rule: run_limiter.induct)
  case (1 l)
  then show ?case by (auto simp: times_of_def)
next
  case (2 t ip calls l)
  obtain ok m where m: "is_allowed t ip l = (ok, m)" by fastforce
  obtain log1 l1 where r: "run_limiter calls m = (log1, l1)" by fastforce
  from 2(2) m r have hits: "hits = (if ok then (t, ip) # log1 else log1)" "l' = l1" by auto
  have "remembers t l hist" using remembers_later [OF 2(3)] 2(4) by simp
  then have s: "remembers t m (if ok then hist(ip := hist ip @ [t]) else hist)"
    using is_allowed_remembers m by blast
  have "sorted (t # map fst calls)" using 2(4) by simp
  from 2(1) [OF m [symmetric] refl r s this] obtain later where
    "remembers later l1 (\<lambda>j. (if ok then hist(ip := hist ip @ [t]) else hist) j @ times_of j log1)" by blast
  moreover have "(\<lambda>j. (if ok then hist(ip := hist ip @ [t]) else hist) j @ times_of j log1)
      = (\<lambda>j. hist j @ times_of j hits)"
    by (auto simp: hits times_of_def)
  ultimately show ?case using hits by auto
qed

lemma admitted_between_times: "admitted_between (hi - w) hi ip hits = window_count w hi (times_of ip hits)"
proof -
  have "filter (\<lambda>(t, i). i = ip \<and> hi - w < t \<and> t \<le> hi) hits
      = filter (\<lambda>p. hi - w < fst p \<and> fst p \<le> hi) (filter (\<lambda>(t, i). i = ip) hits)"
    by (simp add: case_prod_beta' conj_commute)
  then show ?thesis
    by (simp add: admitted_between_def window_count_def times_of_def filter_map comp_def)
qed

text \<open>
  C10.  The rate limit holds for every sliding window: whatever calls arrive, as long as the clock
  does not run backwards, no client is admitted more than \<open>max_requests\<close> times in any half-open
  interval of \<open>window_seconds\<close>, the periodic clean-up of idle clients included.
\<close>

theorem rate_limit_sliding_window:
  assumes "sorted (start # map fst calls)"
    and "run_limiter calls (new_limiter n w start) = (hits, l')"
  shows "admitted_between (hi - w) hi ip hits \<le> n"
proof -
  have "remembers start (new_limiter n w start) (\<lambda>_. [])"
    by (simp add: remembers_def new_limiter_def window_count_def)
  from run_limiter_remembers [OF assms(2) this assms(1)] obtain later where
    "remembers later l' (\<lambda>ip. times_of ip hits)" by auto
  moreover have "window_seconds l' = w" "max_requests l' = n"
    using run_limiter_params [OF assms(2)] by (simp_all add: new_limiter_def)
  ultimately show ?thesis
    unfolding remembers_def admitted_between_times by metis
qed

theorem rate_limit_sliding_window_witness:
  "run_limiter [(0, ''a''), (10, ''a''), (20, ''a''), (61, ''a'')] (new_limiter 2 60 0)
     = ([(0, ''a''), (10, ''a''), (61, ''a'')],
        snd (run_limiter [(0, ''a''), (10, ''a''), (20, ''a''), (61, ''a'')] (new_limiter 2 60 0)))
   \<and> admitted_between (61 - 60) 61 ''a'' [(0, ''a''), (10, ''a''), (61, ''a'')] \<le> 2"
proof -
  let ?calls = "[(0, ''a''), (10, ''a''), (20, ''a''), (61, ''a'')] :: (real \<times> string) list"
  have r: "run_limiter ?calls (new_limiter 2 60 0)
      = ([(0, ''a''), (10, ''a''), (61, ''a'')], snd (run_limiter ?calls (new_limiter 2 60 0)))"
    by (simp add: new_limiter_def is_allowed_def sweep_idle_def Let_def)
  have "sorted (0 # map fst ?calls)" by simp
  from rate_limit_sliding_window [OF this r] r show ?thesis by blast
qed


section \<open>Who reaches the application\<close>

text \<open>The credential an internal caller presents, and the entry conditions of each principal.\<close>

definition internal_credential :: "mw_config \<Rightarrow> scope \<Rightarrow> bool" where
  "internal_credential c sc = (case internal_client_key c of None \<Rightarrow> False
     | Some k \<Rightarrow> k \<noteq> [] \<and> verify_api_key (provided_key c (header_dict (sc_headers sc))) [k])"

definition relay_credential :: "mw_config \<Rightarrow> scope \<Rightarrow> bool" where
  "relay_credential c sc = (case relay_key c of None \<Rightarrow> False
     | Some k \<Rightarrow> k \<noteq> [] \<and> header_dict (sc_headers sc) ''authorization'' = Some (''Bearer '' @ k))"

fun may_enter :: "mw_config \<Rightarrow> scope \<Rightarrow> principal option \<Rightarrow> bool" where
  "may_enter c sc None \<longleftrightarrow> sc_type sc \<noteq> ''http'' \<or> path_in (sc_path sc) PUBLIC_PATHS
     \<or> (path_in (sc_path sc) OAUTH_PROBE_PATHS \<and> upper_method sc \<in> {''GET'', ''HEAD''})"
| "may_enter c sc (Some Internal) \<longleftrightarrow> is_loopback (sc_client sc) \<and>
     (if sc_path sc = Some ''/internal/delegation/v1''
      then relay_credential c sc \<and> sc_method sc = Some ''POST''
      else internal_credential c sc
        \<and> (\<forall>name \<in> set FORWARDED_HEADERS. header_dict (sc_headers sc) name = None))"
| "may_enter c sc (Some Public) \<longleftrightarrow> sc_path sc \<noteq> Some ''/internal/delegation/v1''
     \<and> is_host_allowed (or_default [] (header_dict (sc_headers sc) ''host'')) (allowed_hosts c)
     \<and> verify_api_key (provided_key c (header_dict (sc_headers sc))) [api_key c]
     \<and> \<not> internal_credential c sc"

lemma authenticate_Inr:
  "authenticate c sc = Inr who \<Longrightarrow>
     (if who = Internal then internal_credential c sc \<and> is_loopback (sc_client sc)
        \<and> (\<forall>name \<in> set FORWARDED_HEADERS. header_dict (sc_headers sc) name = None)
      else \<not> internal_credential c sc
        \<and> verify_api_key (provided_key c (header_dict (sc_headers sc))) [api_key c])"
  by (auto simp: authenticate_def Let_def internal_credential_def list_ex_iff
      split: if_splits option.splits)

lemma deliver_principal: "deliver c sc msgs who = ToApp p rs \<Longrightarrow> p = Some who"
  by (auto simp: deliver_def split: if_splits sum.splits option.splits)

lemma relay_request_app:
  "relay_request c now sc msgs l = (ToApp p rs, l') \<Longrightarrow>
     p = Some Internal \<and> is_loopback (sc_client sc) \<and> relay_credential c sc \<and> sc_method sc = Some ''POST''"
  by (cases "relay_key c"; cases "header_dict (sc_headers sc) ''authorization''")
     (auto simp: relay_request_def Let_def relay_credential_def or_default_def
       split: if_splits option.splits sum.splits prod.splits)

lemma relay_not_probe: "\<not> path_in (Some ''/internal/delegation/v1'') PUBLIC_PATHS"
  by code_simp

text \<open>The part of the middleware behind the host check and the rate limiter.\<close>

lemma middleware_call_app:
  assumes "middleware_call c now sc msgs l = (ToApp p rs, l')"
    and "sc_type sc = ''http''" "\<not> path_in (sc_path sc) PUBLIC_PATHS"
    and "sc_path sc \<noteq> Some ''/internal/delegation/v1''"
  shows "is_host_allowed (or_default [] (header_dict (sc_headers sc) ''host'')) (allowed_hosts c)
    \<and> ((p = None \<and> rs = Untouched \<and> path_in (sc_path sc) OAUTH_PROBE_PATHS \<and> upper_method sc \<in> {''GET'', ''HEAD''})
       \<or> (\<exists>who. authenticate c sc = Inr who \<and> deliver c sc msgs who = ToApp p rs))"
  using assms by (auto simp: middleware_call_def Let_def split: if_splits prod.splits sum.splits)

text \<open>
  C11.  Every request the middleware hands to the application meets the entry conditions of the
  principal it runs as: without credentials only the public documents and the two OAuth probe
  paths (GET and HEAD) are served; the internal principal needs either the relay credential on the
  relay route by POST or the internal credential without any forwarding header, and in both cases
  a loopback peer; the public principal needs an allowed host and the API key.
\<close>

theorem middleware_entry_conditions:
  assumes "middleware_call c now sc msgs l = (ToApp p rs, l')"
  shows "may_enter c sc p"
proof (cases "sc_type sc \<noteq> ''http'' \<or> path_in (sc_path sc) PUBLIC_PATHS")
  case True
  with assms have "p = None" by (cases "sc_type sc = ''http''") (simp_all add: middleware_call_def)
  with True show ?thesis by simp
next
  case False
  show ?thesis
  proof (cases "sc_path sc = Some ''/internal/delegation/v1''")
    case True
    with False assms have "relay_request c now sc msgs l = (ToApp p rs, l')"
      by (simp add: middleware_call_def)
    from relay_request_app [OF this] True show ?thesis by simp
  next
    case path: False
    note app = middleware_call_app [OF assms _ _ path] False
    show ?thesis
    proof (cases p)
      case None
      with app path show ?thesis using deliver_principal by (auto dest: deliver_principal)
    next
      case (Some q)
      with app path obtain who where w: "authenticate c sc = Inr who" "deliver c sc msgs who = ToApp p rs"
        by auto
      then have "q = who" using deliver_principal Some by blast
      with Some w(1) app path show ?thesis using authenticate_Inr [OF w(1)] by (cases q) auto
    qed
  qed
qed

definition demo_config :: mw_config where
  "demo_config = \<lparr>api_key = ''pub'', allowed_hosts = [''localhost:*'', ''127.0.0.1''],
     header_name = ''X-AgentPorter-Key'', legacy_header_name = None, max_payload_bytes = 10,
     relay_key = Some ''rel'', internal_client_key = Some ''int''\<rparr>"

definition demo_scope :: scope where
  "demo_scope = \<lparr>sc_type = ''http'', sc_path = Some ''/files'', sc_method = Some ''POST'',
     sc_headers = [(''host'', ''LocalHost:8765''), (''x-agentporter-key'', ''Bearer int'')],
     sc_client = Some ''127.0.0.1''\<rparr>"

definition demo_limiter :: limiter where
  "demo_limiter = new_limiter 5 60 0"

theorem middleware_entry_conditions_witness:
  "fst (middleware_call demo_config 1 demo_scope [HttpRequest ''abc'' True, HttpRequest ''d'' False] demo_limiter)
     = ToApp (Some Internal) (Replay [HttpRequest ''abc'' True, HttpRequest ''d'' False])
   \<and> may_enter demo_config demo_scope (Some Internal)"
proof -
  let ?msgs = "[HttpRequest ''abc'' True, HttpRequest ''d'' False]"
  have static: "is_host_allowed (or_default [] (header_dict (sc_headers demo_scope) ''host'')) (allowed_hosts demo_config)"
    "authenticate demo_config demo_scope = Inr Internal" "\<not> path_in (sc_path demo_scope) PUBLIC_PATHS"
    "header_dict (sc_headers demo_scope) ''content-length'' = None" "upper_method demo_scope = ''POST''"
    "isdigit [] = False"
    "deliver demo_config demo_scope ?msgs Internal = ToApp (Some Internal) (Replay ?msgs)"
    by code_simp+
  have call: "fst (middleware_call demo_config 1 demo_scope ?msgs demo_limiter)
      = ToApp (Some Internal) (Replay ?msgs)"
    using static by (simp add: middleware_call_def Let_def demo_scope_def or_default_def demo_limiter_def
        new_limiter_def is_allowed_def sweep_idle_def)
  then obtain l' where "middleware_call demo_config 1 demo_scope ?msgs demo_limiter
      = (ToApp (Some Internal) (Replay ?msgs), l')" by (metis prod.collapse)
  from middleware_entry_conditions [OF this] call show ?thesis by blast
qed


section \<open>Bounded bodies\<close>

fun body_len :: "message \<Rightarrow> nat" where
  "body_len (HttpRequest b _) = length b"
| "body_len HttpDisconnect = 0"

definition total_body :: "message list \<Rightarrow> nat" where
  "total_body ms = sum_list (map body_len ms)"

lemma total_body_simps [simp]:
  "total_body [] = 0" "total_body (m # ms) = body_len m + total_body ms"
  "total_body (xs @ ys) = total_body xs + total_body ys"
  by (simp_all add: total_body_def)

lemma buffer_body_ok:
  "buffer_body limit acc used msgs = Inr (Some out) \<Longrightarrow> used = total_body acc \<Longrightarrow> used \<le> limit \<Longrightarrow>
     total_body out \<le> limit \<and> (\<exists>mine rest. msgs = mine @ rest \<and> out = acc @ mine)"
proof (induction limit acc used msgs rule: buffer_body.induct)
  case (3 limit acc used body again ms)
  then show ?case by (auto split: if_splits)
qed auto

lemma relay_body_bound: "relay_body data msgs = Inr (Some out) \<Longrightarrow> length out \<le> 32768"
  by (induction data msgs rule: relay_body.induct) (auto split: if_splits)

text \<open>
  A body the application gets to read through the middleware's buffer is bounded: at most
  32768 bytes on the relay route and at most \<open>max_payload_bytes\<close> elsewhere, where the replayed
  messages are exactly the first messages the client sent.
\<close>

theorem middleware_bounded_body:
  assumes "middleware_call c now sc msgs l = (ToApp p (Replay ms), l')"
  shows "if sc_path sc = Some ''/internal/delegation/v1'' then total_body ms \<le> 32768
    else total_body ms \<le> max_payload_bytes c \<and> (\<exists>rest. msgs = ms @ rest)"
proof -
  have http: "sc_type sc = ''http''" "\<not> path_in (sc_path sc) PUBLIC_PATHS"
    using assms by (auto simp: middleware_call_def split: if_splits)
  show ?thesis
  proof (cases "sc_path sc = Some ''/internal/delegation/v1''")
    case True
    then have "relay_request c now sc msgs l = (ToApp p (Replay ms), l')"
      using assms http by (simp add: middleware_call_def)
    then have "\<exists>data. relay_body [] msgs = Inr (Some data) \<and> ms = [HttpRequest data False, HttpDisconnect]"
      by (auto simp: relay_request_def Let_def split: if_splits sum.splits option.splits prod.splits)
    with relay_body_bound True show ?thesis by fastforce
  next
    case False
    from middleware_call_app [OF assms http False] obtain who where
      "deliver c sc msgs who = ToApp p (Replay ms)" by auto
    then have "buffer_body (max_payload_bytes c) [] 0 msgs = Inr (Some ms)"
      by (auto simp: deliver_def split: if_splits sum.splits option.splits)
    from buffer_body_ok [OF this] False show ?thesis by auto
  qed
qed

theorem middleware_bounded_body_witness:
  "total_body [HttpRequest ''abc'' True, HttpRequest ''d'' False] \<le> 10
   \<and> (\<exists>rest. [HttpRequest ''abc'' True, HttpRequest ''d'' False, HttpDisconnect]
        = [HttpRequest ''abc'' True, HttpRequest ''d'' False] @ rest)"
proof -
  let ?ms = "[HttpRequest ''abc'' True, HttpRequest ''d'' False]"
  have static: "is_host_allowed (or_default [] (header_dict (sc_headers demo_scope) ''host'')) (allowed_hosts demo_config)"
    "authenticate demo_config demo_scope = Inr Internal" "\<not> path_in (sc_path demo_scope) PUBLIC_PATHS"
    "header_dict (sc_headers demo_scope) ''content-length'' = None" "upper_method demo_scope = ''POST''"
    "isdigit [] = False" "sc_path demo_scope \<noteq> Some ''/internal/delegation/v1''"
    "max_payload_bytes demo_config = 10"
    "deliver demo_config demo_scope (?ms @ [HttpDisconnect]) Internal = ToApp (Some Internal) (Replay ?ms)"
    by code_simp+
  have "fst (middleware_call demo_config 1 demo_scope (?ms @ [HttpDisconnect]) demo_limiter)
      = ToApp (Some Internal) (Replay ?ms)"
    using static by (simp add: middleware_call_def Let_def demo_scope_def or_default_def demo_limiter_def
        new_limiter_def is_allowed_def sweep_idle_def)
  then obtain l' where "middleware_call demo_config 1 demo_scope (?ms @ [HttpDisconnect]) demo_limiter
      = (ToApp (Some Internal) (Replay ?ms), l')" by (metis prod.collapse)
  from middleware_bounded_body [OF this] static show ?thesis by simp
qed

definition superscript_scope :: scope where
  "superscript_scope = demo_scope\<lparr>sc_headers := (''content-length'', [CHR 0xB2]) # sc_headers demo_scope\<rparr>"

text \<open>
  The declared-length check raises instead of answering: a \<open>content-length\<close> of one superscript
  digit passes \<open>isdigit\<close> and is refused by \<open>int\<close>, so the request fails with an uncaught
  \<open>ValueError\<close> before authentication.
\<close>

theorem content_length_superscript_raises:
  "fst (middleware_call demo_config 1 superscript_scope [] demo_limiter) = Raised ValueError"
proof -
  have "is_host_allowed (or_default [] (header_dict (sc_headers superscript_scope) ''host'')) (allowed_hosts demo_config)"
    "\<not> path_in (sc_path superscript_scope) PUBLIC_PATHS" "sc_type superscript_scope = ''http''"
    "sc_path superscript_scope = Some ''/files''"
    "isdigit (or_default [] (header_dict (sc_headers superscript_scope) ''content-length''))"
    "parse_int (or_default [] (header_dict (sc_headers superscript_scope) ''content-length'')) = Inl ValueError"
    by code_simp+
  then show ?thesis
    by (simp add: middleware_call_def Let_def demo_limiter_def new_limiter_def is_allowed_def sweep_idle_def)
qed

end
