(* ===== verification/Client_Policy.thy ===== *)
theory Client_Policy
  imports Registry Ingress
begin

text \<open>
  \<open>client_policy.py\<close>: what a public client may do.  The owner grants operations per workspace; the
  policy checks every call, filters listings, and records which jobs a public client started, so
  that job tools reach only those.  The parsed policy document is an input; the job table is the
  SQLite table \<open>public_jobs\<close> with the job id as primary key.
\<close>

section \<open>Operations and scopes\<close>

definition GLOBAL_READ :: "string list" where
  "GLOBAL_READ = [''get_capabilities'', ''server_deploy_info'', ''list_agents'', ''list_workspaces'']"

definition OPERATIONS :: "(string \<times> string) list" where
  "OPERATIONS =
     map (\<lambda>n. (n, ''read'')) [''workspace_info'', ''list_files'', ''read_file'', ''search_text'', ''list_artifacts'', ''read_artifact'']
     @ map (\<lambda>n. (n, ''write'')) [''write_file'', ''apply_patch'', ''mkdir'', ''move_path'', ''trash_path'']
     @ map (\<lambda>n. (n, ''git_read'')) [''git_status'', ''git_diff'', ''git_log'', ''git_show'', ''git_branch'']
     @ map (\<lambda>n. (n, ''git_write'')) [''git_add'', ''git_checkout'']
     @ [(''git_fetch'', ''git_fetch''), (''git_pull'', ''git_pull''), (''git_commit'', ''write''),
        (''git_push'', ''git_push''), (''dispatch_agent'', ''dispatch''), (''exec_run'', ''exec''),
        (''exec_start'', ''exec''), (''https_download'', ''https'')]"

definition JOB_READ :: "string list" where
  "JOB_READ = [''job_status'', ''job_output'', ''job_result'']"

definition JOB_CONTROL :: "string list" where
  "JOB_CONTROL = [''job_cancel'']"

definition SCOPES :: "string list" where
  "SCOPES = [''read'', ''write'', ''exec'', ''https'', ''git_read'', ''git_write'', ''git_fetch'', ''git_pull'',
     ''git_clone'', ''git_commit'', ''git_push'', ''dispatch'', ''dispatch_write'']"

text \<open>
  The policy object and its durable table.  \<open>cp_scopes = None\<close> is the legacy profile without an
  installed policy; the principal is the context variable set by the middleware.
\<close>

record client_policy =
  cp_scopes :: "(string \<times> string list) list option"
  cp_internal_key :: "string option"
  cp_registry :: registry

type_synonym job_table = "(string \<times> string) list"

section \<open>Loading the policy\<close>

definition parse_operations :: "pyval list \<Rightarrow> string list result" where
  "parse_operations ops =
     (if list_all is_pstr ops \<and> set (map the_str ops) \<subseteq> set SCOPES \<and> distinct (map the_str ops)
      then Inr (map the_str ops) else Inl ValueError)"

text \<open>One workspace row: exact fields, known operations, a root that is the registered one and
  does not contain the gateway's own directories.\<close>

definition load_scope_row :: "host_fs \<Rightarrow> registry \<Rightarrow> string list list \<Rightarrow> string \<Rightarrow> pyval \<Rightarrow> (string \<times> string list) result" where
  "load_scope_row fs reg protected name v = (case v of
     PDict row \<Rightarrow>
       (if field_names row \<noteq> {''path'', ''operations''} then Inl ValueError
        else (case (dict_get row ''path'', dict_get row ''operations'') of
            (PStr path, PList ops) \<Rightarrow>
              rbind (parse_operations ops) (\<lambda>granted.
              rbind (get reg name) (\<lambda>ws.
                if \<not> is_abs path \<or> realpath fs path \<noteq> ws_path ws then Inl PermissionError
                else if list_ex (\<lambda>p. starts_with (nonempty_parts (ws_path ws)) p) protected then Inl PermissionError
                else Inr (name, granted)))
          | _ \<Rightarrow> Inl ValueError))
   | _ \<Rightarrow> Inl ValueError)"

definition load_scopes :: "host_fs \<Rightarrow> registry \<Rightarrow> string list list \<Rightarrow> pyval \<Rightarrow> (string \<times> string list) list result" where
  "load_scopes fs reg protected document = (case document of
     PDict d \<Rightarrow>
       if field_names d \<noteq> {''version'', ''workspaces''} \<or> dict_get d ''version'' \<noteq> PInt 1 then Inl ValueError
       else (case dict_get d ''workspaces'' of
           PDict rows \<Rightarrow> rmap_list (\<lambda>(name, row). load_scope_row fs reg protected name row) rows
         | _ \<Rightarrow> Inl ValueError)
   | _ \<Rightarrow> Inl ValueError)"

definition internal_key_ok :: "string \<Rightarrow> bool" where
  "internal_key_ok k \<longleftrightarrow> class_match (\<lambda>c. is_alnum c \<or> c \<in> set ''_-'') 32 256 k"

text \<open>
  The constructor.  \<open>policy_doc\<close> is the parsed policy file (\<open>None\<close>: no such file), \<open>key_text\<close> the
  stripped content of the internal credential file if there is one; both files passed the
  ownership checks of \<open>_private\<close> when they are given.
\<close>

definition new_client_policy :: "host_fs \<Rightarrow> registry \<Rightarrow> string \<Rightarrow> string \<Rightarrow> bool
    \<Rightarrow> pyval option \<Rightarrow> string option \<Rightarrow> client_policy result" where
  "new_client_policy fs reg config_dir state_dir required policy_doc key_text =
     (case policy_doc of
        None \<Rightarrow> if required then Inl PermissionError
                else Inr \<lparr>cp_scopes = None, cp_internal_key = None, cp_registry = reg\<rparr>
      | Some document \<Rightarrow>
          rbind (load_scopes fs reg [realpath_comps fs config_dir, realpath_comps fs state_dir] document) (\<lambda>scopes.
            (case key_text of
               None \<Rightarrow> Inr \<lparr>cp_scopes = Some scopes, cp_internal_key = None, cp_registry = reg\<rparr>
             | Some k \<Rightarrow> if internal_key_ok k
                 then Inr \<lparr>cp_scopes = Some scopes, cp_internal_key = Some k, cp_registry = reg\<rparr>
                 else Inl ValueError)))"

section \<open>Checking a call\<close>

definition is_public :: "client_policy \<Rightarrow> principal option \<Rightarrow> bool" where
  "is_public cp who \<longleftrightarrow> cp_scopes cp \<noteq> None \<and> who \<noteq> Some Internal"

definition scope_table :: "client_policy \<Rightarrow> (string \<times> string list) list" where
  "scope_table cp = (case cp_scopes cp of None \<Rightarrow> [] | Some t \<Rightarrow> t)"

text \<open>\<open>self.scopes.get(workspace, ())\<close> for an argument of any type.\<close>

definition scopes_of :: "client_policy \<Rightarrow> pyval \<Rightarrow> string list" where
  "scopes_of cp w = (case w of PStr n \<Rightarrow> (case map_of (scope_table cp) n of None \<Rightarrow> [] | Some s \<Rightarrow> s) | _ \<Rightarrow> [])"

definition in_scope :: "client_policy \<Rightarrow> pyval \<Rightarrow> bool" where
  "in_scope cp w = (case w of PStr n \<Rightarrow> n \<in> field_names (scope_table cp) | _ \<Rightarrow> False)"

definition check_job :: "client_policy \<Rightarrow> job_table \<Rightarrow> string \<Rightarrow> pydict \<Rightarrow> unit result" where
  "check_job cp jobs action args =
     (case (case dict_get args ''job_id'' of PStr j \<Rightarrow> map_of jobs j | _ \<Rightarrow> None) of
        None \<Rightarrow> Inl PermissionError
      | Some w \<Rightarrow>
          if w \<notin> field_names (scope_table cp) then Inl PermissionError
          else if action \<in> set JOB_CONTROL \<and> {''exec'', ''dispatch''} \<inter> set (scopes_of cp (PStr w)) = {}
          then Inl PermissionError else Inr ())"

definition required_operation :: "string \<Rightarrow> pydict \<Rightarrow> string option" where
  "required_operation action args =
     (if action \<in> {''exec_run'', ''exec_start''} \<and> map_of args ''network_access'' = Some (PBool True) then Some ''https''
      else if action = ''git_pull'' \<and> map_of args ''operation'' = Some (PStr ''clone'') then Some ''git_clone''
      else map_of OPERATIONS action)"

definition check_writable_dispatch :: "client_policy \<Rightarrow> pydict \<Rightarrow> unit result" where
  "check_writable_dispatch cp args =
     (if truthy (dict_get args ''allow_push'') then Inl PublicDispatchDenied
      else if (case map_of args ''read_only'' of None \<Rightarrow> True | Some v \<Rightarrow> v = PBool True) then Inr ()
      else (case dict_get args ''workspace_id'' of
          PStr n \<Rightarrow> rbind (get (cp_registry cp) n) (\<lambda>ws.
            require ({''dispatch'', ''write'', ''dispatch_write''} \<subseteq> set (scopes_of cp (PStr n)) \<and> writable ws)
              PublicDispatchDenied)
        | _ \<Rightarrow> Inl KeyError))"

definition client_check :: "client_policy \<Rightarrow> principal option \<Rightarrow> job_table \<Rightarrow> string \<Rightarrow> pydict \<Rightarrow> unit result" where
  "client_check cp who jobs action args =
     (if \<not> is_public cp who then Inr ()
      else if who \<noteq> Some Public then Inl PermissionError
      else if action \<in> set GLOBAL_READ then
        require (\<not> (action = ''list_agents'' \<and> dict_get args ''workspace_id'' \<noteq> PNone
                    \<and> \<not> in_scope cp (dict_get args ''workspace_id''))) PermissionError
      else if action \<in> set JOB_READ \<union> set JOB_CONTROL then check_job cp jobs action args
      else (case required_operation action args of
          None \<Rightarrow> Inl (if action = ''dispatch_agent'' then PublicDispatchDenied else PermissionError)
        | Some operation \<Rightarrow>
            if operation \<notin> set (scopes_of cp (dict_get args ''workspace_id''))
            then Inl (if action = ''dispatch_agent'' then PublicDispatchDenied else PermissionError)
            else if action = ''dispatch_agent'' then check_writable_dispatch cp args
            else Inr ()))"

section \<open>Filtering a result\<close>

definition str_list :: "pyval \<Rightarrow> string list" where
  "str_list v = (case v of PList xs \<Rightarrow> map the_str (filter is_pstr xs) | _ \<Rightarrow> [])"

definition ws_flag :: "client_policy \<Rightarrow> (workspace \<Rightarrow> bool) \<Rightarrow> string \<Rightarrow> bool" where
  "ws_flag cp f n = (case get (cp_registry cp) n of Inl _ \<Rightarrow> False | Inr w \<Rightarrow> f w)"

definition dispatch_scoped :: "client_policy \<Rightarrow> string list" where
  "dispatch_scoped cp = filter (\<lambda>n. ''dispatch'' \<in> set (scopes_of cp (PStr n))
       \<and> ws_flag cp allow_agent_dispatch n \<and> ws_flag cp allow_execute n) (map fst (scope_table cp))"

definition lstrip_sep :: "string \<Rightarrow> string" where
  "lstrip_sep s = dropWhile (\<lambda>c. c = CHR '';'' \<or> c = CHR '' '') s"

definition readiness_note :: string where
  "readiness_note = ''Runtime checks do not verify provider quota or '' @
     ''successful execution; public dispatch requires an admitted workspace.''"

text \<open>The workspaces an agent may be dispatched to: the scoped ones the runtime reports, with the
  development profile reporting none when it names none.\<close>

definition agent_allowed :: "client_policy \<Rightarrow> pydict \<Rightarrow> string list" where
  "agent_allowed cp original =
     (let scoped = dispatch_scoped cp;
          runtime = (if dict_get original ''runtime_dispatch_workspaces'' = PNone
              then (if map_of original ''runtime_profile'' = Some (PStr ''development'') then [] else scoped)
              else str_list (dict_get original ''runtime_dispatch_workspaces''))
      in sort (remdups (filter (\<lambda>n. n \<in> set runtime) scoped)))"

definition agent_writable :: "client_policy \<Rightarrow> pydict \<Rightarrow> string list" where
  "agent_writable cp original = filter
     (\<lambda>n. n \<in> set (str_list (dict_get original ''runtime_writable_dispatch_workspaces''))
        \<and> {''write'', ''dispatch_write''} \<subseteq> set (scopes_of cp (PStr n)) \<and> ws_flag cp writable n)
     (agent_allowed cp original)"

definition agent_ready :: "pydict \<Rightarrow> bool" where
  "agent_ready row \<longleftrightarrow> map_of row ''delegatable'' = Some (PBool True)
     \<and> map_of row ''available'' = Some (PBool True) \<and> map_of row ''registered'' = Some (PBool True)"

definition agent_authorized :: "client_policy \<Rightarrow> pyval \<Rightarrow> pydict \<Rightarrow> bool" where
  "agent_authorized cp w original = (if w = PNone then agent_allowed cp original \<noteq> []
     else w \<in> PStr ` set (agent_allowed cp original))"

definition agent_update :: "client_policy \<Rightarrow> pyval \<Rightarrow> pydict \<Rightarrow> pydict" where
  "agent_update cp w original =
     (let row = dict_pop ''runtime_writable_dispatch_workspaces'' (dict_pop ''runtime_dispatch_workspaces'' original);
          can_write = agent_writable cp original;
          row1 = dict_set ''readiness_note'' (PStr readiness_note)
            (dict_set ''delegatable'' (PBool (agent_ready original \<and> agent_authorized cp w original))
            (dict_set ''public_dispatch_read_only'' (PBool (if w = PNone then can_write = [] else w \<notin> PStr ` set can_write))
            (dict_set ''public_writable_dispatch_workspaces'' (PList (map PStr can_write))
            (dict_set ''public_dispatch_workspaces'' (PList (map PStr (agent_allowed cp original)))
            (dict_set ''runtime_delegatable'' (PBool (agent_ready original)) row)))))
      in if w = PNone then row1
         else dict_set ''workspace_dispatch_authorized'' (PBool (agent_authorized cp w original)) row1)"

definition agent_row :: "client_policy \<Rightarrow> pyval \<Rightarrow> pydict \<Rightarrow> pydict" where
  "agent_row cp w original =
     (let row = agent_update cp w original;
          reason = (case map_of row ''availability_reason'' of Some (PStr s) \<Rightarrow> s | _ \<Rightarrow> [])
      in if agent_authorized cp w original then row
         else dict_set ''availability_reason'' (PStr (lstrip_sep (reason @
           ''; public delegation is not authorized for '' @
           (if w = PNone then ''any workspace'' else ''this workspace'')))) row)"

definition workspace_result :: "client_policy \<Rightarrow> pydict \<Rightarrow> pyval \<Rightarrow> pydict" where
  "workspace_result cp row w =
     (case map_of row ''permissions'' of
        Some (PDict perms) \<Rightarrow>
          dict_set ''permissions'' (PDict (dict_set ''agent_dispatch''
            (PBool (truthy (dict_get perms ''agent_dispatch'') \<and> ''dispatch'' \<in> set (scopes_of cp w))) perms)) row
      | _ \<Rightarrow> row)"

datatype tool_result = Rows "pydict list" | Row pydict | OtherResult

text \<open>\<open>INSERT INTO public_jobs\<close> with the primary key on the job id.\<close>

definition insert_job :: "string \<Rightarrow> string \<Rightarrow> job_table \<Rightarrow> job_table result" where
  "insert_job j w jobs = (if j \<in> field_names jobs then Inl IntegrityError else Inr ((j, w) # jobs))"

definition client_result :: "client_policy \<Rightarrow> principal option \<Rightarrow> job_table \<Rightarrow> string \<Rightarrow> pydict \<Rightarrow> tool_result
    \<Rightarrow> (tool_result \<times> job_table) result" where
  "client_result cp who jobs action args res =
     (if \<not> is_public cp who then Inr (res, jobs)
      else (case res of
         Rows rows \<Rightarrow>
           if action = ''list_agents'' then Inr (Rows (map (agent_row cp (dict_get args ''workspace_id'')) rows), jobs)
           else if action = ''list_workspaces'' then
             Inr (Rows (map (\<lambda>row. workspace_result cp row (dict_get row ''workspace_id''))
               (filter (\<lambda>row. in_scope cp (dict_get row ''workspace_id'')) rows)), jobs)
           else Inr (res, jobs)
       | Row row \<Rightarrow>
           if action = ''workspace_info'' then Inr (Row (workspace_result cp row (dict_get args ''workspace_id'')), jobs)
           else if action \<in> {''dispatch_agent'', ''exec_start''} then
             (case (dict_get row ''job_id'', dict_get args ''workspace_id'') of
                (PStr j, PStr w) \<Rightarrow> if j = [] then Inr (res, jobs)
                   else rbind (insert_job j w jobs) (\<lambda>jobs'. Inr (res, jobs'))
              | _ \<Rightarrow> Inr (res, jobs))
           else Inr (res, jobs)
       | OtherResult \<Rightarrow> Inr (res, jobs)))"


section \<open>What an authorised call implies\<close>

lemmas client_check_cases = sum.splits option.splits if_splits pyval.splits

lemma scopes_of_PStr: "op \<in> set (scopes_of cp w) \<Longrightarrow>
   \<exists>n ops. w = PStr n \<and> map_of (scope_table cp) n = Some ops \<and> op \<in> set ops"
  by (cases w; cases "map_of (scope_table cp) (the_str w)") (auto simp: scopes_of_def)

text \<open>The job rows a public call may reach: its own workspace is still in scope.\<close>

definition reachable_job :: "client_policy \<Rightarrow> job_table \<Rightarrow> pyval \<Rightarrow> string \<Rightarrow> string \<Rightarrow> bool" where
  "reachable_job cp jobs v j w \<longleftrightarrow> v = PStr j \<and> map_of jobs j = Some w \<and> w \<in> field_names (scope_table cp)"

lemma check_job_Inr:
  "check_job cp jobs action args = Inr () \<Longrightarrow>
   \<exists>j w. reachable_job cp jobs (dict_get args ''job_id'') j w
     \<and> (action \<in> set JOB_CONTROL \<longrightarrow> {''exec'', ''dispatch''} \<inter> set (scopes_of cp (PStr w)) \<noteq> {})"
  by (auto simp: check_job_def reachable_job_def split: client_check_cases)

lemma client_check_Inr:
  assumes "client_check cp who jobs action args = Inr ()" and "is_public cp who"
  shows "who = Some Public \<and>
    (action \<in> set GLOBAL_READ
     \<or> (\<exists>j w. action \<in> set JOB_READ \<union> set JOB_CONTROL \<and> reachable_job cp jobs (dict_get args ''job_id'') j w)
     \<or> (\<exists>n ops op. dict_get args ''workspace_id'' = PStr n \<and> map_of (scope_table cp) n = Some ops
          \<and> required_operation action args = Some op \<and> op \<in> set ops
          \<and> (action = ''dispatch_agent'' \<longrightarrow> check_writable_dispatch cp args = Inr ())))"
proof -
  from assms have who: "who = Some Public" by (auto simp: client_check_def split: if_splits)
  consider "action \<in> set GLOBAL_READ" | "action \<in> set JOB_READ \<union> set JOB_CONTROL" "action \<notin> set GLOBAL_READ"
    | "action \<notin> set GLOBAL_READ" "action \<notin> set JOB_READ \<union> set JOB_CONTROL" by blast
  then show ?thesis
  proof cases
    case 1
    with who show ?thesis by simp
  next
    case 2
    with assms have "check_job cp jobs action args = Inr ()" by (simp add: client_check_def split: if_splits)
    with check_job_Inr 2 who show ?thesis by blast
  next
    case 3
    with assms have "(case required_operation action args of
          None \<Rightarrow> Inl (if action = ''dispatch_agent'' then PublicDispatchDenied else PermissionError)
        | Some operation \<Rightarrow>
            if operation \<notin> set (scopes_of cp (dict_get args ''workspace_id''))
            then Inl (if action = ''dispatch_agent'' then PublicDispatchDenied else PermissionError)
            else if action = ''dispatch_agent'' then check_writable_dispatch cp args
            else Inr ()) = Inr ()"
      by (simp add: client_check_def split: if_splits)
    then obtain op where op: "required_operation action args = Some op"
        "op \<in> set (scopes_of cp (dict_get args ''workspace_id''))"
        "action = ''dispatch_agent'' \<longrightarrow> check_writable_dispatch cp args = Inr ()"
      by (auto split: option.splits if_splits)
    from scopes_of_PStr [OF op(2)] op(1,3) who show ?thesis by blast
  qed
qed

text \<open>
  C5.  A public call that passes the client check was granted: it names a global read, or a job whose
  recorded workspace is in scope, or a workspace whose owner granted exactly the operation the action
  requires (\<open>https\<close> for execution with network access, \<open>git_clone\<close> for a clone).
\<close>

theorem public_calls_are_granted:
  assumes "client_check cp who jobs action args = Inr ()" and "is_public cp who"
    and "action \<notin> set GLOBAL_READ" and "action \<notin> set JOB_READ \<union> set JOB_CONTROL"
  shows "\<exists>n ops op. dict_get args ''workspace_id'' = PStr n \<and> map_of (scope_table cp) n = Some ops
    \<and> op \<in> set ops \<and> op \<noteq> []
    \<and> (if action \<in> {''exec_run'', ''exec_start''} \<and> map_of args ''network_access'' = Some (PBool True)
       then op = ''https''
       else if action = ''git_pull'' \<and> map_of args ''operation'' = Some (PStr ''clone'')
       then op = ''git_clone'' else map_of OPERATIONS action = Some op)"
proof -
  have nonempty: "op \<noteq> []" if "map_of OPERATIONS action = Some op" for op
    using map_of_SomeD [OF that] by (auto simp: OPERATIONS_def)
  from client_check_Inr [OF assms(1,2)] assms(3,4) obtain n ops op where
    op: "dict_get args ''workspace_id'' = PStr n" "map_of (scope_table cp) n = Some ops"
      "required_operation action args = Some op" "op \<in> set ops" by blast
  from op(3) nonempty have "op \<noteq> [] \<and>
      (if action \<in> {''exec_run'', ''exec_start''} \<and> map_of args ''network_access'' = Some (PBool True)
       then op = ''https''
       else if action = ''git_pull'' \<and> map_of args ''operation'' = Some (PStr ''clone'')
       then op = ''git_clone'' else map_of OPERATIONS action = Some op)"
    by (auto simp: required_operation_def split: if_splits)
  with op(1,2,4) show ?thesis by blast
qed

text \<open>
  Delegation from a public client never pushes; it writes only into a registered writable
  workspace for which the owner granted \<open>dispatch\<close>, \<open>write\<close> and \<open>dispatch_write\<close> together.
\<close>

theorem writable_dispatch_needs_three_scopes:
  assumes "client_check cp who jobs ''dispatch_agent'' args = Inr ()" and "is_public cp who"
  shows "\<not> truthy (dict_get args ''allow_push'') \<and>
    (\<exists>n ops. dict_get args ''workspace_id'' = PStr n \<and> map_of (scope_table cp) n = Some ops
       \<and> ''dispatch'' \<in> set ops
       \<and> (map_of args ''read_only'' \<notin> {None, Some (PBool True)} \<longrightarrow>
            {''write'', ''dispatch_write''} \<subseteq> set ops
            \<and> (\<exists>ws. get (cp_registry cp) n = Inr ws \<and> writable ws)))"
proof -
  have not_other: "''dispatch_agent'' \<notin> set GLOBAL_READ" "''dispatch_agent'' \<notin> set JOB_READ \<union> set JOB_CONTROL"
    by (auto simp: GLOBAL_READ_def JOB_READ_def JOB_CONTROL_def)
  have "required_operation ''dispatch_agent'' args = Some ''dispatch''"
    by (simp add: required_operation_def OPERATIONS_def)
  with client_check_Inr [OF assms] not_other obtain n ops where
    n: "dict_get args ''workspace_id'' = PStr n" "map_of (scope_table cp) n = Some ops"
      "''dispatch'' \<in> set ops" "check_writable_dispatch cp args = Inr ()" by auto
  then have push: "\<not> truthy (dict_get args ''allow_push'')"
    by (auto simp: check_writable_dispatch_def split: if_splits)
  have "{''write'', ''dispatch_write''} \<subseteq> set ops \<and> (\<exists>ws. get (cp_registry cp) n = Inr ws \<and> writable ws)"
    if "map_of args ''read_only'' \<notin> {None, Some (PBool True)}"
  proof -
    from that have "\<not> (case map_of args ''read_only'' of None \<Rightarrow> True | Some v \<Rightarrow> v = PBool True)"
      by (auto split: option.splits)
    with n push have "rbind (get (cp_registry cp) n) (\<lambda>ws.
        require ({''dispatch'', ''write'', ''dispatch_write''} \<subseteq> set (scopes_of cp (PStr n)) \<and> writable ws)
              PublicDispatchDenied) = Inr ()"
      by (auto simp: check_writable_dispatch_def split: if_splits)
    with n(2) show ?thesis by (cases "get (cp_registry cp) n") (auto simp: scopes_of_def)
  qed
  with n push show ?thesis by blast
qed

section \<open>Job ownership\<close>

text \<open>A job id is recorded once: the primary key makes the table a single-use ledger.\<close>

definition record_job :: "string \<times> string \<Rightarrow> job_table \<Rightarrow> job_table result" where
  "record_job row jobs = insert_job (fst row) (snd row) jobs"

interpretation job_owners: single_use record_job fst field_names
  by unfold_locales (auto simp: record_job_def insert_job_def field_names_def split: if_splits)

text \<open>
  The gateway as a step relation over its policy and the job table.  The database outlives the process, so a restart
  keeps the table and loads any policy.  A call that is refused, or whose result cannot be recorded, leaves the table;
  otherwise the tool runs with any outcome and the result filter records the job.  Other calls may have changed the table
  since the check, which therefore saw any table.  The trace lists the completed public calls, oldest first, each with the
  policy it was served under.
\<close>

record completed =
  c_policy :: client_policy
  c_action :: string
  c_args :: pydict
  c_result :: tool_result

inductive serves :: "client_policy \<Rightarrow> job_table \<Rightarrow> completed list \<Rightarrow> bool" where
  created: "serves cp [] []"
| restarted: "serves cp jobs tr \<Longrightarrow> serves cp' jobs tr"
| internal: "serves cp jobs tr \<Longrightarrow> \<not> is_public cp who \<Longrightarrow> client_check cp who seen action args = Inr ()
    \<Longrightarrow> client_result cp who jobs action args res = Inr (out, jobs') \<Longrightarrow> serves cp jobs' tr"
| public: "serves cp jobs tr \<Longrightarrow> is_public cp who \<Longrightarrow> client_check cp who seen action args = Inr ()
    \<Longrightarrow> client_result cp who jobs action args res = Inr (out, jobs')
    \<Longrightarrow> serves cp jobs' (tr @ [\<lparr>c_policy = cp, c_action = action, c_args = args, c_result = res\<rparr>])"

definition started_by :: "completed \<Rightarrow> string \<Rightarrow> string \<Rightarrow> bool" where
  "started_by c j w \<longleftrightarrow> c_action c \<in> {''dispatch_agent'', ''exec_start''}
     \<and> dict_get (c_args c) ''workspace_id'' = PStr w
     \<and> (\<exists>row. c_result c = Row row \<and> dict_get row ''job_id'' = PStr j)"

lemma client_result_internal:
  "\<not> is_public cp who \<Longrightarrow> client_result cp who jobs action args res = Inr (out, jobs') \<Longrightarrow> jobs' = jobs"
  by (simp add: client_result_def)

lemma client_result_jobs:
  assumes "client_result cp who jobs action args res = Inr (out, jobs')"
  shows "jobs' = jobs \<or> (\<exists>j w. jobs' = (j, w) # jobs \<and> j \<notin> field_names jobs
    \<and> started_by \<lparr>c_policy = cp, c_action = action, c_args = args, c_result = res\<rparr> j w)"
proof (cases "\<exists>row j w. is_public cp who \<and> res = Row row \<and> action \<noteq> ''workspace_info''
    \<and> action \<in> {''dispatch_agent'', ''exec_start''}
    \<and> dict_get row ''job_id'' = PStr j \<and> dict_get args ''workspace_id'' = PStr w \<and> j \<noteq> []")
  case True
  then obtain row j w where "is_public cp who" "res = Row row" "action \<in> {''dispatch_agent'', ''exec_start''}"
    "action \<noteq> ''workspace_info''" "dict_get row ''job_id'' = PStr j" "dict_get args ''workspace_id'' = PStr w" "j \<noteq> []"
    by blast
  with assms show ?thesis
    by (auto simp: client_result_def started_by_def insert_job_def split: if_splits)
next
  case False
  with assms show ?thesis
    by (auto simp: client_result_def split: if_splits tool_result.splits pyval.splits)
qed

definition may_start :: "client_policy \<Rightarrow> string \<Rightarrow> bool" where
  "may_start cp w \<longleftrightarrow> (\<exists>op \<in> {''dispatch'', ''exec'', ''https''}. op \<in> set (scopes_of cp (PStr w)))"

definition owned_by_trace :: "job_table \<Rightarrow> completed list \<Rightarrow> bool" where
  "owned_by_trace jobs tr \<longleftrightarrow> distinct (map fst jobs) \<and>
     (\<forall>(j, w) \<in> set jobs. \<exists>c \<in> set tr. started_by c j w \<and> may_start (c_policy c) w)"

lemma started_needs_scope:
  assumes "client_check cp who jobs action args = Inr ()" "is_public cp who"
    and "action \<in> {''dispatch_agent'', ''exec_start''}" "dict_get args ''workspace_id'' = PStr w"
  shows "may_start cp w"
proof -
  from assms(3) have "action \<notin> set GLOBAL_READ \<and> action \<notin> set JOB_READ \<union> set JOB_CONTROL"
    by (auto simp: GLOBAL_READ_def JOB_READ_def JOB_CONTROL_def)
  with client_check_Inr [OF assms(1,2)] assms(4) obtain ops op where
    op: "map_of (scope_table cp) w = Some ops" "required_operation action args = Some op" "op \<in> set ops" by auto
  from op(2) assms(3) have "op \<in> {''dispatch'', ''exec'', ''https''}"
    by (auto simp: required_operation_def OPERATIONS_def split: if_splits)
  with op show ?thesis by (auto simp: may_start_def scopes_of_def)
qed

lemma serves_owned: "serves cp jobs tr \<Longrightarrow> owned_by_trace jobs tr"
proof (induction rule: serves.induct)
  case (internal cp jobs tr who seen action args res out jobs')
  then show ?case using client_result_internal by metis
next
  case (public cp jobs tr who seen action args res out jobs')
  let ?c = "\<lparr>c_policy = cp, c_action = action, c_args = args, c_result = res\<rparr>"
  from client_result_jobs [OF public.hyps(4)] show ?case
  proof
    assume "jobs' = jobs"
    with public.IH show ?thesis by (fastforce simp: owned_by_trace_def)
  next
    assume "\<exists>j w. jobs' = (j, w) # jobs \<and> j \<notin> field_names jobs \<and> started_by ?c j w"
    then obtain j w where new: "jobs' = (j, w) # jobs" "j \<notin> field_names jobs" "started_by ?c j w" by blast
    with started_needs_scope [OF public.hyps(3,2)] have "may_start cp w" by (simp add: started_by_def)
    with new public.IH show ?thesis by (fastforce simp: owned_by_trace_def field_names_def)
  qed
qed (auto simp: owned_by_trace_def)

text \<open>
  C4.  Job isolation across restarts and policy changes.  Whatever calls the gateway has served under whatever policies
  since the job table was created, a public client whose job call passes the check now reaches only a job that an earlier
  public \<open>dispatch_agent\<close> or \<open>exec_start\<close> call started, under a policy that granted dispatch, execution or network execution
  in its workspace; that workspace is the one recorded for the job and is in scope of the policy in force now, and a
  cancellation needs an execution or dispatch grant of the policy in force now.
\<close>

theorem public_job_isolation:
  assumes "serves cp jobs tr" and "is_public cp who"
    and "action \<in> {''job_status'', ''job_output'', ''job_result'', ''job_cancel''}"
    and "client_check cp who jobs action args = Inr ()"
  shows "\<exists>j w. dict_get args ''job_id'' = PStr j \<and> (\<exists>c \<in> set tr. started_by c j w \<and> may_start (c_policy c) w)
    \<and> w \<in> field_names (scope_table cp)
    \<and> (action = ''job_cancel'' \<longrightarrow> (\<exists>op \<in> {''exec'', ''dispatch''}. op \<in> set (scopes_of cp (PStr w))))
    \<and> (\<forall>w'. (j, w') \<in> set jobs \<longleftrightarrow> w' = w)"
proof -
  from assms(2,3,4) have "check_job cp jobs action args = Inr ()"
    by (auto simp: client_check_def GLOBAL_READ_def JOB_READ_def JOB_CONTROL_def split: if_splits)
  from check_job_Inr [OF this] obtain j w where
    j: "dict_get args ''job_id'' = PStr j" "map_of jobs j = Some w" "w \<in> field_names (scope_table cp)"
    and control: "action \<in> set JOB_CONTROL \<longrightarrow> {''exec'', ''dispatch''} \<inter> set (scopes_of cp (PStr w)) \<noteq> {}"
    unfolding reachable_job_def by blast
  from serves_owned [OF assms(1)] have owned: "owned_by_trace jobs tr" .
  then have "distinct (map fst jobs)" by (simp add: owned_by_trace_def)
  then have "(j, w') \<in> set jobs \<longleftrightarrow> w' = w" for w' using map_of_eq_Some_iff [of jobs j w'] j(2) by auto
  moreover from owned map_of_SomeD [OF j(2)] have "\<exists>c \<in> set tr. started_by c j w \<and> may_start (c_policy c) w"
    unfolding owned_by_trace_def by blast
  moreover from control have "action = ''job_cancel'' \<longrightarrow> (\<exists>op \<in> {''exec'', ''dispatch''}. op \<in> set (scopes_of cp (PStr w)))"
    by (auto simp: JOB_CONTROL_def)
  ultimately show ?thesis using j(1,3) by blast
qed

section \<open>Filtered listings\<close>

lemma dispatch_scoped_iff:
  "n \<in> set (dispatch_scoped cp) \<longleftrightarrow> (\<exists>ops ws. map_of (scope_table cp) n = Some ops \<and> ''dispatch'' \<in> set ops
     \<and> get (cp_registry cp) n = Inr ws \<and> allow_agent_dispatch ws \<and> allow_execute ws)"
proof (cases "map_of (scope_table cp) n")
  case None
  then have "n \<notin> set (map fst (scope_table cp))" by (simp add: map_of_eq_None_iff)
  with None show ?thesis by (simp add: dispatch_scoped_def)
next
  case (Some ops)
  then have "n \<in> set (map fst (scope_table cp))" using map_of_Some_field by (fastforce simp: field_names_def)
  with Some show ?thesis
    by (cases "map_of (cp_registry cp) n") (simp_all add: dispatch_scoped_def scopes_of_def ws_flag_def get_def)
qed

lemmas row_lookups = map_of_dict_set map_of_dict_pop dict_get_def

lemma map_of_agent_update:
  "map_of (agent_update cp w original) ''delegatable''
     = Some (PBool (agent_ready original \<and> agent_authorized cp w original))"
  by (simp add: agent_update_def Let_def map_of_dict_set)

lemma map_of_agent_row:
  "map_of (agent_row cp w original) ''delegatable''
     = Some (PBool (agent_ready original \<and> agent_authorized cp w original))"
  using map_of_agent_update [of cp w original] by (simp add: agent_row_def Let_def map_of_dict_set)

lemma agent_allowed_subset: "set (agent_allowed cp original) \<subseteq> set (dispatch_scoped cp)"
  by (auto simp: agent_allowed_def Let_def)

lemma agent_row_delegatable:
  assumes "map_of (agent_row cp w original) ''delegatable'' = Some (PBool True)"
  shows "map_of original ''delegatable'' = Some (PBool True)"
    and "map_of original ''available'' = Some (PBool True)"
    and "map_of original ''registered'' = Some (PBool True)"
    and "\<exists>n \<in> set (dispatch_scoped cp). w \<in> {PNone, PStr n}"
proof -
  from assms have a: "agent_ready original" "agent_authorized cp w original" by (simp_all add: map_of_agent_row)
  from a(1) show "map_of original ''delegatable'' = Some (PBool True)"
    "map_of original ''available'' = Some (PBool True)" "map_of original ''registered'' = Some (PBool True)"
    by (simp_all add: agent_ready_def)
  show "\<exists>n \<in> set (dispatch_scoped cp). w \<in> {PNone, PStr n}"
  proof (cases "w = PNone")
    case True
    with a(2) have "hd (agent_allowed cp original) \<in> set (agent_allowed cp original)"
      by (simp add: agent_authorized_def)
    with True agent_allowed_subset show ?thesis by blast
  next
    case False
    with a(2) agent_allowed_subset show ?thesis unfolding agent_authorized_def by auto
  qed
qed

text \<open>
  A public listing never promises more than the owner granted: an agent row is shown delegatable
  only if the runtime reported it delegatable, available and registered, and some workspace (the
  named one, when one is named) has the \<open>dispatch\<close> scope and is registered for delegation and
  execution; a workspace row is shown only for a workspace in scope.
\<close>

theorem public_listings_are_filtered:
  assumes "client_result cp who jobs action args (Rows rows) = Inr (Rows out, jobs')" and "is_public cp who"
    and "row \<in> set out"
  shows "(action = ''list_workspaces'' \<longrightarrow> in_scope cp (dict_get row ''workspace_id''))
    \<and> (action = ''list_agents'' \<and> map_of row ''delegatable'' = Some (PBool True) \<longrightarrow>
        (\<exists>n ops ws. (dict_get args ''workspace_id'' \<in> {PNone, PStr n})
           \<and> map_of (scope_table cp) n = Some ops \<and> ''dispatch'' \<in> set ops
           \<and> get (cp_registry cp) n = Inr ws \<and> allow_agent_dispatch ws \<and> allow_execute ws)
        \<and> (\<exists>original \<in> set rows. map_of original ''delegatable'' = Some (PBool True)
             \<and> map_of original ''available'' = Some (PBool True)
             \<and> map_of original ''registered'' = Some (PBool True)))"
proof -
  have workspaces: "in_scope cp (dict_get row ''workspace_id'')" if "action = ''list_workspaces''"
  proof -
    from assms that obtain r where r: "in_scope cp (dict_get r ''workspace_id'')"
      "row = workspace_result cp r (dict_get r ''workspace_id'')"
      by (auto simp: client_result_def)
    then have "dict_get row ''workspace_id'' = dict_get r ''workspace_id''"
      by (simp add: workspace_result_def row_lookups split: option.splits pyval.splits)
    with r show ?thesis by simp
  qed
  have agents: "(\<exists>n ops ws. (dict_get args ''workspace_id'' \<in> {PNone, PStr n})
           \<and> map_of (scope_table cp) n = Some ops \<and> ''dispatch'' \<in> set ops
           \<and> get (cp_registry cp) n = Inr ws \<and> allow_agent_dispatch ws \<and> allow_execute ws)
        \<and> (\<exists>original \<in> set rows. map_of original ''delegatable'' = Some (PBool True)
             \<and> map_of original ''available'' = Some (PBool True)
             \<and> map_of original ''registered'' = Some (PBool True))"
    if "action = ''list_agents''" "map_of row ''delegatable'' = Some (PBool True)"
  proof -
    from assms that(1) obtain r where r: "r \<in> set rows" "row = agent_row cp (dict_get args ''workspace_id'') r"
      by (auto simp: client_result_def)
    note d = agent_row_delegatable [OF that(2) [unfolded r(2)]]
    from d(4) obtain n where n: "n \<in> set (dispatch_scoped cp)" "dict_get args ''workspace_id'' \<in> {PNone, PStr n}"
      by blast
    from n(1) [unfolded dispatch_scoped_iff] n(2) r(1) d(1-3) show ?thesis by blast
  qed
  from workspaces agents show ?thesis by blast
qed

lemma load_scope_row_Inr:
  assumes "load_scope_row fs reg protected name v = Inr (n, ops)"
  shows "n = name \<and> distinct ops \<and> set ops \<subseteq> set SCOPES
    \<and> (\<exists>ws. get reg n = Inr ws \<and> (\<forall>p \<in> set protected. \<not> starts_with (nonempty_parts (ws_path ws)) p))"
proof -
  from assms obtain row path xs where
    "rbind (parse_operations xs) (\<lambda>granted. rbind (get reg name) (\<lambda>ws.
       if \<not> is_abs path \<or> realpath fs path \<noteq> ws_path ws then Inl PermissionError
       else if list_ex (\<lambda>p. starts_with (nonempty_parts (ws_path ws)) p) protected then Inl PermissionError
       else Inr (name, granted))) = Inr (n, ops)"
    unfolding load_scope_row_def by (cases v) (auto split: if_splits pyval.splits)
  then obtain granted ws where "parse_operations xs = Inr granted" "get reg name = Inr ws"
    "\<not> list_ex (\<lambda>p. starts_with (nonempty_parts (ws_path ws)) p) protected" "n = name" "ops = granted"
    by (auto split: sum.splits if_splits)
  then show ?thesis by (auto simp: parse_operations_def list_ex_iff split: if_splits)
qed

text \<open>
  C6.  An installed policy is well formed: every scope row names a registered workspace, holds known
  operations without repetition, and its root contains neither the configuration nor the state
  directory of the gateway; a required policy that is absent stops the start.
\<close>

theorem loaded_scopes_wellformed:
  assumes "new_client_policy fs reg config_dir state_dir required policy_doc key_text = Inr cp"
  shows "(required \<longrightarrow> cp_scopes cp \<noteq> None)
    \<and> (\<forall>k. cp_internal_key cp = Some k \<longrightarrow> 32 \<le> length k \<and> length k \<le> 256)
    \<and> (\<forall>(n, ops) \<in> set (scope_table cp). distinct ops \<and> set ops \<subseteq> set SCOPES
         \<and> (\<exists>ws. get reg n = Inr ws
              \<and> \<not> starts_with (nonempty_parts (ws_path ws)) (realpath_comps fs config_dir)
              \<and> \<not> starts_with (nonempty_parts (ws_path ws)) (realpath_comps fs state_dir)))"
proof (cases policy_doc)
  case None
  with assms show ?thesis by (auto simp: new_client_policy_def scope_table_def split: if_splits)
next
  case (Some document)
  with assms obtain scopes where l: "load_scopes fs reg
      [realpath_comps fs config_dir, realpath_comps fs state_dir] document = Inr scopes"
    and cp: "cp_scopes cp = Some scopes"
      "\<And>k. cp_internal_key cp = Some k \<Longrightarrow> internal_key_ok k"
    by (auto simp: new_client_policy_def split: sum.splits option.splits if_splits)
  from l obtain rows where rows: "rmap_list (\<lambda>(name, row). load_scope_row fs reg
      [realpath_comps fs config_dir, realpath_comps fs state_dir] name row) rows = Inr scopes"
    by (auto simp: load_scopes_def split: pyval.splits if_splits)
  have "distinct ops \<and> set ops \<subseteq> set SCOPES
         \<and> (\<exists>ws. get reg n = Inr ws
              \<and> \<not> starts_with (nonempty_parts (ws_path ws)) (realpath_comps fs config_dir)
              \<and> \<not> starts_with (nonempty_parts (ws_path ws)) (realpath_comps fs state_dir))"
    if "(n, ops) \<in> set scopes" for n ops
    using rmap_list_member [OF rows that] load_scope_row_Inr [of fs reg _ _ _ n ops] by fastforce
  with cp show ?thesis by (auto simp: scope_table_def internal_key_ok_def dest: class_match_length)
qed

section \<open>A concrete client policy\<close>

definition demo_workspace :: workspace where
  "demo_workspace = \<lparr>ws_id = ''w1'', ws_path = ''/srv/w'', writable = True, description = [], allow_execute = True,
     allow_git = True, allow_artifacts = True, allow_agent_dispatch = True, auto_discover = False,
     local_http_ports = []\<rparr>"

definition demo_client_document :: pyval where
  "demo_client_document = PDict [(''version'', PInt 1), (''workspaces'',
     PDict [(''w1'', PDict [(''path'', PStr ''/srv/w''),
       (''operations'', PList (map PStr [''read'', ''write'', ''exec'', ''dispatch'', ''dispatch_write'']))])])]"

definition demo_client :: client_policy where
  "demo_client = \<lparr>cp_scopes = Some [(''w1'', [''read'', ''write'', ''exec'', ''dispatch'', ''dispatch_write''])],
     cp_internal_key = Some (replicate 32 (CHR ''k'')), cp_registry = [(''w1'', demo_workspace)]\<rparr>"

definition demo_agent :: pydict where
  "demo_agent = [(''agent'', PStr ''codex_impl''), (''delegatable'', PBool True), (''available'', PBool True),
     (''registered'', PBool True)]"

theorem loaded_scopes_wellformed_witness:
  "new_client_policy demo_fs [(''w1'', demo_workspace)] ''/srv/cfg'' ''/srv/state'' True (Some demo_client_document)
     (Some (replicate 32 (CHR ''k''))) = Inr demo_client
   \<and> cp_scopes demo_client \<noteq> None"
proof -
  have l: "new_client_policy demo_fs [(''w1'', demo_workspace)] ''/srv/cfg'' ''/srv/state'' True
     (Some demo_client_document) (Some (replicate 32 (CHR ''k''))) = Inr demo_client"
    by code_simp
  with loaded_scopes_wellformed [OF l] show ?thesis by blast
qed

theorem public_calls_are_granted_witness:
  "\<exists>n ops op. dict_get [(''workspace_id'', PStr ''w1'')] ''workspace_id'' = PStr n
    \<and> map_of (scope_table demo_client) n = Some ops \<and> op \<in> set ops \<and> op \<noteq> []"
proof -
  have c: "client_check demo_client (Some Public) [] ''read_file'' [(''workspace_id'', PStr ''w1'')] = Inr ()"
    "is_public demo_client (Some Public)" "''read_file'' \<notin> set GLOBAL_READ"
    "''read_file'' \<notin> set JOB_READ \<union> set JOB_CONTROL"
    by code_simp+
  from public_calls_are_granted [OF c] show ?thesis by blast
qed

theorem writable_dispatch_needs_three_scopes_witness:
  "client_check demo_client (Some Public) [] ''dispatch_agent''
      [(''workspace_id'', PStr ''w1''), (''read_only'', PBool False)] = Inr ()
   \<and> writable demo_workspace
   \<and> (\<exists>n ops. map_of (scope_table demo_client) n = Some ops \<and> {''write'', ''dispatch_write''} \<subseteq> set ops)"
proof -
  have c: "client_check demo_client (Some Public) [] ''dispatch_agent''
      [(''workspace_id'', PStr ''w1''), (''read_only'', PBool False)] = Inr ()"
    "is_public demo_client (Some Public)" by code_simp+
  have r: "map_of [(''workspace_id'', PStr ''w1''), (''read_only'', PBool False)] ''read_only''
      \<notin> {None, Some (PBool True)}" by simp
  from writable_dispatch_needs_three_scopes [OF c] r c show ?thesis by (auto simp: demo_workspace_def)
qed

theorem public_listings_are_filtered_witness:
  "\<exists>out jobs'. client_result demo_client (Some Public) [] ''list_agents'' [] (Rows [demo_agent]) = Inr (Rows out, jobs')
    \<and> out \<noteq> [] \<and> (\<exists>n ops. map_of (scope_table demo_client) n = Some ops \<and> ''dispatch'' \<in> set ops)"
proof -
  have c: "client_result demo_client (Some Public) [] ''list_agents'' [] (Rows [demo_agent])
      = Inr (Rows [agent_row demo_client PNone demo_agent], [])"
    "is_public demo_client (Some Public)"
    "map_of (agent_row demo_client PNone demo_agent) ''delegatable'' = Some (PBool True)"
    by code_simp+
  from public_listings_are_filtered [OF c(1,2), of "agent_row demo_client PNone demo_agent"] c show ?thesis by auto
qed

text \<open>A job started under one policy, polled after a restart with another one that still has the workspace in scope.\<close>

definition demo_client_later :: client_policy where
  "demo_client_later = demo_client\<lparr>cp_scopes := Some [(''w1'', [''read''])]\<rparr>"

theorem public_job_isolation_witness:
  "\<exists>tr. serves demo_client_later [(''j1'', ''w1'')] tr
    \<and> client_check demo_client_later (Some Public) [(''j1'', ''w1'')] ''job_status'' [(''job_id'', PStr ''j1'')] = Inr ()
    \<and> (\<exists>c \<in> set tr. started_by c ''j1'' ''w1'' \<and> may_start (c_policy c) ''w1'')"
proof -
  have c: "client_check demo_client (Some Public) [] ''exec_start'' [(''workspace_id'', PStr ''w1'')] = Inr ()"
    "is_public demo_client (Some Public)"
    "client_result demo_client (Some Public) [] ''exec_start'' [(''workspace_id'', PStr ''w1'')]
       (Row [(''job_id'', PStr ''j1'')]) = Inr (Row [(''job_id'', PStr ''j1'')], [(''j1'', ''w1'')])"
    "is_public demo_client_later (Some Public)"
    "client_check demo_client_later (Some Public) [(''j1'', ''w1'')] ''job_status'' [(''job_id'', PStr ''j1'')] = Inr ()"
    "''job_status'' \<in> {''job_status'', ''job_output'', ''job_result'', ''job_cancel''}"
    by code_simp+
  from serves.restarted [OF serves.public [OF serves.created c(2,1,3)]]
  obtain tr where tr: "serves demo_client_later [(''j1'', ''w1'')] tr" by blast
  from public_job_isolation [OF tr c(4,6,5)] obtain j w c' where
    "dict_get [(''job_id'', PStr ''j1'')] ''job_id'' = PStr j" "c' \<in> set tr" "started_by c' j w" "may_start (c_policy c') w"
    "\<forall>w'. (j, w') \<in> set [(''j1'', ''w1'')] \<longleftrightarrow> w' = w" by blast
  moreover from this(1) have "j = ''j1''" by (simp add: dict_get_def)
  moreover from this calculation(5) have "w = ''w1''" by (metis list.set_intros(1))
  ultimately have "\<exists>c \<in> set tr. started_by c ''j1'' ''w1'' \<and> may_start (c_policy c) ''w1''" by blast
  with tr c(5) show ?thesis by blast
qed

end
