(* ===== verification/Tool_Gate.thy ===== *)
theory Tool_Gate
  imports Action_Policy Client_Policy
begin

text \<open>
  The wrapper of \<open>server.py\<close> around every tool (\<open>_monitored_tool\<close>): operator check, client check, the
  tool itself, the client's result filter, and one audit event.  The REST and MCP routes call only
  wrapped tools.  Also the guards of \<open>build_mcp_server\<close> over the profile it is started with.
\<close>

section \<open>The wrapper\<close>

record event =
  ev_tool :: string
  ev_workspace :: pyval
  ev_path :: pyval
  ev_job :: pyval
  ev_agent :: pyval
  ev_network :: pyval
  ev_ok :: bool

definition log_tool_event :: "string \<Rightarrow> pydict \<Rightarrow> bool \<Rightarrow> event" where
  "log_tool_event tool_name kwargs ok = \<lparr>ev_tool = tool_name, ev_workspace = dict_get kwargs ''workspace_id'',
     ev_path = dict_get kwargs ''path'', ev_job = dict_get kwargs ''job_id'', ev_agent = dict_get kwargs ''agent'',
     ev_network = dict_get kwargs ''network_access'', ev_ok = ok\<rparr>"

text \<open>
  The gateway's context of a call: the pinned operator policy with the present control files, the
  client policy with its principal, and the state the tools work on (\<open>'w\<close>).
\<close>

record gate_env =
  g_sha :: "string \<Rightarrow> string"
  g_uid :: int
  g_policy :: "operator_policy option"
  g_control :: control_files
  g_client :: "client_policy option"
  g_principal :: "principal option"

record 'w gate_state =
  s_jobs :: job_table
  s_world :: 'w
  s_log :: "event list"

definition operator_check :: "gate_env \<Rightarrow> string \<Rightarrow> pydict \<Rightarrow> unit result" where
  "operator_check g action kwargs = (case g_policy g of None \<Rightarrow> Inr ()
     | Some p \<Rightarrow> rbind (check (g_sha g) (g_uid g) p (g_control g) action kwargs) (\<lambda>_. Inr ()))"

definition principal_check :: "gate_env \<Rightarrow> job_table \<Rightarrow> string \<Rightarrow> pydict \<Rightarrow> unit result" where
  "principal_check g jobs action kwargs = (case g_client g of None \<Rightarrow> Inr ()
     | Some cp \<Rightarrow> client_check cp (g_principal g) jobs action kwargs)"

definition principal_result :: "gate_env \<Rightarrow> job_table \<Rightarrow> string \<Rightarrow> pydict \<Rightarrow> tool_result
    \<Rightarrow> (tool_result \<times> job_table) result" where
  "principal_result g jobs action kwargs res = (case g_client g of None \<Rightarrow> Inr (res, jobs)
     | Some cp \<Rightarrow> client_result cp (g_principal g) jobs action kwargs res)"

definition log_call :: "string \<Rightarrow> pydict \<Rightarrow> bool \<Rightarrow> 'w gate_state \<Rightarrow> 'w gate_state" where
  "log_call tool_name kwargs ok s = s\<lparr>s_log := s_log s @ [log_tool_event tool_name kwargs ok]\<rparr>"

text \<open>The tool \<open>fn\<close> may change the world and then raise.\<close>

definition monitored_tool :: "gate_env \<Rightarrow> string \<Rightarrow> (pydict \<Rightarrow> 'w \<Rightarrow> tool_result result \<times> 'w) \<Rightarrow> pydict
    \<Rightarrow> 'w gate_state \<Rightarrow> tool_result result \<times> 'w gate_state" where
  "monitored_tool g tool_name fn kwargs s =
     (case operator_check g tool_name kwargs of
        Inl e \<Rightarrow> (Inl e, log_call tool_name kwargs False s)
      | Inr _ \<Rightarrow>
     (case principal_check g (s_jobs s) tool_name kwargs of
        Inl e \<Rightarrow> (Inl e, log_call tool_name kwargs False s)
      | Inr _ \<Rightarrow>
     (case fn kwargs (s_world s) of
        (Inl e, w) \<Rightarrow> (Inl e, log_call tool_name kwargs False (s\<lparr>s_world := w\<rparr>))
      | (Inr res, w) \<Rightarrow>
     (case principal_result g (s_jobs s) tool_name kwargs res of
        Inl e \<Rightarrow> (Inl e, log_call tool_name kwargs False (s\<lparr>s_world := w\<rparr>))
      | Inr (out, jobs) \<Rightarrow> (Inr out, log_call tool_name kwargs True (s\<lparr>s_world := w, s_jobs := jobs\<rparr>))))))"

section \<open>Startup guards\<close>

record profile =
  pf_policy_required :: bool       \<comment> \<open>\<open>public_client_policy_required\<close>\<close>
  pf_gateway_resources :: bool     \<comment> \<open>a gateway resource file is installed\<close>
  pf_runtime :: bool               \<comment> \<open>a development runtime is configured\<close>
  pf_job_resources :: bool         \<comment> \<open>the runtime's \<open>job_resources\<close>\<close>
  pf_port :: int
  pf_host :: string
  pf_transactions :: bool

definition has_resources :: "profile \<Rightarrow> bool" where
  "has_resources pf \<longleftrightarrow> pf_gateway_resources pf \<or> (pf_runtime pf \<and> pf_job_resources pf)"

definition startup_guards :: "profile \<Rightarrow> client_policy \<Rightarrow> unit result" where
  "startup_guards pf cp =
     (let role = pf_gateway_resources pf \<or> pf_runtime pf in
      if pf_policy_required pf \<and> cp_internal_key cp = None then Inl PermissionError
      else if pf_gateway_resources pf \<and> pf_runtime pf then Inl PermissionError
      else if pf_gateway_resources pf \<and> cp_scopes cp = None then Inl PermissionError
      else if pf_port pf \<in> {18765, 18876}
           \<and> (\<not> role \<or> \<not> has_resources pf \<or> pf_host pf \<noteq> ''127.0.0.1'') then Inl PermissionError
      else if pf_transactions pf \<and> \<not> has_resources pf then Inl PermissionError
      else Inr ())"

section \<open>Properties of the gate\<close>

lemma log_call_simps [simp]:
  "s_jobs (log_call t k ok s) = s_jobs s" "s_world (log_call t k ok s) = s_world s"
  "s_log (log_call t k ok s) = s_log s @ [log_tool_event t k ok]"
  by (simp_all add: log_call_def)

lemma monitored_refused:
  "operator_check g t k = Inl e \<or> principal_check g (s_jobs s) t k = Inl e \<Longrightarrow>
   \<exists>e. monitored_tool g t fn k s = (Inl e, log_call t k False s)"
  by (auto simp: monitored_tool_def split: sum.splits)

text \<open>
  C3.  No tool takes effect unless both policies accept the call: if the tool's state or the job table
  changes, then the operator policy accepted the action, unlocked in the built-in table and with
  its control files unchanged, and the client policy accepted the caller.
\<close>

theorem effects_need_both_checks:
  assumes "monitored_tool g t fn k s = (r, s')" and "s_world s' \<noteq> s_world s \<or> s_jobs s' \<noteq> s_jobs s"
  shows "operator_check g t k = Inr () \<and> principal_check g (s_jobs s) t k = Inr ()
    \<and> (\<forall>p. g_policy g = Some p \<longrightarrow> (\<exists>b. baseline_of t = Some b \<and> b \<noteq> LOCKED)
         \<and> assert_control (g_sha g) (g_uid g) p (g_control g) = Inr ())"
proof -
  have op: "operator_check g t k = Inr ()"
  proof (cases "operator_check g t k")
    case (Inl e)
    with monitored_refused [of g t k e s fn] assms show ?thesis by auto
  qed simp
  have cl: "principal_check g (s_jobs s) t k = Inr ()"
  proof (cases "principal_check g (s_jobs s) t k")
    case (Inl e)
    with monitored_refused [of g t k e s fn] assms show ?thesis by auto
  qed simp
  have "(\<exists>b. baseline_of t = Some b \<and> b \<noteq> LOCKED)
         \<and> assert_control (g_sha g) (g_uid g) p (g_control g) = Inr ()" if "g_policy g = Some p" for p
  proof -
    from op that obtain m where "check (g_sha g) (g_uid g) p (g_control g) t k = Inr m"
      by (auto simp: operator_check_def split: sum.splits)
    from check_Inr [OF this] show ?thesis by blast
  qed
  with op cl show ?thesis by blast
qed

text \<open>
  Push is out of reach: whatever the operator document grants, a \<open>git_push\<close> call through the gate
  fails and leaves both the tool's state and the job table as they were.
\<close>

theorem push_never_runs:
  assumes "g_policy g = Some p"
  shows "\<exists>e. monitored_tool g ''git_push'' fn k s = (Inl e, log_call ''git_push'' k False s)"
proof (cases "operator_check g ''git_push'' k")
  case (Inl e)
  with monitored_refused show ?thesis by blast
next
  case (Inr u)
  with assms obtain m where "check (g_sha g) (g_uid g) p (g_control g) ''git_push'' k = Inr m"
    by (auto simp: operator_check_def split: sum.splits)
  from check_Inr [OF this] have "\<exists>b. baseline_of ''git_push'' = Some b \<and> b \<noteq> LOCKED" by blast
  moreover have "baseline_of ''git_push'' = Some LOCKED" by code_simp
  ultimately show ?thesis by simp
qed

text \<open>
  Every call is audited exactly once, under its tool's name and with its workspace, and the event
  says whether the caller received a result or an error.
\<close>

theorem every_call_audited_once:
  "\<exists>ev. s_log (snd (monitored_tool g t fn k s)) = s_log s @ [ev] \<and> ev_tool ev = t
     \<and> ev_workspace ev = dict_get k ''workspace_id''
     \<and> (ev_ok ev \<longleftrightarrow> (\<exists>out. fst (monitored_tool g t fn k s) = Inr out))"
  unfolding monitored_tool_def by (auto simp: log_tool_event_def split: sum.splits prod.splits)

text \<open>A start that passes the guards is consistent.\<close>

lemma startup_profile_consistent:
  assumes "startup_guards pf cp = Inr ()"
  shows "\<not> (pf_gateway_resources pf \<and> pf_runtime pf)
    \<and> (pf_gateway_resources pf \<longrightarrow> cp_scopes cp \<noteq> None)
    \<and> (pf_transactions pf \<longrightarrow> pf_gateway_resources pf \<or> pf_job_resources pf \<and> pf_runtime pf)
    \<and> (pf_port pf \<in> {18765, 18876} \<longrightarrow> pf_host pf = ''127.0.0.1'' \<and> has_resources pf)
    \<and> (pf_policy_required pf \<longrightarrow> cp_internal_key cp \<noteq> None)"
  using assms by (auto simp: startup_guards_def has_resources_def Let_def split: if_splits)

section \<open>A concrete gate\<close>

definition demo_gate :: gate_env where
  "demo_gate = \<lparr>g_sha = id, g_uid = 1000, g_policy = Some demo_policy, g_control = demo_control,
     g_client = Some demo_client, g_principal = Some Public\<rparr>"

definition demo_tool :: "pydict \<Rightarrow> nat \<Rightarrow> tool_result result \<times> nat" where
  "demo_tool kwargs w = (Inr (Row [(''job_id'', PStr ''j1'')]), w + 1)"

definition demo_state :: "nat gate_state" where
  "demo_state = \<lparr>s_jobs = [], s_world = 0, s_log = []\<rparr>"

theorem effects_need_both_checks_witness:
  "\<exists>r s'. monitored_tool demo_gate ''write_file'' demo_tool [(''workspace_id'', PStr ''w1'')] demo_state = (r, s')
    \<and> s_world s' = 1 \<and> operator_check demo_gate ''write_file'' [(''workspace_id'', PStr ''w1'')] = Inr ()"
proof -
  obtain r s' where m: "monitored_tool demo_gate ''write_file'' demo_tool [(''workspace_id'', PStr ''w1'')] demo_state
      = (r, s')" by fastforce
  have "s_world (snd (monitored_tool demo_gate ''write_file'' demo_tool [(''workspace_id'', PStr ''w1'')] demo_state)) = 1"
    by code_simp
  with m have w: "s_world s' = 1" "s_world s' \<noteq> s_world demo_state \<or> s_jobs s' \<noteq> s_jobs demo_state"
    by (simp_all add: demo_state_def)
  from effects_need_both_checks [OF m w(2)] m w(1) show ?thesis by blast
qed

theorem push_never_runs_witness:
  "\<exists>e. monitored_tool demo_gate ''git_push'' demo_tool [(''workspace_id'', PStr ''w1'')] demo_state
     = (Inl e, log_call ''git_push'' [(''workspace_id'', PStr ''w1'')] False demo_state)"
  by (rule push_never_runs [of demo_gate demo_policy]) (simp add: demo_gate_def)

end
