(* ===== verification/Jobs.thy ===== *)
theory Jobs
  imports Prelude
begin

text \<open>
  \<open>tools/jobs.py\<close>, \<open>admission.py\<close> and \<open>git_admission.py\<close>: the job database and the operations on it.  Every
  SQLite transaction of the source is one atomic operation here; the step relation interleaves the
  operations of launches, monitors, cancellations, Git operations and restarts in any order.  Times are
  integers; a child process, its pipes and the workspace transaction object appear through the outcomes
  the code reads from them.
\<close>

section \<open>The database\<close>

datatype job_status = Launching | Running | Cancelling | Queued | Finalizing | CleanupFailed
  | Completed | Failed | TimedOut | Cancelled | OutputLimitExceeded | Interrupted | Recovered

definition TERMINAL_JOB_STATUSES :: "job_status list" where
  "TERMINAL_JOB_STATUSES = [Completed, Failed, TimedOut, Cancelled, OutputLimitExceeded, Interrupted, Recovered]"

text \<open>The statuses for which \<open>_init_db\<close> restores a missing admission.\<close>

definition LIVE_STATUSES :: "job_status list" where
  "LIVE_STATUSES = [Running, Launching, Cancelling, Queued, Finalizing, CleanupFailed]"

record job_row =
  jr_id :: string
  jr_workspace :: string
  jr_argv :: "string list"
  jr_cwd :: string
  jr_pid :: "int option"
  jr_status :: job_status
  jr_created :: int
  jr_started :: "int option"
  jr_finished :: "int option"
  jr_duration :: "int option"
  jr_exit :: "int option"
  jr_agent :: string
  jr_provider :: string
  jr_model :: string
  jr_requested :: string
  jr_actual :: string
  jr_transaction :: "string option"

record admission =
  ad_token :: string
  ad_job :: "string option"
  ad_owner :: int
  ad_created :: int

record git_admission =
  ga_token :: string
  ga_digest :: string
  ga_guard :: string
  ga_status :: string

record job_db =
  db_admissions :: "admission list"
  db_git :: "git_admission list"
  db_jobs :: "job_row list"

definition job_of :: "job_db \<Rightarrow> string \<Rightarrow> job_row option" where
  "job_of db j = find (\<lambda>r. jr_id r = j) (db_jobs db)"

definition admission_of :: "job_db \<Rightarrow> string \<Rightarrow> admission option" where
  "admission_of db t = find (\<lambda>a. ad_token a = t) (db_admissions db)"

definition git_of :: "job_db \<Rightarrow> string \<Rightarrow> git_admission option" where
  "git_of db t = find (\<lambda>g. ga_token g = t) (db_git db)"

definition set_job :: "string \<Rightarrow> (job_row \<Rightarrow> job_row) \<Rightarrow> job_db \<Rightarrow> job_db" where
  "set_job j f db = db\<lparr>db_jobs := update_rows (\<lambda>r. jr_id r = j) f (db_jobs db)\<rparr>"

definition drop_admissions :: "(admission \<Rightarrow> bool) \<Rightarrow> job_db \<Rightarrow> job_db" where
  "drop_admissions P db = db\<lparr>db_admissions := drop_rows P (db_admissions db)\<rparr>"

section \<open>Admission\<close>

text \<open>\<open>execution_slot\<close>: entry, and the deletion on an ordinary error; a \<open>ResourceCleanupError\<close> keeps the row.\<close>

definition acquire :: "nat \<Rightarrow> string \<Rightarrow> int \<Rightarrow> int \<Rightarrow> job_db \<Rightarrow> job_db result" where
  "acquire max_active token pid now db =
     (if max_active \<le> length (db_admissions db) then Inl JobCapacityError
      else if admission_of db token \<noteq> None then Inl IntegrityError
      else Inr (db\<lparr>db_admissions := db_admissions db @ [\<lparr>ad_token = token, ad_job = None, ad_owner = pid, ad_created = now\<rparr>]\<rparr>))"

definition slot_exit :: "string \<Rightarrow> py_error \<Rightarrow> job_db \<Rightarrow> job_db" where
  "slot_exit token e db = (if e = ResourceCleanupError then db else drop_admissions (\<lambda>a. ad_token a = token) db)"

definition release_token :: "string \<Rightarrow> job_db \<Rightarrow> job_db" where
  "release_token token db = drop_admissions (\<lambda>a. ad_token a = token) db"

definition release_job :: "string \<Rightarrow> job_db \<Rightarrow> job_db" where
  "release_job j db = drop_admissions (\<lambda>a. ad_job a = Some j) db"

text \<open>\<open>admitted_job\<close> after the launch returned: bind the row, unless the monitor was faster.\<close>

definition bind_launch :: "string \<Rightarrow> string \<Rightarrow> job_db \<Rightarrow> job_db" where
  "bind_launch token j db =
     (let db' = db\<lparr>db_admissions := update_rows (\<lambda>a. ad_token a = token) (\<lambda>a. a\<lparr>ad_job := Some j\<rparr>) (db_admissions db)\<rparr> in
      case job_of db j of
        Some r \<Rightarrow> if jr_status r \<notin> {Running, Cancelling, Queued, Finalizing, CleanupFailed}
                  then drop_admissions (\<lambda>a. ad_token a = token) db' else db'
      | None \<Rightarrow> db')"

text \<open>\<open>git_admission.py\<close>.\<close>

definition git_bind :: "string \<Rightarrow> string \<Rightarrow> string \<Rightarrow> job_db \<Rightarrow> job_db result" where
  "git_bind token digest guard db = (case admission_of db token of
       Some a \<Rightarrow> if ad_job a \<noteq> None then Inl PermissionError
         else if git_of db token \<noteq> None then Inl IntegrityError
         else Inr (db\<lparr>db_git := db_git db @ [\<lparr>ga_token = token, ga_digest = digest, ga_guard = guard, ga_status = ''active''\<rparr>]\<rparr>)
     | None \<Rightarrow> Inl PermissionError)"

definition drop_unbound :: "string \<Rightarrow> job_db \<Rightarrow> job_db" where
  "drop_unbound token db = drop_admissions (\<lambda>a. ad_token a = token \<and> ad_job a = None) db"

definition set_resolved :: "string \<Rightarrow> job_db \<Rightarrow> job_db" where
  "set_resolved token db = db\<lparr>db_git := update_rows (\<lambda>g. ga_token g = token) (\<lambda>g. g\<lparr>ga_status := ''resolved''\<rparr>) (db_git db)\<rparr>"

definition git_resolve :: "string \<Rightarrow> job_db \<Rightarrow> job_db" where
  "git_resolve token db = drop_unbound token (set_resolved token db)"

definition asynchronous :: "job_db \<Rightarrow> string \<Rightarrow> bool" where
  "asynchronous db token = (case admission_of db token of Some a \<Rightarrow> ad_job a \<noteq> None | None \<Rightarrow> False)"

definition git_matches :: "git_admission \<Rightarrow> string \<Rightarrow> string \<Rightarrow> bool" where
  "git_matches g digest guard \<longleftrightarrow> ga_digest g = digest \<and> ga_guard g = guard \<and> ga_status g \<in> {''active'', ''resolved''}"

definition inspect_recovery :: "string \<Rightarrow> string \<Rightarrow> string \<Rightarrow> job_db \<Rightarrow> string result" where
  "inspect_recovery token digest guard db = (case git_of db token of
       None \<Rightarrow> if asynchronous db token then Inl PermissionError else Inr ''unbound''
     | Some g \<Rightarrow> if git_matches g digest guard then Inr (ga_status g) else Inl PermissionError)"

definition resolve_recovery :: "string \<Rightarrow> string \<Rightarrow> string \<Rightarrow> job_db \<Rightarrow> job_db result" where
  "resolve_recovery token digest guard db = (case git_of db token of
       None \<Rightarrow> if asynchronous db token then Inl PermissionError
         else Inr (drop_unbound token (db\<lparr>db_git := db_git db @
           [\<lparr>ga_token = token, ga_digest = digest, ga_guard = guard, ga_status = ''resolved''\<rparr>]\<rparr>))
     | Some g \<Rightarrow> if git_matches g digest guard then Inr (drop_unbound token (set_resolved token db))
         else Inl PermissionError)"

section \<open>Launching\<close>

text \<open>\<open>_start_process_job\<close>: the row of a started process, and the row of a failed launch.\<close>

definition insert_running :: "job_row \<Rightarrow> job_db \<Rightarrow> job_db result" where
  "insert_running r db = (if job_of db (jr_id r) \<noteq> None then Inl IntegrityError
     else Inr (db\<lparr>db_jobs := db_jobs db @ [r\<lparr>jr_status := Running\<rparr>]\<rparr>))"

definition launch_failed :: "string \<Rightarrow> int \<Rightarrow> job_db \<Rightarrow> job_db" where
  "launch_failed j now db = set_job j (\<lambda>r. r\<lparr>jr_status := Failed, jr_exit := Some 1, jr_finished := Some now\<rparr>) db"

text \<open>\<open>_start_confined_agent_job\<close>: row and exact admission in one transaction, then \<open>launching \<rightarrow> running\<close>.\<close>

definition register_confined :: "string \<Rightarrow> job_row \<Rightarrow> job_db \<Rightarrow> job_db result" where
  "register_confined token r db =
     (if job_of db (jr_id r) \<noteq> None then Inl IntegrityError
      else (case admission_of db token of
          Some a \<Rightarrow> if ad_job a \<noteq> None then Inl PermissionError
            else Inr (db\<lparr>db_jobs := db_jobs db @ [r\<lparr>jr_status := Launching, jr_pid := None\<rparr>],
              db_admissions := update_rows (\<lambda>a. ad_token a = token) (\<lambda>a. a\<lparr>ad_job := Some (jr_id r)\<rparr>) (db_admissions db)\<rparr>)
        | None \<Rightarrow> Inl PermissionError))"

definition confined_running :: "string \<Rightarrow> int \<Rightarrow> job_db \<Rightarrow> job_db result" where
  "confined_running j pid db = (case job_of db j of
       Some r \<Rightarrow> if jr_status r = Launching then Inr (set_job j (\<lambda>r. r\<lparr>jr_pid := Some pid, jr_status := Running\<rparr>) db)
         else Inl PermissionError
     | None \<Rightarrow> Inl PermissionError)"

section \<open>The monitor\<close>

text \<open>
  What the select loop reads: a chunk of a stream, the end of a stream, the stop flag or the deadline
  (both tested before every select).  \<open>usage\<close> is the length of what is saved.
\<close>

datatype stream = Stdout | Stderr

datatype pipe_event = Chunk stream string | Eof stream | StopSet | DeadlinePassed

record drain =
  dr_open :: "stream list"
  dr_out :: string
  dr_err :: string

definition saved :: "drain \<Rightarrow> stream \<Rightarrow> string" where
  "saved d s = (case s of Stdout \<Rightarrow> dr_out d | Stderr \<Rightarrow> dr_err d)"

definition save :: "drain \<Rightarrow> stream \<Rightarrow> string \<Rightarrow> drain" where
  "save d s x = (case s of Stdout \<Rightarrow> d\<lparr>dr_out := dr_out d @ x\<rparr> | Stderr \<Rightarrow> d\<lparr>dr_err := dr_err d @ x\<rparr>)"

text \<open>The loop ends with a status and exit code when it decides to kill the job, with \<open>None\<close> at the end of
  both streams; the last component is the log pair.\<close>

fun drain_loop :: "nat \<Rightarrow> drain \<Rightarrow> pipe_event list \<Rightarrow> (job_status \<times> int) option \<times> drain" where
  "drain_loop max_log d [] = (None, d)"
| "drain_loop max_log d (e # es) =
     (if dr_open d = [] then (None, d)
      else (case e of
          StopSet \<Rightarrow> (Some (Cancelled, 130), d)
        | DeadlinePassed \<Rightarrow> (Some (TimedOut, 124), d)
        | Eof s \<Rightarrow> drain_loop max_log (d\<lparr>dr_open := removeAll s (dr_open d)\<rparr>) es
        | Chunk s chunk \<Rightarrow>
            if s \<notin> set (dr_open d) then drain_loop max_log d es
            else (let budget = max_log - length (saved d s);
                      d' = save d s (take budget chunk)
                  in if budget < length chunk then (Some (OutputLimitExceeded, 125), d')
                     else drain_loop max_log d' es)))"

text \<open>How the process ended after both streams closed.\<close>

datatype wait_outcome = Exited int | StoppedWaiting | WaitDeadline

definition drained_status :: "(job_status \<times> int) option \<Rightarrow> wait_outcome \<Rightarrow> job_status \<times> int" where
  "drained_status killed w = (case killed of Some r \<Rightarrow> r
     | None \<Rightarrow> (case w of Exited n \<Rightarrow> if n = 0 then (Completed, 0) else (Failed, n)
         | StoppedWaiting \<Rightarrow> (Cancelled, 130) | WaitDeadline \<Rightarrow> (TimedOut, 124)))"

text \<open>The \<open>finally\<close> block: an error of the loop, the lease, the Git service and the cleanup callback.\<close>

record cleanup_facts =
  cf_monitor_error :: bool
  cf_leader_reaped :: bool
  cf_lease_ok :: bool
  cf_git_ok :: bool
  cf_callback_ok :: bool

definition settle :: "cleanup_facts \<Rightarrow> job_status \<times> int \<Rightarrow> job_status \<times> int \<times> bool" where
  "settle cf drained =
     (let (status, exit_code) = (if cf_monitor_error cf then (Failed, 1) else drained);
          ok = cf_leader_reaped cf \<and> cf_lease_ok cf \<and> cf_git_ok cf \<and> cf_callback_ok cf
      in if ok then (status, exit_code, True) else (CleanupFailed, 1, False))"

text \<open>\<open>_finalize_workspace_edits\<close>.  The claim is one transaction; publication and closing have outcomes.\<close>

datatype effect = Done | CleanupError | OtherError

record transaction =
  tx_pull_pending :: bool    \<comment> \<open>a consumed pull or clone waits for publication\<close>
  tx_publish :: effect
  tx_pending_after :: bool   \<comment> \<open>still pending after the approved publication\<close>
  tx_close :: effect
  tx_close_again :: effect   \<comment> \<open>the second call, from the error handler\<close>

definition claim_finalizing :: "string \<Rightarrow> job_db \<Rightarrow> bool \<times> job_db" where
  "claim_finalizing j db = (case job_of db j of
       Some r \<Rightarrow> if jr_status r = Running then (True, set_job j (\<lambda>r. r\<lparr>jr_status := Finalizing\<rparr>) db) else (False, db)
     | None \<Rightarrow> (False, db))"

record finalized =
  fi_status :: job_status
  fi_exit :: int
  fi_cleanup_ok :: bool
  fi_published :: bool
  fi_notice :: "string option"    \<comment> \<open>what is appended to the stderr log\<close>
  fi_db :: job_db

definition RECOVERY_NOTICE :: string where
  "RECOVERY_NOTICE = CHR 0x0A # ''Workspace finalization requires owner recovery.'' @ [CHR 0x0A]"

definition REJECTED_NOTICE :: string where
  "REJECTED_NOTICE = CHR 0x0A # ''Workspace edits rejected before publication.'' @ [CHR 0x0A]"

definition needs_recovery :: "finalized \<Rightarrow> finalized" where
  "needs_recovery f = f\<lparr>fi_status := CleanupFailed, fi_exit := 1, fi_cleanup_ok := False, fi_notice := Some RECOVERY_NOTICE\<rparr>"

text \<open>An error other than a cleanup error rejects the edits; the transaction is closed in the handler.\<close>

definition reject_edits :: "bool \<Rightarrow> effect \<Rightarrow> finalized \<Rightarrow> finalized" where
  "reject_edits pending closing f = (if pending \<or> closing \<noteq> Done then needs_recovery f
     else f\<lparr>fi_status := Failed, fi_exit := 1, fi_notice := Some REJECTED_NOTICE\<rparr>)"

definition close_transaction :: "transaction \<Rightarrow> bool \<Rightarrow> finalized \<Rightarrow> finalized" where
  "close_transaction tx pending f =
     (if pending then needs_recovery f
      else (case tx_close tx of Done \<Rightarrow> f | CleanupError \<Rightarrow> needs_recovery f
          | OtherError \<Rightarrow> reject_edits False (tx_close_again tx) f))"

definition finalize_workspace_edits :: "string \<Rightarrow> transaction option \<Rightarrow> job_status \<times> int \<times> bool \<Rightarrow> job_db \<Rightarrow> finalized" where
  "finalize_workspace_edits j tx_opt outcome db =
     (case outcome of (status, exit_code, ok) \<Rightarrow>
      let f = \<lparr>fi_status = status, fi_exit = exit_code, fi_cleanup_ok = ok, fi_published = False, fi_notice = None, fi_db = db\<rparr> in
      (case tx_opt of None \<Rightarrow> f
       | Some tx \<Rightarrow>
         if \<not> ok then f
         else if tx_pull_pending tx \<and> (status \<noteq> Completed \<or> exit_code \<noteq> 0) then needs_recovery f
         else if status = Completed \<and> exit_code = 0 then
           (case claim_finalizing j db of
              (True, db') \<Rightarrow>
                (case tx_publish tx of
                   Done \<Rightarrow> close_transaction tx (tx_pull_pending tx \<and> tx_pending_after tx)
                     (f\<lparr>fi_published := True, fi_db := db'\<rparr>)
                 | CleanupError \<Rightarrow> needs_recovery (f\<lparr>fi_db := db'\<rparr>)
                 | OtherError \<Rightarrow> reject_edits (tx_pull_pending tx) (tx_close tx) (f\<lparr>fi_db := db'\<rparr>))
            | (False, db') \<Rightarrow>
                close_transaction tx (tx_pull_pending tx)
                  (if map_option jr_status (job_of db j) \<in> {Some Cancelling, Some Cancelled}
                   then f\<lparr>fi_status := Cancelled, fi_exit := 130\<rparr>
                   else f\<lparr>fi_status := Failed, fi_exit := 1\<rparr>))
         else close_transaction tx False f))"

text \<open>The notice goes behind what the monitor saved, cut at the log limit.\<close>

definition append_notice :: "nat \<Rightarrow> string option \<Rightarrow> string \<Rightarrow> string" where
  "append_notice max_log notice err = (case notice of None \<Rightarrow> err | Some n \<Rightarrow> err @ take (max_log - length err) n)"

text \<open>The last transaction of the monitor.\<close>

definition final_status :: "string \<Rightarrow> job_status \<times> int \<times> bool \<Rightarrow> job_db \<Rightarrow> job_status \<times> int" where
  "final_status j outcome db = (case outcome of (status, exit_code, ok) \<Rightarrow>
     (case job_of db j of
        Some r \<Rightarrow> if jr_status r \<in> {Cancelled, Cancelling} \<and> ok then (Cancelled, 130) else (status, exit_code)
      | None \<Rightarrow> (status, exit_code)))"

definition finish_row :: "job_status \<times> int \<Rightarrow> int \<Rightarrow> int \<Rightarrow> string \<Rightarrow> job_row \<Rightarrow> job_row" where
  "finish_row result start now actual r = r\<lparr>jr_status := fst result, jr_exit := Some (snd result),
     jr_finished := Some now, jr_duration := Some (now - start),
     jr_actual := (if actual \<noteq> ''unknown'' then actual else if jr_actual r = [] then ''unknown'' else jr_actual r)\<rparr>"

definition monitor_finish :: "string \<Rightarrow> job_status \<times> int \<times> bool \<Rightarrow> int \<Rightarrow> int \<Rightarrow> string \<Rightarrow> job_db \<Rightarrow> job_db" where
  "monitor_finish j outcome start now actual db =
     (let db' = set_job j (finish_row (final_status j outcome db) start now actual) db
      in if snd (snd outcome) then release_job j db' else db')"

section \<open>Cancellation, restart and reads\<close>

datatype cancel_reply = NotRunning job_status | Requested

definition cancel_request :: "string \<Rightarrow> (string \<times> int) list \<Rightarrow> job_db \<Rightarrow> (cancel_reply \<times> job_db) result" where
  "cancel_request j owned db = (case job_of db j of
       None \<Rightarrow> Inl KeyError
     | Some r \<Rightarrow>
         if jr_status r \<noteq> Running then Inr (NotRunning (jr_status r), db)
         else if map_of owned j = None \<or> map_of owned j \<noteq> jr_pid r then Inl PermissionError
         else Inr (Requested, set_job j (\<lambda>r. r\<lparr>jr_status := Cancelling, jr_exit := None\<rparr>) db))"

definition cancel_failed :: "string \<Rightarrow> job_db \<Rightarrow> job_db" where
  "cancel_failed j db = db\<lparr>db_jobs := update_rows (\<lambda>r. jr_id r = j \<and> jr_status r = Cancelling)
     (\<lambda>r. r\<lparr>jr_status := CleanupFailed, jr_exit := Some 1\<rparr>) (db_jobs db)\<rparr>"

text \<open>\<open>_init_db\<close> on an existing database: live jobs without an admission get a legacy one.\<close>

definition legacy_token :: "string \<Rightarrow> string" where
  "legacy_token j = ''legacy_'' @ j"

definition restore_admission :: "job_row \<Rightarrow> admission list \<Rightarrow> admission list" where
  "restore_admission r as =
     (if jr_status r \<in> set LIVE_STATUSES \<and> (\<forall>a \<in> set as. ad_job a \<noteq> Some (jr_id r))
         \<and> (\<forall>a \<in> set as. ad_token a \<noteq> legacy_token (jr_id r))
      then as @ [\<lparr>ad_token = legacy_token (jr_id r), ad_job = Some (jr_id r), ad_owner = 0, ad_created = jr_created r\<rparr>]
      else as)"

definition init_db :: "job_db \<Rightarrow> job_db" where
  "init_db db = db\<lparr>db_admissions := fold restore_admission (db_jobs db) (db_admissions db)\<rparr>"

definition interrupt_row :: "int \<Rightarrow> job_row \<Rightarrow> job_row" where
  "interrupt_row now r =
     (if jr_status r \<in> {Running, Launching, Cancelling, Queued, CleanupFailed}
         \<and> \<not> (jr_status r = CleanupFailed \<and> jr_transaction r \<noteq> None)
      then r\<lparr>jr_status := Interrupted, jr_exit := Some 130, jr_finished := Some now,
             jr_duration := Some (max 0 (now - (case jr_started r of Some t \<Rightarrow> t | None \<Rightarrow> jr_created r)))\<rparr>
      else if jr_status r = Finalizing then r\<lparr>jr_status := CleanupFailed, jr_exit := Some 1\<rparr>
      else r)"

definition cleanup_failed_jobs :: "job_db \<Rightarrow> string list" where
  "cleanup_failed_jobs db = map jr_id (filter (\<lambda>r. jr_status r = CleanupFailed) (db_jobs db))"

definition active_git_tokens :: "job_db \<Rightarrow> string list" where
  "active_git_tokens db = map ga_token (filter (\<lambda>g. ga_status g = ''active'') (db_git db))"

definition configure_resources :: "int \<Rightarrow> job_db \<Rightarrow> job_db" where
  "configure_resources now db =
     (let db' = db\<lparr>db_jobs := map (interrupt_row now) (db_jobs db)\<rparr>
      in drop_admissions (\<lambda>a. ad_token a \<notin> set (active_git_tokens db')
           \<and> (case ad_job a of None \<Rightarrow> True | Some j \<Rightarrow> j \<notin> set (cleanup_failed_jobs db'))) db')"

record status_report =
  sr_job :: job_row
  sr_duration :: int

definition get_status :: "string \<Rightarrow> int \<Rightarrow> job_db \<Rightarrow> status_report result" where
  "get_status j now db = (case job_of db j of None \<Rightarrow> Inl KeyError
     | Some r \<Rightarrow> Inr \<lparr>sr_job = r, sr_duration = (case jr_duration r of Some d \<Rightarrow> d
         | None \<Rightarrow> (case jr_started r of Some t \<Rightarrow> now - t | None \<Rightarrow> 0))\<rparr>)"

record output_page =
  op_cursor :: nat
  op_next :: nat
  op_stdout :: string    \<comment> \<open>the text, as UTF-8 bytes\<close>
  op_stderr :: string

definition page_size :: "int \<Rightarrow> nat" where
  "page_size max_bytes = nat (max 1 (min max_bytes 262144))"

text \<open>\<open>logs\<close>: the bytes of the two log files of each job; a missing file reads like an empty one.\<close>

definition get_output :: "string \<Rightarrow> (string \<Rightarrow> string) \<times> (string \<Rightarrow> string) \<Rightarrow> int \<Rightarrow> int \<Rightarrow> job_db \<Rightarrow> output_page result" where
  "get_output j logs cursor max_bytes db = (case job_of db j of None \<Rightarrow> Inl KeyError
     | Some r \<Rightarrow>
       let c = nat (max 0 cursor); n = page_size max_bytes;
           data = take n (drop c (fst logs j))
       in Inr \<lparr>op_cursor = c, op_next = c + length data, op_stdout = decode_replace data,
                op_stderr = decode_replace (take n (snd logs j))\<rparr>)"

section \<open>Owner recovery\<close>

text \<open>
  The offline tools change job rows while the service is stopped: \<open>_schema3_rollback\<close> and \<open>_custody_rollback\<close> of
  \<open>workspace_recovery.py\<close> retire the jobs of one workspace transaction, and \<open>_binding\<close> of \<open>git_clone_recovery.py\<close> the job of
  a clone.  The forward recovery of schema 1 raises before it reaches the database.
\<close>

definition RECOVERABLE :: "job_status list" where
  "RECOVERABLE = [CleanupFailed, Finalizing, Recovered]"

definition retire_row :: "int \<Rightarrow> job_row \<Rightarrow> job_row" where
  "retire_row now r = r\<lparr>jr_status := Recovered, jr_exit := Some 1,
     jr_finished := (case jr_finished r of None \<Rightarrow> Some now | Some t \<Rightarrow> Some t)\<rparr>"

definition transaction_jobs :: "string \<Rightarrow> job_db \<Rightarrow> string list" where
  "transaction_jobs tx db = map jr_id (filter (\<lambda>r. jr_transaction r = Some tx) (db_jobs db))"

text \<open>An approved clone keeps its admission for its own reconciliation.\<close>

definition rollback_jobs :: "bool \<Rightarrow> string \<Rightarrow> int \<Rightarrow> job_db \<Rightarrow> job_db result" where
  "rollback_jobs approved_clone tx now db =
     (if list_ex (\<lambda>r. jr_transaction r = Some tx \<and> jr_status r \<notin> set RECOVERABLE) (db_jobs db) then Inl PermissionError
      else (let ids = transaction_jobs tx db;
                db' = db\<lparr>db_jobs := update_rows (\<lambda>r. jr_id r \<in> set ids) (retire_row now) (db_jobs db)\<rparr>
            in Inr (if approved_clone then db'
                 else drop_admissions (\<lambda>a. case ad_job a of None \<Rightarrow> False | Some j \<Rightarrow> j \<in> set ids) db')))"

record clone_binding =
  cb_job :: string
  cb_workspace :: string
  cb_agent :: string
  cb_transaction :: string
  cb_token :: string
  cb_digest :: string
  cb_guard :: string

definition stopped_clone :: "clone_binding \<Rightarrow> job_row \<Rightarrow> bool" where
  "stopped_clone c r \<longleftrightarrow> jr_workspace r = cb_workspace c \<and> jr_agent r = cb_agent c
     \<and> jr_transaction r = Some (cb_transaction c) \<and> jr_status r \<in> set RECOVERABLE"

definition clone_admitted :: "clone_binding \<Rightarrow> job_db \<Rightarrow> bool" where
  "clone_admitted c db =
     (let held = (\<lambda>a. ad_job a = Some (cb_job c)) in
      case git_of db (cb_token c) of
        None \<Rightarrow> (case admission_of db (cb_token c) of None \<Rightarrow> False | Some a \<Rightarrow> held a)
      | Some g \<Rightarrow> git_matches g (cb_digest c) (cb_guard c)
          \<and> (case admission_of db (cb_token c) of None \<Rightarrow> ga_status g = ''resolved'' | Some a \<Rightarrow> held a))"

definition recover_clone :: "clone_binding \<Rightarrow> job_db \<Rightarrow> job_db result" where
  "recover_clone c db =
     (case job_of db (cb_job c) of
        None \<Rightarrow> Inl PermissionError
      | Some r \<Rightarrow>
          if \<not> stopped_clone c r \<or> \<not> clone_admitted c db then Inl PermissionError
          else (let db' = (case git_of db (cb_token c) of
                  None \<Rightarrow> db\<lparr>db_git := db_git db @ [\<lparr>ga_token = cb_token c, ga_digest = cb_digest c, ga_guard = cb_guard c,
                    ga_status = ''resolved''\<rparr>]\<rparr>
                | Some _ \<Rightarrow> set_resolved (cb_token c) db)
            in Inr (drop_admissions (\<lambda>a. ad_token a = cb_token c \<and> ad_job a = Some (cb_job c))
                 (set_job (cb_job c) (\<lambda>r. r\<lparr>jr_status := Recovered, jr_exit := Some 1\<rparr>) db'))))"

section \<open>Interleaved operation\<close>

text \<open>
  Several launches, monitors and maintenance calls share the database.  The state adds what the running
  processes know: the launches whose admission is not bound yet, the jobs still inside a launching call,
  the jobs a monitor thread owns (\<open>active_processes\<close> with the process id), and the jobs whose launching call failed and
  gave the slot back although their row still is live.
\<close>

record jobs_state =
  js_db :: job_db
  js_launches :: "(string \<times> string) list"
  js_pending :: "string list"
  js_owned :: "(string \<times> int) list"
  js_strays :: "string list"

text \<open>What a monitor hands to its last transaction.\<close>

definition settled :: "job_status \<times> int \<times> bool \<Rightarrow> bool" where
  "settled outcome = (case outcome of (status, _, ok) \<Rightarrow>
     if ok then status \<in> set TERMINAL_JOB_STATUSES else status = CleanupFailed)"

definition is_live :: "job_status \<Rightarrow> bool" where
  "is_live st \<longleftrightarrow> st \<in> set LIVE_STATUSES"

definition live :: "job_db \<Rightarrow> string \<Rightarrow> bool" where
  "live db j = (case job_of db j of Some r \<Rightarrow> is_live (jr_status r) | None \<Rightarrow> False)"

definition slot_token :: "string \<Rightarrow> bool" where
  "slot_token t \<longleftrightarrow> length t = 32 \<and> list_all is_hex t"

text \<open>The job an admission row stands for: the bound one, or the launch still in progress.\<close>

definition holder :: "(string \<times> string) list \<Rightarrow> admission \<Rightarrow> string option" where
  "holder launches a = (case ad_job a of Some j \<Rightarrow> Some j | None \<Rightarrow> map_of launches (ad_token a))"

text \<open>
  A failing launch gives its slot back unless the error is a \<open>ResourceCleanupError\<close>.  Normally its row is marked failed
  before (\<open>launch_error\<close>, then \<open>slot_error\<close>); when the error handler itself fails first, because the killed process does not
  exit in time or the database is locked, the slot goes and the row stays (\<open>slot_lost\<close>).  Once the launching call has
  returned, the only later failure is the one of the binding, a \<open>ResourceCleanupError\<close>.  Recovery runs while no monitor and
  no launch does (\<open>stopped\<close>): it holds the supervisor lock of the gateway and checks that its service is stopped.
\<close>

inductive job_step :: "nat \<Rightarrow> jobs_state \<Rightarrow> jobs_state \<Rightarrow> bool" for n where
  acquire: "slot_token t \<Longrightarrow> acquire n t pid now (js_db s) = Inr db \<Longrightarrow> job_step n s (s\<lparr>js_db := db\<rparr>)"
| launch: "admission_of (js_db s) t = Some a \<Longrightarrow> ad_job a = None \<Longrightarrow> t \<notin> fst ` set (js_launches s)
    \<Longrightarrow> git_of (js_db s) t = None \<Longrightarrow> insert_running r (js_db s) = Inr db
    \<Longrightarrow> job_step n s (s\<lparr>js_db := db, js_launches := (t, jr_id r) # js_launches s, js_pending := jr_id r # js_pending s\<rparr>)"
| launch_error: "j \<in> set (js_pending s) \<Longrightarrow>
    job_step n s (s\<lparr>js_db := launch_failed j now (js_db s), js_pending := removeAll j (js_pending s)\<rparr>)"
| owned: "j \<in> set (js_pending s) \<Longrightarrow> job_of (js_db s) j = Some r \<Longrightarrow> jr_status r = Running \<Longrightarrow> jr_pid r = Some pid
    \<Longrightarrow> job_step n s (s\<lparr>js_pending := removeAll j (js_pending s), js_owned := (j, pid) # js_owned s\<rparr>)"
| bind: "(t, j) \<in> set (js_launches s) \<Longrightarrow> j \<notin> set (js_pending s) \<Longrightarrow>
    job_step n s (s\<lparr>js_db := bind_launch t j (js_db s), js_launches := drop_rows (\<lambda>p. fst p = t) (js_launches s)\<rparr>)"
| slot_error: "e \<noteq> ResourceCleanupError \<Longrightarrow>
    (\<And>a j. admission_of (js_db s) t = Some a \<Longrightarrow> holder (js_launches s) a = Some j \<Longrightarrow> \<not> live (js_db s) j) \<Longrightarrow>
    job_step n s (s\<lparr>js_db := slot_exit t e (js_db s), js_launches := drop_rows (\<lambda>p. fst p = t) (js_launches s)\<rparr>)"
| slot_lost: "e \<noteq> ResourceCleanupError \<Longrightarrow> admission_of (js_db s) t = Some a \<Longrightarrow> holder (js_launches s) a = Some j
    \<Longrightarrow> j \<in> set (js_pending s) \<Longrightarrow>
    job_step n s (s\<lparr>js_db := slot_exit t e (js_db s), js_launches := drop_rows (\<lambda>p. fst p = t) (js_launches s),
      js_pending := removeAll j (js_pending s), js_strays := j # js_strays s\<rparr>)"
| release: "t \<notin> fst ` set (js_launches s) \<Longrightarrow> (\<And>a. admission_of (js_db s) t = Some a \<Longrightarrow> ad_job a = None) \<Longrightarrow>
    job_step n s (s\<lparr>js_db := release_token t (js_db s)\<rparr>)"
| confined: "t \<notin> fst ` set (js_launches s) \<Longrightarrow> git_of (js_db s) t = None \<Longrightarrow> register_confined t r (js_db s) = Inr db
    \<Longrightarrow> job_step n s (s\<lparr>js_db := db, js_pending := jr_id r # js_pending s\<rparr>)"
| confined_run: "j \<in> set (js_pending s) \<Longrightarrow> confined_running j pid (js_db s) = Inr db
    \<Longrightarrow> job_step n s (s\<lparr>js_db := db\<rparr>)"
| finalizing: "j \<in> fst ` set (js_owned s) \<Longrightarrow> job_step n s (s\<lparr>js_db := snd (claim_finalizing j (js_db s))\<rparr>)"
| monitored: "j \<in> fst ` set (js_owned s) \<Longrightarrow> settled outcome \<Longrightarrow> fst outcome \<noteq> Recovered \<Longrightarrow>
    job_step n s (s\<lparr>js_db := monitor_finish j outcome start now actual (js_db s),
      js_owned := drop_rows (\<lambda>p. fst p = j) (js_owned s)\<rparr>)"
| cancelling: "cancel_request j (js_owned s) (js_db s) = Inr (reply, db) \<Longrightarrow> job_step n s (s\<lparr>js_db := db\<rparr>)"
| cancel_error: "job_step n s (s\<lparr>js_db := cancel_failed j (js_db s)\<rparr>)"
| git_bound: "t \<notin> fst ` set (js_launches s) \<Longrightarrow> git_bind t digest guard (js_db s) = Inr db
    \<Longrightarrow> job_step n s (s\<lparr>js_db := db\<rparr>)"
| git_resolved: "t \<notin> fst ` set (js_launches s) \<Longrightarrow> job_step n s (s\<lparr>js_db := git_resolve t (js_db s)\<rparr>)"
| git_recovered: "t \<notin> fst ` set (js_launches s) \<Longrightarrow> resolve_recovery t digest guard (js_db s) = Inr db
    \<Longrightarrow> job_step n s (s\<lparr>js_db := db\<rparr>)"
| attached: "job_step n s (s\<lparr>js_db := init_db (js_db s)\<rparr>)"
| restarted: "job_step n s \<lparr>js_db = configure_resources now (init_db (js_db s)), js_launches = [], js_pending = [], js_owned = [], js_strays = []\<rparr>"
| stopped: "job_step n s (s\<lparr>js_pending := [], js_owned := []\<rparr>)"
| rolled_back: "js_pending s = [] \<Longrightarrow> js_owned s = [] \<Longrightarrow> rollback_jobs approved_clone tx now (js_db s) = Inr db
    \<Longrightarrow> job_step n s (s\<lparr>js_db := db\<rparr>)"
| clone_recovered: "js_pending s = [] \<Longrightarrow> js_owned s = [] \<Longrightarrow> recover_clone c (js_db s) = Inr db
    \<Longrightarrow> job_step n s (s\<lparr>js_db := db\<rparr>)"

definition empty_state :: jobs_state where
  "empty_state = \<lparr>js_db = \<lparr>db_admissions = [], db_git = [], db_jobs = []\<rparr>, js_launches = [], js_pending = [], js_owned = [], js_strays = []\<rparr>"

section \<open>Lookups after an operation\<close>

lemma job_of_set_job [simp]:
  "(\<And>r. jr_id (f r) = jr_id r) \<Longrightarrow> job_of (set_job k f db) j = (if j = k then map_option f (job_of db j) else job_of db j)"
  by (cases "job_of db j")
     (auto simp: job_of_def set_job_def find_update_rows [where k = jr_id] dest: find_SomeD)

lemma job_of_drop_admissions [simp]: "job_of (drop_admissions P db) j = job_of db j"
  by (simp add: job_of_def drop_admissions_def)

lemma job_of_db_admissions [simp]: "job_of (db\<lparr>db_admissions := as\<rparr>) j = job_of db j"
  "job_of (db\<lparr>db_git := gs\<rparr>) j = job_of db j"
  by (simp_all add: job_of_def)

lemma job_of_append: "job_of (db\<lparr>db_jobs := db_jobs db @ [r]\<rparr>) j
    = (case job_of db j of Some x \<Rightarrow> Some x | None \<Rightarrow> if jr_id r = j then Some r else None)"
  by (auto simp: job_of_def find_append split: option.splits)

lemma admissions_simps [simp]:
  "db_admissions (drop_admissions P db) = drop_rows P (db_admissions db)"
  "db_admissions (set_job j f db) = db_admissions db"
  "db_jobs (drop_admissions P db) = db_jobs db"
  "db_git (drop_admissions P db) = db_git db"
  by (simp_all add: drop_admissions_def set_job_def)

lemma live_cong: "job_of db j = job_of db' j \<Longrightarrow> live db j = live db' j"
  by (simp add: live_def)

lemma set_jobs_ids [simp]: "(\<And>r. jr_id (f r) = jr_id r) \<Longrightarrow> map jr_id (db_jobs (set_job j f db)) = map jr_id (db_jobs db)"
  by (simp add: set_job_def map_key_update_rows)

lemma admission_of_mem: "admission_of db t = Some a \<Longrightarrow> a \<in> set (db_admissions db) \<and> ad_token a = t"
  by (auto simp: admission_of_def dest: find_SomeD)

lemma is_live_simps [simp]:
  "is_live Running" "is_live Launching" "is_live Cancelling" "is_live Queued" "is_live Finalizing" "is_live CleanupFailed"
  "\<not> is_live Completed" "\<not> is_live Failed" "\<not> is_live TimedOut" "\<not> is_live Cancelled" "\<not> is_live OutputLimitExceeded"
  "\<not> is_live Interrupted" "\<not> is_live Recovered"
  by (auto simp: is_live_def LIVE_STATUSES_def)

lemma terminal_not_live: "st \<in> set TERMINAL_JOB_STATUSES \<longleftrightarrow> \<not> is_live st"
  by (cases st) (auto simp: TERMINAL_JOB_STATUSES_def)

section \<open>The invariant\<close>

text \<open>Every live job that is not a stray is held by an admission row; a launch in progress keeps its own row unbound.\<close>

definition covered :: "string list \<Rightarrow> job_db \<Rightarrow> (string \<times> string) list \<Rightarrow> bool" where
  "covered strays db launches \<longleftrightarrow> (\<forall>j. live db j \<longrightarrow> j \<in> set strays \<or> (\<exists>a \<in> set (db_admissions db). holder launches a = Some j))"

lemma coveredI: "(\<And>j. live db j \<Longrightarrow> j \<notin> set S \<Longrightarrow> \<exists>a \<in> set (db_admissions db). holder L a = Some j) \<Longrightarrow> covered S db L"
  unfolding covered_def by blast

lemma coveredD: "covered S db L \<Longrightarrow> live db j \<Longrightarrow> j \<notin> set S \<Longrightarrow> \<exists>a \<in> set (db_admissions db). holder L a = Some j"
  unfolding covered_def by blast

definition launches_held :: "job_db \<Rightarrow> (string \<times> string) list \<Rightarrow> bool" where
  "launches_held db launches \<longleftrightarrow> distinct (map fst launches)
     \<and> (\<forall>(t, j) \<in> set launches. \<exists>a \<in> set (db_admissions db). ad_token a = t \<and> ad_job a = None)"

definition keys_ok :: "job_db \<Rightarrow> bool" where
  "keys_ok db \<longleftrightarrow> distinct (map ad_token (db_admissions db)) \<and> distinct (map jr_id (db_jobs db))
     \<and> (\<forall>a \<in> set (db_admissions db). \<forall>j. ad_token a = legacy_token j \<longrightarrow> ad_job a = Some j)"

definition launch_rows :: "job_db \<Rightarrow> (string \<times> string) list \<Rightarrow> bool" where
  "launch_rows db launches \<longleftrightarrow> (\<forall>(t, j) \<in> set launches. \<exists>r. job_of db j = Some r \<and> jr_status r \<noteq> Launching)"

definition jobs_inv :: "jobs_state \<Rightarrow> bool" where
  "jobs_inv s \<longleftrightarrow> keys_ok (js_db s) \<and> covered (js_strays s) (js_db s) (js_launches s) \<and> launches_held (js_db s) (js_launches s)
     \<and> launch_rows (js_db s) (js_launches s)
     \<and> (\<forall>j \<in> fst ` set (js_owned s) \<union> set (js_pending s). live (js_db s) j)
     \<and> set (js_pending s) \<inter> fst ` set (js_owned s) = {}"

lemma jobs_invD:
  assumes "jobs_inv s"
  shows "keys_ok (js_db s)" "covered (js_strays s) (js_db s) (js_launches s)" "launches_held (js_db s) (js_launches s)"
    "launch_rows (js_db s) (js_launches s)" "\<And>j. j \<in> fst ` set (js_owned s) \<union> set (js_pending s) \<Longrightarrow> live (js_db s) j"
    "set (js_pending s) \<inter> fst ` set (js_owned s) = {}"
  using assms unfolding jobs_inv_def by blast+

text \<open>Operations on job rows: the same rows under the same keys, none launching or live that was not.\<close>

definition tames :: "job_db \<Rightarrow> job_db \<Rightarrow> bool" where
  "tames db db' \<longleftrightarrow> db_admissions db' = db_admissions db \<and> map jr_id (db_jobs db') = map jr_id (db_jobs db)
     \<and> (\<forall>j. case job_of db j of None \<Rightarrow> job_of db' j = None
          | Some r \<Rightarrow> (\<exists>r'. job_of db' j = Some r' \<and> (jr_status r' = Launching \<longrightarrow> jr_status r = Launching)
               \<and> (is_live (jr_status r') \<longrightarrow> is_live (jr_status r))))"

lemma tames_live: "tames db db' \<Longrightarrow> live db' j \<Longrightarrow> live db j"
  unfolding tames_def live_def by (drule conjunct2, drule conjunct2, drule spec [of _ j]) (auto split: option.splits)

lemma tames_job:
  "tames db db' \<Longrightarrow> job_of db j = Some r \<Longrightarrow> \<exists>r'. job_of db' j = Some r'
     \<and> (jr_status r' = Launching \<longrightarrow> jr_status r = Launching) \<and> (is_live (jr_status r') \<longrightarrow> is_live (jr_status r))"
  unfolding tames_def by (drule conjunct2, drule conjunct2, drule spec [of _ j]) simp

lemma tames_launch_rows: "tames db db' \<Longrightarrow> launch_rows db L \<Longrightarrow> launch_rows db' L"
  unfolding launch_rows_def using tames_job by fastforce

lemma tames_keys: "tames db db' \<Longrightarrow> keys_ok db \<Longrightarrow> keys_ok db'"
  by (simp add: tames_def keys_ok_def)

lemma tames_covered: "tames db db' \<Longrightarrow> covered S db L \<Longrightarrow> covered S db' L"
  using tames_live by (fastforce simp: covered_def tames_def)

lemma tames_held: "tames db db' \<Longrightarrow> launches_held db L \<Longrightarrow> launches_held db' L"
  by (simp add: tames_def launches_held_def)

lemmas tames_all = tames_keys tames_covered tames_held tames_launch_rows

lemma jobs_inv_tamed:
  assumes "jobs_inv s" and "tames (js_db s) db" and "\<And>j. j \<in> fst ` set ow \<union> set pe \<Longrightarrow> live db j"
    and "set pe \<inter> fst ` set ow = {}"
  shows "jobs_inv (s\<lparr>js_db := db, js_pending := pe, js_owned := ow\<rparr>)"
  using assms tames_all [OF assms(2)] jobs_invD(1-4) [OF assms(1)] by (simp add: jobs_inv_def)

lemma tames_set_job:
  assumes "\<And>r. jr_id (f r) = jr_id r"
    and "\<And>r. job_of db k = Some r \<Longrightarrow> (jr_status (f r) = Launching \<longrightarrow> jr_status r = Launching)
      \<and> (is_live (jr_status (f r)) \<longrightarrow> is_live (jr_status r))"
  shows "tames db (set_job k f db)"
  using assms by (auto simp: tames_def split: option.splits)

text \<open>Operations that delete admissions no live job needs.\<close>

lemma jobs_inv_drop:
  assumes "jobs_inv s"
    and "\<And>a j. a \<in> set (db_admissions (js_db s)) \<Longrightarrow> P a \<Longrightarrow> holder (js_launches s) a = Some j \<Longrightarrow> live (js_db s) j \<Longrightarrow> j \<in> set (js_strays s)"
    and "L = drop_rows (\<lambda>p. fst p \<in> T) (js_launches s)"
    and "\<And>a. a \<in> set (db_admissions (js_db s)) \<Longrightarrow> \<not> P a \<Longrightarrow> ad_job a = None \<Longrightarrow> ad_token a \<notin> T"
    and "\<And>a. a \<in> set (db_admissions (js_db s)) \<Longrightarrow> P a \<Longrightarrow> ad_job a = None \<Longrightarrow> ad_token a \<in> T \<or> ad_token a \<notin> fst ` set (js_launches s)"
  shows "jobs_inv (s\<lparr>js_db := drop_admissions P (js_db s), js_launches := L\<rparr>)"
proof -
  let ?db = "js_db s" and ?L = "js_launches s"
  have keep: "holder L a = holder ?L a" if "a \<in> set (db_admissions ?db)" "\<not> P a" for a
  proof (cases "ad_job a")
    case None
    with assms(4) that have "ad_token a \<notin> T" by blast
    then have "map_of L (ad_token a) = map_of ?L (ad_token a)"
      unfolding assms(3) map_of_drop_rows by simp
    with None show ?thesis by (simp add: holder_def)
  qed (simp add: holder_def)
  have job: "live (drop_admissions P ?db) j = live ?db j" for j by (simp add: live_def)
  have "keys_ok (drop_admissions P ?db)"
    using jobs_invD(1) [OF assms(1)] by (auto simp: keys_ok_def distinct_map_drop_rows)
  moreover have "covered (js_strays s) (drop_admissions P ?db) L"
    using jobs_invD(2) [OF assms(1)] assms(2) keep unfolding covered_def job by simp metis
  moreover have "launches_held (drop_admissions P ?db) L"
    using jobs_invD(3) [OF assms(1)] assms(5) unfolding launches_held_def assms(3)
    by (auto simp: distinct_map_drop_rows) (smt (verit) case_prodD fst_conv image_eqI)
  moreover have "launch_rows (drop_admissions P ?db) L"
    using jobs_invD(4) [OF assms(1)] by (auto simp: launch_rows_def assms(3))
  ultimately show ?thesis
    using jobs_invD(5,6) [OF assms(1)] by (simp add: jobs_inv_def job)
qed

lemma jobs_inv_drop_dead:
  assumes "jobs_inv s"
    and "\<And>a j. a \<in> set (db_admissions (js_db s)) \<Longrightarrow> P a \<Longrightarrow> holder (js_launches s) a = Some j \<Longrightarrow> live (js_db s) j \<Longrightarrow> j \<in> set (js_strays s)"
    and "\<And>a. a \<in> set (db_admissions (js_db s)) \<Longrightarrow> P a \<Longrightarrow> ad_job a = None \<Longrightarrow> ad_token a \<notin> fst ` set (js_launches s)"
  shows "jobs_inv (s\<lparr>js_db := drop_admissions P (js_db s)\<rparr>)"
proof -
  have "jobs_inv (s\<lparr>js_db := drop_admissions P (js_db s), js_launches := drop_rows (\<lambda>p. fst p \<in> {}) (js_launches s)\<rparr>)"
    using assms(2,3) by (intro jobs_inv_drop [OF assms(1) _ refl]) auto
  then show ?thesis by (simp add: drop_rows_def)
qed

lemma tames_launch_failed: "tames db (launch_failed j now db)"
  unfolding launch_failed_def by (rule tames_set_job) auto

lemma tames_cancel_request: "cancel_request j ow db = Inr (reply, db') \<Longrightarrow> tames db db'"
  by (auto simp: cancel_request_def tames_def split: option.splits if_splits)

lemma tames_confined_running: "confined_running j pid db = Inr db' \<Longrightarrow> tames db db'"
  by (auto simp: confined_running_def tames_def split: option.splits if_splits)

lemma tames_claim: "tames db (snd (claim_finalizing j db))"
  by (auto simp: claim_finalizing_def tames_def split: option.splits)

lemma job_of_cancel_failed: "job_of (cancel_failed j db) k = map_option
    (\<lambda>r. if jr_id r = j \<and> jr_status r = Cancelling then r\<lparr>jr_status := CleanupFailed, jr_exit := Some 1\<rparr> else r) (job_of db k)"
  by (simp add: job_of_def cancel_failed_def find_update_rows [where k = jr_id])

lemma cancel_failed_fields: "db_admissions (cancel_failed j db) = db_admissions db"
  "map jr_id (db_jobs (cancel_failed j db)) = map jr_id (db_jobs db)"
  by (simp_all add: cancel_failed_def map_key_update_rows)

lemma tames_cancel_failed: "tames db (cancel_failed j db)"
  unfolding tames_def cancel_failed_fields by (auto simp: job_of_cancel_failed split: option.splits)

text \<open>An operation that keeps live jobs live keeps the jobs of the monitors live.\<close>

definition keeps_live :: "job_db \<Rightarrow> job_db \<Rightarrow> bool" where
  "keeps_live db db' \<longleftrightarrow> (\<forall>j. live db j \<longrightarrow> live db' j)"

lemma keeps_live_ops:
  "cancel_request j ow db = Inr (reply, db') \<Longrightarrow> keeps_live db db'"
  "confined_running j pid db = Inr db' \<Longrightarrow> keeps_live db db'"
  "keeps_live db (snd (claim_finalizing j db))"
  "keeps_live db (cancel_failed j db)"
  by (auto simp: keeps_live_def live_def cancel_request_def confined_running_def claim_finalizing_def
      job_of_cancel_failed split: option.splits if_splits)

lemma jobs_inv_kept:
  "jobs_inv s \<Longrightarrow> tames (js_db s) db \<Longrightarrow> keeps_live (js_db s) db \<Longrightarrow> jobs_inv (s\<lparr>js_db := db\<rparr>)"
  using jobs_inv_tamed [of s db "js_owned s" "js_pending s"] jobs_invD(5,6) [of s] by (simp add: keeps_live_def)

lemma jobs_inv_acquire:
  assumes "jobs_inv s" and "slot_token t" and "acquire n t pid now (js_db s) = Inr db"
  shows "jobs_inv (s\<lparr>js_db := db\<rparr>)"
proof -
  let ?a = "\<lparr>ad_token = t, ad_job = None, ad_owner = pid, ad_created = now\<rparr>"
  from assms(3) have db: "db = (js_db s)\<lparr>db_admissions := db_admissions (js_db s) @ [?a]\<rparr>"
    and fresh: "t \<notin> ad_token ` set (db_admissions (js_db s))"
    by (auto simp: acquire_def admission_of_def find_key_None split: if_splits)
  have hex: "t \<noteq> legacy_token j" for j
  proof -
    have "\<not> is_hex (CHR ''l'')" by code_simp
    with assms(2) show ?thesis by (auto simp: slot_token_def legacy_token_def)
  qed
  have "live db j = live (js_db s) j" for j by (simp add: db live_def)
  with assms(1) fresh hex show ?thesis
    unfolding jobs_inv_def keys_ok_def covered_def launches_held_def launch_rows_def by (auto simp: db)
qed

lemma live_append: "job_of db (jr_id r) = None \<Longrightarrow> live (db\<lparr>db_jobs := db_jobs db @ [r]\<rparr>) j
    \<longleftrightarrow> (if j = jr_id r then is_live (jr_status r) else live db j)"
  by (auto simp: live_def job_of_append split: option.splits)

lemma live_exists: "live db j \<Longrightarrow> job_of db j \<noteq> None"
  by (auto simp: live_def split: option.splits)

lemma keys_ok_append:
  "keys_ok db \<Longrightarrow> job_of db (jr_id r) = None \<Longrightarrow> keys_ok (db\<lparr>db_jobs := db_jobs db @ [r]\<rparr>)"
  by (auto simp: keys_ok_def job_of_def find_key_None)

lemma launch_rows_append: "launch_rows db L \<Longrightarrow> launch_rows (db\<lparr>db_jobs := db_jobs db @ [r]\<rparr>) L"
  by (fastforce simp: launch_rows_def job_of_append)

lemma jobs_inv_launch:
  assumes "jobs_inv s" and a: "admission_of (js_db s) t = Some a" "ad_job a = None" "t \<notin> fst ` set (js_launches s)"
    and "insert_running r (js_db s) = Inr db"
  shows "jobs_inv (s\<lparr>js_db := db, js_launches := (t, jr_id r) # js_launches s, js_pending := jr_id r # js_pending s\<rparr>)"
proof -
  let ?r = "r\<lparr>jr_status := Running\<rparr>" and ?L = "(t, jr_id r) # js_launches s"
  from assms(5) have new: "job_of (js_db s) (jr_id ?r) = None"
    and db: "db = (js_db s)\<lparr>db_jobs := db_jobs (js_db s) @ [?r]\<rparr>"
    by (auto simp: insert_running_def split: if_splits)
  note inv = jobs_invD [OF assms(1)]
  have live: "live db j \<longleftrightarrow> j = jr_id r \<or> live (js_db s) j" for j
    using live_append [OF new] live_exists [of "js_db s" j] new by (auto simp: db)
  have keep: "holder (js_launches s) b = Some j \<Longrightarrow> holder ?L b = Some j" for b j
    using a(3) by (auto simp: holder_def split: option.splits dest: map_of_SomeD intro: rev_image_eqI)
  have mem: "a \<in> set (db_admissions (js_db s))" "ad_token a = t" using admission_of_mem [OF a(1)] by auto
  have "covered (js_strays s) db ?L"
  proof (rule coveredI)
    fix j assume "live db j" and stray: "j \<notin> set (js_strays s)"
    show "\<exists>a \<in> set (db_admissions db). holder ?L a = Some j"
    proof (cases "j = jr_id r")
      case True
      with mem a(2) show ?thesis by (intro bexI [of _ a]) (simp_all add: holder_def db)
    next
      case False
      with \<open>live db j\<close> live coveredD [OF inv(2) _ stray] keep show ?thesis by (fastforce simp: db)
    qed
  qed
  moreover have "launches_held db ?L"
    using inv(3) mem a(2,3) unfolding launches_held_def by (auto simp: db)
  moreover have "launch_rows db ?L"
    using launch_rows_append [OF inv(4)] new by (auto simp: launch_rows_def job_of_append db)
  moreover have "jr_id r \<notin> fst ` set (js_owned s)" using inv(5) live_exists new by fastforce
  ultimately show ?thesis
    using keys_ok_append [OF inv(1) new] inv(5,6) live by (simp add: jobs_inv_def db)
qed

lemma jobs_inv_bind:
  assumes "jobs_inv s" and "(t, j) \<in> set (js_launches s)"
  shows "jobs_inv (s\<lparr>js_db := bind_launch t j (js_db s), js_launches := drop_rows (\<lambda>p. fst p = t) (js_launches s)\<rparr>)"
proof -
  note inv = jobs_invD [OF assms(1)]
  let ?L = "drop_rows (\<lambda>p. fst p = t) (js_launches s)"
  let ?bound = "update_rows (\<lambda>a. ad_token a = t) (\<lambda>a. a\<lparr>ad_job := Some j\<rparr>) (db_admissions (js_db s))"
  let ?db = "(js_db s)\<lparr>db_admissions := ?bound\<rparr>"
  from assms(2) inv(3) have mt: "map_of (js_launches s) t = Some j" by (simp add: launches_held_def)
  from assms(2) inv(3) obtain a0 where a0: "a0 \<in> set (db_admissions (js_db s))" "ad_token a0 = t" "ad_job a0 = None"
    by (auto simp: launches_held_def)
  have uniq: "a = a0" if "a \<in> set (db_admissions (js_db s))" "ad_token a = t" for a
    using that a0 inv(1) by (auto simp: keys_ok_def distinct_map inj_on_def)
  have moved: "a \<in> set (db_admissions (js_db s)) \<Longrightarrow>
      (if ad_token a = t then a\<lparr>ad_job := Some j\<rparr> else a) \<in> set ?bound" for a
    unfolding set_update_rows by (rule imageI)
  have L: "map_of ?L k = (if k = t then None else map_of (js_launches s) k)" for k
    using map_of_drop_rows [of "{t}" "js_launches s" k] by simp
  have job: "live ?db k = live (js_db s) k" for k by (simp add: live_def)
  have keys: "keys_ok ?db"
  proof -
    have "map ad_token ?bound = map ad_token (db_admissions (js_db s))" by (rule map_key_update_rows) simp
    with inv(1) uniq a0 show ?thesis by (fastforce simp: keys_ok_def set_update_rows)
  qed
  have cov: "covered (js_strays s) ?db ?L"
  proof (rule coveredI)
    fix k assume "live ?db k" and stray: "k \<notin> set (js_strays s)"
    then obtain a where a: "a \<in> set (db_admissions (js_db s))" "holder (js_launches s) a = Some k"
      using coveredD [OF inv(2) _ stray] unfolding job by blast
    show "\<exists>a \<in> set (db_admissions ?db). holder ?L a = Some k"
    proof (cases "ad_token a = t")
      case True
      with a uniq a0 mt have "k = j" by (auto simp: holder_def)
      with moved [OF a(1)] True show ?thesis
        by (intro bexI [of _ "a\<lparr>ad_job := Some j\<rparr>"]) (simp_all add: holder_def)
    next
      case False
      with moved [OF a(1)] a(2) L show ?thesis
        by (intro bexI [of _ a]) (cases "ad_job a", simp_all add: holder_def)
    qed
  qed
  have held: "launches_held ?db ?L"
    using inv(3) unfolding launches_held_def
    by (auto simp: distinct_map_drop_rows set_update_rows image_iff)
  have "jobs_inv (s\<lparr>js_db := ?db, js_launches := ?L\<rparr>)" (is "jobs_inv ?s")
    using keys cov held inv(4,5,6) by (auto simp: jobs_inv_def job launch_rows_def)
  note bound = this
  have dropped: "jobs_inv (?s\<lparr>js_db := drop_admissions (\<lambda>a. ad_token a = t) (js_db ?s)\<rparr>)"
    if r: "job_of (js_db s) j = Some r" "jr_status r \<notin> {Running, Cancelling, Queued, Finalizing, CleanupFailed}" for r
  proof (rule jobs_inv_drop_dead [OF bound])
    from r assms(2) inv(4) have "jr_status r \<noteq> Launching" by (auto simp: launch_rows_def)
    with r have dead: "\<not> live (js_db s) j" by (cases "jr_status r") (auto simp: live_def)
    fix a k assume a: "a \<in> set (db_admissions (js_db ?s))" "ad_token a = t" "holder (js_launches ?s) a = Some k"
      and alive: "live (js_db ?s) k"
    from a(1) have "a \<in> set ?bound" by simp
    then obtain b where "a = (if ad_token b = t then b\<lparr>ad_job := Some j\<rparr> else b)" unfolding set_update_rows by blast
    with a(2) have "ad_job a = Some j" by (cases "ad_token b = t") simp_all
    with a(3) have "k = j" by (simp add: holder_def)
    with dead alive show "k \<in> set (js_strays ?s)" by (simp add: job)
  next
    fix a assume "ad_token a = t"
    then show "ad_token a \<notin> fst ` set (js_launches ?s)" by auto
  qed
  have "bind_launch t j (js_db s) = ?db \<or> (\<exists>r. job_of (js_db s) j = Some r
      \<and> jr_status r \<notin> {Running, Cancelling, Queued, Finalizing, CleanupFailed}
      \<and> bind_launch t j (js_db s) = drop_admissions (\<lambda>a. ad_token a = t) ?db)"
    unfolding bind_launch_def Let_def by (cases "job_of (js_db s) j") simp_all
  then show ?thesis
  proof
    assume e: "bind_launch t j (js_db s) = ?db"
    show ?thesis unfolding e by (rule bound)
  next
    assume "\<exists>r. job_of (js_db s) j = Some r
      \<and> jr_status r \<notin> {Running, Cancelling, Queued, Finalizing, CleanupFailed}
      \<and> bind_launch t j (js_db s) = drop_admissions (\<lambda>a. ad_token a = t) ?db"
    then obtain r where r: "job_of (js_db s) j = Some r"
      "jr_status r \<notin> {Running, Cancelling, Queued, Finalizing, CleanupFailed}"
      and e: "bind_launch t j (js_db s) = drop_admissions (\<lambda>a. ad_token a = t) ?db" by blast
    show ?thesis unfolding e using dropped [OF r] by (simp add: jobs_inv_def)
  qed
qed

lemma launches_None: "t \<notin> fst ` set L \<Longrightarrow> map_of L t = None"
  by (simp add: map_of_eq_None_iff)

lemma jobs_inv_slot_exit:
  assumes "jobs_inv s" and "e \<noteq> ResourceCleanupError"
    and "\<And>a j. admission_of (js_db s) t = Some a \<Longrightarrow> holder (js_launches s) a = Some j \<Longrightarrow> \<not> live (js_db s) j"
  shows "jobs_inv (s\<lparr>js_db := slot_exit t e (js_db s), js_launches := drop_rows (\<lambda>p. fst p = t) (js_launches s)\<rparr>)"
proof -
  note keys = jobs_invD(1) [OF assms(1)]
  have "admission_of (js_db s) t = Some a" if "a \<in> set (db_admissions (js_db s))" "ad_token a = t" for a
    using find_key_mem [OF that(1), of ad_token] keys that(2) by (simp add: admission_of_def keys_ok_def)
  with assms(3) have "jobs_inv (s\<lparr>js_db := drop_admissions (\<lambda>a. ad_token a = t) (js_db s),
      js_launches := drop_rows (\<lambda>p. fst p = t) (js_launches s)\<rparr>)"
    by (intro jobs_inv_drop [OF assms(1), where T = "{t}"]) auto
  with assms(2) show ?thesis by (simp add: slot_exit_def)
qed

lemma jobs_inv_drop_free:
  assumes "jobs_inv s" and "\<And>a. a \<in> set (db_admissions (js_db s)) \<Longrightarrow> P a \<Longrightarrow> ad_job a = None \<and> ad_token a \<notin> fst ` set (js_launches s)"
  shows "jobs_inv (s\<lparr>js_db := drop_admissions P (js_db s)\<rparr>)"
  using assms(2) by (intro jobs_inv_drop_dead [OF assms(1)]) (auto simp: holder_def launches_None)

lemma jobs_inv_git: "jobs_inv s \<Longrightarrow> jobs_inv (s\<lparr>js_db := (js_db s)\<lparr>db_git := gs\<rparr>\<rparr>)"
  by (simp add: jobs_inv_def keys_ok_def covered_def launches_held_def launch_rows_def live_def)

lemma jobs_inv_drop_unbound:
  assumes "jobs_inv s" and "t \<notin> fst ` set (js_launches s)"
  shows "jobs_inv (s\<lparr>js_db := drop_unbound t ((js_db s)\<lparr>db_git := gs\<rparr>)\<rparr>)"
proof -
  from assms(2) have "jobs_inv (s\<lparr>js_db := (js_db s)\<lparr>db_git := gs\<rparr>, js_db := drop_unbound t ((js_db s)\<lparr>db_git := gs\<rparr>)\<rparr>)"
    unfolding drop_unbound_def
    using jobs_inv_drop_free [OF jobs_inv_git [OF assms(1), of gs], of "\<lambda>a. ad_token a = t \<and> ad_job a = None"] by simp
  then show ?thesis by simp
qed

lemma jobs_inv_resolve_recovery:
  assumes "jobs_inv s" and "t \<notin> fst ` set (js_launches s)" and "resolve_recovery t digest guard (js_db s) = Inr db"
  shows "jobs_inv (s\<lparr>js_db := db\<rparr>)"
  using assms(3) jobs_inv_drop_unbound [OF assms(1,2)]
  by (auto simp: resolve_recovery_def set_resolved_def split: option.splits if_splits)

lemma jobs_inv_release:
  assumes "jobs_inv s" and "t \<notin> fst ` set (js_launches s)"
    and "\<And>a. admission_of (js_db s) t = Some a \<Longrightarrow> ad_job a = None"
  shows "jobs_inv (s\<lparr>js_db := release_token t (js_db s)\<rparr>)"
  unfolding release_token_def
proof (rule jobs_inv_drop_free [OF assms(1)])
  fix a assume a: "a \<in> set (db_admissions (js_db s))" "ad_token a = t"
  with jobs_invD(1) [OF assms(1)] have "admission_of (js_db s) t = Some a"
    using find_key_mem [OF a(1), of ad_token] by (simp add: admission_of_def keys_ok_def)
  with assms(2,3) a(2) show "ad_job a = None \<and> ad_token a \<notin> fst ` set (js_launches s)" by simp
qed

lemma jobs_inv_confined:
  assumes "jobs_inv s" and t: "t \<notin> fst ` set (js_launches s)" and "register_confined t r (js_db s) = Inr db"
  shows "jobs_inv (s\<lparr>js_db := db, js_pending := jr_id r # js_pending s\<rparr>)"
proof -
  let ?r = "r\<lparr>jr_status := Launching, jr_pid := None\<rparr>"
  let ?bound = "update_rows (\<lambda>a. ad_token a = t) (\<lambda>a. a\<lparr>ad_job := Some (jr_id r)\<rparr>) (db_admissions (js_db s))"
  from assms(3) obtain a0 where a0: "admission_of (js_db s) t = Some a0" "ad_job a0 = None"
    and new: "job_of (js_db s) (jr_id ?r) = None"
    and db: "db = (js_db s)\<lparr>db_jobs := db_jobs (js_db s) @ [?r], db_admissions := ?bound\<rparr>"
    by (auto simp: register_confined_def split: option.splits if_splits)
  note inv = jobs_invD [OF assms(1)]
  have uniq: "a = a0" if "a \<in> set (db_admissions (js_db s))" "ad_token a = t" for a
    using find_key_mem [OF that(1), of ad_token] inv(1) that(2) a0(1) by (simp add: admission_of_def keys_ok_def)
  have moved: "a \<in> set (db_admissions (js_db s)) \<Longrightarrow>
      (if ad_token a = t then a\<lparr>ad_job := Some (jr_id r)\<rparr> else a) \<in> set ?bound" for a
    unfolding set_update_rows by (rule imageI)
  have job: "job_of db j = job_of ((js_db s)\<lparr>db_jobs := db_jobs (js_db s) @ [?r]\<rparr>) j" for j
    by (simp add: db job_of_def)
  have live: "live db j \<longleftrightarrow> j = jr_id r \<or> live (js_db s) j" for j
    using live_append [OF new] live_exists [of "js_db s" j] new live_cong [OF job] by auto
  have "keys_ok db"
  proof -
    have "map ad_token ?bound = map ad_token (db_admissions (js_db s))" by (rule map_key_update_rows) simp
    with keys_ok_append [OF inv(1) new] uniq a0 inv(1) show ?thesis
      by (fastforce simp: keys_ok_def set_update_rows db)
  qed
  moreover have "covered (js_strays s) db (js_launches s)"
  proof (rule coveredI)
    fix j assume j: "live db j" and stray: "j \<notin> set (js_strays s)"
    show "\<exists>a \<in> set (db_admissions db). holder (js_launches s) a = Some j"
    proof (cases "j = jr_id r")
      case True
      with moved [of a0] admission_of_mem [OF a0(1)] show ?thesis
        by (intro bexI [of _ "a0\<lparr>ad_job := Some (jr_id r)\<rparr>"]) (simp_all add: holder_def db)
    next
      case False
      with j live coveredD [OF inv(2) _ stray] obtain a where
        a: "a \<in> set (db_admissions (js_db s))" "holder (js_launches s) a = Some j" by blast
      with uniq a0(2) t have "ad_token a \<noteq> t" by (fastforce simp: holder_def launches_None)
      with moved [OF a(1)] a(2) show ?thesis by (intro bexI [of _ a]) (simp_all add: db)
    qed
  qed
  moreover have "launches_held db (js_launches s)"
    using inv(3) t unfolding launches_held_def by (fastforce simp: db set_update_rows image_iff)
  moreover have "launch_rows db (js_launches s)"
    using launch_rows_append [OF inv(4), of ?r] by (simp add: launch_rows_def job)
  moreover have "jr_id r \<notin> fst ` set (js_owned s)" using inv(5) live_exists new by fastforce
  ultimately show ?thesis using inv(5,6) live by (simp add: jobs_inv_def)
qed

lemma jobs_inv_owned:
  assumes "jobs_inv s" and "j \<in> set (js_pending s)" and "job_of (js_db s) j = Some r" "jr_status r = Running"
  shows "jobs_inv (s\<lparr>js_pending := removeAll j (js_pending s), js_owned := (j, pid) # js_owned s\<rparr>)"
  using assms jobs_invD(5,6) [OF assms(1)] by (auto simp: jobs_inv_def live_def)

lemma jobs_inv_launch_error:
  assumes "jobs_inv s" and "j \<in> set (js_pending s)"
  shows "jobs_inv (s\<lparr>js_db := launch_failed j now (js_db s), js_pending := removeAll j (js_pending s)\<rparr>)"
proof -
  let ?pe = "removeAll j (js_pending s)"
  have "live (launch_failed j now (js_db s)) k" if "k \<in> fst ` set (js_owned s) \<union> set ?pe" for k
  proof -
    from that assms(2) jobs_invD(6) [OF assms(1)] have "k \<noteq> j" by auto
    moreover from that have "k \<in> fst ` set (js_owned s) \<union> set (js_pending s)" by auto
    ultimately show ?thesis using jobs_invD(5) [OF assms(1)] by (auto simp: live_def launch_failed_def)
  qed
  moreover have "set ?pe \<inter> fst ` set (js_owned s) = {}" using jobs_invD(6) [OF assms(1)] by auto
  ultimately show ?thesis
    using jobs_inv_tamed [OF assms(1) tames_launch_failed, of "js_owned s" ?pe j now] by simp
qed

lemma final_status_settled: "settled outcome \<Longrightarrow>
    if snd (snd outcome) then \<not> is_live (fst (final_status j outcome db)) else fst (final_status j outcome db) = CleanupFailed"
  by (auto simp: settled_def final_status_def terminal_not_live split: option.splits prod.splits)

lemma finish_row_simps [simp]: "jr_id (finish_row res start now actual r) = jr_id r"
  "jr_status (finish_row res start now actual r) = fst res"
  by (simp_all add: finish_row_def)

lemma jobs_inv_monitored:
  assumes "jobs_inv s" and "j \<in> fst ` set (js_owned s)" and "settled outcome"
  shows "jobs_inv (s\<lparr>js_db := monitor_finish j outcome start now actual (js_db s),
      js_owned := drop_rows (\<lambda>p. fst p = j) (js_owned s)\<rparr>)"
proof -
  let ?ow = "drop_rows (\<lambda>p. fst p = j) (js_owned s)"
  define f where "f = finish_row (final_status j outcome (js_db s)) start now actual"
  define ok where "ok = snd (snd outcome)"
  have f: "jr_id (f r) = jr_id r"
      "if ok then \<not> is_live (jr_status (f r)) else jr_status (f r) = CleanupFailed" for r
    using final_status_settled [OF assms(3), of j "js_db s"] by (simp_all add: f_def ok_def)
  have fL: "jr_status (f r) \<noteq> Launching" for r using f(2) [of r] by (cases ok) auto
  have m: "monitor_finish j outcome start now actual (js_db s)
        = (if ok then release_job j (set_job j f (js_db s)) else set_job j f (js_db s))"
    by (simp add: monitor_finish_def Let_def f_def ok_def)
  from jobs_invD(5) [OF assms(1)] assms(2) have "live (js_db s) j" by blast
  then have tame: "tames (js_db s) (set_job j f (js_db s))"
    using f(1) fL by (intro tames_set_job) (simp_all add: live_def)
  have others: "live (set_job j f (js_db s)) k" if "k \<in> fst ` set ?ow \<union> set (js_pending s)" for k
  proof -
    from that assms(2) jobs_invD(6) [OF assms(1)] have "k \<noteq> j" "k \<in> fst ` set (js_owned s) \<union> set (js_pending s)" by auto
    with jobs_invD(5) [OF assms(1)] f(1) show ?thesis by (auto simp: live_def)
  qed
  have "set (js_pending s) \<inter> fst ` set ?ow = {}" using jobs_invD(6) [OF assms(1)] by auto
  from jobs_inv_tamed [OF assms(1) tame others this]
  have inv: "jobs_inv (s\<lparr>js_db := set_job j f (js_db s), js_owned := ?ow\<rparr>)" by (simp add: jobs_inv_def)
  show ?thesis
  proof (cases ok)
    case False
    with inv m show ?thesis by simp
  next
    case True
    have dead: "\<not> live (set_job j f (js_db s)) j"
      using f True by (auto simp: live_def split: option.splits)
    have "jobs_inv (s\<lparr>js_db := set_job j f (js_db s), js_owned := ?ow,
        js_db := drop_admissions (\<lambda>a. ad_job a = Some j) (set_job j f (js_db s))\<rparr>)"
      using jobs_inv_drop_dead [OF inv, of "\<lambda>a. ad_job a = Some j"] dead by (auto simp: holder_def)
    with True m show ?thesis by (simp add: jobs_inv_def release_job_def)
  qed
qed

text \<open>\<open>_init_db\<close>: afterwards every live job has a bound admission.\<close>

lemma restore_admission_mono: "set as \<subseteq> set (restore_admission r as)"
  by (auto simp: restore_admission_def)

lemma restore_keys:
  assumes "distinct (map ad_token as)" and "\<forall>a \<in> set as. \<forall>j. ad_token a = legacy_token j \<longrightarrow> ad_job a = Some j"
  shows "distinct (map ad_token (restore_admission r as))
    \<and> (\<forall>a \<in> set (restore_admission r as). \<forall>j. ad_token a = legacy_token j \<longrightarrow> ad_job a = Some j)
    \<and> (is_live (jr_status r) \<longrightarrow> (\<exists>a \<in> set (restore_admission r as). ad_job a = Some (jr_id r)))"
  using assms by (auto simp: restore_admission_def legacy_token_def is_live_def)

lemma restore_all:
  assumes "distinct (map ad_token as)" and "\<forall>a \<in> set as. \<forall>j. ad_token a = legacy_token j \<longrightarrow> ad_job a = Some j"
  shows "distinct (map ad_token (fold restore_admission rs as))
    \<and> (\<forall>a \<in> set (fold restore_admission rs as). \<forall>j. ad_token a = legacy_token j \<longrightarrow> ad_job a = Some j)
    \<and> set as \<subseteq> set (fold restore_admission rs as)
    \<and> (\<forall>r \<in> set rs. is_live (jr_status r) \<longrightarrow> (\<exists>a \<in> set (fold restore_admission rs as). ad_job a = Some (jr_id r)))"
  using assms
proof (induction rs arbitrary: as)
  case (Cons r rs)
  note k = restore_keys [OF Cons.prems, of r]
  from Cons.IH [of "restore_admission r as"] k restore_admission_mono [of as r]
  show ?case by (simp add: subset_iff) metis
qed simp

lemma init_db_simps [simp]: "job_of (init_db db) j = job_of db j" "db_jobs (init_db db) = db_jobs db" "db_git (init_db db) = db_git db"
  by (simp_all add: init_db_def)

lemma init_db_props:
  assumes "keys_ok db"
  shows "keys_ok (init_db db)" and "set (db_admissions db) \<subseteq> set (db_admissions (init_db db))"
    and "live db j \<Longrightarrow> \<exists>a \<in> set (db_admissions (init_db db)). ad_job a = Some j"
proof -
  note r = restore_all [of "db_admissions db" "db_jobs db"]
  from assms r show "keys_ok (init_db db)" "set (db_admissions db) \<subseteq> set (db_admissions (init_db db))"
    by (simp_all add: keys_ok_def init_db_def)
  assume "live db j"
  then obtain x where "job_of db j = Some x" "is_live (jr_status x)" by (auto simp: live_def split: option.splits)
  then have "x \<in> set (db_jobs db)" "jr_id x = j" "is_live (jr_status x)" by (auto simp: job_of_def dest: find_SomeD)
  with assms r show "\<exists>a \<in> set (db_admissions (init_db db)). ad_job a = Some j"
    by (auto simp: keys_ok_def init_db_def)
qed

lemma jobs_inv_attached:
  assumes "jobs_inv s"
  shows "jobs_inv (s\<lparr>js_db := init_db (js_db s)\<rparr>)"
proof -
  note inv = jobs_invD [OF assms]
  note i = init_db_props [OF inv(1)]
  have live: "live (init_db (js_db s)) j = live (js_db s) j" for j by (simp add: live_def)
  have "covered (js_strays s) (init_db (js_db s)) (js_launches s)"
    using inv(2) i(2) unfolding covered_def live by blast
  moreover have "launches_held (init_db (js_db s)) (js_launches s)"
    using inv(3) i(2) unfolding launches_held_def by blast
  ultimately show ?thesis using i(1) inv(4,5,6) by (simp add: jobs_inv_def live launch_rows_def)
qed

lemma interrupt_row_simps [simp]: "jr_id (interrupt_row now r) = jr_id r"
  "is_live (jr_status (interrupt_row now r)) \<longleftrightarrow> jr_status (interrupt_row now r) = CleanupFailed"
  by (cases "jr_status r"; simp add: interrupt_row_def)+

lemma jobs_inv_restarted:
  assumes "keys_ok db"
  shows "jobs_inv \<lparr>js_db = configure_resources now (init_db db), js_launches = [], js_pending = [], js_owned = [], js_strays = []\<rparr>"
proof -
  let ?db = "(init_db db)\<lparr>db_jobs := map (interrupt_row now) (db_jobs db)\<rparr>"
  let ?P = "\<lambda>a. ad_token a \<notin> set (active_git_tokens ?db)
     \<and> (case ad_job a of None \<Rightarrow> True | Some j \<Rightarrow> j \<notin> set (cleanup_failed_jobs ?db))"
  have c: "configure_resources now (init_db db) = drop_admissions ?P ?db"
    by (simp only: configure_resources_def Let_def init_db_simps)
  have job: "job_of ?db j = map_option (interrupt_row now) (job_of db j)" for j
    unfolding job_of_def by (simp add: find_map_key [where k = jr_id])
  note i = init_db_props [OF assms]
  have "keys_ok ?db" using i(1) by (simp add: keys_ok_def comp_def)
  then have keys: "keys_ok (drop_admissions ?P ?db)"
    by (auto simp: keys_ok_def distinct_map_drop_rows)
  have cov: "covered [] (drop_admissions ?P ?db) []"
  proof (rule coveredI)
    fix j assume "live (drop_admissions ?P ?db) j"
    then obtain r where r: "job_of db j = Some r" "jr_status (interrupt_row now r) = CleanupFailed"
      by (auto simp: live_def job split: option.splits)
    then have rm: "r \<in> set (db_jobs db)" "jr_id r = j" by (auto simp: job_of_def dest: find_SomeD)
    have "is_live (jr_status r)" using r(2) by (cases "jr_status r") (auto simp: interrupt_row_def split: if_splits)
    with r(1) have "live db j" by (simp add: live_def)
    from i(3) [OF this] obtain a where a: "a \<in> set (db_admissions (init_db db))" "ad_job a = Some j" by blast
    have "j \<in> set (cleanup_failed_jobs ?db)"
      using rm r(2) by (auto simp: cleanup_failed_jobs_def image_iff intro!: bexI [of _ r])
    with a show "\<exists>a \<in> set (db_admissions (drop_admissions ?P ?db)). holder [] a = Some j"
      by (intro bexI [of _ a]) (simp_all add: holder_def)
  qed
  show ?thesis unfolding c using keys cov by (simp add: jobs_inv_def launches_held_def launch_rows_def)
qed

lemma jobs_inv_git_resolved:
  "jobs_inv s \<Longrightarrow> t \<notin> fst ` set (js_launches s) \<Longrightarrow> jobs_inv (s\<lparr>js_db := git_resolve t (js_db s)\<rparr>)"
  unfolding git_resolve_def set_resolved_def by (rule jobs_inv_drop_unbound)

lemma jobs_inv_git_bound:
  "jobs_inv s \<Longrightarrow> git_bind t digest guard (js_db s) = Inr db \<Longrightarrow> jobs_inv (s\<lparr>js_db := db\<rparr>)"
  by (auto simp: git_bind_def intro: jobs_inv_git split: option.splits if_splits)

lemma jobs_inv_slot_lost:
  assumes "jobs_inv s" and "e \<noteq> ResourceCleanupError"
    and a: "admission_of (js_db s) t = Some a" "holder (js_launches s) a = Some j" and "j \<in> set (js_pending s)"
  shows "jobs_inv (s\<lparr>js_db := slot_exit t e (js_db s), js_launches := drop_rows (\<lambda>p. fst p = t) (js_launches s),
      js_pending := removeAll j (js_pending s), js_strays := j # js_strays s\<rparr>)"
proof -
  let ?s = "s\<lparr>js_pending := removeAll j (js_pending s), js_strays := j # js_strays s\<rparr>"
  note inv = jobs_invD [OF assms(1)]
  have "covered (j # js_strays s) (js_db s) (js_launches s)" using inv(2) by (auto simp: covered_def)
  with assms(1) have s: "jobs_inv ?s" by (auto simp: jobs_inv_def)
  have only: "b = a" if "b \<in> set (db_admissions (js_db s))" "ad_token b = t" for b
    using find_key_mem [OF that(1), of ad_token] inv(1) that(2) a(1) by (simp add: admission_of_def keys_ok_def)
  have "jobs_inv (?s\<lparr>js_db := drop_admissions (\<lambda>b. ad_token b = t) (js_db ?s), js_launches := drop_rows (\<lambda>p. fst p = t) (js_launches ?s)\<rparr>)"
    using only a(2) by (intro jobs_inv_drop [OF s, where T = "{t}"]) auto
  with assms(2) show ?thesis by (simp add: slot_exit_def jobs_inv_def)
qed

lemma jobs_inv_stopped: "jobs_inv s \<Longrightarrow> jobs_inv (s\<lparr>js_pending := [], js_owned := []\<rparr>)"
  by (simp add: jobs_inv_def)

text \<open>Recovery: jobs become recovered, then admissions of recovered jobs go.\<close>

lemma jobs_inv_retired:
  assumes "jobs_inv s" and "js_pending s = []" "js_owned s = []" and "tames (js_db s) db"
    and "\<And>a j. P a \<Longrightarrow> ad_job a = Some j \<Longrightarrow> \<not> live db j" and "\<And>a. P a \<Longrightarrow> ad_job a \<noteq> None"
  shows "jobs_inv (s\<lparr>js_db := drop_admissions P db\<rparr>)"
proof -
  have "jobs_inv (s\<lparr>js_db := db\<rparr>)"
    using jobs_inv_tamed [OF assms(1,4), of "js_owned s" "js_pending s"] assms(2,3) by (simp add: jobs_inv_def)
  from jobs_inv_drop_dead [OF this, of P] assms(5,6) show ?thesis by (fastforce simp: holder_def)
qed

lemma job_of_retired: "job_of (db\<lparr>db_jobs := update_rows (\<lambda>r. jr_id r \<in> T) (retire_row now) (db_jobs db)\<rparr>) j
    = (if j \<in> T then map_option (retire_row now) (job_of db j) else job_of db j)"
  by (cases "job_of db j")
     (auto simp: job_of_def find_update_rows [where k = jr_id] retire_row_def dest: find_SomeD)

lemma jobs_inv_rolled_back:
  assumes "jobs_inv s" "js_pending s = []" "js_owned s = []" and "rollback_jobs approved_clone tx now (js_db s) = Inr db"
  shows "jobs_inv (s\<lparr>js_db := db\<rparr>)"
proof -
  let ?ids = "set (transaction_jobs tx (js_db s))"
  let ?db = "(js_db s)\<lparr>db_jobs := update_rows (\<lambda>r. jr_id r \<in> ?ids) (retire_row now) (db_jobs (js_db s))\<rparr>"
  let ?P = "\<lambda>a. \<not> approved_clone \<and> (case ad_job a of None \<Rightarrow> False | Some j \<Rightarrow> j \<in> ?ids)"
  have tame: "tames (js_db s) ?db"
    unfolding tames_def job_of_retired
    by (auto simp: map_key_update_rows retire_row_def split: option.splits)
  have dead: "\<not> live ?db j" if "j \<in> ?ids" for j
    using that by (auto simp: live_def job_of_retired retire_row_def split: option.splits)
  have "jobs_inv (s\<lparr>js_db := drop_admissions ?P ?db\<rparr>)"
    using dead by (intro jobs_inv_retired [OF assms(1-3) tame]) (auto split: option.splits)
  moreover have "db = drop_admissions ?P ?db"
    using assms(4) by (auto simp: rollback_jobs_def Let_def drop_admissions_def drop_rows_def split: if_splits)
  ultimately show ?thesis by simp
qed

lemma recover_clone_Inr:
  assumes "recover_clone c db = Inr db'"
  shows "\<exists>gs r. job_of db (cb_job c) = Some r \<and> jr_status r \<in> set RECOVERABLE
    \<and> db' = drop_admissions (\<lambda>a. ad_token a = cb_token c \<and> ad_job a = Some (cb_job c))
      (set_job (cb_job c) (\<lambda>r. r\<lparr>jr_status := Recovered, jr_exit := Some 1\<rparr>) (db\<lparr>db_git := gs\<rparr>))"
  using assms by (auto simp: recover_clone_def stopped_clone_def set_resolved_def split: option.splits if_splits)

lemma jobs_inv_clone_recovered:
  assumes "jobs_inv s" "js_pending s = []" "js_owned s = []" and "recover_clone c (js_db s) = Inr db"
  shows "jobs_inv (s\<lparr>js_db := db\<rparr>)"
proof -
  let ?f = "\<lambda>r. r\<lparr>jr_status := Recovered, jr_exit := Some 1\<rparr>"
  let ?P = "\<lambda>a. ad_token a = cb_token c \<and> ad_job a = Some (cb_job c)"
  from recover_clone_Inr [OF assms(4)] obtain gs where
    db: "db = drop_admissions ?P (set_job (cb_job c) ?f ((js_db s)\<lparr>db_git := gs\<rparr>))" by blast
  let ?s = "s\<lparr>js_db := (js_db s)\<lparr>db_git := gs\<rparr>\<rparr>"
  have tame: "tames (js_db ?s) (set_job (cb_job c) ?f (js_db ?s))"
    by (rule tames_set_job) simp_all
  have "jobs_inv (?s\<lparr>js_db := drop_admissions ?P (set_job (cb_job c) ?f (js_db ?s))\<rparr>)"
    by (rule jobs_inv_retired [OF jobs_inv_git [OF assms(1)] _ _ tame])
       (use assms(2,3) in \<open>auto simp: live_def split: option.splits\<close>)
  then show ?thesis by (simp add: db)
qed

lemma jobs_inv_step: "job_step n s s' \<Longrightarrow> jobs_inv s \<Longrightarrow> jobs_inv s'"
proof (induction rule: job_step.induct)
  case (confined_run j s pid db)
  then show ?case using jobs_inv_kept tames_confined_running keeps_live_ops(2) by blast
next
  case (finalizing j s)
  then show ?case using jobs_inv_kept tames_claim keeps_live_ops(3) by blast
next
  case (cancelling j s reply db)
  then show ?case using jobs_inv_kept tames_cancel_request keeps_live_ops(1) by blast
next
  case (cancel_error s j)
  then show ?case using jobs_inv_kept tames_cancel_failed keeps_live_ops(4) by blast
next
  case (restarted s now)
  then show ?case using jobs_inv_restarted jobs_invD(1) by blast
next
  case (slot_lost e s t a j)
  then show ?case using jobs_inv_slot_lost by blast
next
  case (rolled_back s approved_clone tx now db)
  then show ?case using jobs_inv_rolled_back by blast
next
  case (clone_recovered s c db)
  then show ?case using jobs_inv_clone_recovered by blast
qed (blast intro: jobs_inv_acquire jobs_inv_launch jobs_inv_launch_error jobs_inv_owned jobs_inv_bind
       jobs_inv_slot_exit jobs_inv_release jobs_inv_confined jobs_inv_monitored jobs_inv_git_bound
       jobs_inv_git_resolved jobs_inv_resolve_recovery jobs_inv_attached jobs_inv_stopped)+

lemma jobs_inv_reachable: "(job_step n)\<^sup>*\<^sup>* empty_state s \<Longrightarrow> jobs_inv s"
proof (induction rule: rtranclp_induct)
  case base
  show ?case by (simp add: jobs_inv_def empty_state_def keys_ok_def covered_def launches_held_def launch_rows_def live_def job_of_def)
qed (rule jobs_inv_step)

section \<open>Capacity\<close>

definition slot_row :: "admission \<Rightarrow> bool" where
  "slot_row a \<longleftrightarrow> \<not> starts_with ''legacy_'' (ad_token a)"

definition slots :: "job_db \<Rightarrow> nat" where
  "slots db = length (filter slot_row (db_admissions db))"

lemma legacy_token_iff: "starts_with ''legacy_'' t \<longleftrightarrow> (\<exists>j. t = legacy_token j)"
  by (simp add: starts_with_iff legacy_token_def)

lemma slots_drop: "slots (drop_admissions P db) \<le> slots db"
proof -
  have "filter slot_row (drop_rows P as) = filter (\<lambda>a. \<not> P a) (filter slot_row as)" for as
    by (simp add: drop_rows_def conj_commute)
  then show ?thesis by (simp only: slots_def admissions_simps length_filter_le)
qed

lemma slots_update: "length (filter slot_row (update_rows P (\<lambda>a. a\<lparr>ad_job := x\<rparr>) as)) = length (filter slot_row as)"
  by (induction as) (simp_all add: update_rows_def slot_row_def)

lemma slots_cong: "db_admissions db' = db_admissions db \<Longrightarrow> slots db' = slots db"
  by (simp add: slots_def)

lemma restore_slots: "length (filter slot_row (fold restore_admission rs as)) = length (filter slot_row as)"
proof (induction rs arbitrary: as)
  case (Cons r rs)
  have "length (filter slot_row (restore_admission r as)) = length (filter slot_row as)"
    unfolding restore_admission_def slot_row_def legacy_token_iff by (simp; blast)
  with Cons.IH show ?case by simp
qed simp

lemma slots_init: "slots (init_db db) = slots db"
  by (simp add: slots_def init_db_def restore_slots)

lemma slots_configure: "slots (configure_resources now db) \<le> slots db"
proof -
  have "slots (db\<lparr>db_jobs := map (interrupt_row now) (db_jobs db)\<rparr>) = slots db" by (rule slots_cong) simp
  with slots_drop [of _ "db\<lparr>db_jobs := map (interrupt_row now) (db_jobs db)\<rparr>"] show ?thesis
    unfolding configure_resources_def Let_def by simp
qed

lemma slots_acquire: "acquire n t pid now db = Inr db' \<Longrightarrow> slots db' \<le> n"
proof -
  assume "acquire n t pid now db = Inr db'"
  then have "length (db_admissions db) < n"
    and db: "db' = db\<lparr>db_admissions := db_admissions db @ [\<lparr>ad_token = t, ad_job = None, ad_owner = pid, ad_created = now\<rparr>]\<rparr>"
    by (simp_all add: acquire_def split: if_splits)
  moreover have "slots db' \<le> length (db_admissions db')" unfolding slots_def by (rule length_filter_le)
  ultimately show ?thesis by simp
qed

lemma slots_bind: "slots (bind_launch t j db) \<le> slots db"
proof -
  let ?db = "db\<lparr>db_admissions := update_rows (\<lambda>a. ad_token a = t) (\<lambda>a. a\<lparr>ad_job := Some j\<rparr>) (db_admissions db)\<rparr>"
  have s: "slots ?db = slots db" by (simp add: slots_def slots_update)
  have "bind_launch t j db \<in> {?db, drop_admissions (\<lambda>a. ad_token a = t) ?db}"
    unfolding bind_launch_def Let_def by (cases "job_of db j") simp_all
  with s slots_drop [of "\<lambda>a. ad_token a = t" ?db] show ?thesis by auto
qed

lemma slots_keep:
  "insert_running r db = Inr db' \<Longrightarrow> slots db' = slots db"
  "register_confined t r db = Inr db' \<Longrightarrow> slots db' = slots db"
  "git_bind t digest guard db = Inr db' \<Longrightarrow> slots db' = slots db"
  by (auto simp: insert_running_def register_confined_def git_bind_def slots_def slots_update split: if_splits option.splits)

lemma slots_tamed: "tames db db' \<Longrightarrow> slots db' = slots db"
  by (rule slots_cong) (simp add: tames_def)

lemma slots_resolve: "slots (git_resolve t db) \<le> slots db"
  "resolve_recovery t digest guard db = Inr db' \<Longrightarrow> slots db' \<le> slots db"
proof -
  have g: "slots (drop_unbound t (db\<lparr>db_git := gs\<rparr>)) \<le> slots db" for gs
    using slots_drop [of _ "db\<lparr>db_git := gs\<rparr>"] slots_cong [of "db\<lparr>db_git := gs\<rparr>" db] unfolding drop_unbound_def by simp
  then show "slots (git_resolve t db) \<le> slots db" by (simp add: git_resolve_def set_resolved_def)
  assume "resolve_recovery t digest guard db = Inr db'"
  with g show "slots db' \<le> slots db"
    by (auto simp: resolve_recovery_def set_resolved_def split: option.splits if_splits)
qed

lemma slots_monitor: "slots (monitor_finish j outcome start now actual db) \<le> slots db"
proof -
  have "slots (set_job j f db) = slots db" for f by (rule slots_cong) simp
  then show ?thesis unfolding monitor_finish_def Let_def release_job_def using slots_drop by (metis order_refl)
qed

lemma slots_retired: "rollback_jobs approved_clone tx now db = Inr db' \<Longrightarrow> slots db' \<le> slots db"
  "recover_clone c db = Inr db' \<Longrightarrow> slots db' \<le> slots db"
proof -
  assume r: "rollback_jobs approved_clone tx now db = Inr db'"
  define db1 where "db1 = db\<lparr>db_jobs := update_rows (\<lambda>r. jr_id r \<in> set (transaction_jobs tx db)) (retire_row now) (db_jobs db)\<rparr>"
  have "slots db1 = slots db" by (rule slots_cong) (simp add: db1_def)
  moreover from r have "db' = db1 \<or> (\<exists>P. db' = drop_admissions P db1)"
    by (auto simp: rollback_jobs_def Let_def db1_def split: if_splits)
  ultimately show "slots db' \<le> slots db" using slots_drop by (metis order_refl)
next
  assume "recover_clone c db = Inr db'"
  from recover_clone_Inr [OF this] obtain P f gs where "db' = drop_admissions P (set_job (cb_job c) f (db\<lparr>db_git := gs\<rparr>))" by blast
  moreover have "slots (set_job (cb_job c) f (db\<lparr>db_git := gs\<rparr>)) = slots db" by (rule slots_cong) simp
  ultimately show "slots db' \<le> slots db" using slots_drop by metis
qed

lemma slots_step: "job_step n s s' \<Longrightarrow> slots (js_db s') \<le> max n (slots (js_db s))"
proof (induction rule: job_step.induct)
  case (acquire t pid now s db)
  then show ?case using slots_acquire by fastforce
next
  case (restarted s now)
  then show ?case using slots_configure [of now "init_db (js_db s)"] by (simp add: slots_init)
next
  case (slot_error e s t)
  then show ?case using slots_drop [of "\<lambda>a. ad_token a = t" "js_db s"] by (simp add: slot_exit_def)
next
  case (slot_lost e s t a j)
  then show ?case using slots_drop [of "\<lambda>a. ad_token a = t" "js_db s"] by (simp add: slot_exit_def)
next
  case (release t s)
  then show ?case using slots_drop [of "\<lambda>a. ad_token a = t" "js_db s"] by (simp add: release_token_def)
qed (auto simp: slots_init slots_keep slots_tamed [OF tames_launch_failed] slots_tamed [OF tames_claim]
       slots_tamed [OF tames_cancel_failed] slots_tamed [OF tames_cancel_request] slots_tamed [OF tames_confined_running]
       intro: max.coboundedI2 slots_bind slots_monitor slots_resolve slots_retired)

interpretation job_slots: bounded_resource "\<lambda>s. slots (js_db s)" n "job_step n" for n
  by unfold_locales (rule slots_step)

lemma held_jobs_card:
  assumes "jobs_inv s"
  shows "card {j. live (js_db s) j \<and> j \<notin> set (js_strays s) \<and> (\<forall>a \<in> set (db_admissions (js_db s)). ad_token a \<noteq> legacy_token j)} \<le> slots (js_db s)"
proof -
  let ?S = "{j. live (js_db s) j \<and> j \<notin> set (js_strays s) \<and> (\<forall>a \<in> set (db_admissions (js_db s)). ad_token a \<noteq> legacy_token j)}"
  let ?R = "filter slot_row (db_admissions (js_db s))"
  have "?S \<subseteq> the ` holder (js_launches s) ` set ?R"
  proof
    fix j assume j: "j \<in> ?S"
    then have "live (js_db s) j" "j \<notin> set (js_strays s)" by simp_all
    from coveredD [OF jobs_invD(2) [OF assms] this] obtain a where
      a: "a \<in> set (db_admissions (js_db s))" "holder (js_launches s) a = Some j" by blast
    have "slot_row a"
    proof (rule ccontr)
      assume "\<not> slot_row a"
      then obtain k where k: "ad_token a = legacy_token k" by (auto simp: slot_row_def legacy_token_iff)
      with a jobs_invD(1) [OF assms] have "ad_job a = Some k" by (auto simp: keys_ok_def)
      with a(2) k j a(1) show False by (auto simp: holder_def)
    qed
    with a show "j \<in> the ` holder (js_launches s) ` set ?R" by (auto simp: image_iff intro!: bexI [of _ a])
  qed
  then have "card ?S \<le> card (the ` holder (js_launches s) ` set ?R)" by (intro card_mono) auto
  also have "\<dots> \<le> card (set ?R)" by (metis card_image_le finite_imageI finite_set le_trans)
  also have "\<dots> \<le> slots (js_db s)" unfolding slots_def by (rule card_length)
  finally show ?thesis .
qed

text \<open>
  C12.  However launches, monitors, cancellations, Git operations, owner recovery and restarts interleave, the gateway never
  issues more than \<open>max_active_jobs\<close> slots.  A job is a stray when its launching call failed, gave the slot back and could
  not mark the row failed, until the next restart; every other live job (including one whose cleanup failed) is held by an
  admission, and those of them that were not restored from an earlier database number at most \<open>max_active_jobs\<close>.
\<close>

theorem job_capacity_held:
  assumes "(job_step n)\<^sup>*\<^sup>* empty_state s"
  shows "slots (js_db s) \<le> n
    \<and> (\<forall>j. live (js_db s) j \<and> j \<notin> set (js_strays s)
         \<longrightarrow> (\<exists>a \<in> set (db_admissions (js_db s)). holder (js_launches s) a = Some j))
    \<and> card {j. live (js_db s) j \<and> j \<notin> set (js_strays s)
         \<and> (\<forall>a \<in> set (db_admissions (js_db s)). ad_token a \<noteq> legacy_token j)} \<le> n"
proof -
  have "slots (js_db s) \<le> n"
    using job_slots.held_capacity [OF assms] by (simp add: empty_state_def slots_def)
  moreover note inv = jobs_inv_reachable [OF assms]
  ultimately show ?thesis
    using held_jobs_card [OF inv] coveredD [OF jobs_invD(2) [OF inv]] by auto
qed

section \<open>Terminal states\<close>

lemma job_of_bind [simp]: "job_of (bind_launch t j db) k = job_of db k"
proof -
  let ?db = "db\<lparr>db_admissions := update_rows (\<lambda>a. ad_token a = t) (\<lambda>a. a\<lparr>ad_job := Some j\<rparr>) (db_admissions db)\<rparr>"
  have "bind_launch t j db \<in> {?db, drop_admissions (\<lambda>a. ad_token a = t) ?db}"
    unfolding bind_launch_def Let_def by (cases "job_of db j") simp_all
  then show ?thesis by auto
qed

lemma job_of_append_Some: "job_of db j = Some r \<Longrightarrow> job_of (db\<lparr>db_jobs := db_jobs db @ [x]\<rparr>) j = Some r"
  by (simp add: job_of_append)

text \<open>
  An operation that touches a job row only while the job is live, apart from what recovery fills in when it meets a job it
  recovered before.
\<close>

definition refilled :: "job_row \<Rightarrow> job_row \<Rightarrow> bool" where
  "refilled r r' \<longleftrightarrow> r' = r \<or> jr_status r = Recovered \<and> (\<exists>t. r' = r\<lparr>jr_exit := Some 1, jr_finished := t\<rparr> \<and> (jr_finished r \<noteq> None \<longrightarrow> t = jr_finished r))"

definition freezes :: "job_db \<Rightarrow> job_db \<Rightarrow> bool" where
  "freezes db db' \<longleftrightarrow> (\<forall>j r. job_of db j = Some r \<and> \<not> is_live (jr_status r) \<longrightarrow> (\<exists>r'. job_of db' j = Some r' \<and> refilled r r'))"

lemma refilled_refl [simp]: "refilled r r"
  by (simp add: refilled_def)

lemma refilled_status: "refilled r r' \<Longrightarrow> jr_status r' = jr_status r"
  by (auto simp: refilled_def)

lemma refilled_trans: "refilled r r' \<Longrightarrow> refilled r' r'' \<Longrightarrow> refilled r r''"
  by (cases r) (auto simp: refilled_def)

lemma freezes_same: "(\<And>j. job_of db' j = job_of db j) \<Longrightarrow> freezes db db'"
  by (simp add: freezes_def)

lemma freezes_set_job: "(\<And>r. jr_id (f r) = jr_id r) \<Longrightarrow> live db k \<Longrightarrow> freezes db (set_job k f db)"
  by (auto simp: freezes_def live_def)

lemma freezes_ops:
  "insert_running r db = Inr db' \<Longrightarrow> freezes db db'"
  "register_confined t r db = Inr db' \<Longrightarrow> freezes db db'"
  "confined_running j pid db = Inr db' \<Longrightarrow> freezes db db'"
  "cancel_request j ow db = Inr (reply, db') \<Longrightarrow> freezes db db'"
  "freezes db (snd (claim_finalizing j db))"
  "freezes db (cancel_failed j db)"
proof -
  show "insert_running r db = Inr db' \<Longrightarrow> freezes db db'"
    by (auto simp: freezes_def insert_running_def job_of_append_Some split: if_splits)
  show "register_confined t r db = Inr db' \<Longrightarrow> freezes db db'"
    by (auto simp: freezes_def register_confined_def job_of_def find_append split: if_splits option.splits)
  show "confined_running j pid db = Inr db' \<Longrightarrow> freezes db db'"
    by (auto simp: confined_running_def live_def intro!: freezes_set_job split: if_splits option.splits)
  show "cancel_request j ow db = Inr (reply, db') \<Longrightarrow> freezes db db'"
    by (auto simp: cancel_request_def freezes_def split: if_splits option.splits)
  show "freezes db (snd (claim_finalizing j db))"
    by (auto simp: claim_finalizing_def freezes_def split: option.splits)
  show "freezes db (cancel_failed j db)"
    by (auto simp: freezes_def job_of_cancel_failed)
qed

lemma freezes_admissions:
  "acquire n t pid now db = Inr db' \<Longrightarrow> freezes db db'"
  "git_bind t digest guard db = Inr db' \<Longrightarrow> freezes db db'"
  "resolve_recovery t digest guard db = Inr db' \<Longrightarrow> freezes db db'"
  by (auto simp: acquire_def git_bind_def resolve_recovery_def drop_unbound_def set_resolved_def intro!: freezes_same
      split: if_splits option.splits)

lemma interrupt_row_dead: "\<not> is_live (jr_status r) \<Longrightarrow> interrupt_row now r = r"
  by (cases "jr_status r") (simp_all add: interrupt_row_def)

lemma freezes_configure: "freezes db (configure_resources now (init_db db))"
  by (auto simp: freezes_def configure_resources_def Let_def job_of_def find_map_key [where k = jr_id]
      drop_admissions_def interrupt_row_dead init_db_def)

lemma freezes_rollback:
  assumes "keys_ok db" and "rollback_jobs approved_clone tx now db = Inr db'"
  shows "freezes db db'"
proof -
  have job: "job_of db' j = (if j \<in> set (transaction_jobs tx db) then map_option (retire_row now) (job_of db j) else job_of db j)" for j
    using assms(2) by (auto simp: rollback_jobs_def Let_def job_of_retired split: if_splits)
  have "refilled r (retire_row now r)"
    if r: "job_of db j = Some r" "\<not> is_live (jr_status r)" and j: "j \<in> set (transaction_jobs tx db)" for j r
  proof -
    from j obtain x where x: "x \<in> set (db_jobs db)" "jr_transaction x = Some tx" "jr_id x = j"
      by (auto simp: transaction_jobs_def)
    with r(1) assms(1) have "x = r" using find_key_mem [OF x(1), of jr_id] by (simp add: job_of_def keys_ok_def)
    with x assms(2) have "jr_status r \<in> set RECOVERABLE"
      by (auto simp: rollback_jobs_def list_ex_iff split: if_splits)
    with r(2) have "jr_status r = Recovered" by (auto simp: RECOVERABLE_def)
    then show ?thesis by (cases r) (auto simp: refilled_def retire_row_def split: option.split)
  qed
  then show ?thesis by (auto simp: freezes_def job)
qed

lemma freezes_clone:
  assumes "recover_clone c db = Inr db'"
  shows "freezes db db'"
proof -
  let ?f = "\<lambda>r. r\<lparr>jr_status := Recovered, jr_exit := Some 1\<rparr>"
  from recover_clone_Inr [OF assms] obtain r where r: "job_of db (cb_job c) = Some r" "jr_status r \<in> set RECOVERABLE"
    and job: "job_of db' j = (if j = cb_job c then map_option ?f (job_of db j) else job_of db j)" for j by auto
  have "refilled r (?f r)" if "\<not> is_live (jr_status r)"
    using that r(2) by (cases r) (auto simp: RECOVERABLE_def refilled_def)
  with r(1) show ?thesis by (auto simp: freezes_def job)
qed

lemma job_step_freezes: "job_step n s s' \<Longrightarrow> jobs_inv s \<Longrightarrow> freezes (js_db s) (js_db s')"
proof (induction rule: job_step.induct)
  case (launch_error j s now)
  then have "live (js_db s) j" using jobs_invD(5) by blast
  then show ?case by (simp add: launch_failed_def freezes_set_job)
next
  case (monitored j s outcome start now actual)
  then have "live (js_db s) j" using jobs_invD(5) by blast
  then have "freezes (js_db s) (set_job j (finish_row (final_status j outcome (js_db s)) start now actual) (js_db s))"
    by (rule freezes_set_job [rotated]) simp
  then show ?case by (simp add: monitor_finish_def Let_def release_job_def freezes_def)
next
  case (slot_error e s t)
  show ?case by (rule freezes_same) (simp add: slot_exit_def)
next
  case (slot_lost e s t a j)
  show ?case by (rule freezes_same) (simp add: slot_exit_def)
next
  case (rolled_back s approved_clone tx now db)
  then show ?case using freezes_rollback jobs_invD(1) by simp
next
  case (clone_recovered s c db)
  then show ?case using freezes_clone by simp
qed (auto simp: release_token_def git_resolve_def drop_unbound_def set_resolved_def freezes_configure
      intro: freezes_ops freezes_admissions freezes_same)

text \<open>
  C13.  A terminal job is final: once a reachable database shows a job completed, failed, timed out, cancelled, over its
  output limit or interrupted, no later step of any launch, monitor, cancellation, restart or owner recovery changes its
  row.  A job an owner recovered stays recovered: a later recovery of the same transaction may set its exit code to 1 and
  fill in a missing finish time, and nothing else of the row changes.
\<close>

theorem terminal_jobs_are_final:
  assumes "(job_step n)\<^sup>*\<^sup>* empty_state s" and "(job_step n)\<^sup>*\<^sup>* s s'"
    and "job_of (js_db s) j = Some r" and "jr_status r \<in> set TERMINAL_JOB_STATUSES"
  shows "\<exists>r'. job_of (js_db s') j = Some r' \<and> (r' = r \<or> jr_status r = Recovered
    \<and> (\<exists>t. r' = r\<lparr>jr_exit := Some 1, jr_finished := t\<rparr> \<and> (jr_finished r \<noteq> None \<longrightarrow> t = jr_finished r)))"
proof -
  from assms(2) have "\<exists>r'. job_of (js_db s') j = Some r' \<and> refilled r r'"
  proof (induction rule: rtranclp_induct)
    case base
    from assms(3) show ?case by simp
  next
    case (step y z)
    then obtain r' where r': "job_of (js_db y) j = Some r'" "refilled r r'" by blast
    with assms(4) have dead: "\<not> is_live (jr_status r')" by (simp add: refilled_status terminal_not_live)
    from assms(1) step.hyps(1) have "jobs_inv y" by (intro jobs_inv_reachable [of n]) (rule rtranclp_trans)
    with step.hyps(2) have "freezes (js_db y) (js_db z)" by (rule job_step_freezes)
    with r'(1) dead obtain r'' where "job_of (js_db z) j = Some r''" "refilled r' r''" unfolding freezes_def by blast
    with r'(2) refilled_trans show ?case by blast
  qed
  then show ?thesis by (simp add: refilled_def)
qed

section \<open>Bounded logs\<close>

text \<open>What a stream delivered before its end.\<close>

fun text_of :: "stream \<Rightarrow> pipe_event list \<Rightarrow> string" where
  "text_of s [] = []"
| "text_of s (Chunk s' c # es) = (if s' = s then c @ text_of s es else text_of s es)"
| "text_of s (Eof s' # es) = (if s' = s then [] else text_of s es)"
| "text_of s (StopSet # es) = text_of s es"
| "text_of s (DeadlinePassed # es) = text_of s es"

lemma saved_save [simp]: "saved (save d s x) s' = (if s' = s then saved d s @ x else saved d s')"
  "dr_open (save d s x) = dr_open d"
  by (cases s; cases s'; simp add: saved_def save_def)+

lemma saved_open [simp]: "saved (d\<lparr>dr_open := ss\<rparr>) s = saved d s"
  by (cases s) (simp_all add: saved_def)

lemma drain_loop_saved:
  assumes "drain_loop max_log d es = (killed, d')" and "\<And>s. length (saved d s) \<le> max_log"
  shows "length (saved d' s) \<le> max_log
    \<and> (\<exists>rest. saved d s @ (if s \<in> set (dr_open d) then text_of s es else []) = saved d' s @ rest
         \<and> (killed = None \<longrightarrow> rest = []))"
  using assms
proof (induction max_log d es arbitrary: killed d' rule: drain_loop.induct)
  case (2 max_log d e es)
  show ?case
  proof (cases "dr_open d = []")
    case True
    with 2(4,5) show ?thesis by simp
  next
    case opened: False
    show ?thesis
    proof (cases e)
      case (Chunk c chunk)
      show ?thesis
      proof (cases "c \<in> set (dr_open d)")
        case False
        with 2 opened Chunk show ?thesis by auto
      next
        case True
        let ?budget = "max_log - length (saved d c)"
        let ?d = "save d c (take ?budget chunk)"
        have bound: "length (saved ?d s') \<le> max_log" for s' using 2(5) [of s'] by (auto simp: min_def)
        show ?thesis
        proof (cases "?budget < length chunk")
          case over: True
          with 2(4) opened Chunk True have d': "d' = ?d" "killed = Some (OutputLimitExceeded, 125)"
            by (simp_all add: Let_def)
          show ?thesis
          proof (cases "s = c")
            case True
            with d' bound [of s] \<open>c \<in> set (dr_open d)\<close> Chunk show ?thesis
              by (auto intro!: exI [of _ "drop ?budget chunk @ text_of c es"])
          next
            case False
            with d' bound [of s] Chunk show ?thesis by auto
          qed
        next
          case False
          with 2(4) opened Chunk True have run: "drain_loop max_log ?d es = (killed, d')" by (simp add: Let_def)
          from 2(2) [OF opened Chunk _ refl refl _ run bound] True False
          show ?thesis using Chunk by auto
        qed
      qed
    next
      case (Eof c)
      with 2(4) opened have run: "drain_loop max_log (d\<lparr>dr_open := removeAll c (dr_open d)\<rparr>) es = (killed, d')" by simp
      have bound: "length (saved (d\<lparr>dr_open := removeAll c (dr_open d)\<rparr>) s') \<le> max_log" for s'
        using 2(5) by simp
      from 2(3) [OF opened Eof run bound] Eof show ?thesis by auto
    next
      case StopSet
      with 2(4,5) opened show ?thesis by auto
    next
      case DeadlinePassed
      with 2(4,5) opened show ?thesis by auto
    qed
  qed
qed auto

definition fresh_drain :: drain where
  "fresh_drain = \<lparr>dr_open = [Stdout, Stderr], dr_out = [], dr_err = []\<rparr>"

text \<open>
  C15.  The log files are bounded and faithful: whatever a process writes, each log holds at most
  \<open>max_log_bytes\<close> and is a prefix of what the process wrote to that stream, and it is all of it
  unless the monitor killed the job (stop, deadline or output limit).
\<close>

theorem job_logs_bounded_prefix:
  assumes "drain_loop max_log fresh_drain es = (killed, d)"
  shows "length (saved d s) \<le> max_log \<and> (\<exists>rest. text_of s es = saved d s @ rest \<and> (killed = None \<longrightarrow> rest = []))"
proof -
  have "saved fresh_drain s' = []" for s' by (cases s') (simp_all add: fresh_drain_def saved_def)
  moreover have "s \<in> set (dr_open fresh_drain)" by (cases s) (simp_all add: fresh_drain_def)
  ultimately show ?thesis using drain_loop_saved [OF assms, of s] by simp
qed

theorem job_logs_bounded_prefix_witness:
  "\<exists>d. drain_loop 4 fresh_drain [Chunk Stdout ''ab'', Chunk Stderr ''x'', Chunk Stdout ''cdef'', Eof Stdout]
      = (Some (OutputLimitExceeded, 125), d) \<and> saved d Stdout = ''abcd'' \<and> length (saved d Stderr) \<le> 4"
proof -
  have e: "drain_loop 4 fresh_drain [Chunk Stdout ''ab'', Chunk Stderr ''x'', Chunk Stdout ''cdef'', Eof Stdout]
      = (Some (OutputLimitExceeded, 125), \<lparr>dr_open = [Stdout, Stderr], dr_out = ''abcd'', dr_err = ''x''\<rparr>)"
    by (simp add: fresh_drain_def saved_def save_def)
  from job_logs_bounded_prefix [OF e, of Stderr] e show ?thesis by (simp add: saved_def)
qed

section \<open>Finalization and release\<close>

lemma settle_settled: "fst drained \<in> set TERMINAL_JOB_STATUSES \<Longrightarrow> settled (settle cf drained)"
  by (cases drained) (auto simp: settle_def settled_def TERMINAL_JOB_STATUSES_def Let_def)

definition finalized_outcome :: "finalized \<Rightarrow> job_status \<times> int \<times> bool" where
  "finalized_outcome f = (fi_status f, fi_exit f, fi_cleanup_ok f)"

lemma needs_recovery_simps [simp]:
  "fi_status (needs_recovery f) = CleanupFailed" "fi_cleanup_ok (needs_recovery f) = False"
  "fi_published (needs_recovery f) = fi_published f" "fi_db (needs_recovery f) = fi_db f"
  by (simp_all add: needs_recovery_def)

text \<open>Closing keeps what was published and the database; it never turns another status into success.\<close>

lemma close_transaction_facts:
  assumes "settled (finalized_outcome f)" and "fi_cleanup_ok f"
  shows "settled (finalized_outcome (close_transaction tx pending f))"
    and "fi_published (close_transaction tx pending f) = fi_published f"
    and "fi_db (close_transaction tx pending f) = fi_db f"
    and "fi_status (close_transaction tx pending f) = Completed \<Longrightarrow> fi_status f = Completed \<and> \<not> pending"
    and "fi_cleanup_ok (close_transaction tx pending f) \<Longrightarrow> \<not> pending"
  using assms by (auto simp: close_transaction_def reject_edits_def finalized_outcome_def settled_def
      TERMINAL_JOB_STATUSES_def split: effect.splits if_splits)

lemma reject_edits_facts:
  "fi_cleanup_ok f \<Longrightarrow> settled (finalized_outcome (reject_edits pending closing f))"
  "fi_published (reject_edits pending closing f) = fi_published f"
  "fi_db (reject_edits pending closing f) = fi_db f"
  "fi_status (reject_edits pending closing f) \<noteq> Completed"
  "fi_cleanup_ok (reject_edits pending closing f) \<Longrightarrow> \<not> pending"
  by (auto simp: reject_edits_def finalized_outcome_def settled_def TERMINAL_JOB_STATUSES_def)

text \<open>
  C14.  Workspace edits are published only for a job that completed with exit code 0 and whose row the
  monitor moved from running to finalizing in that very step, so a job being cancelled is never
  published.  A success is reported only after publication, a consumed pull that stays
  unpublished is never reported clean, and the outcome is fit for the monitor's last transaction.
\<close>

theorem finalization_publishes_claimed_only:
  assumes "settled (status, code, ok)" and "f = finalize_workspace_edits j (Some tx) (status, code, ok) db"
  shows "settled (finalized_outcome f)
    \<and> (fi_published f \<longrightarrow> ok \<and> status = Completed \<and> code = 0
         \<and> map_option jr_status (job_of db j) = Some Running
         \<and> map_option jr_status (job_of (fi_db f) j) = Some Finalizing)
    \<and> (fi_status f = Completed \<longrightarrow> fi_published f \<or> code \<noteq> 0)
    \<and> (fi_cleanup_ok f \<and> tx_pull_pending tx \<longrightarrow> fi_published f \<and> \<not> tx_pending_after tx)"
proof -
  let ?f = "\<lparr>fi_status = status, fi_exit = code, fi_cleanup_ok = ok, fi_published = False, fi_notice = None, fi_db = db\<rparr>"
  have base: "settled (finalized_outcome ?f)" using assms(1) by (simp add: finalized_outcome_def)
  have f: "f = (if \<not> ok then ?f
         else if tx_pull_pending tx \<and> (status \<noteq> Completed \<or> code \<noteq> 0) then needs_recovery ?f
         else if status = Completed \<and> code = 0 then
           (case claim_finalizing j db of
              (True, db') \<Rightarrow>
                (case tx_publish tx of
                   Done \<Rightarrow> close_transaction tx (tx_pull_pending tx \<and> tx_pending_after tx)
                     (?f\<lparr>fi_published := True, fi_db := db'\<rparr>)
                 | CleanupError \<Rightarrow> needs_recovery (?f\<lparr>fi_db := db'\<rparr>)
                 | OtherError \<Rightarrow> reject_edits (tx_pull_pending tx) (tx_close tx) (?f\<lparr>fi_db := db'\<rparr>))
            | (False, db') \<Rightarrow>
                close_transaction tx (tx_pull_pending tx)
                  (if map_option jr_status (job_of db j) \<in> {Some Cancelling, Some Cancelled}
                   then ?f\<lparr>fi_status := Cancelled, fi_exit := 130\<rparr>
                   else ?f\<lparr>fi_status := Failed, fi_exit := 1\<rparr>))
         else close_transaction tx False ?f)"
    unfolding assms(2) finalize_workspace_edits_def by (simp only: prod.case option.case Let_def)
  consider (dirty) "\<not> ok" | (pending) "ok" "tx_pull_pending tx" "status \<noteq> Completed \<or> code \<noteq> 0"
    | (claim) "ok" "status = Completed" "code = 0" "fst (claim_finalizing j db)"
    | (lost) "ok" "status = Completed" "code = 0" "\<not> fst (claim_finalizing j db)"
    | (other) "ok" "\<not> tx_pull_pending tx" "status \<noteq> Completed \<or> code \<noteq> 0" by blast
  then show ?thesis
  proof cases
    case dirty
    with f base assms(1) show ?thesis by (auto simp: settled_def finalized_outcome_def)
  next
    case pending
    with f have "f = needs_recovery ?f" by simp
    then show ?thesis by (simp add: finalized_outcome_def settled_def)
  next
    case claim
    then obtain db' where c: "claim_finalizing j db = (True, db')" by (cases "claim_finalizing j db") auto
    then have row: "map_option jr_status (job_of db j) = Some Running"
      "map_option jr_status (job_of db' j) = Some Finalizing"
      by (auto simp: claim_finalizing_def split: option.splits if_splits)
    show ?thesis
    proof (cases "tx_publish tx")
      case Done
      let ?g = "?f\<lparr>fi_published := True, fi_db := db'\<rparr>"
      have g: "settled (finalized_outcome ?g)" using base by (simp add: finalized_outcome_def)
      from f claim c Done have "f = close_transaction tx (tx_pull_pending tx \<and> tx_pending_after tx) ?g" by simp
      with close_transaction_facts [OF g _, of tx "tx_pull_pending tx \<and> tx_pending_after tx"] row claim show ?thesis by auto
    next
      case CleanupError
      with f claim c have "f = needs_recovery (?f\<lparr>fi_db := db'\<rparr>)" by simp
      then show ?thesis by (simp add: finalized_outcome_def settled_def)
    next
      case OtherError
      with f claim c have "f = reject_edits (tx_pull_pending tx) (tx_close tx) (?f\<lparr>fi_db := db'\<rparr>)" by simp
      with reject_edits_facts [where f = "?f\<lparr>fi_db := db'\<rparr>" and pending = "tx_pull_pending tx" and closing = "tx_close tx"] claim(1) show ?thesis by auto
    qed
  next
    case lost
    then obtain db' where c: "claim_finalizing j db = (False, db')" by (cases "claim_finalizing j db") auto
    define g where "g = (if map_option jr_status (job_of db j) \<in> {Some Cancelling, Some Cancelled}
        then ?f\<lparr>fi_status := Cancelled, fi_exit := 130\<rparr> else ?f\<lparr>fi_status := Failed, fi_exit := 1\<rparr>)"
    have g: "settled (finalized_outcome g)" "fi_published g = False" "fi_status g \<noteq> Completed" "fi_cleanup_ok g"
      using lost(1) by (auto simp: g_def finalized_outcome_def settled_def TERMINAL_JOB_STATUSES_def)
    from f lost c have "f = close_transaction tx (tx_pull_pending tx) g" by (simp add: g_def)
    with close_transaction_facts [OF g(1,4), of tx "tx_pull_pending tx"] g show ?thesis by auto
  next
    case other
    with f have "f = close_transaction tx False ?f" by auto
    with close_transaction_facts [OF base _, of tx False] other show ?thesis by auto
  qed
qed

text \<open>
  The monitor's last transaction ties status and capacity together: with a verified cleanup the job is
  terminal and no admission names it any more; without one the job is \<open>cleanup_failed\<close> and every
  admission row stays.
\<close>

theorem monitor_release_matches_cleanup:
  assumes "settled outcome" and "job_of db j = Some r"
    and "db' = monitor_finish j outcome start now actual db"
  shows "(snd (snd outcome) \<longrightarrow> \<not> live db' j \<and> (\<forall>a \<in> set (db_admissions db'). ad_job a \<noteq> Some j))
    \<and> (\<not> snd (snd outcome) \<longrightarrow> map_option jr_status (job_of db' j) = Some CleanupFailed
         \<and> db_admissions db' = db_admissions db)
    \<and> (\<forall>k. k \<noteq> j \<longrightarrow> job_of db' k = job_of db k)"
  using assms(2,3) final_status_settled [OF assms(1), of j db]
  by (cases "snd (snd outcome)") (simp_all add: monitor_finish_def Let_def release_job_def live_def)

text \<open>The finalization notice keeps the stderr log within its limit and behind what was saved.\<close>

lemma append_notice_bounded:
  "length err \<le> max_log \<Longrightarrow> length (append_notice max_log notice err) \<le> max_log
     \<and> (\<exists>more. append_notice max_log notice err = err @ more)"
  by (auto simp: append_notice_def split: option.split)

section \<open>Paging\<close>

text \<open>A client that follows \<open>next_cursor\<close> until a page brings nothing new.\<close>

fun read_pages :: "nat \<Rightarrow> string \<Rightarrow> (string \<Rightarrow> string) \<times> (string \<Rightarrow> string) \<Rightarrow> nat \<Rightarrow> int \<Rightarrow> job_db \<Rightarrow> output_page list option" where
  "read_pages 0 j logs c m db = None"
| "read_pages (Suc fuel) j logs c m db = (case get_output j logs (int c) m db of
     Inl _ \<Rightarrow> None
   | Inr page \<Rightarrow> if op_next page = c then Some []
       else map_option (Cons page) (read_pages fuel j logs (op_next page) m db))"

text \<open>The bytes a page stands for.\<close>

definition page_slice :: "string \<Rightarrow> output_page \<Rightarrow> string" where
  "page_slice log page = take (op_next page - op_cursor page) (drop (op_cursor page) log)"

lemma page_size_pos: "0 < page_size m"
  by (simp add: page_size_def)

lemma read_pages_rest:
  assumes "job_of db j \<noteq> None" and "length (fst logs j) - c < fuel"
  shows "\<exists>pages. read_pages fuel j logs c m db = Some pages
    \<and> concat (map (page_slice (fst logs j)) pages) = drop c (fst logs j)
    \<and> (\<forall>page \<in> set pages. op_stdout page = decode_replace (page_slice (fst logs j) page)
         \<and> op_cursor page < op_next page \<and> op_next page \<le> op_cursor page + page_size m)"
  using assms(2)
proof (induction fuel arbitrary: c)
  case (Suc fuel)
  obtain r where r: "job_of db j = Some r" using assms(1) by blast
  let ?log = "fst logs j"
  let ?d = "take (page_size m) (drop c ?log)"
  let ?p = "\<lparr>op_cursor = c, op_next = c + length ?d, op_stdout = decode_replace ?d,
      op_stderr = decode_replace (take (page_size m) (snd logs j))\<rparr>"
  have page: "get_output j logs (int c) m db = Inr ?p"
    by (simp add: get_output_def r Let_def)
  show ?case
  proof (cases "drop c ?log = []")
    case True
    with page show ?thesis by simp
  next
    case False
    then have pos: "0 < length ?d" using page_size_pos by (simp add: min_def)
    have "n - (c + e) < fuel" if "n - c < Suc fuel" "0 < e" "0 < n - c" for n e :: nat
      using that by linarith
    from this [OF Suc.prems pos] False have "length ?log - (c + length ?d) < fuel" by simp
    from Suc.IH [OF this] obtain pages where rest: "read_pages fuel j logs (c + length ?d) m db = Some pages"
      "concat (map (page_slice ?log) pages) = drop (c + length ?d) ?log"
      "\<forall>page \<in> set pages. op_stdout page = decode_replace (page_slice ?log page)
         \<and> op_cursor page < op_next page \<and> op_next page \<le> op_cursor page + page_size m" by blast
    have slice: "page_slice ?log ?p = ?d" by (simp add: page_slice_def min_def)
    have "drop (c + length ?d) ?log = drop (length ?d) (drop c ?log)" by (simp add: add.commute)
    then have "?d @ drop (c + length ?d) ?log = drop c ?log" by (metis append_eq_conv_conj append_take_drop_id)
    with page pos rest slice show ?thesis by (intro exI [of _ "?p # pages"]) simp
  qed
qed simp

text \<open>
  C16.  Reading a job's output from cursor 0 and following \<open>next_cursor\<close> ends after at most the length of the stdout log
  plus one calls, for any requested page size.  Each page is the decoding of its own slice of the log, no longer than the
  page size, and the slices, in order, are exactly the log: every byte is delivered once.  The texts of an ASCII log
  concatenate to the log itself.
\<close>

theorem output_paging_roundtrip:
  assumes "job_of db j = Some r"
  shows "\<exists>pages. read_pages (Suc (length (fst logs j))) j logs 0 m db = Some pages
    \<and> concat (map (page_slice (fst logs j)) pages) = fst logs j
    \<and> (\<forall>page \<in> set pages. op_stdout page = decode_replace (page_slice (fst logs j) page)
         \<and> op_cursor page < op_next page \<and> op_next page \<le> op_cursor page + page_size m)
    \<and> (ascii (fst logs j) \<longrightarrow> concat (map op_stdout pages) = fst logs j)"
proof -
  let ?log = "fst logs j"
  obtain pages where p: "read_pages (Suc (length ?log)) j logs 0 m db = Some pages" "concat (map (page_slice ?log) pages) = ?log"
    "\<forall>page \<in> set pages. op_stdout page = decode_replace (page_slice ?log page)
         \<and> op_cursor page < op_next page \<and> op_next page \<le> op_cursor page + page_size m"
    using read_pages_rest [of db j logs 0 "Suc (length ?log)" m] assms by auto
  have "concat (map op_stdout pages) = ?log" if "ascii ?log"
  proof -
    have "ascii (page_slice ?log page)" for page
      using that by (auto simp: page_slice_def ascii_def list_all_iff dest!: in_set_takeD in_set_dropD)
    with p(3) have "map op_stdout pages = map (page_slice ?log) pages" by simp
    with p(2) show ?thesis by metis
  qed
  with p show ?thesis by blast
qed

text \<open>
  Text outside ASCII does not survive paging: a character cut at the end of a page is replaced in both pages.  Here the
  two bytes of one letter, read with pages of one byte, come back as two replacement characters.
\<close>

lemma paging_breaks_characters:
  assumes "job_of db j = Some r"
  shows "map_option (map op_stdout) (read_pages 3 j (\<lambda>_. [CHR 0xC3, CHR 0xA9], \<lambda>_. []) 0 1 db)
    = Some [decode_replace [CHR 0xC3], decode_replace [CHR 0xA9]]
    \<and> decode_replace [CHR 0xC3] = [CHR 0xEF, CHR 0xBF, CHR 0xBD] \<and> decode_replace [CHR 0xA9] = [CHR 0xEF, CHR 0xBF, CHR 0xBD]"
proof -
  have "decode_replace [CHR 0xC3] = [CHR 0xEF, CHR 0xBF, CHR 0xBD]" "decode_replace [CHR 0xA9] = [CHR 0xEF, CHR 0xBF, CHR 0xBD]"
    by code_simp+
  with assms show ?thesis by (simp add: numeral_3_eq_3 get_output_def page_size_def)
qed

section \<open>Single-use Git admissions\<close>

text \<open>Two operations never share a slot: the table's primary key makes \<open>bind\<close> a single-use ledger.\<close>

definition bind_request :: "string \<times> string \<times> string \<Rightarrow> job_db \<Rightarrow> job_db result" where
  "bind_request q db = (case q of (token, digest, guard) \<Rightarrow> git_bind token digest guard db)"

interpretation git_slots: single_use bind_request fst "\<lambda>db. ga_token ` set (db_git db)"
proof
  fix q :: "string \<times> string \<times> string" and db db'
  assume "bind_request q db = Inr db'"
  then show "fst q \<notin> ga_token ` set (db_git db)" "ga_token ` set (db_git db') = insert (fst q) (ga_token ` set (db_git db))"
    by (auto simp: bind_request_def git_bind_def git_of_def find_key_None split: prod.splits option.splits if_splits)
qed

section \<open>A concrete gateway\<close>

definition demo_job :: job_row where
  "demo_job = \<lparr>jr_id = ''job_1'', jr_workspace = ''w1'', jr_argv = [''make''], jr_cwd = ''/srv/w'', jr_pid = Some 42,
     jr_status = Running, jr_created = 0, jr_started = Some 0, jr_finished = None, jr_duration = None, jr_exit = None,
     jr_agent = [], jr_provider = [], jr_model = [], jr_requested = [], jr_actual = ''unknown'', jr_transaction = None\<rparr>"

definition demo_token :: string where
  "demo_token = replicate 32 (CHR ''a'')"

definition demo_running :: jobs_state where
  "demo_running = \<lparr>js_db = \<lparr>db_admissions = [\<lparr>ad_token = demo_token, ad_job = None, ad_owner = 7, ad_created = 0\<rparr>],
     db_git = [], db_jobs = [demo_job]\<rparr>, js_launches = [(demo_token, ''job_1'')], js_pending = [], js_owned = [(''job_1'', 42)], js_strays = []\<rparr>"

lemma demo_reachable: "(job_step 3)\<^sup>*\<^sup>* empty_state demo_running"
proof -
  let ?adm = "\<lparr>ad_token = demo_token, ad_job = None, ad_owner = 7, ad_created = 0\<rparr>"
  let ?s1 = "empty_state\<lparr>js_db := \<lparr>db_admissions = [?adm], db_git = [], db_jobs = []\<rparr>\<rparr>"
  let ?s2 = "?s1\<lparr>js_db := \<lparr>db_admissions = [?adm], db_git = [], db_jobs = [demo_job]\<rparr>,
    js_launches := [(demo_token, ''job_1'')], js_pending := [''job_1'']\<rparr>"
  have hex: "slot_token demo_token" by code_simp
  have "acquire 3 demo_token 7 0 (js_db empty_state) = Inr \<lparr>db_admissions = [?adm], db_git = [], db_jobs = []\<rparr>"
    by (simp add: acquire_def empty_state_def admission_of_def)
  from job_step.acquire [OF hex this] have s1: "job_step 3 empty_state ?s1" .
  have r: "insert_running demo_job (js_db ?s1) = Inr \<lparr>db_admissions = [?adm], db_git = [], db_jobs = [demo_job]\<rparr>"
    by (simp add: insert_running_def empty_state_def job_of_def demo_job_def)
  have "job_step 3 ?s1 (?s1\<lparr>js_db := \<lparr>db_admissions = [?adm], db_git = [], db_jobs = [demo_job]\<rparr>,
      js_launches := (demo_token, jr_id demo_job) # js_launches ?s1, js_pending := jr_id demo_job # js_pending ?s1\<rparr>)"
    by (rule job_step.launch [OF _ _ _ _ r, of _ ?adm]) (simp_all add: admission_of_def git_of_def empty_state_def)
  then have s2: "job_step 3 ?s1 ?s2" by (simp add: empty_state_def demo_job_def)
  have "job_step 3 ?s2 (?s2\<lparr>js_pending := removeAll ''job_1'' (js_pending ?s2), js_owned := (''job_1'', 42) # js_owned ?s2\<rparr>)"
    by (rule job_step.owned [where r = demo_job]) (simp_all add: job_of_def demo_job_def)
  then have s3: "job_step 3 ?s2 demo_running" by (simp add: demo_running_def empty_state_def)
  from s1 s2 s3 show ?thesis by (meson converse_rtranclp_into_rtranclp rtranclp.rtrancl_refl)
qed

text \<open>
  Without the strays the bound fails: with a limit of one, a launch whose error handler fails gives its only slot back and
  leaves its row running, and a second launch is admitted.
\<close>

lemma lost_slot_exceeds_capacity:
  "\<exists>s. (job_step 1)\<^sup>*\<^sup>* empty_state s \<and> live (js_db s) ''job_1'' \<and> live (js_db s) ''job_2''
    \<and> (\<forall>a \<in> set (db_admissions (js_db s)). ad_token a = demo_token)"
proof -
  let ?adm = "\<lparr>ad_token = demo_token, ad_job = None, ad_owner = 7, ad_created = 0\<rparr>"
  let ?job2 = "demo_job\<lparr>jr_id := ''job_2''\<rparr>"
  let ?s1 = "empty_state\<lparr>js_db := \<lparr>db_admissions = [?adm], db_git = [], db_jobs = []\<rparr>\<rparr>"
  let ?s2 = "?s1\<lparr>js_db := \<lparr>db_admissions = [?adm], db_git = [], db_jobs = [demo_job]\<rparr>,
    js_launches := [(demo_token, ''job_1'')], js_pending := [''job_1'']\<rparr>"
  let ?s3 = "?s2\<lparr>js_db := \<lparr>db_admissions = [], db_git = [], db_jobs = [demo_job]\<rparr>,
    js_launches := [], js_pending := [], js_strays := [''job_1'']\<rparr>"
  let ?s4 = "?s3\<lparr>js_db := \<lparr>db_admissions = [?adm], db_git = [], db_jobs = [demo_job]\<rparr>\<rparr>"
  let ?s5 = "?s4\<lparr>js_db := \<lparr>db_admissions = [?adm], db_git = [], db_jobs = [demo_job, ?job2]\<rparr>,
    js_launches := [(demo_token, ''job_2'')], js_pending := [''job_2'']\<rparr>"
  note defs = empty_state_def admission_of_def git_of_def job_of_def demo_job_def
  have hex: "slot_token demo_token" by code_simp
  have "job_step 1 empty_state ?s1"
    by (rule job_step.acquire [OF hex, of 1 7 0]) (simp add: acquire_def defs)
  moreover have "job_step 1 ?s1 (?s1\<lparr>js_db := js_db ?s2, js_launches := (demo_token, jr_id demo_job) # js_launches ?s1,
      js_pending := jr_id demo_job # js_pending ?s1\<rparr>)"
    by (rule job_step.launch [where a = ?adm]) (simp_all add: insert_running_def defs)
  then have "job_step 1 ?s1 ?s2" by (simp add: defs)
  moreover have "job_step 1 ?s2 (?s2\<lparr>js_db := slot_exit demo_token OSError (js_db ?s2),
      js_launches := drop_rows (\<lambda>p. fst p = demo_token) (js_launches ?s2),
      js_pending := removeAll ''job_1'' (js_pending ?s2), js_strays := ''job_1'' # js_strays ?s2\<rparr>)"
    by (rule job_step.slot_lost [where a = ?adm]) (simp_all add: holder_def defs)
  then have "job_step 1 ?s2 ?s3" by (simp add: slot_exit_def drop_admissions_def drop_rows_def defs)
  moreover have "job_step 1 ?s3 ?s4"
    using job_step.acquire [OF hex, of 1 7 0 ?s3 "js_db ?s4"] by (simp add: acquire_def defs)
  moreover have "job_step 1 ?s4 (?s4\<lparr>js_db := js_db ?s5, js_launches := (demo_token, jr_id ?job2) # js_launches ?s4,
      js_pending := jr_id ?job2 # js_pending ?s4\<rparr>)"
    by (rule job_step.launch [where a = ?adm]) (simp_all add: insert_running_def defs)
  then have "job_step 1 ?s4 ?s5" by (simp add: defs)
  ultimately have "(job_step 1)\<^sup>*\<^sup>* empty_state ?s5"
    by (meson converse_rtranclp_into_rtranclp rtranclp.rtrancl_refl)
  moreover have "live (js_db ?s5) ''job_1''" "live (js_db ?s5) ''job_2''" by (simp_all add: live_def defs)
  ultimately show ?thesis by (intro exI [of _ ?s5]) simp
qed

theorem job_capacity_held_witness:
  "live (js_db demo_running) ''job_1'' \<and> slots (js_db demo_running) \<le> 3
   \<and> (\<exists>a \<in> set (db_admissions (js_db demo_running)). holder (js_launches demo_running) a = Some ''job_1'')"
proof -
  have "live (js_db demo_running) ''job_1''"
    by (simp add: live_def demo_running_def job_of_def demo_job_def)
  moreover have "js_strays demo_running = []" by (simp add: demo_running_def)
  ultimately show ?thesis using job_capacity_held [OF demo_reachable] by simp
qed

theorem terminal_jobs_are_final_witness:
  "\<exists>s s' r. (job_step 3)\<^sup>*\<^sup>* s s' \<and> s \<noteq> s' \<and> job_of (js_db s') ''job_1'' = Some r \<and> jr_status r = Interrupted"
proof -
  let ?s = "\<lparr>js_db = configure_resources 5 (init_db (js_db demo_running)), js_launches = [], js_pending = [], js_owned = [], js_strays = []\<rparr>"
  let ?s' = "?s\<lparr>js_db := (js_db ?s)\<lparr>db_admissions := db_admissions (js_db ?s) @
    [\<lparr>ad_token = demo_token, ad_job = None, ad_owner = 8, ad_created = 9\<rparr>]\<rparr>\<rparr>"
  have reach: "(job_step 3)\<^sup>*\<^sup>* empty_state ?s"
    using demo_reachable job_step.restarted by (rule rtranclp.rtrancl_into_rtrancl)
  have db: "configure_resources 5 (init_db (js_db demo_running)) = \<lparr>db_admissions = [], db_git = [], db_jobs = [interrupt_row 5 demo_job]\<rparr>"
    by (simp add: configure_resources_def Let_def init_db_def demo_running_def demo_job_def restore_admission_def
        LIVE_STATUSES_def legacy_token_def demo_token_def interrupt_row_def cleanup_failed_jobs_def active_git_tokens_def
        drop_admissions_def drop_rows_def)
  have hex: "slot_token demo_token" by code_simp
  have "acquire 3 demo_token 8 9 (js_db ?s) = Inr (js_db ?s')"
    by (simp add: acquire_def admission_of_def db)
  from job_step.acquire [OF hex this] have one: "job_step 3 ?s ?s'" by simp
  have row: "job_of (js_db ?s) ''job_1'' = Some (interrupt_row 5 demo_job)"
    by (simp add: db job_of_def demo_job_def)
  have st: "jr_status (interrupt_row 5 demo_job) = Interrupted" by (simp add: interrupt_row_def demo_job_def)
  have steps: "(job_step 3)\<^sup>*\<^sup>* ?s ?s'" using one by (rule r_into_rtranclp)
  have "jr_status (interrupt_row 5 demo_job) \<in> set TERMINAL_JOB_STATUSES" by (simp add: st TERMINAL_JOB_STATUSES_def)
  from terminal_jobs_are_final [OF reach steps row this] st
  have "job_of (js_db ?s') ''job_1'' = Some (interrupt_row 5 demo_job)" by auto
  moreover have "?s \<noteq> ?s'" by (simp add: db)
  ultimately show ?thesis using steps st by blast
qed

definition demo_tx :: transaction where
  "demo_tx = \<lparr>tx_pull_pending = False, tx_publish = Done, tx_pending_after = False, tx_close = Done, tx_close_again = Done\<rparr>"

theorem finalization_publishes_claimed_only_witness:
  "fi_published (finalize_workspace_edits ''job_1'' (Some demo_tx) (Completed, 0, True) (js_db demo_running))
   \<and> settled (finalized_outcome (finalize_workspace_edits ''job_1'' (Some demo_tx) (Completed, 0, True) (js_db demo_running)))"
proof -
  have s: "settled (Completed, 0, True)" by (simp add: settled_def TERMINAL_JOB_STATUSES_def)
  have "fi_published (finalize_workspace_edits ''job_1'' (Some demo_tx) (Completed, 0, True) (js_db demo_running))"
    by code_simp
  with finalization_publishes_claimed_only [OF s refl, of "''job_1''" demo_tx "js_db demo_running"] show ?thesis by blast
qed

theorem monitor_release_matches_cleanup_witness:
  "\<not> live (monitor_finish ''job_1'' (Completed, 0, True) 0 9 ''unknown'' (js_db demo_running)) ''job_1''"
proof -
  have s: "settled (Completed, 0, True)" by (simp add: settled_def TERMINAL_JOB_STATUSES_def)
  have r: "job_of (js_db demo_running) ''job_1'' = Some demo_job" by (simp add: job_of_def demo_running_def demo_job_def)
  from monitor_release_matches_cleanup [OF s r refl, of 0 9 "''unknown''"] show ?thesis by simp
qed

theorem output_paging_roundtrip_witness:
  "\<exists>pages. read_pages 6 ''job_1'' (\<lambda>_. ''hello'', \<lambda>_. []) 0 2 (js_db demo_running) = Some pages
    \<and> concat (map op_stdout pages) = ''hello''"
proof -
  have r: "job_of (js_db demo_running) ''job_1'' = Some demo_job" by (simp add: job_of_def demo_running_def demo_job_def)
  have "ascii ''hello''" "Suc (length ''hello'') = 6" by code_simp+
  with output_paging_roundtrip [OF r, of "(\<lambda>_. ''hello'', \<lambda>_. [])" 2] show ?thesis
    by (simp only: prod.sel) blast
qed

end
