(* ===== verification/Sandbox_Args.thy ===== *)
theory Sandbox_Args
  imports Paths Jobs
begin

text \<open>
  \<open>sandbox/bubblewrap.py\<close>, \<open>tooling.py\<close> and the launch checks of \<open>tools/jobs.py\<close> and \<open>tools/execution.py\<close>:
  the Bubblewrap command line, the tool mounts, the bounded synchronous run, and the guards before an
  asynchronous launch.  The host's directories and installed tools are functions of a host record.
\<close>

section \<open>Tool mounts\<close>

record sandbox_host =
  sh_fs :: host_fs
  sh_which :: "string \<Rightarrow> string option"
  sh_exists :: "string \<Rightarrow> bool"
  sh_isdir :: "string \<Rightarrow> bool"
  sh_lexists :: "string \<Rightarrow> bool"
  sh_islink :: "string \<Rightarrow> bool"

definition TOOL_ALIASES :: "(string \<times> string list) list" where
  "TOOL_ALIASES = [(''fd'', [''fd'', ''fdfind'']), (''bat'', [''bat'', ''batcat''])]"

definition HOST_TOOL_BINDINGS :: "string list" where
  "HOST_TOOL_BINDINGS = [''quarto'', ''rtk'', ''eza'', ''tree'', ''yq'', ''delta'', ''uv'', ''duckdb'',
     ''watchexec'', ''entr'', ''htop'', ''btop'', ''strace'']"

fun first_found :: "(string \<Rightarrow> string option) \<Rightarrow> string list \<Rightarrow> string option" where
  "first_found which [] = None"
| "first_found which (c # cs) = (case which c of Some p \<Rightarrow> Some p | None \<Rightarrow> first_found which cs)"

definition resolve_tool :: "sandbox_host \<Rightarrow> string \<Rightarrow> string option" where
  "resolve_tool h name = first_found (sh_which h) (case map_of TOOL_ALIASES name of Some cs \<Rightarrow> cs | None \<Rightarrow> [name])"

definition system_path :: "string \<Rightarrow> bool" where
  "system_path p \<longleftrightarrow> starts_with ''/usr/'' p \<or> starts_with ''/bin/'' p"

text \<open>\<open>_add_host_binding\<close>: the added arguments and the mount point.\<close>

definition add_host_binding :: "sandbox_host \<Rightarrow> string \<Rightarrow> string \<Rightarrow> string list \<times> string" where
  "add_host_binding h name source =
     (let comps = realpath_comps (sh_fs h) source in
      if name = ''quarto'' \<and> butlast comps \<noteq> [] \<and> last (butlast comps) = ''bin''
      then ([''--ro-bind'', to_path (butlast (butlast comps)), ''/opt/agentporter/quarto''],
            ''/opt/agentporter/quarto/bin/'' @ last comps)
      else ([''--ro-bind'', to_path comps, ''/opt/agentporter/host-tools/'' @ name],
            ''/opt/agentporter/host-tools/'' @ name))"

type_synonym mounts = "string list \<times> (string \<times> string) list"

definition mount_host_tool :: "sandbox_host \<Rightarrow> mounts \<Rightarrow> string \<Rightarrow> mounts" where
  "mount_host_tool h m name = (case resolve_tool h name of
       None \<Rightarrow> m
     | Some source \<Rightarrow> if system_path (realpath (sh_fs h) source) then m
         else (let (extra, at) = add_host_binding h name source in (fst m @ extra, dict_set name at (snd m))))"

definition mount_alias :: "sandbox_host \<Rightarrow> mounts \<Rightarrow> string \<Rightarrow> mounts" where
  "mount_alias h m name = (case resolve_tool h name of
       None \<Rightarrow> m
     | Some source \<Rightarrow>
         if system_path (realpath (sh_fs h) source) then (fst m, dict_set name (realpath (sh_fs h) source) (snd m))
         else if name \<notin> field_names (snd m)
         then (let (extra, at) = add_host_binding h name source in (fst m @ extra, dict_set name at (snd m)))
         else m)"

definition symlink_args :: "string \<times> string \<Rightarrow> string list" where
  "symlink_args e = (case e of (name, source) \<Rightarrow>
     if source \<noteq> ''/opt/agentporter/bin/'' @ name
     then [''--symlink'', source, ''/opt/agentporter/bin/'' @ name] else [])"

definition add_tooling_mounts :: "sandbox_host \<Rightarrow> string list" where
  "add_tooling_mounts h =
     (let m = foldl (mount_host_tool h) ([], []) HOST_TOOL_BINDINGS;
          m' = foldl (mount_alias h) m (map fst TOOL_ALIASES)
      in [''--dir'', ''/opt'', ''--dir'', ''/opt/agentporter'', ''--dir'', ''/opt/agentporter/bin'',
          ''--dir'', ''/opt/agentporter/host-tools''] @ fst m' @ concat (map symlink_args (snd m')))"

section \<open>The command line\<close>

definition ws_dest :: string where
  "ws_dest = ''/workspace''"

definition target_cwd :: "sandbox_host \<Rightarrow> string \<Rightarrow> string \<Rightarrow> string result" where
  "target_cwd h real sub_cwd =
     (if sub_cwd = [] then Inr ws_dest
      else if is_abs sub_cwd then Inl ValueError
      else (let rel = normpath sub_cwd in
        if rel = ''..'' \<or> starts_with ''../'' rel then Inl ValueError
        else (let full = realpath (sh_fs h) (path_join real rel) in
          if full = real \<or> starts_with (real @ ''/'') full then Inr (path_join ws_dest rel)
          else Inl ValueError)))"

definition base_args :: "string \<Rightarrow> string \<Rightarrow> string list" where
  "base_args passwd_file group_file = [''bwrap'', ''--die-with-parent'',
     ''--ro-bind'', ''/usr'', ''/usr'', ''--ro-bind'', ''/lib'', ''/lib'', ''--ro-bind'', ''/lib64'', ''/lib64'',
     ''--ro-bind'', ''/bin'', ''/bin'', ''--ro-bind'', ''/etc/alternatives'', ''/etc/alternatives'',
     ''--ro-bind'', passwd_file, ''/etc/passwd'', ''--ro-bind'', group_file, ''/etc/group'',
     ''--proc'', ''/proc'', ''--dev'', ''/dev'', ''--tmpfs'', ''/tmp'']"

definition optional_binds :: "sandbox_host \<Rightarrow> string list" where
  "optional_binds h = concat (map (\<lambda>d. if sh_exists h d then [''--ro-bind'', d, d] else [])
     [''/etc/R'', ''/etc/ssl/certs'', ''/etc/resolv.conf'', ''/etc/hosts''])"

definition env_args :: "string list" where
  "env_args = [''--unshare-net'', ''--clearenv'',
     ''--setenv'', ''PATH'', ''/opt/agentporter/bin:/usr/local/bin:/usr/bin:/bin'',
     ''--setenv'', ''HOME'', ''/tmp'', ''--setenv'', ''USER'', ''sandbox'', ''--setenv'', ''LOGNAME'', ''sandbox'',
     ''--setenv'', ''LC_ALL'', ''C.UTF-8'', ''--setenv'', ''LANG'', ''C.UTF-8'',
     ''--setenv'', ''GIT_CONFIG_COUNT'', ''1'', ''--setenv'', ''GIT_CONFIG_KEY_0'', ''safe.directory'',
     ''--setenv'', ''GIT_CONFIG_VALUE_0'', ''/workspace'']"

text \<open>\<open>fd\<close> is the directory descriptor that a transaction or trusted Git passes; then the workspace path is not resolved.\<close>

definition workspace_source :: "sandbox_host \<Rightarrow> string \<Rightarrow> nat option \<Rightarrow> string" where
  "workspace_source h workspace_path fd = (case fd of None \<Rightarrow> realpath (sh_fs h) workspace_path
     | Some n \<Rightarrow> ''/proc/self/fd/'' @ decimal n @ ''/.'')"

definition build_bwrap_args :: "sandbox_host \<Rightarrow> string \<Rightarrow> string \<Rightarrow> string \<Rightarrow> bool \<Rightarrow> string \<Rightarrow> bool \<Rightarrow> bool
    \<Rightarrow> nat option \<Rightarrow> string list result" where
  "build_bwrap_args h passwd_file group_file workspace_path can_write sub_cwd network_access git_metadata_writable fd =
     (if network_access then Inl PermissionError
      else (let real = workspace_source h workspace_path fd;
                git = path_join real ''.git'' in
        if \<not> sh_isdir h real then Inl ValueError
        else rbind (target_cwd h real sub_cwd) (\<lambda>cwd.
          if sh_islink h git then Inl PermissionError
          else Inr (base_args passwd_file group_file @ optional_binds h @ add_tooling_mounts h
            @ [if can_write \<and> git_metadata_writable then ''--bind'' else ''--ro-bind'', real, ws_dest, ''--unshare-all'']
            @ (if sh_lexists h git \<and> \<not> git_metadata_writable then [''--ro-bind'', git, ''/workspace/.git''] else [])
            @ env_args @ [''--chdir'', cwd]))))"

definition clamp_timeout :: "int \<Rightarrow> int \<Rightarrow> int option \<Rightarrow> int result" where
  "clamp_timeout default_timeout max_timeout timeout_seconds =
     (let requested = (case timeout_seconds of None \<Rightarrow> default_timeout | Some t \<Rightarrow> t) in
      if requested \<le> 0 then Inl ValueError else Inr (min requested max_timeout))"

section \<open>The bounded run\<close>

text \<open>\<open>_run_command\<close>: the collecting loop.  A pass over ready pipes that finds the deadline passed stops it.\<close>

record collected =
  co_open :: "stream list"
  co_out :: string
  co_err :: string
  co_exceeded :: "stream option"
  co_timed_out :: bool

definition co_text :: "collected \<Rightarrow> stream \<Rightarrow> string" where
  "co_text c s = (case s of Stdout \<Rightarrow> co_out c | Stderr \<Rightarrow> co_err c)"

definition co_add :: "collected \<Rightarrow> stream \<Rightarrow> string \<Rightarrow> collected" where
  "co_add c s x = (case s of Stdout \<Rightarrow> c\<lparr>co_out := co_out c @ x\<rparr> | Stderr \<Rightarrow> c\<lparr>co_err := co_err c @ x\<rparr>)"

fun collect_loop :: "nat \<Rightarrow> collected \<Rightarrow> pipe_event list \<Rightarrow> collected" where
  "collect_loop limit c [] = c"
| "collect_loop limit c (e # es) =
     (if co_open c = [] then c
      else (case e of
          DeadlinePassed \<Rightarrow> c\<lparr>co_timed_out := True\<rparr>
        | StopSet \<Rightarrow> collect_loop limit c es
        | Eof s \<Rightarrow> collect_loop limit (c\<lparr>co_open := removeAll s (co_open c)\<rparr>) es
        | Chunk s chunk \<Rightarrow>
            if s \<notin> set (co_open c) then collect_loop limit c es
            else (let available = limit - length (co_text c s);
                      c' = co_add c s (take available chunk)
                  in if available < length chunk then c'\<lparr>co_exceeded := Some s\<rparr> else collect_loop limit c' es)))"

definition fresh_collect :: collected where
  "fresh_collect = \<lparr>co_open = [Stdout, Stderr], co_out = [], co_err = [], co_exceeded = None, co_timed_out = False\<rparr>"

definition output_limit :: "int \<Rightarrow> int option \<Rightarrow> int" where
  "output_limit max_output requested = min (max 1024 (case requested of None \<Rightarrow> max_output
     | Some n \<Rightarrow> if n = 0 then max_output else n)) max_output"

record run_result =
  rr_exit :: int
  rr_stdout :: string
  rr_stderr :: string
  rr_truncated :: bool
  rr_timed_out :: bool
  rr_timeout :: int

definition truncation_notice :: "stream \<Rightarrow> string" where
  "truncation_notice s = CHR 0x0A # ''... ['' @ (case s of Stdout \<Rightarrow> ''STDOUT'' | Stderr \<Rightarrow> ''STDERR'')
     @ '' TRUNCATED: PROCESS KILLED AT OUTPUT LIMIT]''"

definition timeout_notice :: string where
  "timeout_notice = CHR 0x0A # ''... [TIMEOUT: PROCESS GROUP KILLED]''"

text \<open>After the loop: kill and code 124 or 125, or wait for the exit; then the notices.\<close>

definition run_outcome :: "int \<Rightarrow> collected \<Rightarrow> int option \<Rightarrow> run_result" where
  "run_outcome timeout c exited =
     (let late = (co_timed_out c = False \<and> co_exceeded c = None \<and> exited = None);
          timed_out = (co_timed_out c \<or> late);
          code = (if timed_out then 124 else if co_exceeded c \<noteq> None then 125
                  else (case exited of Some n \<Rightarrow> n | None \<Rightarrow> 124));
          out = (if co_exceeded c = Some Stdout then co_out c @ truncation_notice Stdout else co_out c);
          err = (if co_exceeded c = Some Stderr then co_err c @ truncation_notice Stderr else co_err c)
      in \<lparr>rr_exit = code, rr_stdout = out, rr_stderr = (if timed_out then err @ timeout_notice else err),
          rr_truncated = (co_exceeded c \<noteq> None \<or> timed_out), rr_timed_out = timed_out, rr_timeout = timeout\<rparr>)"

definition run_command :: "sandbox_host \<Rightarrow> string \<Rightarrow> string \<Rightarrow> int \<times> int \<times> int \<Rightarrow> string \<Rightarrow> string list \<Rightarrow> string \<Rightarrow> int option
    \<Rightarrow> bool \<Rightarrow> int option \<Rightarrow> bool \<Rightarrow> bool \<Rightarrow> (string list \<Rightarrow> pipe_event list \<times> int option) \<Rightarrow> run_result result" where
  "run_command h passwd_file group_file limits workspace_path argv cwd timeout_seconds can_write requested network git_writable process =
     (case limits of (default_timeout, max_timeout, max_output) \<Rightarrow>
      if argv = [] \<or> [] \<in> set argv then Inl ValueError
      else rbind (clamp_timeout default_timeout max_timeout timeout_seconds) (\<lambda>timeout.
        rbind (build_bwrap_args h passwd_file group_file workspace_path can_write cwd network git_writable None) (\<lambda>args.
          let (events, exited) = process (args @ [''--''] @ argv);
              c = collect_loop (nat (output_limit max_output requested)) fresh_collect events
          in Inr (run_outcome timeout c exited))))"

section \<open>Launch checks\<close>

definition required_flags :: "string list" where
  "required_flags = [''--unshare-all'', ''--unshare-net'', ''--clearenv'', ''--die-with-parent'']"

text \<open>\<open>cmd.index("--")\<close>: the arguments before the first boundary.\<close>

fun before_boundary :: "string list \<Rightarrow> string list option" where
  "before_boundary [] = None"
| "before_boundary (a # cmd) = (if a = ''--'' then Some [] else map_option (Cons a) (before_boundary cmd))"

fun has_triple :: "string list \<Rightarrow> string list \<Rightarrow> bool" where
  "has_triple t [] = False"
| "has_triple t (a # as) = (take 3 (a # as) = t \<or> has_triple t as)"

definition credential_arg :: "string \<Rightarrow> bool" where
  "credential_arg a \<longleftrightarrow> contains ''SSH_AUTH_SOCK'' a \<or> contains ''/.ssh'' a \<or> contains ''/.config/gh'' a"

definition validate_sandbox_command :: "sandbox_host \<Rightarrow> string list \<Rightarrow> string \<Rightarrow> string result" where
  "validate_sandbox_command h cmd workspace_path = (case sh_which h ''bwrap'' of
       None \<Rightarrow> Inl PermissionError
     | Some executable \<Rightarrow>
       if cmd = [] \<or> hd cmd \<noteq> ''bwrap'' then Inl PermissionError
       else (case before_boundary cmd of
           None \<Rightarrow> Inl PermissionError
         | Some launcher_args \<Rightarrow>
             if \<not> set required_flags \<subseteq> set launcher_args \<or> ''--share-net'' \<in> set launcher_args then Inl PermissionError
             else (let real = realpath (sh_fs h) workspace_path in
               if \<not> (has_triple [''--bind'', real, ws_dest] launcher_args
                     \<or> has_triple [''--ro-bind'', real, ws_dest] launcher_args) then Inl PermissionError
               else if list_ex credential_arg launcher_args then Inl PermissionError
               else Inr (realpath (sh_fs h) executable))))"

text \<open>The body of \<open>start_raw_job\<close> up to the launch: the command and its time limit.\<close>

definition raw_command :: "sandbox_host \<Rightarrow> string \<Rightarrow> string list \<Rightarrow> string \<Rightarrow> int \<Rightarrow> (string list \<times> int) result" where
  "raw_command h workspace_path cmd agent timeout_seconds =
     (if agent \<noteq> [] then Inl PermissionError
      else if cmd = [] \<or> [] \<in> set cmd then Inl ValueError
      else rbind (validate_sandbox_command h cmd workspace_path) (\<lambda>trusted.
        Inr (trusted # tl cmd, min 900 (max 1 timeout_seconds))))"

text \<open>\<open>@admitted_job\<close> around it: the slot is taken before any check, and given back when the body raises.\<close>

record slot_entry =
  sl_max :: nat
  sl_token :: string
  sl_pid :: int
  sl_now :: int

definition start_raw_job :: "sandbox_host \<Rightarrow> slot_entry \<Rightarrow> job_db \<Rightarrow> string \<Rightarrow> string list \<Rightarrow> string \<Rightarrow> int
    \<Rightarrow> (string list \<times> int) result \<times> job_db" where
  "start_raw_job h slot db workspace_path cmd agent timeout_seconds =
     (case acquire (sl_max slot) (sl_token slot) (sl_pid slot) (sl_now slot) db of
        Inl e \<Rightarrow> (Inl e, db)
      | Inr held \<Rightarrow> (case raw_command h workspace_path cmd agent timeout_seconds of
          Inl e \<Rightarrow> (Inl e, slot_exit (sl_token slot) e held)
        | Inr launched \<Rightarrow> (Inr launched, held)))"

text \<open>\<open>exec_start\<close> without network access and without transactions.\<close>

definition exec_start_offline :: "sandbox_host \<Rightarrow> slot_entry \<Rightarrow> job_db \<Rightarrow> string \<Rightarrow> string \<Rightarrow> int \<Rightarrow> int \<Rightarrow> string \<Rightarrow> bool \<Rightarrow> bool
    \<Rightarrow> string list \<Rightarrow> string \<Rightarrow> int \<Rightarrow> (string list \<times> int) result \<times> job_db" where
  "exec_start_offline h slot db passwd_file group_file default_timeout max_timeout path can_write can_execute argv cwd timeout_seconds =
     (if \<not> can_execute then (Inl PermissionError, db)
      else case clamp_timeout default_timeout max_timeout (Some timeout_seconds) of Inl e \<Rightarrow> (Inl e, db)
      | Inr timeout \<Rightarrow> (case build_bwrap_args h passwd_file group_file path can_write cwd False False None of Inl e \<Rightarrow> (Inl e, db)
        | Inr args \<Rightarrow> start_raw_job h slot db path (args @ [''--''] @ argv) [] timeout))"

section \<open>Confinement of the command line\<close>

text \<open>Every argument but the workspace bind is an absolute path or one of the words the code writes literally.\<close>

definition WORDS :: "string list" where
  "WORDS = [''bwrap'', ''--die-with-parent'', ''--ro-bind'', ''--proc'', ''--dev'', ''--tmpfs'', ''--dir'', ''--symlink'',
     ''--unshare-all'', ''--unshare-net'', ''--clearenv'', ''--setenv'', ''--chdir'', ''PATH'', ''HOME'', ''USER'',
     ''LOGNAME'', ''LC_ALL'', ''LANG'', ''sandbox'', ''C.UTF-8'', ''GIT_CONFIG_COUNT'', ''1'', ''GIT_CONFIG_KEY_0'',
     ''safe.directory'', ''GIT_CONFIG_VALUE_0'']"

definition plain_arg :: "string \<Rightarrow> bool" where
  "plain_arg a \<longleftrightarrow> is_abs a \<or> a \<in> set WORDS"

lemma is_abs_append [simp]: "is_abs a \<Longrightarrow> is_abs (a @ b)"
  by (auto simp: is_abs_def starts_with_iff)

lemma is_abs_source [simp]: "is_abs (workspace_source h ws fd)"
  by (cases fd) (simp_all add: workspace_source_def is_abs_def realpath_def to_path_def)

lemma is_abs_to_path [simp]: "is_abs (to_path cs)" "is_abs (realpath fs p)"
  by (simp_all add: is_abs_def to_path_def realpath_def)

lemma is_abs_lit [simp]: "is_abs (CHR ''/'' # s)"
  by (simp add: is_abs_def)

lemma is_abs_join [simp]: "is_abs a \<Longrightarrow> is_abs (path_join a b)"
  by (auto simp: path_join_def is_abs_def starts_with_iff)

lemma list_all_concat_map: "list_all P (concat (map f xs)) \<longleftrightarrow> list_all (\<lambda>x. list_all P (f x)) xs"
  by (induction xs) auto

lemma plain_words [simp]:
  "plain_arg ''--ro-bind''" "plain_arg ''--dir''" "plain_arg ''--symlink''" "plain_arg ''--chdir''" "plain_arg ''--unshare-all''"
  by (simp_all add: plain_arg_def WORDS_def)

lemma plain_abs [simp]: "is_abs a \<Longrightarrow> plain_arg a"
  by (simp add: plain_arg_def)

definition mounts_ok :: "mounts \<Rightarrow> bool" where
  "mounts_ok m \<longleftrightarrow> list_all plain_arg (fst m) \<and> (\<forall>e \<in> set (snd m). is_abs (snd e))"

lemma add_host_binding_ok:
  "add_host_binding h name source = (extra, at) \<Longrightarrow> list_all plain_arg extra \<and> is_abs at"
  by (auto simp: add_host_binding_def Let_def split: if_splits)

lemma dict_set_values: "(k', v') \<in> set (dict_set k v d) \<Longrightarrow> v' = v \<or> (k', v') \<in> set d"
  by (auto simp: dict_set_def split: if_splits)

lemma mount_host_tool_ok: "mounts_ok m \<Longrightarrow> mounts_ok (mount_host_tool h m name)"
  by (fastforce simp: mount_host_tool_def mounts_ok_def dest: add_host_binding_ok dict_set_values
      split: option.splits prod.splits)

lemma mount_alias_ok: "mounts_ok m \<Longrightarrow> mounts_ok (mount_alias h m name)"
  by (fastforce simp: mount_alias_def mounts_ok_def dest: add_host_binding_ok dict_set_values
      split: option.splits prod.splits)

lemma foldl_ok: "(\<And>m x. P m \<Longrightarrow> P (f m x)) \<Longrightarrow> P m \<Longrightarrow> P (foldl f m xs)"
  by (induction xs arbitrary: m) auto

lemma symlink_args_ok: "is_abs (snd e) \<Longrightarrow> list_all plain_arg (symlink_args e)"
  by (auto simp: symlink_args_def split: prod.splits)

lemma tooling_plain: "list_all plain_arg (add_tooling_mounts h)"
proof -
  define m where "m = foldl (mount_alias h) (foldl (mount_host_tool h) ([], []) HOST_TOOL_BINDINGS) (map fst TOOL_ALIASES)"
  have "mounts_ok m" unfolding m_def
    by (intro foldl_ok [where P = mounts_ok] mount_alias_ok mount_host_tool_ok) (simp_all add: mounts_ok_def)
  then have "list_all plain_arg (fst m)" "list_all plain_arg (concat (map symlink_args (snd m)))"
    unfolding mounts_ok_def list_all_concat_map by (auto simp: list_all_iff dest!: symlink_args_ok)
  then show ?thesis by (simp add: add_tooling_mounts_def Let_def m_def)
qed

lemma base_plain: "is_abs passwd_file \<Longrightarrow> is_abs group_file \<Longrightarrow> list_all plain_arg (base_args passwd_file group_file)"
  by (simp add: base_args_def plain_arg_def WORDS_def)

lemma env_plain: "list_all plain_arg env_args"
  by code_simp

lemma optional_plain: "list_all plain_arg (optional_binds h)"
  by (simp add: optional_binds_def)

lemma norm_comps_names:
  "\<forall>w \<in> set acc. w \<noteq> [] \<and> sep \<notin> set w \<Longrightarrow> no_seps comps \<Longrightarrow>
   w \<in> set (norm_comps init acc comps) \<Longrightarrow> w \<noteq> [] \<and> sep \<notin> set w"
proof (induction init acc comps rule: norm_comps.induct)
  case (2 initial acc c comps)
  have "\<forall>w \<in> set (tl acc). w \<noteq> [] \<and> sep \<notin> set w" using 2(4) by (cases acc) auto
  with 2 show ?case by (auto split: if_splits)
qed simp

lemma normpath_relative: "\<not> is_abs p \<Longrightarrow> \<not> is_abs (normpath p)"
proof -
  assume rel: "\<not> is_abs p"
  then have "initial_slashes p = 0"
    by (auto simp: initial_slashes_def is_abs_def starts_with_iff)
  moreover have "\<not> is_abs (join_with sep (norm_comps False [] (split_on sep p)))"
  proof (cases "norm_comps False [] (split_on sep p)")
    case Nil
    then show ?thesis by (simp add: is_abs_def)
  next
    case (Cons w ws)
    with norm_comps_names [of "[]" "split_on sep p" w False] have "w \<noteq> []" "sep \<notin> set w" by auto
    with Cons show ?thesis by (cases w; cases ws) (auto simp: is_abs_def)
  qed
  ultimately show ?thesis by (auto simp: normpath_def Let_def is_abs_def)
qed

lemma target_cwd_abs: "target_cwd h real sub = Inr cwd \<Longrightarrow> starts_with ''/workspace'' cwd"
  using normpath_relative [of sub]
  by (auto simp: target_cwd_def ws_dest_def path_join_def Let_def is_abs_def split: if_splits)

lemma plain_arg_not [simp]: "\<not> plain_arg ''--''" "\<not> plain_arg ''--share-net''" "\<not> plain_arg ''--bind''" "\<not> plain_arg []"
  by (simp_all add: plain_arg_def WORDS_def is_abs_def starts_with_def)

text \<open>The pieces of a built command line.\<close>

definition build_pieces :: "sandbox_host \<Rightarrow> string \<Rightarrow> string \<Rightarrow> string \<Rightarrow> bool \<Rightarrow> bool \<Rightarrow> string \<Rightarrow> string list \<times> string list" where
  "build_pieces h passwd_file group_file real can_write git_writable cwd =
     (base_args passwd_file group_file @ optional_binds h @ add_tooling_mounts h,
      [real, ws_dest, ''--unshare-all'']
        @ (if sh_lexists h (path_join real ''.git'') \<and> \<not> git_writable
           then [''--ro-bind'', path_join real ''.git'', ''/workspace/.git''] else [])
        @ env_args @ [''--chdir'', cwd])"

lemma build_Inr:
  assumes "build_bwrap_args h passwd_file group_file ws can_write sub network git_writable fd = Inr args"
  shows "\<exists>cwd pre post. \<not> network \<and> build_pieces h passwd_file group_file (workspace_source h ws fd) can_write git_writable cwd = (pre, post)
    \<and> args = pre @ (if can_write \<and> git_writable then ''--bind'' else ''--ro-bind'') # post
    \<and> target_cwd h (workspace_source h ws fd) sub = Inr cwd"
  using assms by (auto simp: build_bwrap_args_def build_pieces_def Let_def split: if_splits sum.splits)

lemma pieces_plain:
  assumes "build_pieces h passwd_file group_file (workspace_source h ws fd) can_write git_writable cwd = (pre, post)"
    and "is_abs passwd_file" and "is_abs group_file" and "is_abs cwd"
  shows "list_all plain_arg pre \<and> list_all plain_arg post"
  using assms tooling_plain [of h] base_plain [OF assms(2,3)] optional_plain [of h] env_plain
  by (auto simp: build_pieces_def ws_dest_def)

text \<open>The options that mount nothing of the host writable.\<close>

definition READ_ONLY_OPTIONS :: "string list" where
  "READ_ONLY_OPTIONS = [''--die-with-parent'', ''--ro-bind'', ''--proc'', ''--dev'', ''--tmpfs'', ''--dir'', ''--symlink'',
     ''--unshare-all'', ''--unshare-net'', ''--clearenv'', ''--setenv'', ''--chdir'']"

definition other_options :: "string list \<Rightarrow> string list" where
  "other_options args = filter (\<lambda>a. starts_with ''-'' a \<and> a \<notin> set READ_ONLY_OPTIONS) args"

lemma plain_read_only: "plain_arg a \<Longrightarrow> \<not> (starts_with ''-'' a \<and> a \<notin> set READ_ONLY_OPTIONS)"
  by (auto simp: plain_arg_def WORDS_def READ_ONLY_OPTIONS_def is_abs_def starts_with_iff)

lemma other_options_plain: "list_all plain_arg args \<Longrightarrow> other_options args = []"
  unfolding other_options_def filter_empty_conv list_all_iff using plain_read_only by blast

lemma other_options_append: "other_options (xs @ ys) = other_options xs @ other_options ys"
  "other_options (x # xs) = other_options [x] @ other_options xs"
  by (simp_all add: other_options_def)

lemma has_triple_append: "length t = 3 \<Longrightarrow> has_triple t (pre @ t @ post)"
proof (induction pre)
  case Nil
  then obtain a as where "t = a # as" by (cases t) auto
  with Nil show ?case by simp
qed simp

lemma generic_execution_facts:
  assumes "build_bwrap_args h passwd_file group_file ws can_write sub network git_writable fd = Inr args"
    and "is_abs passwd_file" and "is_abs group_file"
  shows "\<exists>rest. args = ''bwrap'' # rest" and "''--'' \<notin> set args" and "set required_flags \<subseteq> set args"
    and "''--share-net'' \<notin> set args"
    and "has_triple [if can_write \<and> git_writable then ''--bind'' else ''--ro-bind'', workspace_source h ws fd, ''/workspace''] args"
    and "[] \<notin> set args" and "\<not> network" and "starts_with ''/workspace'' (last args)"
    and "other_options args = (if can_write \<and> git_writable then [''--bind''] else [])"
proof -
  let ?flag = "if can_write \<and> git_writable then ''--bind'' else ''--ro-bind''"
  from build_Inr [OF assms(1)] obtain cwd pre post where net: "\<not> network"
    and p: "build_pieces h passwd_file group_file (workspace_source h ws fd) can_write git_writable cwd = (pre, post)"
    and args: "args = pre @ ?flag # post" and cwd: "target_cwd h (workspace_source h ws fd) sub = Inr cwd" by blast
  have c: "starts_with ''/workspace'' cwd" using cwd by (rule target_cwd_abs)
  then have "is_abs cwd" by (auto simp: is_abs_def starts_with_iff)
  with p assms(2,3) have plain: "list_all plain_arg pre" "list_all plain_arg post" using pieces_plain by blast+
  then have no: "''--bind'' \<notin> set (pre @ post)" "''--share-net'' \<notin> set (pre @ post)" "''--'' \<notin> set (pre @ post)"
    "[] \<notin> set (pre @ post)"
    by (auto simp: list_all_iff)
  have flags: "set required_flags \<subseteq> set (pre @ post)"
    using p by (auto simp: build_pieces_def required_flags_def base_args_def env_args_def)
  obtain post' where post: "post = [workspace_source h ws fd, ''/workspace''] @ post'"
    using p by (auto simp: build_pieces_def ws_dest_def)
  show "has_triple [?flag, workspace_source h ws fd, ''/workspace''] args"
    using has_triple_append [of "[?flag, workspace_source h ws fd, ''/workspace'']" pre post'] args post by simp
  have "other_options pre = []" "other_options post = []" "other_options [?flag] = (if can_write \<and> git_writable then [''--bind''] else [])"
    using plain by (simp_all add: other_options_plain) (simp add: other_options_def READ_ONLY_OPTIONS_def starts_with_def)
  then show "other_options args = (if can_write \<and> git_writable then [''--bind''] else [])"
    unfolding args other_options_append(1) by (subst other_options_append(2)) simp
  have "last args = cwd" using p args by (auto simp: build_pieces_def)
  with c show "starts_with ''/workspace'' (last args)" by simp
  show "\<exists>rest. args = ''bwrap'' # rest" using p by (auto simp: args build_pieces_def base_args_def)
  show "''--'' \<notin> set args" "set required_flags \<subseteq> set args" "''--share-net'' \<notin> set args" "[] \<notin> set args" "\<not> network"
    using net flags no by (auto simp: args)
qed


section \<open>Launch and collection\<close>

lemma before_boundary_append: "''--'' \<notin> set args \<Longrightarrow> before_boundary (args @ ''--'' # argv) = Some args"
  by (induction args) auto

lemma built_command_valid:
  assumes "build_bwrap_args h passwd_file group_file ws can_write cwd False False None = Inr args"
    and "is_abs passwd_file" and "is_abs group_file"
  shows "validate_sandbox_command h (args @ ''--'' # argv) ws = (case sh_which h ''bwrap'' of None \<Rightarrow> Inl PermissionError
      | Some exe \<Rightarrow> if list_ex credential_arg args then Inl PermissionError else Inr (realpath (sh_fs h) exe))"
proof -
  note conf = generic_execution_facts [OF assms]
  obtain rest where args: "args = ''bwrap'' # rest" using conf(1) by blast
  have "before_boundary (args @ ''--'' # argv) = Some args" using conf(2) by (rule before_boundary_append)
  with conf args show ?thesis
    by (auto simp: validate_sandbox_command_def workspace_source_def Let_def ws_dest_def split: option.splits)
qed

lemma raw_command_iff:
  assumes "build_bwrap_args h passwd_file group_file ws can_write cwd False False None = Inr args"
    and "is_abs passwd_file" and "is_abs group_file"
  shows "raw_command h ws (args @ ''--'' # argv) [] timeout = Inr (cmd, t)
    \<longleftrightarrow> t = min 900 (max 1 timeout) \<and> [] \<notin> set argv \<and> \<not> list_ex credential_arg args
      \<and> (\<exists>exe. sh_which h ''bwrap'' = Some exe \<and> cmd = realpath (sh_fs h) exe # tl args @ ''--'' # argv)"
proof -
  note conf = generic_execution_facts [OF assms]
  obtain rest where args: "args = ''bwrap'' # rest" using conf(1) by blast
  have words: "[] \<notin> set (args @ ''--'' # argv) \<longleftrightarrow> [] \<notin> set argv" using conf(6) by auto
  show ?thesis
    using built_command_valid [OF assms, of argv] words args
    by (auto simp: raw_command_def split: option.splits if_splits)
qed

lemma slot_exit_acquired: "acquire n t pid now db = Inr held \<Longrightarrow> e \<noteq> ResourceCleanupError \<Longrightarrow> slot_exit t e held = db"
  by (cases db) (auto simp: acquire_def slot_exit_def drop_admissions_def drop_rows_def admission_of_def find_None_iff
      filter_id_conv split: if_splits)

lemma raw_command_error: "raw_command h ws cmd agent timeout = Inl e \<Longrightarrow> e \<noteq> ResourceCleanupError"
  by (auto simp: raw_command_def validate_sandbox_command_def Let_def split: if_splits option.splits)

lemma start_raw_job_iff:
  assumes "build_bwrap_args h passwd_file group_file ws can_write cwd False False None = Inr args"
    and "is_abs passwd_file" and "is_abs group_file"
  shows "start_raw_job h slot db ws (args @ ''--'' # argv) [] timeout = (Inr (cmd, t), db')
    \<longleftrightarrow> acquire (sl_max slot) (sl_token slot) (sl_pid slot) (sl_now slot) db = Inr db'
      \<and> raw_command h ws (args @ ''--'' # argv) [] timeout = Inr (cmd, t)"
  by (auto simp: start_raw_job_def split: sum.splits)

lemma start_raw_job_error: "start_raw_job h slot db ws cmd agent timeout = (Inl e, db') \<Longrightarrow> db' = db"
  by (auto simp: start_raw_job_def slot_exit_acquired raw_command_error split: sum.splits)

text \<open>
  C18.  \<open>exec_start\<close> launches exactly what it built: a launch succeeds if and only if the workspace allows execution, the
  timeout is positive, the command line can be built, an admission slot is free (and its fresh token unused), the argument
  vector has no empty word, Bubblewrap is installed and no launcher argument names a credential.  Then the process is the
  resolved Bubblewrap with the built arguments, a boundary and the caller's words, the time limit is at most 900 seconds
  and the configured maximum, and one slot is taken; every refusal leaves the job database as it was.  The launcher's
  validation never rejects a command line built here for another reason.  An empty argument vector is accepted: the check
  for an empty command sees the launcher's own words.
\<close>

theorem exec_start_launches_built_command:
  assumes "is_abs passwd_file" and "is_abs group_file" and "0 < max_t"
    and "exec_start_offline h slot db passwd_file group_file default_t max_t ws can_write can_execute argv cwd timeout = (outcome, db')"
  shows "(outcome = Inr (cmd, t)
      \<longleftrightarrow> can_execute \<and> 0 < timeout \<and> t = min 900 (min timeout max_t) \<and> [] \<notin> set argv
        \<and> length (db_admissions db) < sl_max slot \<and> admission_of db (sl_token slot) = None
        \<and> (\<exists>args exe. build_bwrap_args h passwd_file group_file ws can_write cwd False False None = Inr args
             \<and> \<not> list_ex credential_arg args \<and> sh_which h ''bwrap'' = Some exe
             \<and> cmd = realpath (sh_fs h) exe # tl args @ ''--'' # argv))
    \<and> (case outcome of Inl e \<Rightarrow> db' = db
        | Inr _ \<Rightarrow> acquire (sl_max slot) (sl_token slot) (sl_pid slot) (sl_now slot) db = Inr db')"
proof (cases "build_bwrap_args h passwd_file group_file ws can_write cwd False False None")
  case (Inl e)
  with assms(4) show ?thesis by (auto simp: exec_start_offline_def split: if_splits sum.splits)
next
  case built: (Inr args)
  show ?thesis
  proof (cases "can_execute \<and> 0 < timeout")
    case False
    with assms(4) show ?thesis by (auto simp: exec_start_offline_def clamp_timeout_def split: if_splits)
  next
    case True
    let ?limit = "min timeout max_t"
    have start: "start_raw_job h slot db ws (args @ ''--'' # argv) [] ?limit = (outcome, db')"
      using assms(4) True built by (simp add: exec_start_offline_def clamp_timeout_def)
    have free: "(\<exists>held. acquire (sl_max slot) (sl_token slot) (sl_pid slot) (sl_now slot) db = Inr held)
        \<longleftrightarrow> length (db_admissions db) < sl_max slot \<and> admission_of db (sl_token slot) = None"
      by (auto simp: acquire_def)
    have limit: "max 1 ?limit = ?limit" using True assms(3) by linarith
    show ?thesis
    proof (cases outcome)
      case (Inl e)
      then have "\<not> (\<exists>held. acquire (sl_max slot) (sl_token slot) (sl_pid slot) (sl_now slot) db = Inr held)
          \<or> raw_command h ws (args @ ''--'' # argv) [] ?limit \<noteq> Inr (cmd, t)"
        using start by (auto simp: start_raw_job_def)
      with Inl start True built show ?thesis
        unfolding free raw_command_iff [OF built assms(1,2)] limit by (auto dest: start_raw_job_error)
    next
      case (Inr launched)
      obtain cmd' t' where l: "launched = (cmd', t')" by fastforce
      with start Inr have "acquire (sl_max slot) (sl_token slot) (sl_pid slot) (sl_now slot) db = Inr db'"
        and raw: "raw_command h ws (args @ ''--'' # argv) [] ?limit = Inr (cmd', t')"
        using start_raw_job_iff [OF built assms(1,2)] by simp_all
      with free raw_command_iff [OF built assms(1,2), of argv ?limit cmd' t'] limit l Inr True built show ?thesis by auto
    qed
  qed
qed

text \<open>
  C19.  The synchronous and the asynchronous collector agree: on the same pipe events, without a stop
  request, they keep the same output, and one reports a deadline or an exceeded limit exactly when
  the other does.
\<close>

theorem collectors_agree:
  assumes "StopSet \<notin> set es" and "drain_loop limit \<lparr>dr_open = opened, dr_out = co_out c, dr_err = co_err c\<rparr> es = (killed, d)"
    and "co_open c = opened" and "co_exceeded c = None" and "\<not> co_timed_out c"
  shows "co_text (collect_loop limit c es) s = saved d s
    \<and> (co_timed_out (collect_loop limit c es) \<longleftrightarrow> killed = Some (TimedOut, 124))
    \<and> (co_exceeded (collect_loop limit c es) \<noteq> None \<longleftrightarrow> killed = Some (OutputLimitExceeded, 125))"
  using assms
proof (induction limit c es arbitrary: opened rule: collect_loop.induct)
  case (1 limit c)
  then show ?case by (cases s) (auto simp: co_text_def saved_def)
next
  case (2 limit c e es)
  let ?d = "\<lparr>dr_open = opened, dr_out = co_out c, dr_err = co_err c\<rparr>"
  have same: "saved ?d s' = co_text c s'" for s' by (cases s') (simp_all add: saved_def co_text_def)
  show ?case
  proof (cases "opened = []")
    case True
    with 2 same [of s] show ?thesis by auto
  next
    case running: False
    show ?thesis
    proof (cases e)
      case (Chunk x chunk)
      show ?thesis
      proof (cases "x \<in> set opened")
        case False
        with 2 running Chunk show ?thesis by auto
      next
        case True
        let ?n = "limit - length (co_text c x)"
        let ?c = "co_add c x (take ?n chunk)"
        have save: "save ?d x (take ?n chunk) = \<lparr>dr_open = opened, dr_out = co_out ?c, dr_err = co_err ?c\<rparr>"
          by (cases x) (simp_all add: save_def co_add_def)
        have c: "co_open ?c = opened" "co_exceeded ?c = None" "\<not> co_timed_out ?c"
          using 2(7-9) by (cases x; simp add: co_add_def)+
        show ?thesis
        proof (cases "?n < length chunk")
          case over: True
          with 2(6-9) running Chunk True save same have "d = \<lparr>dr_open = opened, dr_out = co_out ?c, dr_err = co_err ?c\<rparr>"
            "killed = Some (OutputLimitExceeded, 125)" by (simp_all add: Let_def)
          moreover from over 2(7) running Chunk True have "collect_loop limit c (e # es) = ?c\<lparr>co_exceeded := Some x\<rparr>"
            by (simp add: Let_def)
          ultimately show ?thesis using c by (cases s) (simp_all add: saved_def co_text_def)
        next
          case False
          with 2(6) running Chunk True save same
          have run: "drain_loop limit \<lparr>dr_open = opened, dr_out = co_out ?c, dr_err = co_err ?c\<rparr> es = (killed, d)"
            by (simp add: Let_def)
          from False 2(7) running Chunk True have "collect_loop limit c (e # es) = collect_loop limit ?c es"
            by (simp add: Let_def)
          with 2(2) [OF _ Chunk _ refl refl False _ run c] 2(5,7) running True show ?thesis by simp
        qed
      qed
    next
      case (Eof x)
      let ?c = "c\<lparr>co_open := removeAll x (co_open c)\<rparr>"
      from 2(6,7) running Eof
      have run: "drain_loop limit \<lparr>dr_open = removeAll x opened, dr_out = co_out ?c, dr_err = co_err ?c\<rparr> es = (killed, d)" by simp
      from 2(7) running Eof have "collect_loop limit c (e # es) = collect_loop limit ?c es" by simp
      with 2(3) [OF _ Eof _ run] 2(5,7-9) running show ?thesis by simp
    next
      case StopSet
      with 2(5) show ?thesis by simp
    next
      case DeadlinePassed
      with 2(6-9) running have "killed = Some (TimedOut, 124)" "d = ?d"
        "collect_loop limit c (e # es) = c\<lparr>co_timed_out := True\<rparr>" by auto
      with 2(8) same show ?thesis by (cases s) (simp_all add: co_text_def saved_def)
    qed
  qed
qed

section \<open>A concrete host\<close>

definition demo_sandbox_host :: sandbox_host where
  "demo_sandbox_host = \<lparr>sh_fs = demo_fs, sh_which = (\<lambda>n. if n = ''bwrap'' then Some ''/usr/bin/bwrap'' else None),
     sh_exists = (\<lambda>p. p = ''/etc/hosts''), sh_isdir = (\<lambda>p. p = ''/srv/w''), sh_lexists = (\<lambda>p. p = ''/srv/w/.git''),
     sh_islink = (\<lambda>_. False)\<rparr>"

definition demo_args :: "string list" where
  "demo_args = (case build_bwrap_args demo_sandbox_host ''/st/etc/passwd'' ''/st/etc/group'' ''/srv/w'' True ''sub'' False False None
     of Inr args \<Rightarrow> args | Inl _ \<Rightarrow> [])"

lemma demo_args_built:
  "build_bwrap_args demo_sandbox_host ''/st/etc/passwd'' ''/st/etc/group'' ''/srv/w'' True ''sub'' False False None = Inr demo_args"
proof -
  have "(case build_bwrap_args demo_sandbox_host ''/st/etc/passwd'' ''/st/etc/group'' ''/srv/w'' True ''sub'' False False None
     of Inr args \<Rightarrow> True | Inl _ \<Rightarrow> False)" by code_simp
  then show ?thesis by (auto simp: demo_args_def split: sum.splits)
qed


definition demo_slot :: slot_entry where
  "demo_slot = \<lparr>sl_max = 2, sl_token = ''t2'', sl_pid = 7, sl_now = 5\<rparr>"

theorem exec_start_launches_built_command_witness:
  "fst (exec_start_offline demo_sandbox_host demo_slot (js_db demo_running) ''/st/etc/passwd'' ''/st/etc/group'' 30 900 ''/srv/w''
      True True [''make''] ''sub'' 5000) = Inr (''/usr/bin/bwrap'' # tl demo_args @ [''--'', ''make''], 900)"
proof -
  have c: "\<not> list_ex credential_arg demo_args" "sh_which demo_sandbox_host ''bwrap'' = Some ''/usr/bin/bwrap''"
    "realpath (sh_fs demo_sandbox_host) ''/usr/bin/bwrap'' = ''/usr/bin/bwrap''"
    "length (db_admissions (js_db demo_running)) < sl_max demo_slot" by code_simp+
  have token: "admission_of (js_db demo_running) (sl_token demo_slot) = None"
  proof -
    have "demo_token \<noteq> ''t2''" by code_simp
    then show ?thesis by (simp add: admission_of_def demo_running_def demo_slot_def)
  qed
  have a: "is_abs ''/st/etc/passwd''" "is_abs ''/st/etc/group''" "(0::int) < 900" by simp_all
  obtain outcome db' where e: "exec_start_offline demo_sandbox_host demo_slot (js_db demo_running) ''/st/etc/passwd'' ''/st/etc/group''
      30 900 ''/srv/w'' True True [''make''] ''sub'' 5000 = (outcome, db')" by fastforce
  from exec_start_launches_built_command [OF a e, of "''/usr/bin/bwrap'' # tl demo_args @ [''--'', ''make'']" 900]
    c token demo_args_built have "outcome = Inr (''/usr/bin/bwrap'' # tl demo_args @ [''--'', ''make''], 900)" by simp
  with e show ?thesis by simp
qed

theorem collectors_agree_witness:
  "co_text (collect_loop 3 fresh_collect [Chunk Stdout ''abcd'', Eof Stdout]) Stdout = ''abc''
   \<and> co_exceeded (collect_loop 3 fresh_collect [Chunk Stdout ''abcd'', Eof Stdout]) \<noteq> None"
proof -
  have d: "drain_loop 3 \<lparr>dr_open = [Stdout, Stderr], dr_out = co_out fresh_collect, dr_err = co_err fresh_collect\<rparr>
      [Chunk Stdout ''abcd'', Eof Stdout]
    = (Some (OutputLimitExceeded, 125), \<lparr>dr_open = [Stdout, Stderr], dr_out = ''abc'', dr_err = []\<rparr>)"
    by (simp add: fresh_collect_def saved_def save_def)
  have "StopSet \<notin> set [Chunk Stdout ''abcd'', Eof Stdout]" "co_open fresh_collect = [Stdout, Stderr]"
    "co_exceeded fresh_collect = None" "\<not> co_timed_out fresh_collect" by (simp_all add: fresh_collect_def)
  from collectors_agree [OF this(1) d this(2-4), of Stdout] show ?thesis by (simp add: saved_def)
qed

end
