(* ===== verification/Git_Wire.thy ===== *)
theory Git_Wire
  imports Action_Policy "HOL-Library.Code_Target_Nat"
begin

text \<open>
  \<open>git_smart_http.py\<close>: the bounded smart-HTTP transport.  Bytes are characters with codes below 256 and a
  reference name is its UTF-8 byte text.  The HTTPS connection is a function from the request to what
  the server does; the pack digest (\<open>hashlib\<close>) is a parameter.
\<close>

section \<open>Names and packets\<close>

definition SERVICES :: "string list" where
  "SERVICES = [''git-upload-pack'', ''git-receive-pack'']"

definition MAX_BYTES :: int where
  "MAX_BYTES = 67108864"

definition MAX_DISCOVERY :: int where
  "MAX_DISCOVERY = 8388608"

definition ref_char_ok :: "char \<Rightarrow> bool" where
  "ref_char_ok c \<longleftrightarrow> 32 < char_code c \<and> char_code c \<noteq> 127 \<and> c \<notin> set ''~^:?*['' \<and> char_code c \<noteq> 92"

definition ref_part_ok :: "string \<Rightarrow> bool" where
  "ref_part_ok p \<longleftrightarrow> p \<noteq> [] \<and> \<not> starts_with ''.'' p \<and> \<not> ends_with ''.'' p \<and> \<not> ends_with ''.lock'' p"

definition ref_ok :: "bool \<Rightarrow> string \<Rightarrow> bool" where
  "ref_ok branch name \<longleftrightarrow> name \<noteq> [] \<and> length name \<le> 1024
     \<and> (branch \<longrightarrow> starts_with ''refs/heads/'' name)
     \<and> ((\<not> branch \<and> name = ''HEAD'')
        \<or> (starts_with ''refs/'' name \<and> \<not> contains ''..'' name \<and> \<not> contains [CHR ''@'', CHR ''{''] name
           \<and> list_all ref_char_ok name \<and> list_all ref_part_ok (split_on sep name)))"

definition oid_ok :: "string \<Rightarrow> bool" where
  "oid_ok v \<longleftrightarrow> (length v = 40 \<or> length v = 64) \<and> list_all is_hex v"

definition zeros :: "nat \<Rightarrow> string" where
  "zeros n = replicate n (CHR ''0'')"

definition packet :: "string \<Rightarrow> string result" where
  "packet body = (if body = [] \<or> 65520 < length body + 4 then Inl ValueError else Inr (hex4 (length body + 4) @ body))"

text \<open>
  The loop of \<open>_packets\<close>: \<open>next_packet\<close> reads one record and the rest, a flush is \<open>None\<close>; \<open>n\<close> records
  were read before.
\<close>

definition next_packet :: "string \<Rightarrow> (string option \<times> string) option" where
  "next_packet body = (case parse_hex4 (take 4 body) of
       None \<Rightarrow> None
     | Some len \<Rightarrow>
         if len = 0 then Some (None, drop 4 body)
         else if \<not> (4 \<le> len \<and> len \<le> 65520) \<or> length body < len then None
         else Some (Some (drop 4 (take len body)), drop len body))"

function read_packets :: "nat \<Rightarrow> string \<Rightarrow> string option list result" where
  "read_packets n body =
     (if body = [] then Inr []
      else (case next_packet body of
          None \<Rightarrow> Inl ValueError
        | Some (line, rest) \<Rightarrow>
            if 50004 < Suc n then Inl ValueError
            else rbind (read_packets (Suc n) rest) (\<lambda>lines. Inr (line # lines))))"
  by pat_completeness auto
termination
  by (relation "measure (\<lambda>(n, body). length body)") (auto simp: next_packet_def split: option.splits if_splits)

declare read_packets.simps [simp del]

text \<open>Equations on the shape of the body, so that evaluation unfolds the loop only as far as it runs.\<close>

lemma read_packets_code [code]:
  "read_packets n [] = Inr []"
  "read_packets n (c # s) = (case next_packet (c # s) of
       None \<Rightarrow> Inl ValueError
     | Some (line, rest) \<Rightarrow> if 50004 < Suc n then Inl ValueError
         else rbind (read_packets (Suc n) rest) (\<lambda>lines. Inr (line # lines)))"
  by (simp_all add: read_packets.simps)

definition packets :: "string \<Rightarrow> string option list result" where
  "packets body = (if MAX_DISCOVERY < int (length body) then Inl ValueError else read_packets 0 body)"

section \<open>Discovery\<close>

fun utf8_ok :: "nat list \<Rightarrow> bool" where
  "utf8_ok [] = True"
| "utf8_ok (a # s) =
     (let cont = (\<lambda>b. 128 \<le> b \<and> b \<le> (191::nat)) in
      if a < 128 then utf8_ok s
      else if 194 \<le> a \<and> a \<le> 223 then (case s of b # t \<Rightarrow> cont b \<and> utf8_ok t | _ \<Rightarrow> False)
      else if 224 \<le> a \<and> a \<le> 239 then
        (case s of b # c # t \<Rightarrow> cont b \<and> cont c \<and> (a = 224 \<longrightarrow> 160 \<le> b) \<and> (a = 237 \<longrightarrow> b \<le> 159) \<and> utf8_ok t | _ \<Rightarrow> False)
      else if 240 \<le> a \<and> a \<le> 244 then
        (case s of b # c # d # t \<Rightarrow> cont b \<and> cont c \<and> cont d \<and> (a = 240 \<longrightarrow> 144 \<le> b) \<and> (a = 244 \<longrightarrow> b \<le> 143) \<and> utf8_ok t
          | _ \<Rightarrow> False)
      else False)"

record advertisement =
  adv_refs :: "(string \<times> string) list"
  adv_capabilities :: "string list"
  adv_format :: string

definition remove_suffix :: "string \<Rightarrow> string \<Rightarrow> string" where
  "remove_suffix suf s = (if ends_with suf s then take (length s - length suf) s else s)"

definition NUL :: char where
  "NUL = CHR 0x00"

definition parse_capabilities :: "string \<Rightarrow> (string \<times> string list) result" where
  "parse_capabilities raw = (case split_on NUL raw of
       [ref, encoded] \<Rightarrow>
         (let tokens = filter (\<lambda>w. w \<noteq> []) (split_on (CHR '' '') encoded) in
          if 4096 < length encoded then Inl ValueError
          else if \<not> list_all (\<lambda>c. 32 \<le> char_code c \<and> char_code c \<le> 126) encoded then Inl ValueError
          else if \<not> distinct tokens then Inl ValueError
          else Inr (ref, tokens))
     | _ \<Rightarrow> Inl ValueError)"

text \<open>One reference record: the object id and the name, then its place in the table.\<close>

definition split_record :: "string \<Rightarrow> (string \<times> string) result" where
  "split_record raw = (case split_on (CHR '' '') raw of
       [oid, name] \<Rightarrow> if utf8_ok (map char_code oid) \<and> utf8_ok (map char_code name) then Inr (oid, name) else Inl ValueError
     | _ \<Rightarrow> Inl ValueError)"

type_synonym table = "(string \<times> string) list \<times> nat option"

definition add_record :: "bool \<Rightarrow> string \<Rightarrow> string \<Rightarrow> table \<Rightarrow> table result" where
  "add_record first oid name t = (case t of (refs, width) \<Rightarrow>
     if \<not> oid_ok oid \<or> (case width of None \<Rightarrow> False | Some w \<Rightarrow> length oid \<noteq> w) then Inl ValueError
     else if name = ''capabilities^{}'' \<and> first \<and> oid = zeros (length oid) then Inr (refs, Some (length oid))
     else if oid = zeros (length oid) then Inl ValueError
     else if name = ''.have'' then Inr (refs, Some (length oid))
     else if \<not> ref_ok False (remove_suffix ''^{}'' name) \<or> name \<in> field_names refs then Inl ValueError
     else Inr (refs @ [(name, oid)], Some (length oid)))"

fun parse_records :: "bool \<Rightarrow> string option list \<Rightarrow> table \<times> string list \<Rightarrow> (table \<times> string list) result" where
  "parse_records first [] acc = Inr acc"
| "parse_records first (None # lines) acc = Inl ValueError"
| "parse_records first (Some raw # lines) (t, caps) =
     (let line = remove_suffix [CHR 0x0A] raw in
      if CHR 0x0D \<in> set line \<or> CHR 0x0A \<in> set line then Inl ValueError
      else rbind (if first then parse_capabilities line
                  else if NUL \<in> set line then Inl ValueError else Inr (line, caps)) (\<lambda>(ref, caps').
           rbind (split_record ref) (\<lambda>(oid, name).
           rbind (add_record first oid name t) (\<lambda>t'.
           parse_records False lines (t', caps')))))"

definition format_tokens :: "string list \<Rightarrow> string list" where
  "format_tokens caps = filter (starts_with ''object-format='') caps"

definition select_format :: "table \<Rightarrow> string list \<Rightarrow> advertisement result" where
  "select_format t caps =
     (let algorithm = (if snd t = Some 64 then ''sha256'' else ''sha1'');
          formats = format_tokens caps
      in if formats \<noteq> [] \<and> formats \<noteq> [''object-format='' @ algorithm] then Inl ValueError
         else if algorithm = ''sha256'' \<and> formats = [] then Inl ValueError
         else Inr \<lparr>adv_refs = fst t, adv_capabilities = caps, adv_format = algorithm\<rparr>)"

definition parse_advertisement :: "string \<Rightarrow> string \<Rightarrow> advertisement result" where
  "parse_advertisement body service =
     (if service \<notin> set SERVICES then Inl ValueError
      else rbind (packets body) (\<lambda>lines.
        if length lines < 4 \<or> hd lines \<noteq> Some (''# service='' @ service @ [CHR 0x0A])
           \<or> lines ! 1 \<noteq> None \<or> last lines \<noteq> None then Inl ValueError
        else rbind (parse_records True (butlast (drop 2 lines)) (([], None), [])) (\<lambda>(t, caps). select_format t caps)))"

section \<open>Packs and pushes\<close>

record ref_update =
  up_ref :: string
  up_old :: string
  up_new :: string

definition new_ref_update :: "string \<Rightarrow> string \<Rightarrow> string \<Rightarrow> ref_update result" where
  "new_ref_update ref old_oid new_oid =
     (if \<not> ref_ok True ref \<or> \<not> oid_ok old_oid \<or> \<not> oid_ok new_oid \<or> length old_oid \<noteq> length new_oid
         \<or> new_oid = zeros (length new_oid) then Inl ValueError
      else Inr \<lparr>up_ref = ref, up_old = old_oid, up_new = new_oid\<rparr>)"

definition be32 :: "string \<Rightarrow> int" where
  "be32 s = foldl (\<lambda>n c. 256 * n + int (char_code c)) 0 s"

definition validate_pack :: "(string \<Rightarrow> string \<Rightarrow> string) \<Rightarrow> string \<Rightarrow> string \<Rightarrow> unit result" where
  "validate_pack digest pack algorithm =
     (let width = (if algorithm = ''sha256'' then 32 else 20) in
      if \<not> (12 < length pack \<and> int (length pack) \<le> MAX_BYTES) \<or> take 4 pack \<noteq> ''PACK'' then Inl ValueError
      else if be32 (take 4 (drop 4 pack)) \<notin> {2, 3} \<or> 100000 < be32 (take 4 (drop 8 pack)) then Inl ValueError
      else if algorithm \<notin> {''sha1'', ''sha256''} \<or> length pack < 12 + width then Inl ValueError
      else require (digest algorithm (take (length pack - width) pack) = drop (length pack - width) pack) ValueError)"

definition algorithm_of :: "string \<Rightarrow> string" where
  "algorithm_of oid = (if length oid = 64 then ''sha256'' else ''sha1'')"

definition push_command :: "ref_update \<Rightarrow> advertisement \<Rightarrow> string" where
  "push_command u adv =
     (let algorithm = algorithm_of (up_new u);
          capabilities = ''report-status'' @ (if ''object-format='' @ algorithm \<in> set (adv_capabilities adv)
            then '' object-format='' @ algorithm else [])
      in up_old u @ '' '' @ up_new u @ '' '' @ up_ref u @ NUL # '' '' @ capabilities @ [CHR 0x0A])"

definition push_body :: "(string \<Rightarrow> string \<Rightarrow> string) \<Rightarrow> ref_update \<Rightarrow> string \<Rightarrow> advertisement \<Rightarrow> string result" where
  "push_body digest u pack adv =
     (let algorithm = algorithm_of (up_new u) in
      if adv_format adv \<noteq> algorithm \<or> ''report-status'' \<notin> set (adv_capabilities adv) then Inl ValueError
      else if (case map_of (adv_refs adv) (up_ref u) of None \<Rightarrow> zeros (length (up_old u)) | Some oid \<Rightarrow> oid) \<noteq> up_old u
      then Inl PermissionError
      else rbind (validate_pack digest pack algorithm) (\<lambda>_.
        rbind (packet (push_command u adv)) (\<lambda>command. Inr (command @ ''0000'' @ pack))))"

definition expected_report :: "ref_update \<Rightarrow> string option list" where
  "expected_report u = [Some (''unpack ok'' @ [CHR 0x0A]), Some (''ok '' @ up_ref u @ [CHR 0x0A]), None]"

definition check_push_result :: "string \<Rightarrow> ref_update \<Rightarrow> unit result" where
  "check_push_result body u = rbind (packets body) (\<lambda>lines. require (lines = expected_report u) ValueError)"

section \<open>Transport\<close>

text \<open>\<open>urlsplit\<close> of a text that starts with \<open>https://\<close>: host, path and what follows it.\<close>

definition until :: "(char \<Rightarrow> bool) \<Rightarrow> string \<Rightarrow> string \<times> string" where
  "until P s = (takeWhile (\<lambda>c. \<not> P c) s, dropWhile (\<lambda>c. \<not> P c) s)"

definition host_char :: "char \<Rightarrow> bool" where
  "host_char c \<longleftrightarrow> in_range (CHR ''a'') (CHR ''z'') c \<or> is_digit c"

definition host_ok :: "string \<Rightarrow> bool" where
  "host_ok host \<longleftrightarrow> host \<noteq> [] \<and> host_char (hd host) \<and> host_char (last host)
     \<and> list_all (\<lambda>c. host_char c \<or> c \<in> set ''.-'') host \<and> CHR ''.'' \<in> set host \<and> \<not> contains ''..'' host"

definition path_char :: "char \<Rightarrow> bool" where
  "path_char c \<longleftrightarrow> is_alnum c \<or> c \<in> set ''._-''"

definition repo_path_ok :: "string \<Rightarrow> bool" where
  "repo_path_ok path \<longleftrightarrow> starts_with ''/'' path \<and>
     (let parts = split_on sep (tl path) in
      1 \<le> length parts \<and> length parts \<le> 8 \<and> list_all (\<lambda>w. w \<noteq> [] \<and> list_all path_char w) parts
      \<and> ends_with ''.git'' (last parts) \<and> last parts \<noteq> ''.git'' \<and> ''.'' \<notin> set parts \<and> ''..'' \<notin> set parts)"

definition remote_parts :: "string \<Rightarrow> (string \<times> string) result" where
  "remote_parts url =
     (if 2048 < length url \<or> \<not> starts_with ''https://'' url then Inl ValueError
      else (let (host, rest) = until (\<lambda>c. c \<in> set ''/?#'') (drop 8 url);
                (path, extra) = until (\<lambda>c. c \<in> set ''?#'') rest in
        if \<not> host_ok host \<or> extra \<noteq> [] \<or> \<not> repo_path_ok path then Inl ValueError else Inr (host, path)))"

definition B64 :: string where
  "B64 = ''ABCDEFGHIJKLMNOPQRSTUVWXYZabcdefghijklmnopqrstuvwxyz0123456789+/''"

fun b64encode :: "nat list \<Rightarrow> string" where
  "b64encode [] = []"
| "b64encode [a] = [B64 ! (a div 4), B64 ! (a mod 4 * 16), CHR ''='', CHR ''='']"
| "b64encode [a, b] = [B64 ! (a div 4), B64 ! (a mod 4 * 16 + b div 16), B64 ! (b mod 16 * 4), CHR ''='']"
| "b64encode (a # b # c # s) = [B64 ! (a div 4), B64 ! (a mod 4 * 16 + b div 16), B64 ! (b mod 16 * 4 + c div 64), B64 ! (c mod 64)]
     @ b64encode s"

record transport =
  tr_host :: string
  tr_path :: string
  tr_username :: string
  tr_credential :: "string option"   \<comment> \<open>absolute path of the credential file\<close>

definition new_transport :: "host_fs \<Rightarrow> string \<Rightarrow> string option \<Rightarrow> string \<Rightarrow> string list \<Rightarrow> transport result" where
  "new_transport fs url credential username roots =
     rbind (remote_parts url) (\<lambda>(host, path).
       if \<not> class_match path_char 1 128 username then Inl ValueError
       else (case credential of None \<Rightarrow> Inr \<lparr>tr_host = host, tr_path = path, tr_username = username, tr_credential = None\<rparr>
         | Some f \<Rightarrow>
             let absolute = (if is_abs f then f else path_join (to_path (fs_cwd fs)) f) in
             if ''..'' \<in> set (split_on sep absolute) then Inl PermissionError
             else if list_ex (\<lambda>root. starts_with (realpath_comps fs root) (realpath_comps fs absolute)) roots
             then Inl PermissionError
             else Inr \<lparr>tr_host = host, tr_path = path, tr_username = username, tr_credential = Some absolute\<rparr>))"

text \<open>The credential file as the trusted directory lookup finds it (\<open>None\<close>: no such directory).\<close>

definition authorization :: "int \<Rightarrow> transport \<Rightarrow> string lookup option \<Rightarrow> string option result" where
  "authorization me tr file = (case tr_credential tr of None \<Rightarrow> Inr None
     | Some _ \<Rightarrow> (case file of
         None \<Rightarrow> Inl PermissionError
       | Some Missing \<Rightarrow> Inl FileNotFoundError
       | Some IsLink \<Rightarrow> Inl OSError
       | Some (Found st raw) \<Rightarrow>
           if st_type st \<noteq> Regular \<or> st_uid st \<noteq> me \<or> st_nlink st \<noteq> 1 \<or> st_mode st AND 63 \<noteq> 0
              \<or> st_size st < 1 \<or> 4096 < st_size st then Inl PermissionError
           else if raw = [] \<or> 4096 < length raw \<or> \<not> list_all (\<lambda>c. 33 \<le> char_code c \<and> char_code c \<le> 126) raw
           then Inl PermissionError
           else Inr (Some (''Basic '' @ b64encode (map char_code (tr_username tr @ '':'' @ raw))))))"

text \<open>What the connection does: the body arrives in reads, each with the clock already past the deadline or not.\<close>

datatype answer = NoConnection | Broken | Answer int "(string \<times> string) list" "(string \<times> bool) list"

record exchange =
  ex_answer :: answer
  ex_closed :: bool

definition FRAMING :: "string list" where
  "FRAMING = [''content-type'', ''content-length'', ''transfer-encoding'', ''content-encoding'']"

fun fold_headers :: "(string \<times> string) list \<Rightarrow> (string \<times> string) list \<Rightarrow> (string \<times> string) list result" where
  "fold_headers acc [] = Inr acc"
| "fold_headers acc ((name, v) # hs) =
     (let key = py_lower name in
      if key \<in> field_names acc \<and> key \<in> set FRAMING then Inl ValueError
      else fold_headers (dict_set key v acc) hs)"

definition header_or :: "(string \<times> string) list \<Rightarrow> string \<Rightarrow> string \<Rightarrow> string" where
  "header_or hs k d = (case map_of hs k of None \<Rightarrow> d | Some v \<Rightarrow> v)"

fun read_body :: "int \<Rightarrow> string \<Rightarrow> (string \<times> bool) list \<Rightarrow> string result" where
  "read_body limit acc [] = Inr acc"
| "read_body limit acc ((chunk, late) # cs) =
     (if chunk = [] then Inr acc
      else if limit < int (length (acc @ chunk)) \<or> late then Inl ValueError
      else read_body limit (acc @ chunk) cs)"

definition receive :: "string \<Rightarrow> int \<Rightarrow> answer \<Rightarrow> string result" where
  "receive expected limit a = (case a of
       Answer status headers chunks \<Rightarrow>
         rbind (fold_headers [] headers) (\<lambda>hs.
           if status \<noteq> 200 \<or> py_lower (py_strip (hd (split_on (CHR '';'') (header_or hs ''content-type'' [])))) \<noteq> expected
              \<or> py_lower (header_or hs ''content-encoding'' ''identity'') \<noteq> ''identity''
              \<or> (''content-length'' \<in> field_names hs \<and> ''transfer-encoding'' \<in> field_names hs)
              \<or> py_lower (header_or hs ''transfer-encoding'' ''chunked'') \<noteq> ''chunked'' then Inl ValueError
           else (case map_of hs ''content-length'' of
               None \<Rightarrow> read_body limit [] chunks
             | Some len \<Rightarrow>
                 if \<not> class_match is_digit 1 20 len \<or> limit < decimal_value len then Inl ValueError
                 else rbind (read_body limit [] chunks) (\<lambda>out.
                   if int (length out) \<noteq> decimal_value len then Inl ValueError else Inr out)))
     | _ \<Rightarrow> Inl RuntimeError)"

record http_request =
  hr_method :: string
  hr_target :: string
  hr_headers :: "(string \<times> string) list"
  hr_body :: "string option"

definition make_request :: "transport \<Rightarrow> string \<Rightarrow> string option \<Rightarrow> string option \<Rightarrow> http_request" where
  "make_request tr service body auth =
     (let suffix = (case body of None \<Rightarrow> ''advertisement'' | Some _ \<Rightarrow> ''result'');
          expected = ''application/x-'' @ service @ ''-'' @ suffix
      in \<lparr>hr_method = (case body of None \<Rightarrow> ''GET'' | Some _ \<Rightarrow> ''POST''),
          hr_target = tr_path tr @ (case body of None \<Rightarrow> ''/info/refs?service='' @ service | Some _ \<Rightarrow> ''/'' @ service),
          hr_headers = [(''Accept'', expected), (''Accept-Encoding'', ''identity''), (''Connection'', ''close''),
              (''User-Agent'', ''AgentPorter-scoped-git/1''), (''Git-Protocol'', ''version=0'')]
            @ (case auth of None \<Rightarrow> [] | Some a \<Rightarrow> [(''Authorization'', a)])
            @ (case body of None \<Rightarrow> [] | Some b \<Rightarrow> [(''Content-Type'', ''application/x-'' @ service @ ''-request''),
                (''Content-Length'', decimal (length b))]),
          hr_body = body\<rparr>)"

definition body_limit :: "string \<Rightarrow> string option \<Rightarrow> int" where
  "body_limit service body = (if body = None \<or> service = ''git-receive-pack'' then MAX_DISCOVERY else MAX_BYTES)"

text \<open>\<open>_request\<close>: once a publication was attempted, every failure is an uncertain outcome.\<close>

definition failure :: "string \<Rightarrow> string option \<Rightarrow> answer \<Rightarrow> py_error" where
  "failure service body a = (if a \<noteq> NoConnection \<and> body \<noteq> None \<and> service = ''git-receive-pack''
     then ResourceCleanupError else PermissionError)"

definition request :: "int \<Rightarrow> transport \<Rightarrow> string lookup option \<Rightarrow> (http_request \<Rightarrow> exchange) \<Rightarrow> string \<Rightarrow> string option
    \<Rightarrow> string result" where
  "request me tr file net service body =
     (if service \<notin> set SERVICES \<or> (case body of None \<Rightarrow> False | Some b \<Rightarrow> MAX_BYTES < int (length b)) then Inl ValueError
      else rbind (authorization me tr file) (\<lambda>auth.
        let req = make_request tr service body auth;
            ex = net req;
            expected = ''application/x-'' @ service @ ''-'' @ (case body of None \<Rightarrow> ''advertisement'' | Some _ \<Rightarrow> ''result'');
            err = failure service body (ex_answer ex)
        in (case receive expected (body_limit service body) (ex_answer ex) of
              Inl _ \<Rightarrow> Inl err
            | Inr out \<Rightarrow> if ex_closed ex then Inr out else Inl err)))"

definition discover :: "int \<Rightarrow> transport \<Rightarrow> string lookup option \<Rightarrow> (http_request \<Rightarrow> exchange) \<Rightarrow> string \<Rightarrow> advertisement result" where
  "discover me tr file net service =
     (case rbind (request me tr file net service None) (\<lambda>body. parse_advertisement body service) of
        Inl ValueError \<Rightarrow> Inl PermissionError | r \<Rightarrow> r)"

definition send_push :: "(string \<Rightarrow> string \<Rightarrow> string) \<Rightarrow> int \<Rightarrow> transport \<Rightarrow> string lookup option \<Rightarrow> (http_request \<Rightarrow> exchange)
    \<Rightarrow> ref_update \<Rightarrow> string \<Rightarrow> unit result" where
  "send_push digest me tr file net u pack =
     rbind (discover me tr file net ''git-receive-pack'') (\<lambda>observed.
     rbind (push_body digest u pack observed) (\<lambda>body.
     rbind (request me tr file net ''git-receive-pack'' (Some body)) (\<lambda>response.
       (case check_push_result response u of Inl ValueError \<Rightarrow> Inl ResourceCleanupError | r \<Rightarrow> r))))"

definition fetch_request :: "string \<Rightarrow> advertisement \<Rightarrow> string" where
  "fetch_request oid adv = ''want '' @ oid @ (if ''ofs-delta'' \<in> set (adv_capabilities adv) then '' ofs-delta'' else [])
     @ (if ''object-format='' @ adv_format adv \<in> set (adv_capabilities adv) then '' object-format='' @ adv_format adv else [])
     @ [CHR 0x0A]"

definition fetch_pack :: "(string \<Rightarrow> string \<Rightarrow> string) \<Rightarrow> int \<Rightarrow> transport \<Rightarrow> string lookup option \<Rightarrow> (http_request \<Rightarrow> exchange)
    \<Rightarrow> string \<Rightarrow> string \<Rightarrow> string result" where
  "fetch_pack digest me tr file net ref oid =
     (if \<not> ref_ok True ref \<or> \<not> oid_ok oid \<or> oid = zeros (length oid) then Inl ValueError
      else rbind (discover me tr file net ''git-upload-pack'') (\<lambda>observed.
        if map_of (adv_refs observed) ref \<noteq> Some oid then Inl PermissionError
        else rbind (packet (fetch_request oid observed)) (\<lambda>want.
          rbind (packet (''done'' @ [CHR 0x0A])) (\<lambda>finish.
          rbind (request me tr file net ''git-upload-pack'' (Some (want @ ''0000'' @ finish))) (\<lambda>response.
          rbind (packet (''NAK'' @ [CHR 0x0A])) (\<lambda>prefix.
            if \<not> starts_with prefix response then Inl PermissionError
            else (case validate_pack digest (drop (length prefix) response) (adv_format observed) of
                Inl ValueError \<Rightarrow> Inl PermissionError
              | Inl e \<Rightarrow> Inl e
              | Inr _ \<Rightarrow> Inr (drop (length prefix) response))))))))"

section \<open>The packet codec\<close>

fun encode_line :: "string option \<Rightarrow> string" where
  "encode_line None = ''0000''"
| "encode_line (Some b) = hex4 (length b + 4) @ b"

fun line_fits :: "string option \<Rightarrow> bool" where
  "line_fits None = True"
| "line_fits (Some b) = (length b + 4 \<le> 65520)"

lemma next_packet_encode: "line_fits line \<Longrightarrow> next_packet (encode_line line @ rest) = Some (line, rest)"
proof (cases line)
  case None
  have "parse_hex4 ''0000'' = Some 0" by code_simp
  with None show ?thesis by (simp add: next_packet_def)
next
  case (Some b)
  moreover assume "line_fits line"
  moreover have "parse_hex4 (hex4 (length b + 4)) = Some (length b + 4)" if "length b + 4 \<le> 65520"
    using that by (simp add: parse_hex4_iff)
  ultimately show ?thesis by (simp add: next_packet_def)
qed

lemma encode_next_packet:
  assumes "next_packet s = Some (line, rest)"
  shows "line_fits line \<and> s = encode_line line @ rest"
proof -
  from assms obtain len where len: "parse_hex4 (take 4 s) = Some len" by (auto simp: next_packet_def split: option.splits)
  then have h: "take 4 s = hex4 len" by (simp add: parse_hex4_iff)
  show ?thesis
  proof (cases "len = 0")
    case True
    with assms len have "line = None" "rest = drop 4 s" by (auto simp: next_packet_def)
    moreover have "hex4 0 = ''0000''" by code_simp
    ultimately show ?thesis using h True by (metis append_take_drop_id encode_line.simps(1) line_fits.simps(1))
  next
    case False
    with assms len have l: "4 \<le> len" "len \<le> 65520" "len \<le> length s" "line = Some (drop 4 (take len s))" "rest = drop len s"
      by (auto simp: next_packet_def split: if_splits)
    then have "length (drop 4 (take len s)) + 4 = len" by simp
    moreover have "take len s = take 4 s @ drop 4 (take len s)"
      using l(1) by (metis append_take_drop_id min.absorb1 take_take)
    ultimately show ?thesis using l h by (metis append.assoc append_take_drop_id encode_line.simps(2) line_fits.simps(2))
  qed
qed

interpretation packet_codec: framed_codec encode_line next_packet line_fits
proof
  show "encode_line a \<noteq> []" for a by (cases a) (auto simp: hex4_def)
qed (use next_packet_encode encode_next_packet in auto)

lemma read_packets_iff:
  "read_packets n body = Inr lines \<longleftrightarrow>
     body = concat (map encode_line lines) \<and> list_all line_fits lines \<and> (lines = [] \<or> n + length lines \<le> 50004)"
proof (induction n body arbitrary: lines rule: read_packets.induct)
  case (1 n body)
  show ?case
  proof (cases "body = []")
    case True
    then show ?thesis using packet_codec.encode_nonempty
      by (cases lines) (auto simp: read_packets.simps [of n "[]"])
  next
    case body: False
    show ?thesis
    proof (cases "next_packet body")
      case None
      have "body \<noteq> concat (map encode_line lines)" if fits: "list_all line_fits lines"
      proof (cases lines)
        case (Cons l ls)
        with fits None show ?thesis using packet_codec.decode_encode [of l "concat (map encode_line ls)"] by auto
      qed (use body in simp)
      with None body show ?thesis by (auto simp: read_packets.simps [of n body])
    next
      case (Some p)
      then obtain line rest where p: "next_packet body = Some (line, rest)" by (cases p) auto
      have b: "line_fits line" "body = encode_line line @ rest" using packet_codec.encode_decode [OF p] by auto
      have uniq: "l = line \<and> concat (map encode_line ls) = rest"
        if "body = encode_line l @ concat (map encode_line ls)" "line_fits l" for l ls
        using packet_codec.decode_encode [OF that(2), of "concat (map encode_line ls)"] that(1) p by simp
      show ?thesis
      proof (cases "50004 < Suc n")
        case True
        with p body uniq show ?thesis
          by (cases lines) (auto simp: read_packets.simps [of n body])
      next
        case False
        note ih = "1.IH" [OF body p refl False]
        show ?thesis
        proof (cases lines)
          case Nil
          with body p False show ?thesis by (simp add: read_packets.simps [of n body] split: sum.splits)
        next
          case (Cons l ls)
          have "read_packets n body = Inr lines \<longleftrightarrow> l = line \<and> read_packets (Suc n) rest = Inr ls"
            using body p False Cons by (auto simp: read_packets.simps [of n body])
          also have "\<dots> \<longleftrightarrow> l = line \<and> rest = concat (map encode_line ls) \<and> list_all line_fits ls
              \<and> (ls = [] \<or> Suc n + length ls \<le> 50004)" using ih [of ls] by blast
          also have "\<dots> \<longleftrightarrow> body = concat (map encode_line lines) \<and> list_all line_fits lines \<and> n + length lines \<le> 50004"
          proof
            assume "l = line \<and> rest = concat (map encode_line ls) \<and> list_all line_fits ls
              \<and> (ls = [] \<or> Suc n + length ls \<le> 50004)"
            with b Cons False show "body = concat (map encode_line lines) \<and> list_all line_fits lines \<and> n + length lines \<le> 50004"
              by auto
          next
            assume r: "body = concat (map encode_line lines) \<and> list_all line_fits lines \<and> n + length lines \<le> 50004"
            with Cons have "body = encode_line l @ concat (map encode_line ls)" "line_fits l" by simp_all
            from uniq [OF this] r Cons show "l = line \<and> rest = concat (map encode_line ls) \<and> list_all line_fits ls
              \<and> (ls = [] \<or> Suc n + length ls \<le> 50004)" by simp
          qed
          finally show ?thesis using Cons by simp
        qed
      qed
    qed
  qed
qed

text \<open>
  C21.  The packet reader is exact: it accepts a body with a list of records if and only if the body is
  the encoding of those records, every record fits the packet limit, and the bounds of 8 MiB and
  50004 records hold.  Reading is inverse to writing in both directions, so an accepted body has
  one reading.
\<close>

theorem packets_roundtrip:
  "packets body = Inr lines \<longleftrightarrow>
     body = concat (map encode_line lines) \<and> list_all line_fits lines
     \<and> int (length body) \<le> MAX_DISCOVERY \<and> length lines \<le> 50004"
  using read_packets_iff [of 0 body lines] by (auto simp: packets_def)

section \<open>Publication and discovery\<close>

definition posted :: "transport \<Rightarrow> string option \<Rightarrow> string \<Rightarrow> http_request" where
  "posted tr auth body = make_request tr ''git-receive-pack'' (Some body) auth"

lemma check_push_result_iff:
  "check_push_result body u = Inr () \<longleftrightarrow> body = concat (map encode_line (expected_report u))
     \<and> list_all line_fits (expected_report u) \<and> int (length body) \<le> MAX_DISCOVERY"
proof -
  have "check_push_result body u = Inr () \<longleftrightarrow> packets body = Inr (expected_report u)"
    by (cases "packets body") (simp_all add: check_push_result_def)
  also have "\<dots> \<longleftrightarrow> read_packets 0 body = Inr (expected_report u) \<and> int (length body) \<le> MAX_DISCOVERY"
    by (auto simp: packets_def)
  finally show ?thesis by (auto simp: read_packets_iff expected_report_def)
qed

lemma read_packets_error: "read_packets n body = Inl e \<Longrightarrow> e = ValueError"
proof (induction n body arbitrary: e rule: read_packets.induct)
  case (1 n body)
  then show ?case
    by (subst (asm) (2) read_packets.simps) (auto simp: rbind_Inl_iff split: if_splits option.splits prod.splits)
qed

lemma check_push_result_error: "check_push_result body u = Inl e \<Longrightarrow> e = ValueError"
  by (auto simp: check_push_result_def packets_def rbind_Inl_iff split: if_splits dest: read_packets_error)

text \<open>
  C20.  A push has exactly two outcomes once its request reaches the server: success, if the connection
  closes cleanly and the complete response is the two records \<open>unpack ok\<close> and \<open>ok <ref>\<close> followed by a
  flush, and otherwise an uncertain outcome that asks for owner reconciliation, never an ordinary
  failure.  And the request is only sent for the branch state the remote advertised.
\<close>

theorem push_outcome_exact:
  assumes "discover me tr file net ''git-receive-pack'' = Inr adv" and "push_body digest u pack adv = Inr body"
    and "int (length body) \<le> MAX_BYTES" and "authorization me tr file = Inr auth"
    and "ex_answer (net (posted tr auth body)) \<noteq> NoConnection"
  shows "send_push digest me tr file net u pack =
      (if ex_closed (net (posted tr auth body))
          \<and> (\<exists>report. receive ''application/x-git-receive-pack-result'' MAX_DISCOVERY (ex_answer (net (posted tr auth body))) = Inr report
               \<and> report = concat (map encode_line (expected_report u)) \<and> list_all line_fits (expected_report u)
               \<and> int (length report) \<le> MAX_DISCOVERY)
       then Inr () else Inl ResourceCleanupError)
    \<and> (case map_of (adv_refs adv) (up_ref u) of None \<Rightarrow> up_old u = zeros (length (up_old u)) | Some oid \<Rightarrow> up_old u = oid)"
proof -
  let ?ex = "net (posted tr auth body)"
  have req: "request me tr file net ''git-receive-pack'' (Some body)
      = (case receive ''application/x-git-receive-pack-result'' MAX_DISCOVERY (ex_answer ?ex) of
           Inl _ \<Rightarrow> Inl ResourceCleanupError
         | Inr out \<Rightarrow> if ex_closed ?ex then Inr out else Inl ResourceCleanupError)"
    using assms(3-5) unfolding posted_def by (simp add: request_def SERVICES_def body_limit_def failure_def Let_def)
  have old: "case map_of (adv_refs adv) (up_ref u) of None \<Rightarrow> up_old u = zeros (length (up_old u)) | Some oid \<Rightarrow> up_old u = oid"
    using assms(2) by (auto simp: push_body_def Let_def split: if_splits option.splits)
  have push: "send_push digest me tr file net u pack
      = rbind (request me tr file net ''git-receive-pack'' (Some body)) (\<lambda>response.
          (case check_push_result response u of Inl ValueError \<Rightarrow> Inl ResourceCleanupError | r \<Rightarrow> r))"
    by (simp add: send_push_def assms(1,2))
  show ?thesis
  proof (cases "receive ''application/x-git-receive-pack-result'' MAX_DISCOVERY (ex_answer ?ex)")
    case (Inl e)
    with req push old show ?thesis by simp
  next
    case (Inr report)
    show ?thesis
    proof (cases "check_push_result report u")
      case Inl: (Inl e)
      then have "e = ValueError" by (rule check_push_result_error)
      with Inl Inr req push have "send_push digest me tr file net u pack = Inl ResourceCleanupError" by simp
      moreover have "\<not> (report = concat (map encode_line (expected_report u))
          \<and> list_all line_fits (expected_report u) \<and> int (length report) \<le> MAX_DISCOVERY)"
        using Inl by (simp flip: check_push_result_iff)
      ultimately show ?thesis using Inr old by auto
    next
      case ok: (Inr v)
      then have "check_push_result report u = Inr ()" by simp
      moreover from Inr req push ok have "send_push digest me tr file net u pack
          = (if ex_closed ?ex then Inr () else Inl ResourceCleanupError)" by simp
      ultimately show ?thesis using Inr old by (auto simp: check_push_result_iff)
    qed
  qed
qed

definition demo_ref :: string where
  "demo_ref = ''refs/heads/main''"

definition demo_oid :: string where
  "demo_oid = replicate 40 (CHR ''a'')"

definition demo_lines :: "string option list" where
  "demo_lines = [Some (''# service=git-receive-pack'' @ [CHR 0x0A]), None,
     Some (demo_oid @ '' '' @ demo_ref @ NUL # ''report-status'' @ [CHR 0x0A]), None]"

definition demo_adv :: advertisement where
  "demo_adv = \<lparr>adv_refs = [(demo_ref, demo_oid)], adv_capabilities = [''report-status''], adv_format = ''sha1''\<rparr>"

definition demo_update :: ref_update where
  "demo_update = \<lparr>up_ref = demo_ref, up_old = demo_oid, up_new = replicate 40 (CHR ''b'')\<rparr>"

definition demo_digest :: "string \<Rightarrow> string \<Rightarrow> string" where
  "demo_digest algorithm data = replicate 20 (CHR ''d'')"

definition demo_pack :: string where
  "demo_pack = ''PACK'' @ [CHR 0x00, CHR 0x00, CHR 0x00, CHR 0x02, CHR 0x00, CHR 0x00, CHR 0x00, CHR 0x00] @ demo_digest [] []"

definition demo_transport :: transport where
  "demo_transport = \<lparr>tr_host = ''git.example'', tr_path = ''/r.git'', tr_username = ''git'', tr_credential = None\<rparr>"

text \<open>A server that advertises one branch and confirms the push.\<close>

definition demo_net :: "http_request \<Rightarrow> exchange" where
  "demo_net req = (let get = (hr_body req = None) in
     \<lparr>ex_answer = Answer 200
        [(''Content-Type'', ''application/x-git-receive-pack-'' @ (if get then ''advertisement'' else ''result''))]
        [(concat (map encode_line (if get then demo_lines else expected_report demo_update)), False)],
      ex_closed = True\<rparr>)"

definition demo_body :: string where
  "demo_body = encode_line (Some (push_command demo_update demo_adv)) @ ''0000'' @ demo_pack"

lemma demo_push_exchange:
  shows "discover 0 demo_transport None demo_net ''git-receive-pack'' = Inr demo_adv"
    and "push_body demo_digest demo_update demo_pack demo_adv = Inr demo_body"
    and "int (length demo_body) \<le> MAX_BYTES"
    and "authorization 0 demo_transport None = Inr None"
    and "ex_closed (demo_net (posted demo_transport None demo_body))"
    and "receive ''application/x-git-receive-pack-result'' MAX_DISCOVERY
      (ex_answer (demo_net (posted demo_transport None demo_body))) = Inr (concat (map encode_line (expected_report demo_update)))"
    and "list_all line_fits (expected_report demo_update)"
    and "int (length (concat (map encode_line (expected_report demo_update)))) \<le> MAX_DISCOVERY"
  by code_simp+

theorem push_outcome_exact_witness:
  "send_push demo_digest 0 demo_transport None demo_net demo_update demo_pack = Inr ()"
proof -
  have "ex_answer (demo_net (posted demo_transport None demo_body)) \<noteq> NoConnection"
    by (simp add: demo_net_def Let_def)
  note push_outcome_exact [OF demo_push_exchange(1-4) this]
  then show ?thesis using demo_push_exchange(5-8) by simp
qed

definition table_ok :: "table \<Rightarrow> bool" where
  "table_ok t = (case t of (refs, width) \<Rightarrow> distinct (map fst refs)
     \<and> (\<forall>(name, oid) \<in> set refs. ref_ok False (remove_suffix ''^{}'' name) \<and> oid_ok oid
          \<and> oid \<noteq> zeros (length oid) \<and> width = Some (length oid)))"

lemma add_record_ok: "add_record first oid name t = Inr t' \<Longrightarrow> table_ok t \<Longrightarrow> table_ok t'"
  by (fastforce simp: add_record_def table_ok_def field_names_def split: prod.splits option.splits if_splits)

lemma parse_capabilities_distinct: "parse_capabilities raw = Inr (ref, caps) \<Longrightarrow> distinct caps"
  by (auto simp: parse_capabilities_def Let_def split: list.splits if_splits)

lemma parse_records_ok:
  "parse_records first lines (t, caps) = Inr (t', caps') \<Longrightarrow> table_ok t \<Longrightarrow> distinct caps \<Longrightarrow> table_ok t' \<and> distinct caps'"
proof (induction first lines "(t, caps)" arbitrary: t caps rule: parse_records.induct)
  case (3 first raw lines t caps)
  let ?line = "remove_suffix [CHR 0x0A] raw"
  from 3(2) obtain ref c oid name t1 where
    c: "(if first then parse_capabilities ?line else if NUL \<in> set ?line then Inl ValueError else Inr (?line, caps)) = Inr (ref, c)"
    and s: "split_record ref = Inr (oid, name)" and a: "add_record first oid name t = Inr t1"
    and r: "parse_records False lines (t1, c) = Inr (t', caps')"
    by (auto simp: Let_def split: if_splits)
  have "CHR 0x0D \<notin> set ?line" "CHR 0x0A \<notin> set ?line" using 3(2) by (auto simp: Let_def split: if_splits)
  moreover have "distinct c" using c 3(4) parse_capabilities_distinct by (auto split: if_splits)
  ultimately show ?case
    using 3(1) [OF refl _ r add_record_ok [OF a 3(3)]] by blast
qed auto

text \<open>
  Discovery is well formed or refused: an accepted advertisement lists each reference once, with a valid
  name and a non-zero object id of one width, and its object format is the one of that width,
  stated explicitly for SHA-256.
\<close>

theorem advertisement_wellformed:
  assumes "parse_advertisement body service = Inr adv"
  shows "distinct (map fst (adv_refs adv)) \<and> distinct (adv_capabilities adv)
    \<and> (\<forall>(name, oid) \<in> set (adv_refs adv). ref_ok False (remove_suffix ''^{}'' name) \<and> oid_ok oid
         \<and> oid \<noteq> zeros (length oid) \<and> adv_format adv = algorithm_of oid)
    \<and> (adv_format adv = ''sha256'' \<longrightarrow> ''object-format=sha256'' \<in> set (adv_capabilities adv))
    \<and> adv_format adv \<in> {''sha1'', ''sha256''}"
proof -
  from assms obtain lines refs width caps where
    r: "parse_records True (butlast (drop 2 lines)) (([], None), []) = Inr ((refs, width), caps)"
    and sel: "select_format (refs, width) caps = Inr adv"
    by (auto simp: parse_advertisement_def simp del: append.simps split: if_splits)
  have adv: "adv = \<lparr>adv_refs = refs, adv_capabilities = caps, adv_format = (if width = Some 64 then ''sha256'' else ''sha1'')\<rparr>"
    using sel by (auto simp: select_format_def Let_def split: if_splits)
  have fmt: "format_tokens caps = [''object-format='' @ ''sha256'']" if "width = Some 64"
    using sel that by (auto simp: select_format_def Let_def split: if_splits)
  have "table_ok (refs, width) \<and> distinct caps" using parse_records_ok [OF r] by (simp add: table_ok_def)
  moreover have "''object-format=sha256'' \<in> set caps" if "width = Some 64"
  proof -
    from fmt [OF that] have "''object-format='' @ ''sha256'' \<in> set (format_tokens caps)" by simp
    then show ?thesis by (simp add: format_tokens_def)
  qed
  ultimately show ?thesis by (auto simp: adv table_ok_def algorithm_of_def split: if_splits)
qed

lemma demo_advertisement_parsed:
  "parse_advertisement (concat (map encode_line demo_lines)) ''git-receive-pack'' = Inr demo_adv"
  by code_simp+

theorem advertisement_wellformed_witness:
  "distinct (map fst (adv_refs demo_adv)) \<and> adv_format demo_adv \<in> {''sha1'', ''sha256''}"
  using advertisement_wellformed [OF demo_advertisement_parsed] by blast

end
