(* ===== verification/Json.thy ===== *)
theory Json
  imports Prelude "HOL-Library.Code_Target_Nat" "HOL-Library.Char_ord" "HOL-Library.List_Lexorder"
begin

text \<open>
  The JSON of \<open>git_approvals.py\<close>: \<open>_canonical\<close> (\<open>json.dumps\<close> with sorted keys, the compact separators
  and ASCII escapes) and \<open>_decode\<close> (\<open>json.loads\<close> refusing duplicate keys and non-finite numbers), which
  every signed or protected Git document goes through.  A number with a fraction or an exponent and
  an escape of a code point above 255 are outside the model (\<open>OutsideModel\<close>).
\<close>

section \<open>Writing\<close>

definition DQUOTE :: char where "DQUOTE = CHR 0x22"
definition BSLASH :: char where "BSLASH = CHR 0x5C"

definition short_escapes :: "(char \<times> char) list" where
  "short_escapes = [(DQUOTE, DQUOTE), (BSLASH, BSLASH), (CHR 0x0A, CHR ''n''), (CHR 0x0D, CHR ''r''),
     (CHR 0x09, CHR ''t''), (CHR 0x0C, CHR ''f''), (CHR 0x08, CHR ''b'')]"

definition escape_char :: "char \<Rightarrow> string" where
  "escape_char c = (case map_of short_escapes c of
       Some e \<Rightarrow> [BSLASH, e]
     | None \<Rightarrow> if 32 \<le> char_code c \<and> char_code c \<le> 126 then [c] else BSLASH # CHR ''u'' # hex4 (char_code c))"

definition quote :: "string \<Rightarrow> string" where
  "quote s = DQUOTE # concat (map escape_char s) @ [DQUOTE]"

definition show_int :: "int \<Rightarrow> string" where
  "show_int i = (if i < 0 then CHR ''-'' # decimal (nat (- i)) else decimal (nat i))"

lemma size_snd_less: "p \<in> set d \<Longrightarrow> size (snd p) < size (PDict d)"
  by (induction d) auto

fun dump :: "pyval \<Rightarrow> string" where
  "dump PNone = ''null''"
| "dump (PBool b) = (if b then ''true'' else ''false'')"
| "dump (PInt i) = show_int i"
| "dump (PStr s) = quote s"
| "dump (PList xs) = CHR ''['' # join_with (CHR '','') (map dump xs) @ '']''"
| "dump (PDict d) = CHR ''{'' # join_with (CHR '','') (map (\<lambda>p. quote (fst p) @ CHR '':'' # dump (snd p)) d) @ ''}''"

text \<open>\<open>sort_keys\<close>: every mapping in the order of its keys.\<close>

function sort_doc :: "pyval \<Rightarrow> pyval" where
  "sort_doc PNone = PNone"
| "sort_doc (PBool b) = PBool b"
| "sort_doc (PInt i) = PInt i"
| "sort_doc (PStr s) = PStr s"
| "sort_doc (PList xs) = PList (map sort_doc xs)"
| "sort_doc (PDict d) = PDict (sort_key fst (map (\<lambda>p. (fst p, sort_doc (snd p))) d))"
  by pat_completeness auto
termination
  by (relation "measure size") (auto simp: less_Suc_eq_le size_list_estimation' dest: size_snd_less)

definition canonical :: "pyval \<Rightarrow> string" where
  "canonical v = dump (sort_doc v)"

section \<open>Reading\<close>

definition json_ws :: "char \<Rightarrow> bool" where
  "json_ws c \<longleftrightarrow> c = CHR '' '' \<or> c = CHR 0x09 \<or> c = CHR 0x0A \<or> c = CHR 0x0D"

definition skip_ws :: "string \<Rightarrow> string" where
  "skip_ws s = dropWhile json_ws s"

definition short_unescapes :: "(char \<times> char) list" where
  "short_unescapes = (CHR ''/'', CHR ''/'') # map (\<lambda>(c, e). (e, c)) short_escapes"

text \<open>The body of a string literal after its opening quote, in strict mode; code points above 255 are outside the model.\<close>

fun scan_string :: "string \<Rightarrow> (string \<times> string) result" where
  "scan_string [] = Inl ValueError"
| "scan_string (c # s) =
     (if c = DQUOTE then Inr ([], s)
      else if c = BSLASH then
        (case s of
           [] \<Rightarrow> Inl ValueError
         | e # t \<Rightarrow>
             if e = CHR ''u'' then
               (case parse_hex4 (map lower_char (take 4 t)) of
                  None \<Rightarrow> Inl ValueError
                | Some n \<Rightarrow> if 255 < n then Inl OutsideModel
                    else rbind (scan_string (drop 4 t)) (\<lambda>(x, r). Inr (char_of n # x, r)))
             else (case map_of short_unescapes e of
                  None \<Rightarrow> Inl ValueError
                | Some d \<Rightarrow> rbind (scan_string t) (\<lambda>(x, r). Inr (d # x, r))))
      else if char_code c < 32 then Inl ValueError
      else rbind (scan_string s) (\<lambda>(x, r). Inr (c # x, r)))"

definition float_tail :: "string \<Rightarrow> bool" where
  "float_tail r = (case r of
       c # d # t \<Rightarrow> (c = CHR ''.'' \<and> is_digit d)
         \<or> ((c = CHR ''e'' \<or> c = CHR ''E'') \<and> (is_digit d \<or> ((d = CHR ''+'' \<or> d = CHR ''-'') \<and> t \<noteq> [] \<and> is_digit (hd t))))
     | _ \<Rightarrow> False)"

definition MAX_STR_DIGITS :: nat where
  "MAX_STR_DIGITS = 4300"

definition scan_number :: "string \<Rightarrow> (pyval \<times> string) result" where
  "scan_number s =
     (let neg = starts_with ''-'' s;
          t = (if neg then tl s else s);
          run = takeWhile is_digit t;
          digits = (if starts_with ''0'' run then ''0'' else run);
          rest = drop (length digits) t
      in if digits = [] then Inl ValueError
         else if float_tail rest then Inl OutsideModel
         else if MAX_STR_DIGITS < length digits then Inl ValueError
         else Inr (PInt (if neg then - decimal_value digits else decimal_value digits), rest))"

definition literals :: "(string \<times> pyval) list" where
  "literals = [(''null'', PNone), (''true'', PBool True), (''false'', PBool False)]"

definition scan_atom :: "string \<Rightarrow> (pyval \<times> string) result" where
  "scan_atom s = (case find (\<lambda>l. starts_with (fst l) s) literals of
       Some l \<Rightarrow> Inr (snd l, drop (length (fst l)) s)
     | None \<Rightarrow> scan_number s)"

text \<open>
  The recursive-descent scanner.  A call spends one unit of fuel; \<open>decode_enough_fuel\<close> shows that twice
  the length of the text is enough.  \<open>RuntimeError\<close> stands for the interpreter's recursion limit.
\<close>

fun scan :: "nat \<Rightarrow> string \<Rightarrow> (pyval \<times> string) result"
  and scan_items :: "nat \<Rightarrow> string \<Rightarrow> (pyval list \<times> string) result"
  and scan_pairs :: "nat \<Rightarrow> string \<Rightarrow> ((string \<times> pyval) list \<times> string) result" where
  "scan 0 s = Inl RuntimeError"
| "scan (Suc n) s = (case s of
       [] \<Rightarrow> Inl ValueError
     | c # t \<Rightarrow>
         if c = DQUOTE then rbind (scan_string t) (\<lambda>(x, r). Inr (PStr x, r))
         else if c = CHR ''{'' then
           (if starts_with ''}'' (skip_ws t) then Inr (PDict [], tl (skip_ws t))
            else rbind (scan_pairs n (skip_ws t)) (\<lambda>(d, r). if distinct (map fst d) then Inr (PDict d, r) else Inl ValueError))
         else if c = CHR ''['' then
           (if starts_with '']'' (skip_ws t) then Inr (PList [], tl (skip_ws t))
            else rbind (scan_items n (skip_ws t)) (\<lambda>(xs, r). Inr (PList xs, r)))
         else scan_atom s)"
| "scan_items 0 s = Inl RuntimeError"
| "scan_items (Suc n) s =
     rbind (scan n s) (\<lambda>(v, r). case skip_ws r of
        [] \<Rightarrow> Inl ValueError
      | d # u \<Rightarrow> if d = CHR '']'' then Inr ([v], u)
          else if d = CHR '','' then rbind (scan_items n (skip_ws u)) (\<lambda>(vs, r'). Inr (v # vs, r'))
          else Inl ValueError)"
| "scan_pairs 0 s = Inl RuntimeError"
| "scan_pairs (Suc n) s =
     (if \<not> starts_with [DQUOTE] s then Inl ValueError
      else rbind (scan_string (tl s)) (\<lambda>(k, r).
        if \<not> starts_with '':'' (skip_ws r) then Inl ValueError
        else rbind (scan n (skip_ws (tl (skip_ws r)))) (\<lambda>(v, r'). case skip_ws r' of
            [] \<Rightarrow> Inl ValueError
          | d # u \<Rightarrow> if d = CHR ''}'' then Inr ([(k, v)], u)
              else if d = CHR '','' then rbind (scan_pairs n (skip_ws u)) (\<lambda>(ps, r''). Inr ((k, v) # ps, r''))
              else Inl ValueError)))"

definition decode :: "string \<Rightarrow> pyval result" where
  "decode s = rbind (scan (2 * length s + 2) (skip_ws s)) (\<lambda>(v, r). if skip_ws r = [] then Inr v else Inl ValueError)"

section \<open>Reading what was written\<close>

lemma lower_hex_digit: "n < 16 \<Longrightarrow> lower_char (hex_digit n) = hex_digit n"
proof -
  have "list_all (\<lambda>n. lower_char (hex_digit n) = hex_digit n) [0..<16]" by code_simp
  then show "n < 16 \<Longrightarrow> lower_char (hex_digit n) = hex_digit n" by (simp add: list_all_iff)
qed

lemma lower_hex4 [simp]: "map lower_char (hex4 n) = hex4 n"
  by (simp add: hex4_def lower_hex_digit)

lemma char_code_less: "char_code c < 256"
  by (simp add: char_code_def)

lemma char_of_code [simp]: "char_of (char_code c) = c"
  by (simp add: char_code_def)

lemma scan_escape:
  "scan_string (escape_char c @ s) = rbind (scan_string s) (\<lambda>(x, r). Inr (c # x, r))"
proof (cases "map_of short_escapes c")
  case None
  then have plain: "c \<noteq> DQUOTE" "c \<noteq> BSLASH" by (auto simp: short_escapes_def DQUOTE_def BSLASH_def split: if_splits)
  have u: "scan_string (BSLASH # CHR ''u'' # hex4 (char_code c) @ s) = rbind (scan_string s) (\<lambda>(x, r). Inr (c # x, r))"
  proof -
    have h: "parse_hex4 (hex4 (char_code c)) = Some (char_code c)"
      using order.strict_trans [OF char_code_less [of c], of 65536] by (simp add: parse_hex4_iff)
    moreover have "\<not> 255 < char_code c" using char_code_less [of c] by linarith
    moreover have "BSLASH \<noteq> DQUOTE" by (simp add: BSLASH_def DQUOTE_def)
    ultimately show ?thesis by simp
  qed
  show ?thesis
  proof (cases "32 \<le> char_code c \<and> char_code c \<le> 126")
    case True
    with None plain show ?thesis by (simp add: escape_char_def)
  next
    case False
    then have "escape_char c = BSLASH # CHR ''u'' # hex4 (char_code c)" using None by (auto simp: escape_char_def)
    then show ?thesis using u by (simp only: append_Cons append_Nil)
  qed
next
  case (Some e)
  then have ce: "(c, e) \<in> set short_escapes" by (rule map_of_SomeD)
  then have "e \<noteq> CHR ''u''" "map_of short_unescapes e = Some c"
    by (auto simp: short_escapes_def short_unescapes_def DQUOTE_def BSLASH_def)
  moreover have "BSLASH \<noteq> DQUOTE" by (simp add: BSLASH_def DQUOTE_def)
  ultimately show ?thesis using Some by (simp add: escape_char_def)
qed

lemma scan_quoted: "scan_string (concat (map escape_char s) @ DQUOTE # r) = Inr (s, r)"
proof (induction s)
  case (Cons c s)
  have "scan_string (concat (map escape_char (c # s)) @ DQUOTE # r)
      = scan_string (escape_char c @ concat (map escape_char s) @ DQUOTE # r)" by simp
  then show ?case using Cons by (simp only: scan_escape) simp
qed simp

lemma digit_char: "n < 10 \<Longrightarrow> is_digit (char_of (48 + n)) \<and> int (char_code (char_of (48 + n))) - 48 = int n"
  by (simp add: is_digit_def in_range_def char_code_def)

lemma decimal_value_snoc: "decimal_value (s @ [c]) = 10 * decimal_value s + (int (char_code c) - 48)"
  by (simp add: decimal_value_def)

lemma decimal_text: "list_all is_digit (decimal n) \<and> decimal n \<noteq> [] \<and> decimal_value (decimal n) = int n"
proof (induction n rule: decimal.induct)
  case (1 n)
  show ?case
  proof (cases "n < 10")
    case True
    then show ?thesis using digit_char [of n] by (simp add: decimal.simps [of n] decimal_value_def)
  next
    case False
    with 1 have "list_all is_digit (decimal (n div 10))" "decimal_value (decimal (n div 10)) = int (n div 10)" by simp_all
    moreover have "10 * int (n div 10) + int (n mod 10) = int n" by presburger
    ultimately show ?thesis using False digit_char [of "n mod 10"]
      by (simp add: decimal.simps [of n] decimal_value_snoc)
  qed
qed

lemma decimal_leading: "n \<noteq> 0 \<Longrightarrow> hd (decimal n) \<noteq> CHR ''0''"
proof (induction n rule: decimal.induct)
  case (1 n)
  show ?case
  proof (cases "n < 10")
    case True
    moreover have "list_all (\<lambda>k. char_of (48 + k) \<noteq> CHR ''0'') [1..<10 :: nat]" by code_simp
    ultimately show ?thesis using 1(2) by (simp add: decimal.simps [of n] list_all_iff)
  next
    case False
    with 1 have "hd (decimal (n div 10)) \<noteq> CHR ''0''" by (simp add: div_eq_0_iff)
    with False decimal_text [of "n div 10"] show ?thesis by (simp add: decimal.simps [of n])
  qed
qed

lemma decimal_length: "n < 10 ^ k \<Longrightarrow> 0 < k \<Longrightarrow> length (decimal n) \<le> k"
proof (induction k arbitrary: n)
  case (Suc k)
  show ?case
  proof (cases "n < 10")
    case False
    with Suc.prems have "n div 10 < 10 ^ k" "0 < k" by (auto simp: less_mult_imp_div_less intro: gr0I)
    with Suc.IH [of "n div 10"] False show ?thesis by (simp add: decimal.simps [of n])
  qed (simp add: decimal.simps [of n])
qed simp

text \<open>What may follow a value inside a document.\<close>

definition value_end :: "string \<Rightarrow> bool" where
  "value_end r \<longleftrightarrow> r = [] \<or> hd r \<in> set '',]}''"

lemma value_end_digit: "value_end r \<Longrightarrow> takeWhile is_digit r = [] \<and> \<not> float_tail r"
proof -
  have "\<not> is_digit c" if "c \<in> set '',]}''" for c
    using that by (auto simp: is_digit_def in_range_def char_code_def)
  then show "value_end r \<Longrightarrow> takeWhile is_digit r = [] \<and> \<not> float_tail r"
    by (cases r) (auto simp: value_end_def float_tail_def split: list.splits)
qed

lemma scan_number_nat:
  assumes "value_end r" and "n < 10 ^ MAX_STR_DIGITS"
  shows "scan_number (decimal n @ r) = Inr (PInt (int n), r)"
    and "scan_number (CHR ''-'' # decimal n @ r) = Inr (PInt (- int n), r)"
proof -
  have d: "list_all is_digit (decimal n)" "decimal n \<noteq> []" "decimal_value (decimal n) = int n"
    using decimal_text by blast+
  then have run: "takeWhile is_digit (decimal n @ r) = decimal n"
    using value_end_digit [OF assms(1)] by (simp add: takeWhile_append list_all_iff)
  have digits: "(if starts_with ''0'' (decimal n) then ''0'' else decimal n) = decimal n"
  proof (cases "n = 0")
    case True
    then show ?thesis by (simp add: decimal.simps [of 0])
  next
    case False
    with decimal_leading [of n] d(2) show ?thesis by (cases "decimal n") auto
  qed
  have len: "\<not> MAX_STR_DIGITS < length (decimal n)"
    using decimal_length [OF assms(2)] by (simp add: MAX_STR_DIGITS_def not_less)
  have pos: "\<not> starts_with ''-'' (decimal n @ r)"
  proof -
    have "hd (decimal n) \<noteq> CHR ''-''" using d(1,2)
      by (cases "decimal n") (auto simp: is_digit_def in_range_def char_code_def)
    with d(2) show ?thesis by (cases "decimal n") auto
  qed
  have neg: "starts_with ''-'' (CHR ''-'' # decimal n @ r) = True" by simp
  show "scan_number (decimal n @ r) = Inr (PInt (int n), r)"
    unfolding scan_number_def Let_def using len d value_end_digit [OF assms(1)]
    by (simp only: pos if_False run digits) simp
  show "scan_number (CHR ''-'' # decimal n @ r) = Inr (PInt (- int n), r)"
    unfolding scan_number_def Let_def using len d value_end_digit [OF assms(1)]
    by (simp only: neg if_True list.sel run digits) simp
qed

text \<open>Documents the writer reads back: distinct keys in every mapping and numbers of at most 4300 digits.\<close>

fun doc_ok :: "pyval \<Rightarrow> bool" where
  "doc_ok (PInt i) = (nat \<bar>i\<bar> < 10 ^ MAX_STR_DIGITS)"
| "doc_ok (PList xs) = list_all doc_ok xs"
| "doc_ok (PDict d) = (distinct (map fst d) \<and> list_all (\<lambda>p. doc_ok (snd p)) d)"
| "doc_ok _ = True"

lemma skip_ws_none: "s \<noteq> [] \<Longrightarrow> \<not> json_ws (hd s) \<Longrightarrow> skip_ws s = s"
  by (cases s) (simp_all add: skip_ws_def)

definition value_start :: "string \<Rightarrow> bool" where
  "value_start s \<longleftrightarrow> s \<noteq> [] \<and> \<not> json_ws (hd s) \<and> hd s \<notin> set '',]}:''"

lemma value_start_skip: "value_start s \<Longrightarrow> skip_ws (s @ t) = s @ t"
  by (simp add: value_start_def skip_ws_none)

lemma decimal_hd: "is_digit (hd (decimal n)) \<and> decimal n \<noteq> []"
  using decimal_text [of n] by (metis hd_in_set list_all_iff)

lemma show_int_start: "value_start (show_int i)"
proof -
  have "\<not> json_ws c \<and> c \<notin> set '',]}:''" if "is_digit c" for c
    using that by (auto simp: json_ws_def is_digit_def in_range_def char_code_def)
  then show ?thesis using decimal_hd by (auto simp: value_start_def show_int_def json_ws_def)
qed

lemma dump_start: "value_start (dump v)"
proof (cases v)
  case (PInt i)
  then show ?thesis using show_int_start by simp
qed (simp_all add: value_start_def json_ws_def quote_def DQUOTE_def)

lemma scan_atom_int:
  assumes "value_end r" and "nat \<bar>i\<bar> < 10 ^ MAX_STR_DIGITS"
  shows "scan_atom (show_int i @ r) = Inr (PInt i, r)"
proof -
  have start: "is_digit (hd (show_int i)) \<or> hd (show_int i) = CHR ''-''" "show_int i \<noteq> []"
    using decimal_hd by (auto simp: show_int_def)
  then have "find (\<lambda>l. starts_with (fst l) (show_int i @ r)) literals = None"
    by (cases "show_int i") (auto simp: literals_def is_digit_def in_range_def char_code_def)
  then have "scan_atom (show_int i @ r) = scan_number (show_int i @ r)" by (simp add: scan_atom_def)
  also have "\<dots> = Inr (PInt i, r)"
    using scan_number_nat [OF assms(1), of "nat i"] scan_number_nat [OF assms(1), of "nat (- i)"] assms(2)
    by (auto simp: show_int_def)
  finally show ?thesis .
qed

definition reads_back :: "pyval \<Rightarrow> bool" where
  "reads_back v \<longleftrightarrow> (\<forall>n r. value_end r \<longrightarrow> 2 * length (dump v) < n \<longrightarrow> scan n (dump v @ r) = Inr (v, r))"

lemma reads_backD: "reads_back v \<Longrightarrow> value_end r \<Longrightarrow> 2 * length (dump v) < n \<Longrightarrow> scan n (dump v @ r) = Inr (v, r)"
  by (simp add: reads_back_def)

lemma value_end_simps: "value_end (CHR '','' # r)" "value_end (CHR '']'' # r)" "value_end (CHR ''}'' # r)"
  by (simp_all add: value_end_def)

lemma skip_ws_marks: "skip_ws (CHR '','' # r) = CHR '','' # r" "skip_ws (CHR '']'' # r) = CHR '']'' # r"
  "skip_ws (CHR ''}'' # r) = CHR ''}'' # r" "skip_ws (CHR '':'' # r) = CHR '':'' # r" "skip_ws (DQUOTE # r) = DQUOTE # r"
  by (simp_all add: skip_ws_def json_ws_def DQUOTE_def)

lemma scan_items_dump:
  assumes "xs \<noteq> []" and "list_all reads_back xs" and "2 * length (join_with (CHR '','') (map dump xs)) + 1 < n"
  shows "scan_items n (join_with (CHR '','') (map dump xs) @ CHR '']'' # r) = Inr (xs, r)"
  using assms
proof (induction xs arbitrary: n rule: induct_list012)
  case (2 x)
  then obtain m where n: "n = Suc m" "2 * length (dump x) < m" by (cases n) auto
  with 2 have "scan m (dump x @ CHR '']'' # r) = Inr (x, CHR '']'' # r)"
    by (simp add: reads_back_def value_end_simps)
  with n show ?case by (simp add: skip_ws_marks)
next
  case (3 x y ys)
  let ?rest = "join_with (CHR '','') (map dump (y # ys)) @ CHR '']'' # r"
  from 3(5) obtain m where n: "n = Suc m" "2 * length (dump x) < m"
    "2 * length (join_with (CHR '','') (map dump (y # ys))) + 1 < m" by (cases n) auto
  have "value_start (join_with (CHR '','') (map dump (y # ys)))"
    using dump_start [of y] by (cases ys) (auto simp: value_start_def)
  then have skip: "skip_ws ?rest = ?rest" by (rule value_start_skip)
  from n 3(4) have "scan m (dump x @ CHR '','' # ?rest) = Inr (x, CHR '','' # ?rest)"
    by (simp add: reads_back_def value_end_simps)
  moreover have "scan_items m ?rest = Inr (y # ys, r)" using 3 n by simp
  ultimately show ?case using n skip by (simp add: skip_ws_marks)
qed simp

definition dump_pair :: "string \<times> pyval \<Rightarrow> string" where
  "dump_pair p = quote (fst p) @ CHR '':'' # dump (snd p)"

lemma scan_pairs_step:
  assumes "scan m (dump v @ tail) = Inr (v, tail)"
  shows "scan_pairs (Suc m) (dump_pair (k, v) @ tail) = (case skip_ws tail of
      [] \<Rightarrow> Inl ValueError
    | d # u \<Rightarrow> if d = CHR ''}'' then Inr ([(k, v)], u)
        else if d = CHR '','' then rbind (scan_pairs m (skip_ws u)) (\<lambda>(ps, r). Inr ((k, v) # ps, r))
        else Inl ValueError)"
proof -
  have "skip_ws (dump v @ tail) = dump v @ tail" using dump_start by (rule value_start_skip)
  with assms show ?thesis
    by (simp add: dump_pair_def quote_def scan_quoted skip_ws_marks)
qed

lemma scan_pairs_dump:
  assumes "d \<noteq> []" and "list_all (\<lambda>p. reads_back (snd p)) d" and "2 * length (join_with (CHR '','') (map dump_pair d)) + 1 < n"
  shows "scan_pairs n (join_with (CHR '','') (map dump_pair d) @ CHR ''}'' # r) = Inr (d, r)"
  using assms
proof (induction d arbitrary: n rule: induct_list012)
  case (2 p)
  obtain k v where p: "p = (k, v)" by (cases p)
  with 2 obtain m where n: "n = Suc m" "2 * length (dump v) < m" by (cases n) (auto simp: dump_pair_def)
  with 2 p have "scan m (dump v @ CHR ''}'' # r) = Inr (v, CHR ''}'' # r)"
    by (simp add: reads_back_def value_end_simps)
  from scan_pairs_step [OF this, of k] n p show ?case by (simp add: skip_ws_marks)
next
  case (3 p q ps)
  obtain k v where p: "p = (k, v)" by (cases p)
  let ?rest = "join_with (CHR '','') (map dump_pair (q # ps)) @ CHR ''}'' # r"
  have "length (dump_pair p) = length (quote k) + 1 + length (dump v)" by (simp add: p dump_pair_def)
  with 3(5) obtain m where n: "n = Suc m" "2 * length (dump v) < m"
    "2 * length (join_with (CHR '','') (map dump_pair (q # ps))) + 1 < m" by (cases n) auto
  have skip: "skip_ws ?rest = ?rest"
    by (rule value_start_skip, cases ps) (auto simp: dump_pair_def quote_def value_start_def json_ws_def DQUOTE_def)
  from n 3(4) p have "scan m (dump v @ CHR '','' # ?rest) = Inr (v, CHR '','' # ?rest)"
    by (simp add: reads_back_def value_end_simps)
  moreover have "scan_pairs m ?rest = Inr (q # ps, r)" using 3 n by simp
  ultimately show ?case using scan_pairs_step [of m v "CHR '','' # ?rest" k] n skip p by (simp add: skip_ws_marks)
qed simp

lemma scan_atom_other:
  "scan_atom (''null'' @ r) = Inr (PNone, r)" "scan_atom (''true'' @ r) = Inr (PBool True, r)"
  "scan_atom (''false'' @ r) = Inr (PBool False, r)"
  by (simp_all add: scan_atom_def literals_def)

lemma scan_is_atom: "s \<noteq> [] \<Longrightarrow> hd s \<noteq> DQUOTE \<Longrightarrow> hd s \<noteq> CHR ''{'' \<Longrightarrow> hd s \<noteq> CHR ''['' \<Longrightarrow> scan (Suc n) s = scan_atom s"
  by (cases s) simp_all

lemma scan_literal:
  assumes "0 < n"
  shows "scan n (''null'' @ r) = Inr (PNone, r)" "scan n (''true'' @ r) = Inr (PBool True, r)"
    "scan n (''false'' @ r) = Inr (PBool False, r)"
proof -
  have "scan n s = scan_atom s" if "s \<noteq> []" "hd s \<noteq> DQUOTE" "hd s \<noteq> CHR ''{''" "hd s \<noteq> CHR ''[''" for s
    using assms that scan_is_atom by (cases n) auto
  then show "scan n (''null'' @ r) = Inr (PNone, r)" "scan n (''true'' @ r) = Inr (PBool True, r)"
    "scan n (''false'' @ r) = Inr (PBool False, r)" using scan_atom_other [of r] by (simp_all add: DQUOTE_def)
qed

lemma reads_back_doc: "doc_ok v \<Longrightarrow> reads_back v"
proof (induction v)
  case (PInt i)
  show ?case
    unfolding reads_back_def
  proof (intro allI impI)
    fix n r assume r: "value_end r" and n: "2 * length (dump (PInt i)) < n"
    have "is_digit (hd (show_int i)) \<or> hd (show_int i) = CHR ''-''" "show_int i \<noteq> []"
      using decimal_hd by (auto simp: show_int_def)
    then have "hd (show_int i @ r) \<notin> {DQUOTE, CHR ''{'', CHR ''[''}" "show_int i @ r \<noteq> []"
      by (auto simp: is_digit_def in_range_def char_code_def DQUOTE_def)
    with n have "scan n (show_int i @ r) = scan_atom (show_int i @ r)" using scan_is_atom by (cases n) auto
    with scan_atom_int [OF r] PInt show "scan n (dump (PInt i) @ r) = Inr (PInt i, r)" by simp
  qed
next
  case (PList xs)
  then have ih: "list_all reads_back xs" by (auto simp: list_all_iff)
  show ?case
    unfolding reads_back_def
  proof (intro allI impI)
    fix n r assume n: "2 * length (dump (PList xs)) < n"
    then obtain m where m: "n = Suc m" "2 * length (join_with (CHR '','') (map dump xs)) + 1 < m" by (cases n) auto
    show "scan n (dump (PList xs) @ r) = Inr (PList xs, r)"
    proof (cases xs)
      case Nil
      then show ?thesis using m by (simp add: skip_ws_marks DQUOTE_def)
    next
      case (Cons y ys)
      let ?body = "join_with (CHR '','') (map dump xs)"
      have start: "value_start ?body" using dump_start [of y] Cons by (cases ys) (auto simp: value_start_def)
      then have "skip_ws (?body @ CHR '']'' # r) = ?body @ CHR '']'' # r" by (rule value_start_skip)
      moreover have "\<not> starts_with '']'' (?body @ CHR '']'' # r)" using start by (cases ?body) (auto simp: value_start_def)
      moreover have "scan_items m (?body @ CHR '']'' # r) = Inr (xs, r)" using Cons ih m(2) by (intro scan_items_dump) auto
      ultimately show ?thesis using m(1) by (simp add: DQUOTE_def)
    qed
  qed
next
  case (PDict d)
  then have ih: "list_all (\<lambda>p. reads_back (snd p)) d" and dist: "distinct (map fst d)"
    by (fastforce simp: list_all_iff)+
  have dump: "dump (PDict d) = CHR ''{'' # join_with (CHR '','') (map dump_pair d) @ ''}''"
    by (simp add: dump_pair_def [abs_def])
  show ?case
    unfolding reads_back_def dump
  proof (intro allI impI)
    fix n r assume n: "2 * length (CHR ''{'' # join_with (CHR '','') (map dump_pair d) @ ''}'') < n"
    then obtain m where m: "n = Suc m" "2 * length (join_with (CHR '','') (map dump_pair d)) + 1 < m" by (cases n) auto
    let ?body = "join_with (CHR '','') (map dump_pair d)"
    show "scan n ((CHR ''{'' # ?body @ ''}'') @ r) = Inr (PDict d, r)"
    proof (cases d)
      case Nil
      then show ?thesis using m by (simp add: skip_ws_marks DQUOTE_def)
    next
      case (Cons p ps)
      have start: "value_start ?body"
        using Cons by (cases ps) (auto simp: value_start_def dump_pair_def quote_def json_ws_def DQUOTE_def)
      then have "skip_ws (?body @ CHR ''}'' # r) = ?body @ CHR ''}'' # r" by (rule value_start_skip)
      moreover have "\<not> starts_with ''}'' (?body @ CHR ''}'' # r)" using start by (cases ?body) (auto simp: value_start_def)
      moreover have "scan_pairs m (?body @ CHR ''}'' # r) = Inr (d, r)" using Cons ih m(2) by (intro scan_pairs_dump) auto
      ultimately show ?thesis using m(1) dist by (simp add: DQUOTE_def)
    qed
  qed
next
  case (PStr s)
  have "scan n (dump (PStr s) @ r) = Inr (PStr s, r)" if "2 * length (dump (PStr s)) < n" for n r
    using that by (cases n) (simp_all add: quote_def scan_quoted)
  then show ?case by (simp add: reads_back_def)
qed (auto simp: reads_back_def scan_literal [simplified])

section \<open>Canonical documents\<close>

lemma doc_ok_sort: "doc_ok v \<Longrightarrow> doc_ok (sort_doc v)"
proof (induction v)
  case (PDict d)
  let ?s = "\<lambda>p. (fst p, sort_doc (snd p))"
  have "distinct (map fst (map ?s d))" using PDict.prems by (simp add: comp_def)
  then have "distinct (map fst (sort_key fst (map ?s d)))" by (simp only: distinct_map distinct_sort set_sort)
  moreover have "\<forall>p \<in> set d. doc_ok (sort_doc (snd p))"
  proof
    fix p assume "p \<in> set d"
    with PDict.prems have "doc_ok (snd p)" by (auto simp: list_all_iff)
    with PDict.IH [OF \<open>p \<in> set d\<close>, of "snd p"] show "doc_ok (sort_doc (snd p))" by (simp add: snds.simps)
  qed
  ultimately show ?case by (auto simp: list_all_iff)
qed (auto simp: list_all_iff)

text \<open>Writing a document and reading it back gives the document with sorted keys.\<close>

lemma decode_canonical: "doc_ok v \<Longrightarrow> decode (canonical v) = Inr (sort_doc v)"
proof -
  assume "doc_ok v"
  then have "reads_back (sort_doc v)" by (intro reads_back_doc doc_ok_sort)
  then have "scan (2 * length (canonical v) + 2) (canonical v @ []) = Inr (sort_doc v, [])"
    unfolding canonical_def by (rule reads_backD) (simp_all add: value_end_def)
  moreover have "skip_ws (canonical v) = canonical v"
    using value_start_skip [OF dump_start, of "sort_doc v" "[]"] by (simp add: canonical_def)
  ultimately show ?thesis by (simp add: decode_def skip_ws_def)
qed

section \<open>Enough fuel\<close>

text \<open>A result is never the exhaustion of fuel, and a successful one has consumed text.\<close>

definition consumes :: "string \<Rightarrow> ('a \<times> string) result \<Rightarrow> bool" where
  "consumes s res = (case res of Inl e \<Rightarrow> e \<noteq> RuntimeError | Inr (x, r) \<Rightarrow> length r < length s)"

lemma consumes_simps [simp]: "consumes s (Inl e) \<longleftrightarrow> e \<noteq> RuntimeError" "consumes s (Inr (x, r)) \<longleftrightarrow> length r < length s"
  by (simp_all add: consumes_def)

lemma consumes_rbind:
  "consumes s m \<Longrightarrow> (\<And>x r. m = Inr (x, r) \<Longrightarrow> length r < length s \<Longrightarrow> consumes s' (f (x, r))) \<Longrightarrow> consumes s' (rbind m f)"
  by (cases m) (auto simp: consumes_def)

lemma consumes_longer: "consumes s m \<Longrightarrow> length s \<le> length s' \<Longrightarrow> consumes s' m"
  by (cases m) (auto simp: consumes_def)

lemma skip_ws_length: "length (skip_ws s) \<le> length s"
  by (simp add: skip_ws_def length_dropWhile_le)

lemma scan_string_consumes: "consumes s (scan_string s)"
proof (induction s rule: scan_string.induct)
  case (2 c s)
  show ?case
  proof (cases "c = BSLASH \<and> c \<noteq> DQUOTE")
    case True
    show ?thesis
    proof (cases s)
      case (Cons e t)
      have a: "consumes t (scan_string (drop 4 t))"
        if "e = CHR ''u''" "parse_hex4 (map lower_char (take 4 t)) = Some n" "\<not> 255 < n" for n
      proof (rule consumes_longer)
        show "consumes (drop 4 t) (scan_string (drop 4 t))" using 2(1) [of e t n] True Cons that by blast
      qed simp
      have b: "consumes t (scan_string t)" if "e \<noteq> CHR ''u''" "map_of short_unescapes e = Some d" for d
        using 2(2) [of e t d] True Cons that by blast
      show ?thesis
        using True Cons a b
        by (auto split: option.splits intro!: consumes_rbind [where s = t])
    qed (use True in simp)
  next
    case False
    with 2(3) show ?thesis by (auto intro!: consumes_rbind [where s = s])
  qed
qed simp

lemma scan_atom_consumes: "consumes s (scan_atom s)"
proof -
  have "consumes s (scan_number s)"
  proof -
    have "length (drop (length d) t) < length s" if "d \<noteq> []" "length d \<le> length t" "length t \<le> length s" for d t :: string
      using that by (cases d) auto
    moreover have "length (takeWhile is_digit t) \<le> length t" for t by (simp add: length_takeWhile_le)
    moreover have "starts_with ''0'' (takeWhile is_digit s) \<Longrightarrow> length s - Suc 0 < length s"
      "starts_with ''0'' (takeWhile is_digit (tl s)) \<Longrightarrow> length s - Suc (Suc 0) < length s" by (cases s; simp)+
    ultimately show ?thesis by (auto simp: scan_number_def Let_def)
  qed
  moreover have "length (drop (length (fst l)) s) < length s"
    if "find (\<lambda>l. starts_with (fst l) s) literals = Some l" for l
    using find_SomeD [OF that] by (auto simp: literals_def starts_with_iff)
  ultimately show ?thesis by (auto simp: scan_atom_def split: option.split)
qed

lemma scan_consumes:
  "2 * length s < n \<Longrightarrow> consumes s (scan n s)"
  "2 * length s + 1 < n \<Longrightarrow> consumes s (scan_items n s)"
  "2 * length s + 1 < n \<Longrightarrow> consumes s (scan_pairs n s)"
proof (induction n s and n s and n s rule: scan_scan_items_scan_pairs.induct)
  case (2 n s)
  show ?case
  proof (cases s)
    case (Cons c t)
    have str: "consumes s (scan_string t)" using scan_string_consumes by (rule consumes_longer) (simp add: Cons)
    have ws: "length (skip_ws t) \<le> length t" by (rule skip_ws_length)
    have p: "consumes (skip_ws t) (scan_pairs n (skip_ws t))"
      if "c \<noteq> DQUOTE" "c = CHR ''{''" "\<not> starts_with ''}'' (skip_ws t)"
      using 2(1) [OF Cons that] 2(3) ws Cons by simp
    have i: "consumes (skip_ws t) (scan_items n (skip_ws t))"
      if "c \<noteq> DQUOTE" "c \<noteq> CHR ''{''" "c = CHR ''[''" "\<not> starts_with '']'' (skip_ws t)"
      using 2(2) [OF Cons that] 2(3) ws Cons by simp
    have tl: "length (tl (skip_ws t)) < length s" using ws Cons by (cases "skip_ws t") auto
    show ?thesis
    proof (cases "c = DQUOTE \<or> (c \<noteq> CHR ''{'' \<and> c \<noteq> CHR ''['')")
      case True
      then show ?thesis using Cons scan_atom_consumes [of "c # t"]
        by (auto intro!: consumes_rbind [OF scan_string_consumes])
    next
      case False
      have dict: "consumes s (rbind (scan_pairs n (skip_ws t)) (\<lambda>(d, r). if distinct (map fst d) then Inr (PDict d, r) else Inl ValueError))"
        if "c = CHR ''{''" "\<not> starts_with ''}'' (skip_ws t)"
        by (rule consumes_rbind [OF p]) (use that False ws Cons in auto)
      have list: "consumes s (rbind (scan_items n (skip_ws t)) (\<lambda>(xs, r). Inr (PList xs, r)))"
        if "c = CHR ''[''" "\<not> starts_with '']'' (skip_ws t)"
        by (rule consumes_rbind [OF i]) (use that False ws Cons in auto)
      show ?thesis using False Cons tl dict list by auto
    qed
  qed simp
next
  case (4 n s)
  have v: "consumes s (scan n s)" using 4 by simp
  have step: "consumes s (scan_items n (skip_ws u))" if "scan n s = Inr (w, r)" "skip_ws r = CHR '','' # u" for w r u
  proof -
    have "length r < length s" using v that(1) by simp
    moreover have "length (CHR '','' # u) \<le> length r" unfolding that(2) [symmetric] by (rule skip_ws_length)
    ultimately have "length (skip_ws u) < length s" using skip_ws_length [of u] by simp
    moreover from this have "consumes (skip_ws u) (scan_items n (skip_ws u))" using 4 that by simp
    ultimately show ?thesis by (auto elim: consumes_longer)
  qed
  show ?case
  proof (cases "scan n s")
    case (Inr p)
    obtain w r where p: "p = (w, r)" by (cases p)
    have "length r < length s" using v Inr p by simp
    moreover have "length (skip_ws r) \<le> length r" by (rule skip_ws_length)
    ultimately show ?thesis using Inr p step
      by (auto split: list.splits intro!: consumes_rbind [where s = s])
  qed (use v in simp)
next
  case (6 n s)
  show ?case
  proof (cases "starts_with [DQUOTE] s")
    case True
    then obtain t where s: "s = DQUOTE # t" by (cases s) auto
    show ?thesis
    proof (cases "scan_string t")
      case (Inl e)
      with scan_string_consumes [of t] s show ?thesis by simp
    next
      case (Inr q)
      obtain k r where kr: "scan_string t = Inr (k, r)" using Inr by (cases q) auto
      have r: "length r < length t" using scan_string_consumes [of t] kr by simp
      show ?thesis
      proof (cases "starts_with '':'' (skip_ws r)")
        case colon: True
        let ?u = "skip_ws (tl (skip_ws r))"
        have u: "length ?u < length t" using r skip_ws_length [of r] skip_ws_length [of "tl (skip_ws r)"] by simp
        have v: "consumes ?u (scan n ?u)" using 6(1) [of r] 6(3) True s colon u by simp
        show ?thesis
        proof (cases "scan n ?u")
          case (Inl e)
          with v kr colon s show ?thesis by simp
        next
          case (Inr q2)
          obtain w r' where wr: "scan n ?u = Inr (w, r')" using Inr by (cases q2) auto
          have r': "length r' < length t" using v wr u by simp
          moreover have ws: "length (skip_ws r') \<le> length r'" by (rule skip_ws_length)
          have step: "consumes s (scan_pairs n (skip_ws x))" if "skip_ws r' = CHR '','' # x" for x
          proof -
            have "length (skip_ws x) < length t" using ws r' that skip_ws_length [of x] by simp
            moreover from this have "consumes (skip_ws x) (scan_pairs n (skip_ws x))"
              using 6 True kr s colon wr that by simp
            ultimately show ?thesis using s by (auto elim: consumes_longer)
          qed
          show ?thesis using s kr colon wr ws r' step
            by (auto split: list.splits intro!: consumes_rbind [where s = s])
        qed
      qed (use s kr in simp)
    qed
  qed simp
qed simp_all

lemma decode_enough_fuel: "decode s \<noteq> Inl RuntimeError"
proof -
  have "2 * length (skip_ws s) < 2 * length s + 2" using skip_ws_length [of s] by linarith
  from scan_consumes(1) [OF this] show ?thesis by (auto simp: decode_def rbind_Inl_iff split: if_splits)
qed

section \<open>Canonical texts\<close>

lemma ascii_join: "char_code d < 128 \<Longrightarrow> \<forall>w \<in> set ws. ascii w \<Longrightarrow> ascii (join_with d ws)"
  by (induction ws rule: induct_list012) auto

lemma ascii_digit: "is_digit c \<Longrightarrow> char_code c < 128"
  by (simp add: is_digit_def in_range_def char_code_def)

lemma ascii_hex_digit: "n < 16 \<Longrightarrow> char_code (hex_digit n) < 128"
proof -
  have "list_all (\<lambda>n. char_code (hex_digit n) < 128) [0..<16]" by code_simp
  then show "n < 16 \<Longrightarrow> char_code (hex_digit n) < 128" by (simp add: list_all_iff)
qed

lemma ascii_escape: "ascii (escape_char c)"
proof (cases "map_of short_escapes c")
  case (Some e)
  then have "(c, e) \<in> set short_escapes" by (rule map_of_SomeD)
  then have "char_code e < 128" by (auto simp: short_escapes_def char_code_def DQUOTE_def BSLASH_def)
  with Some show ?thesis by (simp add: escape_char_def char_code_def BSLASH_def)
next
  case None
  have "ascii (hex4 n)" for n by (simp add: hex4_def ascii_hex_digit)
  moreover have "char_code BSLASH < 128" "char_code (CHR ''u'') < 128" by (simp_all add: char_code_def BSLASH_def)
  ultimately show ?thesis using None by (simp add: escape_char_def)
qed

lemma ascii_quote: "ascii (quote s)"
proof -
  have "ascii (concat (map escape_char s))" by (induction s) (simp_all add: ascii_escape)
  then show ?thesis by (simp add: quote_def char_code_def DQUOTE_def)
qed

lemma ascii_dump: "ascii (dump v)"
proof (induction v)
  case (PInt i)
  have "ascii (decimal n)" for n using decimal_text [of n] by (auto simp: ascii_def list_all_iff ascii_digit)
  then show ?case by (simp add: show_int_def char_code_def)
next
  case (PList xs)
  then have "ascii (join_with (CHR '','') (map dump xs))" by (intro ascii_join) (auto simp: char_code_def)
  then show ?case by (simp add: char_code_def)
next
  case (PDict d)
  then have "ascii (join_with (CHR '','') (map dump_pair d))"
    by (intro ascii_join) (auto simp: char_code_def dump_pair_def ascii_quote snds.simps)
  then show ?case by (simp add: char_code_def dump_pair_def [abs_def])
qed (simp_all add: char_code_def ascii_quote)

text \<open>Two documents with one canonical text are the same up to the order of keys.\<close>

lemma canonical_inj: "doc_ok v \<Longrightarrow> doc_ok w \<Longrightarrow> canonical v = canonical w \<Longrightarrow> sort_doc v = sort_doc w"
  using decode_canonical by (metis sum.inject(2))

lemma field_names_sort_doc: "sort_doc (PDict d) = PDict d' \<Longrightarrow> field_names d' = field_names d"
  by (force simp: field_names_def image_iff)

lemma map_of_sort_key: "distinct (map fst d) \<Longrightarrow> map_of (sort_key fst d) = map_of d"
  by (subst map_of_inject_set) (simp_all add: distinct_map)

lemma sort_doc_sorted: "sorted (map fst d) \<Longrightarrow> sort_doc (PDict d) = PDict (map (\<lambda>p. (fst p, sort_doc (snd p))) d)"
  by (simp add: sorted_sort_id comp_def sort_key_id_if_sorted)

end
