(* ===== verification/Host_Files.thy ===== *)
theory Host_Files
  imports Action_Policy Json
begin

text \<open>
  What the protected-file readers share: \<open>PurePosixPath\<close> texts, the ownership tests on \<open>lstat\<close> results, and
  \<open>_open_trusted_directory\<close> of \<open>scoped_https.py\<close>, the no-follow walk from the root to a control
  directory.  File-system facts arrive as the results of the system calls, in the order of the code.
\<close>

section \<open>Pure paths\<close>

text \<open>The parts of \<open>PurePosixPath(p)\<close> after its root, and \<open>str(PurePosixPath(p))\<close>.\<close>

definition pure_parts :: "string \<Rightarrow> string list" where
  "pure_parts p = filter (\<lambda>w. w \<noteq> [] \<and> w \<noteq> ''.'') (split_on sep p)"

definition pure_str :: "string \<Rightarrow> string" where
  "pure_str p = (let r = replicate (initial_slashes p) sep @ join_with sep (pure_parts p) in if r = [] then ''.'' else r)"

text \<open>A canonical absolute path text.\<close>

definition canonical_abs :: "string \<Rightarrow> bool" where
  "canonical_abs p \<longleftrightarrow> starts_with ''/'' p \<and> \<not> starts_with ''//'' p \<and> ''..'' \<notin> set (pure_parts p) \<and> pure_str p = p"

section \<open>Ownership\<close>

text \<open>Octal 022 and 077, and the sticky bit.\<close>

definition shared_write :: "stat \<Rightarrow> bool" where
  "shared_write s \<longleftrightarrow> st_mode s AND 18 \<noteq> 0"

definition open_to_others :: "stat \<Rightarrow> bool" where
  "open_to_others s \<longleftrightarrow> st_mode s AND 63 \<noteq> 0"

definition sticky_root :: "stat \<Rightarrow> bool" where
  "sticky_root s \<longleftrightarrow> st_uid s = 0 \<and> st_mode s AND 512 \<noteq> 0"

definition private_file :: "int \<Rightarrow> stat \<Rightarrow> bool" where
  "private_file me s \<longleftrightarrow> st_type s = Regular \<and> st_uid s = me \<and> st_nlink s = 1 \<and> \<not> open_to_others s"

definition private_dir :: "int \<Rightarrow> stat \<Rightarrow> bool" where
  "private_dir me s \<longleftrightarrow> st_type s = Directory \<and> st_uid s = me \<and> \<not> open_to_others s"

definition identity :: "stat \<Rightarrow> int \<times> int" where
  "identity s = (st_dev s, st_ino s)"

section \<open>The trusted directory walk\<close>

text \<open>What opening one component without following links does.\<close>

datatype dir_open = Opened stat | Gone | Refused

fun trusted_walk :: "int \<Rightarrow> stat \<Rightarrow> dir_open list \<Rightarrow> stat option result" where
  "trusted_walk me cur [] =
     (if \<not> owner_or_root me cur \<or> shared_write cur then Inl PermissionError else Inr (Some cur))"
| "trusted_walk me cur (step # steps) =
     (if \<not> owner_or_root me cur \<or> (shared_write cur \<and> \<not> sticky_root cur) then Inl PermissionError
      else (case step of
          Gone \<Rightarrow> if steps = [] then Inr None else Inl PermissionError
        | Refused \<Rightarrow> Inl OSError
        | Opened s \<Rightarrow> trusted_walk me s steps))"

text \<open>Every directory on the way to an opened control directory is safe from other users.\<close>

lemma trusted_walk_safe:
  "trusted_walk me cur steps = Inr (Some dir) \<Longrightarrow>
     \<exists>stats. steps = map Opened stats \<and> dir = last (cur # stats)
       \<and> (\<forall>s \<in> set (cur # stats). owner_or_root me s \<and> (shared_write s \<longrightarrow> sticky_root s)) \<and> \<not> shared_write dir"
proof (induction me cur steps rule: trusted_walk.induct)
  case (1 me cur)
  then show ?case by (auto split: if_splits)
next
  case (2 me cur step steps)
  then obtain s where s: "step = Opened s" "trusted_walk me s steps = Inr (Some dir)"
    and cur: "owner_or_root me cur" "shared_write cur \<longrightarrow> sticky_root cur"
    by (auto split: if_splits dir_open.splits)
  with 2(1) [OF _ s(1,2)] obtain stats where "steps = map Opened stats" "dir = last (s # stats)"
    "\<forall>s \<in> set (s # stats). owner_or_root me s \<and> (shared_write s \<longrightarrow> sticky_root s)" "\<not> shared_write dir" by auto
  with s(1) cur show ?case by (intro exI [of _ "s # stats"]) auto
qed

end
