(* ===== verification/Git_Approvals.thy ===== *)
theory Git_Approvals
  imports Host_Files
begin

text \<open>
  \<open>git_approvals.py\<close>: owner signatures for exact, single-use Git requests.  A request is its canonical
  payload text.  SHA-256 and the Ed25519 key pair are arguments (\<open>sha\<close>, \<open>sign\<close>, \<open>verify\<close>); the ledger is the
  table \<open>consumed\<close>, \<open>None\<close> while the file has no such table.
\<close>

section \<open>Requests\<close>

definition REQUEST_FIELDS :: "string list" where
  "REQUEST_FIELDS = [''operation'', ''workspace_id'', ''repository_path'', ''repository_device'', ''repository_inode'',
     ''expected_head'', ''expected_tree'', ''branch'', ''parameters'']"

definition APPROVED_OPERATIONS :: "string list" where
  "APPROVED_OPERATIONS = [''commit'', ''push'', ''fetch'', ''pull'', ''clone'']"

definition text_ok :: "pyval \<Rightarrow> nat \<Rightarrow> bool" where
  "text_ok v maximum = (case v of
       PStr s \<Rightarrow> 0 < length s \<and> length s \<le> maximum \<and> list_all (\<lambda>c. 32 \<le> char_code c \<and> char_code c \<noteq> 127) s
     | _ \<Rightarrow> False)"

definition object_id :: "pyval \<Rightarrow> bool" where
  "object_id v = (case v of PStr s \<Rightarrow> (length s = 40 \<or> length s = 64) \<and> list_all is_hex s | _ \<Rightarrow> False)"

definition int_above :: "int \<Rightarrow> pyval \<Rightarrow> bool" where
  "int_above lo v = (case v of PInt i \<Rightarrow> lo < i | _ \<Rightarrow> False)"

definition is_dict :: "pyval \<Rightarrow> bool" where
  "is_dict v = (case v of PDict _ \<Rightarrow> True | _ \<Rightarrow> False)"

definition unhashable :: "pyval \<Rightarrow> bool" where
  "unhashable v = (case v of PList _ \<Rightarrow> True | PDict _ \<Rightarrow> True | _ \<Rightarrow> False)"

text \<open>The checks of \<open>__post_init__\<close> on the decoded fields.\<close>

definition request_fields_ok :: "pydict \<Rightarrow> bool" where
  "request_fields_ok d \<longleftrightarrow>
     is_pstr (dict_get d ''operation'') \<and> the_str (dict_get d ''operation'') \<in> set APPROVED_OPERATIONS
     \<and> text_ok (dict_get d ''workspace_id'') 256 \<and> dict_get d ''workspace_id'' \<noteq> PStr ''*''
     \<and> text_ok (dict_get d ''repository_path'') 4096
     \<and> canonical_abs (the_str (dict_get d ''repository_path'')) \<and> dict_get d ''repository_path'' \<noteq> PStr ''/''
     \<and> int_above (- 1) (dict_get d ''repository_device'') \<and> int_above 0 (dict_get d ''repository_inode'')
     \<and> (dict_get d ''expected_head'' = PNone \<or> object_id (dict_get d ''expected_head''))
     \<and> object_id (dict_get d ''expected_tree'')
     \<and> (dict_get d ''branch'' = PNone \<or>
          (text_ok (dict_get d ''branch'') 1024 \<and> starts_with ''refs/heads/'' (the_str (dict_get d ''branch''))))
     \<and> is_dict (dict_get d ''parameters'')"

definition MAX_REQUEST :: int where
  "MAX_REQUEST = 65536"

definition new_request :: "string \<Rightarrow> string result" where
  "new_request payload =
     (if MAX_REQUEST < int (length payload) then Inl ValueError
      else rbind (decode payload) (\<lambda>data.
        case data of
          PDict d \<Rightarrow>
            if field_names d \<noteq> set REQUEST_FIELDS \<or> canonical data \<noteq> payload then Inl ValueError
            else if unhashable (dict_get d ''operation'') then Inl TypeError
            else if request_fields_ok d then Inr payload else Inl ValueError
        | _ \<Rightarrow> Inl ValueError))"

definition from_payload :: "pyval \<Rightarrow> string result" where
  "from_payload v = new_request (canonical v)"

definition to_payload :: "string \<Rightarrow> pyval result" where
  "to_payload payload = decode payload"

definition NUL_CHAR :: string where
  "NUL_CHAR = [CHR 0x00]"

definition digest :: "(string \<Rightarrow> string) \<Rightarrow> string \<Rightarrow> string" where
  "digest sha payload = sha (''AgentPorter Git request v1'' @ NUL_CHAR @ payload)"

section \<open>URL-safe base64\<close>

definition URL64 :: string where
  "URL64 = ''ABCDEFGHIJKLMNOPQRSTUVWXYZabcdefghijklmnopqrstuvwxyz0123456789-_''"

fun url64_encode :: "nat list \<Rightarrow> string" where
  "url64_encode [] = []"
| "url64_encode [a] = [URL64 ! (a div 4), URL64 ! (a mod 4 * 16)]"
| "url64_encode [a, b] = [URL64 ! (a div 4), URL64 ! (a mod 4 * 16 + b div 16), URL64 ! (b mod 16 * 4)]"
| "url64_encode (a # b # c # s) = [URL64 ! (a div 4), URL64 ! (a mod 4 * 16 + b div 16), URL64 ! (b mod 16 * 4 + c div 64),
     URL64 ! (c mod 64)] @ url64_encode s"

fun index_of :: "'a \<Rightarrow> 'a list \<Rightarrow> nat option" where
  "index_of x [] = None"
| "index_of x (y # ys) = (if x = y then Some 0 else map_option Suc (index_of x ys))"

fun url64_groups :: "nat list \<Rightarrow> nat list" where
  "url64_groups [a, b] = [a * 4 + b div 16]"
| "url64_groups [a, b, c] = [a * 4 + b div 16, b mod 16 * 16 + c div 4]"
| "url64_groups (a # b # c # d # s) = [a * 4 + b div 16, b mod 16 * 16 + c div 4, c mod 4 * 64 + d] @ url64_groups s"
| "url64_groups _ = []"

text \<open>\<open>urlsafe_b64decode\<close> of a padded text over the alphabet: unused low bits of the last digit are dropped.\<close>

definition url64_decode :: "string \<Rightarrow> nat list option" where
  "url64_decode s = map_option url64_groups (those (map (\<lambda>c. index_of c URL64) s))"

definition bytes :: "string \<Rightarrow> nat list" where
  "bytes s = map char_code s"

definition of_bytes :: "nat list \<Rightarrow> string" where
  "of_bytes bs = map char_of bs"

section \<open>Receipts\<close>

definition MAX_LIFETIME :: int where
  "MAX_LIFETIME = 300"

definition AUDIENCE :: string where
  "AUDIENCE = ''agentporter-git''"

definition nonce_ok :: "string \<Rightarrow> bool" where
  "nonce_ok n \<longleftrightarrow> length n = 32 \<and> list_all is_hex n"

definition approval_claims :: "string \<Rightarrow> int \<Rightarrow> int \<Rightarrow> string \<Rightarrow> pyval" where
  "approval_claims nonce issued expires request_digest = PDict
     [(''version'', PInt 1), (''audience'', PStr AUDIENCE), (''nonce'', PStr nonce), (''issued_at'', PInt issued),
      (''expires_at'', PInt expires), (''request_sha256'', PStr request_digest)]"

definition approval_message :: "pyval \<Rightarrow> string" where
  "approval_message claims = ''AgentPorter Git owner approval v1'' @ NUL_CHAR @ canonical claims"

definition issue_git_approval :: "(string \<Rightarrow> string) \<Rightarrow> (string \<Rightarrow> string) \<Rightarrow> string \<Rightarrow> int \<Rightarrow> int \<Rightarrow> string \<Rightarrow> string result" where
  "issue_git_approval sha sign payload now lifetime nonce =
     (if \<not> (1 \<le> lifetime \<and> lifetime \<le> MAX_LIFETIME) then Inl ValueError
      else if now < 0 then Inl ValueError
      else if \<not> nonce_ok nonce then Inl ValueError
      else (let claims = approval_claims nonce now (now + lifetime) (digest sha payload);
                signature = url64_encode (bytes (sign (approval_message claims)))
            in Inr (canonical (PDict [(''claims'', claims), (''signature'', PStr signature)]))))"

section \<open>The ledger file\<close>

record ledger_row =
  lr_nonce :: string
  lr_request :: string
  lr_claimed :: int
  lr_expires :: int

text \<open>\<open>lstat\<close> of the ancestor directories (the private parent last), of the ledger and of its SQLite sidecars.\<close>

record ledger_files =
  lf_ancestors :: "stat option list"
  lf_ledger :: "stat option"
  lf_sidecars :: "stat option list"

record verifier =
  vf_parent :: "int \<times> int"
  vf_ledger :: "int \<times> int"

text \<open>\<open>made\<close> is what a directory the code has just made looks like, \<open>None\<close> where it makes none.\<close>

definition check_ancestor :: "int \<Rightarrow> stat option \<Rightarrow> stat option \<Rightarrow> stat result" where
  "check_ancestor me made found =
     rbind (case (found, made) of
         (Some s, _) \<Rightarrow> Inr s
       | (None, Some s) \<Rightarrow> Inr s
       | (None, None) \<Rightarrow> Inl PermissionError) (\<lambda>s.
       if st_type s \<noteq> Directory \<or> \<not> owner_or_root me s \<or> (shared_write s \<and> \<not> sticky_root s)
       then Inl PermissionError else Inr s)"

definition check_parent_directories :: "int \<Rightarrow> stat option \<Rightarrow> ledger_files \<Rightarrow> stat list result" where
  "check_parent_directories me made env = rmap_list (check_ancestor me made) (lf_ancestors env)"

definition sidecar_ok :: "int \<Rightarrow> stat option \<Rightarrow> bool" where
  "sidecar_ok me found = (case found of None \<Rightarrow> True | Some s \<Rightarrow> private_file me s)"

definition check_ledger_identity :: "int \<Rightarrow> verifier \<Rightarrow> ledger_files \<Rightarrow> unit result" where
  "check_ledger_identity me v env =
     rbind (check_parent_directories me None env) (\<lambda>dirs.
       if \<not> private_dir me (last dirs) \<or> identity (last dirs) \<noteq> vf_parent v then Inl PermissionError
       else (case lf_ledger env of
           None \<Rightarrow> Inl PermissionError
         | Some s \<Rightarrow> if \<not> private_file me s \<or> identity s \<noteq> vf_ledger v then Inl PermissionError
             else require (list_all (sidecar_ok me) (lf_sidecars env)) PermissionError))"

text \<open>
  The constructor.  \<open>env\<close> is the file system it finds, \<open>fresh_dir\<close> and \<open>fresh_file\<close> what it creates, and
  \<open>db\<close> the table, which it creates unless the verifier is to use an existing ledger only.
\<close>

definition new_verifier :: "int \<Rightarrow> bool \<Rightarrow> stat \<Rightarrow> stat \<Rightarrow> string \<Rightarrow> ledger_files \<Rightarrow> ledger_row list option
    \<Rightarrow> (verifier \<times> ledger_row list) result" where
  "new_verifier me existing_only fresh_dir fresh_file path env db =
     (if ''..'' \<in> set (pure_parts path) then Inl PermissionError
      else rbind (check_parent_directories me (if existing_only then None else Some fresh_dir) env) (\<lambda>dirs.
        if \<not> private_dir me (last dirs) then Inl PermissionError
        else rbind (case lf_ledger env of
            None \<Rightarrow> if existing_only then Inl FileNotFoundError else Inr fresh_file
          | Some s \<Rightarrow> if st_type s = Symlink then Inl OSError else Inr s) (\<lambda>info.
          if \<not> private_file me info then Inl PermissionError
          else (let v = \<lparr>vf_parent = identity (last dirs), vf_ledger = identity info\<rparr> in
            rbind (check_ledger_identity me v (env\<lparr>lf_ancestors := map Some dirs, lf_ledger := Some info\<rparr>)) (\<lambda>_.
            case db of
              Some rows \<Rightarrow> Inr (v, rows)
            | None \<Rightarrow> if existing_only then Inl DatabaseError else Inr (v, []))))))"

section \<open>Verification and the claim\<close>

record approval =
  va_request :: string
  va_nonce :: string
  va_expires :: int

text \<open>The body of the \<open>try\<close> block: the claims of a receipt for this request, checked at \<open>now\<close>.\<close>

definition claim_fields :: "string list" where
  "claim_fields = [''version'', ''audience'', ''nonce'', ''issued_at'', ''expires_at'', ''request_sha256'']"

definition check_claims :: "(string \<Rightarrow> string) \<Rightarrow> string \<Rightarrow> int \<Rightarrow> pydict \<Rightarrow> (string \<times> int \<times> int) result" where
  "check_claims sha payload now c =
     (case (dict_get c ''nonce'', dict_get c ''issued_at'', dict_get c ''expires_at'') of
        (PStr nonce, PInt issued, PInt expires) \<Rightarrow>
          if \<not> nonce_ok nonce then Inl ValueError
          else if issued < 0 \<or> \<not> (1 \<le> expires - issued \<and> expires - issued \<le> MAX_LIFETIME) \<or> now < issued \<or> expires \<le> now
          then Inl ValueError
          else if dict_get c ''request_sha256'' \<noteq> PStr (digest sha payload) then Inl ValueError
          else Inr (nonce, issued, expires)
      | _ \<Rightarrow> Inl ValueError)"

definition signature_ok :: "(string \<Rightarrow> string \<Rightarrow> bool) \<Rightarrow> pyval \<Rightarrow> string \<Rightarrow> bool" where
  "signature_ok verify claims encoded \<longleftrightarrow>
     length encoded = 86 \<and> (case url64_decode encoded of
         None \<Rightarrow> False
       | Some sig \<Rightarrow> url64_encode sig = encoded \<and> verify (of_bytes sig) (approval_message claims))"

definition read_receipt :: "(string \<Rightarrow> string) \<Rightarrow> (string \<Rightarrow> string \<Rightarrow> bool) \<Rightarrow> string \<Rightarrow> string \<Rightarrow> int
    \<Rightarrow> (string \<times> int \<times> int) result" where
  "read_receipt sha verify payload receipt now =
     rbind (decode receipt) (\<lambda>envelope.
       case envelope of
         PDict e \<Rightarrow>
           if field_names e \<noteq> {''claims'', ''signature''} then Inl ValueError
           else (case (dict_get e ''claims'', dict_get e ''signature'') of
               (PDict c, PStr encoded) \<Rightarrow>
                 if field_names c \<noteq> set claim_fields then Inl ValueError
                 else if dict_get c ''version'' \<noteq> PInt 1 \<or> dict_get c ''audience'' \<noteq> PStr AUDIENCE then Inl ValueError
                 else if \<not> signature_ok verify (PDict c) encoded then Inl ValueError
                 else check_claims sha payload now c
             | _ \<Rightarrow> Inl ValueError)
       | _ \<Rightarrow> Inl ValueError)"

text \<open>The insertion in one transaction; \<open>claimed_at\<close> is the clock once the database lock is held.\<close>

definition spend :: "string \<Rightarrow> string \<Rightarrow> int \<Rightarrow> int \<Rightarrow> ledger_row list \<Rightarrow> ledger_row list result" where
  "spend nonce request_digest claimed_at expires db =
     (if nonce \<in> lr_nonce ` set db then Inl IntegrityError
      else Inr (db @ [\<lparr>lr_nonce = nonce, lr_request = request_digest, lr_claimed = claimed_at, lr_expires = expires\<rparr>]))"

text \<open>One call: its arguments, the clock readings and the files as the identity check finds them.\<close>

record verify_call =
  vc_receipt :: string
  vc_payload :: string
  vc_now :: "int option"
  vc_start :: int      \<comment> \<open>the clock at the start, when no time is given\<close>
  vc_locked :: int     \<comment> \<open>the clock once the write lock is held\<close>
  vc_files :: ledger_files

definition call_now :: "verify_call \<Rightarrow> int" where
  "call_now c = (case vc_now c of None \<Rightarrow> vc_start c | Some t \<Rightarrow> t)"

definition call_claimed :: "verify_call \<Rightarrow> int" where
  "call_claimed c = (case vc_now c of None \<Rightarrow> vc_locked c | Some t \<Rightarrow> t)"

definition MAX_RECEIPT :: int where
  "MAX_RECEIPT = 8192"

definition verify_and_consume :: "(string \<Rightarrow> string) \<Rightarrow> (string \<Rightarrow> string \<Rightarrow> bool) \<Rightarrow> int \<Rightarrow> verifier \<Rightarrow> verify_call
    \<Rightarrow> ledger_row list \<Rightarrow> (approval \<times> ledger_row list) result" where
  "verify_and_consume sha verify me v c db =
     (if call_now c < 0 then Inl PermissionError
      else if \<not> list_all (\<lambda>ch. char_code ch < 128) (vc_receipt c) \<or> MAX_RECEIPT < int (length (vc_receipt c)) then Inl PermissionError
      else (case read_receipt sha verify (vc_payload c) (vc_receipt c) (call_now c) of
          Inl _ \<Rightarrow> Inl PermissionError
        | Inr (nonce, issued, expires) \<Rightarrow>
            rbind (check_ledger_identity me v (vc_files c)) (\<lambda>_.
              if \<not> (issued \<le> call_claimed c \<and> call_claimed c < expires) then Inl PermissionError
              else (case spend nonce (digest sha (vc_payload c)) (call_claimed c) expires db of
                  Inl _ \<Rightarrow> Inl PermissionError
                | Inr db' \<Rightarrow> Inr (\<lparr>va_request = digest sha (vc_payload c), va_nonce = nonce, va_expires = expires\<rparr>, db')))))"

text \<open>Recovery: a spent claim may be inspected, never restored.\<close>

definition assert_consumed :: "(string \<Rightarrow> string) \<Rightarrow> int \<Rightarrow> verifier \<Rightarrow> ledger_files \<Rightarrow> pyval \<Rightarrow> string \<Rightarrow> ledger_row list \<Rightarrow> unit result" where
  "assert_consumed sha me v env nonce payload db =
     (if \<not> (is_pstr nonce \<and> nonce_ok (the_str nonce)) then Inl PermissionError
      else rbind (check_ledger_identity me v env) (\<lambda>_.
        require (map lr_request (filter (\<lambda>r. lr_nonce r = the_str nonce) db) = [digest sha payload]) PermissionError))"

section \<open>Encodings\<close>

lemma index_URL64: "k < 64 \<Longrightarrow> index_of (URL64 ! k) URL64 = Some k"
proof -
  have "list_all (\<lambda>k. index_of (URL64 ! k) URL64 = Some k) [0..<64]" by code_simp
  then show "k < 64 \<Longrightarrow> index_of (URL64 ! k) URL64 = Some k" by (simp add: list_all_iff)
qed

lemma url64_roundtrip: "list_all (\<lambda>b. b < 256) bs \<Longrightarrow> url64_decode (url64_encode bs) = Some bs"
proof (induction bs rule: url64_encode.induct)
  case (2 a)
  then have "a div 4 < 64" "a mod 4 * 16 < 64" by auto
  then show ?case by (simp add: url64_decode_def index_URL64)
next
  case (3 a b)
  then have k: "a div 4 < 64" "a mod 4 * 16 + b div 16 < 64" "b mod 16 * 4 < 64" by auto
  have "(a mod 4 * 16 + b div 16) div 16 = a mod 4" "(a mod 4 * 16 + b div 16) mod 16 = b div 16"
    using 3 by (simp_all add: less_mult_imp_div_less)
  with k show ?case by (simp add: url64_decode_def index_URL64)
next
  case (4 a b c s)
  then have k: "a div 4 < 64" "a mod 4 * 16 + b div 16 < 64" "b mod 16 * 4 + c div 64 < 64" "c mod 64 < 64" by auto
  have "(a mod 4 * 16 + b div 16) div 16 = a mod 4" "(a mod 4 * 16 + b div 16) mod 16 = b div 16"
    "(b mod 16 * 4 + c div 64) div 4 = b mod 16" "(b mod 16 * 4 + c div 64) mod 4 = c div 64"
    using 4 by (simp_all add: less_mult_imp_div_less)
  moreover obtain g where "those (map (\<lambda>c. index_of c URL64) (url64_encode s)) = Some g" "url64_groups g = s"
    using 4 by (auto simp: url64_decode_def)
  ultimately show ?case using k by (simp add: url64_decode_def index_URL64)
qed (simp add: url64_decode_def)

lemma url64_length: "length bs = 3 * n + 1 \<Longrightarrow> length (url64_encode bs) = 4 * n + 2"
proof (induction bs arbitrary: n rule: url64_encode.induct)
  case (4 a b c s)
  then obtain m where "n = Suc m" by (cases n) auto
  with 4 show ?case by simp
qed auto

lemma of_bytes_bytes [simp]: "of_bytes (bytes s) = s"
  by (simp add: of_bytes_def bytes_def map_idI)

lemma bytes_byte: "list_all (\<lambda>b. b < 256) (bytes s)"
  by (simp add: bytes_def list_all_iff char_code_less)

section \<open>Single use\<close>

definition receipt_nonce :: "(string \<Rightarrow> string) \<Rightarrow> (string \<Rightarrow> string \<Rightarrow> bool) \<Rightarrow> verify_call \<Rightarrow> string" where
  "receipt_nonce sha verify c = (case read_receipt sha verify (vc_payload c) (vc_receipt c) (call_now c) of
     Inl _ \<Rightarrow> [] | Inr (nonce, _, _) \<Rightarrow> nonce)"

text \<open>
  What the owner vouched for: the receipt carries a valid signature over claims that name the digest of
  this request and a window of at most 300 seconds in which the claim is made.
\<close>

definition owner_approved :: "(string \<Rightarrow> string) \<Rightarrow> (string \<Rightarrow> string \<Rightarrow> bool) \<Rightarrow> verify_call \<Rightarrow> bool" where
  "owner_approved sha verify c =
     (case decode (vc_receipt c) of
        Inr (PDict e) \<Rightarrow>
          (case (dict_get e ''claims'', dict_get e ''signature'') of
             (PDict d, PStr encoded) \<Rightarrow>
               signature_ok verify (PDict d) encoded
               \<and> dict_get d ''request_sha256'' = PStr (digest sha (vc_payload c))
               \<and> (case (dict_get d ''issued_at'', dict_get d ''expires_at'') of
                    (PInt issued, PInt expires) \<Rightarrow> 0 \<le> issued \<and> expires - issued \<le> MAX_LIFETIME
                       \<and> issued \<le> call_claimed c \<and> call_claimed c < expires
                  | _ \<Rightarrow> False)
           | _ \<Rightarrow> False)
      | _ \<Rightarrow> False)"

lemma read_receipt_Inr:
  assumes "read_receipt sha verify payload receipt now = Inr (nonce, issued, expires)"
  obtains e d encoded where "decode receipt = Inr (PDict e)" "dict_get e ''claims'' = PDict d" "dict_get e ''signature'' = PStr encoded"
    "signature_ok verify (PDict d) encoded" "dict_get d ''nonce'' = PStr nonce" "nonce_ok nonce"
    "dict_get d ''issued_at'' = PInt issued" "dict_get d ''expires_at'' = PInt expires"
    "dict_get d ''request_sha256'' = PStr (digest sha payload)" "0 \<le> issued" "expires - issued \<le> MAX_LIFETIME"
    "issued \<le> now" "now < expires"
proof -
  from assms obtain env where env: "decode receipt = Inr env" unfolding read_receipt_def rbind_Inr_iff by blast
  note body = assms [unfolded read_receipt_def env rbind.simps]
  obtain e where e: "env = PDict e" using body by (cases env) simp_all
  obtain d where d: "dict_get e ''claims'' = PDict d"
    using body unfolding e by (cases "dict_get e ''claims''") (simp_all split: if_splits)
  obtain encoded where enc: "dict_get e ''signature'' = PStr encoded"
    using body unfolding e by (cases "dict_get e ''signature''") (simp_all add: d split: if_splits)
  have sig: "signature_ok verify (PDict d) encoded" and cl: "check_claims sha payload now d = Inr (nonce, issued, expires)"
    using body unfolding e by (simp_all add: d enc split: if_splits)
  note cl = cl [unfolded check_claims_def]
  have n: "dict_get d ''nonce'' = PStr nonce" using cl by (cases "dict_get d ''nonce''") (auto split: pyval.splits if_splits)
  have i: "dict_get d ''issued_at'' = PInt issued"
    using cl by (cases "dict_get d ''issued_at''") (auto simp: n split: pyval.splits if_splits)
  have x: "dict_get d ''expires_at'' = PInt expires"
    using cl by (cases "dict_get d ''expires_at''") (auto simp: n i split: if_splits)
  have "nonce_ok nonce" "dict_get d ''request_sha256'' = PStr (digest sha payload)" "0 \<le> issued"
    "expires - issued \<le> MAX_LIFETIME" "issued \<le> now" "now < expires"
    using cl by (auto simp: n i x split: if_splits)
  with that env e d enc sig n i x show thesis by blast
qed

lemma verify_and_consume_Inr:
  assumes "verify_and_consume sha verify me v c db = Inr (a, db')"
  obtains nonce issued expires where
    "read_receipt sha verify (vc_payload c) (vc_receipt c) (call_now c) = Inr (nonce, issued, expires)"
    "check_ledger_identity me v (vc_files c) = Inr ()" "issued \<le> call_claimed c" "call_claimed c < expires"
    "spend nonce (digest sha (vc_payload c)) (call_claimed c) expires db = Inr db'"
    "a = \<lparr>va_request = digest sha (vc_payload c), va_nonce = nonce, va_expires = expires\<rparr>"
proof -
  have c: "\<not> call_now c < 0" "\<not> (\<not> list_all (\<lambda>ch. char_code ch < 128) (vc_receipt c) \<or> MAX_RECEIPT < int (length (vc_receipt c)))"
    using assms by (auto simp: verify_and_consume_def split: if_splits)
  show thesis
  proof (cases "read_receipt sha verify (vc_payload c) (vc_receipt c) (call_now c)")
    case (Inl e)
    with assms c show ?thesis by (simp add: verify_and_consume_def)
  next
    case (Inr q)
    obtain nonce issued expires where q: "q = (nonce, issued, expires)" by (cases q) auto
    from assms c Inr q show ?thesis
      by (intro that [of nonce issued expires]) (auto simp: verify_and_consume_def split: if_splits sum.splits)
  qed
qed

definition consume_approval :: "(string \<Rightarrow> string) \<Rightarrow> (string \<Rightarrow> string \<Rightarrow> bool) \<Rightarrow> int \<Rightarrow> verifier \<Rightarrow> verify_call
    \<Rightarrow> ledger_row list \<Rightarrow> ledger_row list result" where
  "consume_approval sha verify me v c db = rbind (verify_and_consume sha verify me v c db) (\<lambda>(a, db'). Inr db')"

definition spent :: "ledger_row list \<Rightarrow> string set" where
  "spent db = lr_nonce ` set db"

lemma spend_Inr: "spend n d t x db = Inr db' \<Longrightarrow> n \<notin> spent db \<and> spent db' = insert n (spent db)"
  by (auto simp: spend_def spent_def split: if_splits)

interpretation approvals: expiring_use "consume_approval sha verify me v" "receipt_nonce sha verify" spent "owner_approved sha verify"
  for sha verify me v
proof
  fix c db db'
  assume "consume_approval sha verify me v c db = Inr db'"
  then obtain a where "verify_and_consume sha verify me v c db = Inr (a, db')" by (auto simp: consume_approval_def)
  then obtain nonce issued expires where
    r: "read_receipt sha verify (vc_payload c) (vc_receipt c) (call_now c) = Inr (nonce, issued, expires)"
    and w: "issued \<le> call_claimed c" "call_claimed c < expires"
    and s: "spend nonce (digest sha (vc_payload c)) (call_claimed c) expires db = Inr db'"
    by (elim verify_and_consume_Inr)
  have n: "receipt_nonce sha verify c = nonce" by (simp add: receipt_nonce_def r)
  from spend_Inr [OF s] n show "receipt_nonce sha verify c \<notin> spent db"
    "spent db' = insert (receipt_nonce sha verify c) (spent db)" by simp_all
  from r w show "owner_approved sha verify c"
    by (elim read_receipt_Inr) (simp add: owner_approved_def)
qed

text \<open>
  C22.  An owner approval is used at most once and only while it is valid: over any sequence of verification calls on
  one ledger, the calls that succeed have distinct nonces, none of them spent before, and each carried a receipt
  that the owner signed for exactly this request and whose window of at most 300 seconds contained
  the moment of the claim, however long the call had waited for the database lock.
\<close>

theorem approvals_single_use:
  assumes "accepted (consume_approval sha verify me v) calls db = (done_calls, db')"
  shows "distinct (map (receipt_nonce sha verify) done_calls)
    \<and> receipt_nonce sha verify ` set done_calls \<inter> spent db = {}
    \<and> spent db' = spent db \<union> receipt_nonce sha verify ` set done_calls
    \<and> list_all (owner_approved sha verify) done_calls"
  using approvals.accepted_once [OF assms] approvals.accepted_valid [OF assms] by (auto simp: list_all_iff)

section \<open>A fresh receipt is accepted\<close>

lemma sorted_claims:
  "sort_doc (approval_claims nonce issued expires request_digest) = PDict
     [(''audience'', PStr AUDIENCE), (''expires_at'', PInt expires), (''issued_at'', PInt issued), (''nonce'', PStr nonce),
      (''request_sha256'', PStr request_digest), (''version'', PInt 1)]"
  by (simp add: approval_claims_def)

lemma canonical_sorted_claims:
  "canonical (sort_doc (approval_claims nonce issued expires request_digest)) = canonical (approval_claims nonce issued expires request_digest)"
  unfolding canonical_def sorted_claims sort_doc.simps by (simp only: list.map fst_conv snd_conv sort_doc.simps) simp

definition receipt_doc :: "pyval \<Rightarrow> string \<Rightarrow> pyval" where
  "receipt_doc claims signature = PDict [(''claims'', claims), (''signature'', PStr signature)]"

lemma decode_receipt:
  assumes "nat \<bar>issued\<bar> < 10 ^ MAX_STR_DIGITS" and "nat \<bar>expires\<bar> < 10 ^ MAX_STR_DIGITS"
  shows "decode (canonical (receipt_doc (approval_claims nonce issued expires request_digest) signature))
    = Inr (receipt_doc (sort_doc (approval_claims nonce issued expires request_digest)) signature)"
proof -
  have "(1::nat) < 10 ^ MAX_STR_DIGITS" by (rule one_less_power) (simp_all add: MAX_STR_DIGITS_def)
  with assms have "doc_ok (receipt_doc (approval_claims nonce issued expires request_digest) signature)"
    by (simp add: receipt_doc_def approval_claims_def)
  from decode_canonical [OF this] show ?thesis by (simp add: receipt_doc_def)
qed

lemma issued_signature_ok:
  assumes "verify (sign (approval_message claims)) (approval_message claims)" and "length (sign (approval_message claims)) = 64"
    and "canonical claims' = canonical claims"
  shows "signature_ok verify claims' (url64_encode (bytes (sign (approval_message claims))))"
proof -
  have "length (bytes (sign (approval_message claims))) = 3 * 21 + 1" using assms(2) by (simp add: bytes_def)
  from url64_length [OF this] assms(1,3) show ?thesis
    by (simp add: signature_ok_def url64_roundtrip bytes_byte approval_message_def)
qed

lemma small_time: "0 \<le> t \<Longrightarrow> t < 10 ^ 18 + 300 \<Longrightarrow> nat \<bar>t\<bar> < 10 ^ MAX_STR_DIGITS"
proof -
  assume "0 \<le> t" "t < 10 ^ 18 + 300"
  then have "nat \<bar>t\<bar> < 10 ^ 19" by simp
  also have "(10::nat) ^ 19 \<le> 10 ^ MAX_STR_DIGITS" by (rule power_increasing) (simp_all add: MAX_STR_DIGITS_def)
  finally show ?thesis .
qed

lemma issued_ascii: "issue_git_approval sha sign payload now lifetime nonce = Inr r \<Longrightarrow> ascii r"
  by (auto simp: issue_git_approval_def Let_def canonical_def ascii_dump simp del: dump.simps sort_doc.simps split: if_splits)

lemma issued_receipt_read:
  assumes "\<And>m. verify (sign m) m" and "\<And>m. length (sign m) = 64"
    and iss: "issue_git_approval sha sign payload issued lifetime nonce = Inr receipt"
    and "issued < 10 ^ 18" and "issued \<le> now" and "now < issued + lifetime"
  shows "read_receipt sha verify payload receipt now = Inr (nonce, issued, issued + lifetime)"
proof -
  let ?claims = "approval_claims nonce issued (issued + lifetime) (digest sha payload)"
  let ?sig = "url64_encode (bytes (sign (approval_message ?claims)))"
  from iss have b: "1 \<le> lifetime" "lifetime \<le> 300" "0 \<le> issued" "nonce_ok nonce"
    and r: "receipt = canonical (receipt_doc ?claims ?sig)"
    by (auto simp: issue_git_approval_def Let_def receipt_doc_def MAX_LIFETIME_def split: if_splits)
  have n: "nat \<bar>issued\<bar> < 10 ^ MAX_STR_DIGITS" "nat \<bar>issued + lifetime\<bar> < 10 ^ MAX_STR_DIGITS"
    by (intro small_time; use b assms(4) in simp)+
  have dec: "decode receipt = Inr (receipt_doc (sort_doc ?claims) ?sig)" unfolding r using n by (rule decode_receipt)
  have sig: "signature_ok verify (sort_doc ?claims) ?sig"
    using assms(1,2) by (intro issued_signature_ok) (simp_all add: canonical_sorted_claims)
  show ?thesis
    using b assms(5,6) sig unfolding read_receipt_def dec sorted_claims receipt_doc_def
    by (simp add: dict_get_def field_names_def claim_fields_def check_claims_def MAX_LIFETIME_def insert_commute)
qed

text \<open>
  C23.  Every fresh approval can be used: a receipt the owner issues for a request is accepted by a verifier of the
  matching key at any time from its issue to its expiry, as long as its nonce is unspent and the ledger file is
  still the pinned one, and the claim appends exactly one row that names the request, the time and the expiry.
\<close>

theorem issued_receipt_accepted:
  assumes "\<And>m. verify (sign m) m" and "\<And>m. length (sign m) = 64"
    and "issue_git_approval sha sign (vc_payload c) issued lifetime nonce = Inr (vc_receipt c)"
    and "issued < 10 ^ 18" and "int (length (vc_receipt c)) \<le> MAX_RECEIPT"
    and "issued \<le> call_now c" and "call_now c < issued + lifetime"
    and "issued \<le> call_claimed c" and "call_claimed c < issued + lifetime"
    and "check_ledger_identity me v (vc_files c) = Inr ()" and "nonce \<notin> spent db"
  shows "verify_and_consume sha verify me v c db =
     Inr (\<lparr>va_request = digest sha (vc_payload c), va_nonce = nonce, va_expires = issued + lifetime\<rparr>,
       db @ [\<lparr>lr_nonce = nonce, lr_request = digest sha (vc_payload c), lr_claimed = call_claimed c, lr_expires = issued + lifetime\<rparr>])"
proof -
  have "read_receipt sha verify (vc_payload c) (vc_receipt c) (call_now c) = Inr (nonce, issued, issued + lifetime)"
    using assms by (intro issued_receipt_read) auto
  moreover have "0 \<le> issued" using assms(3) by (simp add: issue_git_approval_def Let_def split: if_splits)
  moreover have "list_all (\<lambda>ch. char_code ch < 128) (vc_receipt c)"
    using issued_ascii [OF assms(3)] by (simp add: ascii_def)
  ultimately show ?thesis using assms(5-11)
    by (simp add: verify_and_consume_def spend_def spent_def)
qed

lemma new_request_Inr: "new_request payload = Inr p \<Longrightarrow> p = payload"
  by (auto simp: new_request_def split: if_splits) (auto split: pyval.splits if_splits)

text \<open>
  C24.  A request is its payload: a document that is accepted as a request is stored as its canonical text, reading
  the text gives the document back with sorted keys, the document has the fields and the ranges the backends rely
  on, and two documents that give the same stored text, hence the same signed digest, are the same request.
\<close>

theorem request_roundtrip:
  assumes "from_payload v = Inr p" and "doc_ok v"
  shows "p = canonical v \<and> to_payload p = Inr (sort_doc v) \<and> int (length p) \<le> MAX_REQUEST
    \<and> (\<exists>d. sort_doc v = PDict d \<and> request_fields_ok d \<and> field_names d = set REQUEST_FIELDS)
    \<and> (\<forall>w. doc_ok w \<longrightarrow> from_payload w = Inr p \<longrightarrow> sort_doc w = sort_doc v)"
proof -
  have dec: "decode (canonical v) = Inr (sort_doc v)" using assms(2) by (rule decode_canonical)
  from assms(1) have size: "int (length (canonical v)) \<le> MAX_REQUEST"
    by (auto simp: from_payload_def new_request_def split: if_splits)
  have body: "(case sort_doc v of PDict d \<Rightarrow>
        if field_names d \<noteq> set REQUEST_FIELDS \<or> canonical (sort_doc v) \<noteq> canonical v then Inl ValueError
        else if unhashable (dict_get d ''operation'') then Inl TypeError
        else if request_fields_ok d then Inr (canonical v) else Inl ValueError
      | _ \<Rightarrow> Inl ValueError) = Inr p"
    using assms(1) size by (simp add: from_payload_def new_request_def dec)
  then obtain d where d: "sort_doc v = PDict d" by (cases "sort_doc v") simp_all
  with body have p: "p = canonical v" and ok: "request_fields_ok d" "field_names d = set REQUEST_FIELDS"
    by (auto split: if_splits)
  have "sort_doc w = sort_doc v" if "doc_ok w" "from_payload w = Inr p" for w
  proof -
    from that(2) have "p = canonical w" unfolding from_payload_def by (rule new_request_Inr)
    with p that(1) assms(2) show ?thesis by (intro canonical_inj) simp_all
  qed
  with p ok d dec size show ?thesis by (simp add: to_payload_def)
qed

section \<open>Witnesses\<close>

definition demo_sha :: "string \<Rightarrow> string" where
  "demo_sha x = replicate 64 (CHR ''5'')"

definition demo_sign :: "string \<Rightarrow> string" where
  "demo_sign m = replicate 64 (CHR 0x07)"

definition demo_verify :: "string \<Rightarrow> string \<Rightarrow> bool" where
  "demo_verify signature m \<longleftrightarrow> signature = demo_sign m"

definition demo_request :: pyval where
  "demo_request = PDict [(''operation'', PStr ''commit''), (''workspace_id'', PStr ''w''), (''repository_path'', PStr ''/srv/w''),
     (''repository_device'', PInt 1), (''repository_inode'', PInt 2), (''expected_head'', PNone),
     (''expected_tree'', PStr (replicate 40 (CHR ''a''))), (''branch'', PStr ''refs/heads/main''), (''parameters'', PDict [])]"

definition demo_private :: "file_type \<Rightarrow> int \<Rightarrow> stat" where
  "demo_private ty ino = \<lparr>st_type = ty, st_mode = 448, st_uid = 7, st_gid = 7, st_dev = 1, st_ino = ino, st_nlink = 1,
     st_size = 0, st_mtime_ns = 0, st_ctime_ns = 0\<rparr>"

definition demo_ledger :: ledger_files where
  "demo_ledger = \<lparr>lf_ancestors = [Some (demo_private Directory 5)], lf_ledger = Some (demo_private Regular 6),
     lf_sidecars = [None, None, None]\<rparr>"

definition demo_verifier :: verifier where
  "demo_verifier = \<lparr>vf_parent = (1, 5), vf_ledger = (1, 6)\<rparr>"

definition demo_nonce :: string where
  "demo_nonce = replicate 32 (CHR ''0'')"

definition demo_receipt :: string where
  "demo_receipt = (case issue_git_approval demo_sha demo_sign (canonical demo_request) 1000 300 demo_nonce of
     Inl _ \<Rightarrow> [] | Inr r \<Rightarrow> r)"

definition demo_call :: verify_call where
  "demo_call = \<lparr>vc_receipt = demo_receipt, vc_payload = canonical demo_request, vc_now = None, vc_start = 1001, vc_locked = 1200,
     vc_files = demo_ledger\<rparr>"

definition demo_row :: ledger_row where
  "demo_row = \<lparr>lr_nonce = demo_nonce, lr_request = demo_sha [], lr_claimed = 1200, lr_expires = 1300\<rparr>"

lemma demo_issue:
  "issue_git_approval demo_sha demo_sign (vc_payload demo_call) 1000 300 demo_nonce = Inr (vc_receipt demo_call)"
proof -
  have "\<not> isl r \<Longrightarrow> r = Inr (case r of Inl _ \<Rightarrow> [] | Inr x \<Rightarrow> x)" for r :: "string result" by (cases r) simp_all
  moreover have "\<not> isl (issue_git_approval demo_sha demo_sign (vc_payload demo_call) 1000 300 demo_nonce)" by code_simp
  moreover have "vc_receipt demo_call = (case issue_git_approval demo_sha demo_sign (vc_payload demo_call) 1000 300 demo_nonce of
      Inl _ \<Rightarrow> [] | Inr x \<Rightarrow> x)" by (simp only: demo_call_def demo_receipt_def verify_call.simps)
  ultimately show ?thesis by metis
qed

lemma demo_call_facts:
  "int (length (vc_receipt demo_call)) \<le> MAX_RECEIPT"
  "check_ledger_identity 7 demo_verifier (vc_files demo_call) = Inr ()"
  "list_all (\<lambda>ch. char_code ch < 128) (vc_receipt demo_call)"
proof -
  show "int (length (vc_receipt demo_call)) \<le> MAX_RECEIPT" "check_ledger_identity 7 demo_verifier (vc_files demo_call) = Inr ()"
    by code_simp+
  show "list_all (\<lambda>ch. char_code ch < 128) (vc_receipt demo_call)" using issued_ascii [OF demo_issue] by (simp add: ascii_def)
qed

lemma demo_times: "call_now demo_call = 1001" "call_claimed demo_call = 1200"
  by (simp_all add: call_now_def call_claimed_def demo_call_def)

lemma demo_request_accepted: "from_payload demo_request = Inr (canonical demo_request)" "doc_ok demo_request"
proof -
  have "int (length (canonical demo_request)) \<le> MAX_REQUEST" "request_fields_ok (case sort_doc demo_request of PDict d \<Rightarrow> d | _ \<Rightarrow> [])"
    by code_simp+
  moreover show ok: "doc_ok demo_request" using small_time [of 1] small_time [of 2] by (simp add: demo_request_def)
  moreover have "canonical (sort_doc demo_request) = canonical demo_request"
    by (simp add: canonical_def demo_request_def)
  ultimately show "from_payload demo_request = Inr (canonical demo_request)"
    by (simp add: from_payload_def new_request_def decode_canonical field_names_def REQUEST_FIELDS_def demo_request_def
        unhashable_def dict_get_def insert_commute)
qed

theorem issued_receipt_accepted_witness:
  "verify_and_consume demo_sha demo_verify 7 demo_verifier demo_call []
     = Inr (\<lparr>va_request = demo_sha [], va_nonce = demo_nonce, va_expires = 1300\<rparr>, [demo_row])"
proof -
  have "verify_and_consume demo_sha demo_verify 7 demo_verifier demo_call [] =
     Inr (\<lparr>va_request = digest demo_sha (vc_payload demo_call), va_nonce = demo_nonce, va_expires = 1000 + 300\<rparr>,
       [] @ [\<lparr>lr_nonce = demo_nonce, lr_request = digest demo_sha (vc_payload demo_call), lr_claimed = call_claimed demo_call,
         lr_expires = 1000 + 300\<rparr>])"
    by (rule issued_receipt_accepted [OF _ _ demo_issue], simp_all add: demo_verify_def demo_call_facts demo_times spent_def)
      (simp_all add: demo_sign_def)
  then show ?thesis by (simp add: digest_def demo_sha_def demo_row_def call_claimed_def demo_call_def)
qed

lemma demo_run:
  "accepted (consume_approval demo_sha demo_verify 7 demo_verifier) [demo_call, demo_call] [] = ([demo_call], [demo_row])"
proof -
  have "read_receipt demo_sha demo_verify (vc_payload demo_call) (vc_receipt demo_call) 1001 = Inr (demo_nonce, 1000, 1000 + 300)"
    by (rule issued_receipt_read [OF _ _ demo_issue]) (simp_all add: demo_verify_def demo_sign_def)
  then show ?thesis using demo_call_facts
    by (simp add: consume_approval_def verify_and_consume_def demo_times spend_def demo_row_def digest_def demo_sha_def)
qed

theorem approvals_single_use_witness:
  "receipt_nonce demo_sha demo_verify ` set [demo_call] = spent [demo_row] \<and> owner_approved demo_sha demo_verify demo_call"
  using approvals_single_use [OF demo_run] by (simp add: spent_def)

theorem request_roundtrip_witness:
  "to_payload (canonical demo_request) = Inr (sort_doc demo_request) \<and> int (length (canonical demo_request)) \<le> MAX_REQUEST"
  using request_roundtrip [OF demo_request_accepted] by blast

end
