(* ===== verification/Git_Remotes.thy ===== *)
theory Git_Remotes
  imports Git_Approvals Git_Wire Registry
begin

text \<open>
  \<open>git_policy.py\<close>, \<open>git_remote_policy.py\<close> and \<open>git_authorizations.py\<close>: the owner-installed Git authority, the grants it
  holds and the two ways of claiming an operation on the approval ledger.  File-system facts (a resolved
  directory, the components a selection opens, mount ids) are the results of the system calls.  The text of a
  policy file is its decoded text.
\<close>

section \<open>Protected policy files\<close>

definition policy_limit :: "string \<Rightarrow> int" where
  "policy_limit name = (if name = ''git-remote-policy.json'' then 262144 else 65536)"

text \<open>\<open>_read_named_policy\<close>: \<open>steps\<close> is the walk to the control directory, \<open>file\<close> what opening the name finds.\<close>

definition read_named_policy :: "int \<Rightarrow> string \<Rightarrow> stat \<Rightarrow> dir_open list \<Rightarrow> string lookup \<Rightarrow> string option result" where
  "read_named_policy me name root steps file =
     (if name \<notin> {''git-commit-policy.json'', ''git-remote-policy.json''} then Inl ValueError
      else rbind (trusted_walk me root steps) (\<lambda>dir. case dir of
          None \<Rightarrow> Inr None
        | Some _ \<Rightarrow> (case file of
              Missing \<Rightarrow> Inr None
            | IsLink \<Rightarrow> Inl OSError
            | Found s raw \<Rightarrow>
                if st_type s \<noteq> Regular \<or> st_nlink s \<noteq> 1 \<or> \<not> owner_or_root me s \<or> shared_write s
                   \<or> (st_uid s \<noteq> 0 \<and> open_to_others s) \<or> policy_limit name < st_size s then Inl PermissionError
                else if policy_limit name < int (length raw) then Inl PermissionError
                else Inr (Some raw))))"

section \<open>Selected repositories\<close>

definition require_public_path :: "string \<Rightarrow> unit result" where
  "require_public_path p =
     (if hd (path_parts p) = ''.venv'' then Inl UnsafeDelta
      else (case check_sensitive_components p of Inl _ \<Rightarrow> Inl UnsafeDelta | Inr _ \<Rightarrow> Inr ()))"

definition location_char :: "char \<Rightarrow> bool" where
  "location_char c \<longleftrightarrow> is_alnum c \<or> c \<in> set ''._/-''"

definition repository_relative :: "pyval \<Rightarrow> string result" where
  "repository_relative v = (case v of
       PStr s \<Rightarrow>
         if s = ''.'' then Inr s
         else if s = [] \<or> \<not> class_match location_char 1 256 s \<or> starts_with ''/'' s \<or> pure_str s \<noteq> s
                \<or> list_ex (\<lambda>w. w \<in> {[], ''.'', ''..''}) (split_on sep s) then Inl PermissionError
         else rbind (require_public_path s) (\<lambda>_. Inr s)
     | _ \<Rightarrow> Inl PermissionError)"

text \<open>
  The no-follow walk from a workspace to a selected repository: each component is opened in the directory before
  it and must stay on the mount of the workspace descriptor.
\<close>

type_synonym selection_step = "dir_open \<times> int"

fun walk_selected :: "int \<Rightarrow> stat \<Rightarrow> selection_step list \<Rightarrow> stat result" where
  "walk_selected mount cur [] = Inr cur"
| "walk_selected mount cur ((found, m) # steps) = (case found of
       Gone \<Rightarrow> Inl FileNotFoundError
     | Refused \<Rightarrow> Inl OSError
     | Opened s \<Rightarrow> if m \<noteq> mount then Inl PermissionError else walk_selected mount s steps)"

record workspace_root =
  wr_path :: string
  wr_info :: stat          \<comment> \<open>\<open>stat\<close> of the resolved path\<close>
  wr_pinned :: stat        \<comment> \<open>\<open>fstat\<close> of the descriptor opened for it\<close>
  wr_start :: stat         \<comment> \<open>the same directory, or the projection opened over it for another owner\<close>
  wr_mount :: int

definition selected_repository :: "workspace_root \<Rightarrow> pyval \<Rightarrow> selection_step list \<Rightarrow> stat result" where
  "selected_repository w relative steps =
     rbind (repository_relative relative) (\<lambda>_.
       if identity (wr_pinned w) \<noteq> identity (wr_info w) then Inl PermissionError
       else walk_selected (wr_mount w) (wr_start w) steps)"

fun walk_clone :: "int \<Rightarrow> selection_step list \<Rightarrow> bool result" where
  "walk_clone mount [] = Inr True"
| "walk_clone mount ((found, m) # steps) = (case found of
       Gone \<Rightarrow> Inr False
     | Refused \<Rightarrow> Inl OSError
     | Opened s \<Rightarrow> if m \<noteq> mount then Inl PermissionError else walk_clone mount steps)"

text \<open>\<open>validate_clone_target\<close>: absent, or (when it must be) empty; \<open>entries\<close> lists an existing target.\<close>

definition validate_clone_target :: "workspace_root \<Rightarrow> pyval \<Rightarrow> selection_step list \<Rightarrow> string list \<Rightarrow> bool \<Rightarrow> unit result" where
  "validate_clone_target w relative steps entries require_empty =
     rbind (repository_relative relative) (\<lambda>rel.
       if rel = ''.'' then Inl PermissionError
       else rbind (selected_repository w (PStr ''.'') []) (\<lambda>_.
         rbind (walk_clone (wr_mount w) steps) (\<lambda>exists.
           require (\<not> (exists \<and> require_empty \<and> entries \<noteq> [])) PermissionError)))"

section \<open>The world the authority is checked against\<close>

record git_world =
  gw_fs :: host_fs
  gw_registry :: registry
  gw_root :: "string \<Rightarrow> workspace_root option"                       \<comment> \<open>\<open>resolve(strict=True)\<close> and \<open>stat\<close> of a path\<close>
  gw_steps :: "string \<Rightarrow> string \<Rightarrow> selection_step list"              \<comment> \<open>path, relative location\<close>
  gw_entries :: "string \<Rightarrow> string \<Rightarrow> string list"

definition strict_root :: "git_world \<Rightarrow> string \<Rightarrow> workspace_root result" where
  "strict_root w path = (case gw_root w path of None \<Rightarrow> Inl FileNotFoundError | Some r \<Rightarrow> Inr r)"

type_synonym root_identity = "string \<times> int \<times> int"

definition root_identity :: "workspace_root \<Rightarrow> root_identity" where
  "root_identity r = (wr_path r, st_dev (wr_info r), st_ino (wr_info r))"

text \<open>\<open>_separation\<close>: no exposed workspace contains a trusted path; all paths are resolved component lists.\<close>

definition separation :: "git_world \<Rightarrow> string list list \<Rightarrow> string list list result" where
  "separation w trusted =
     (let roots = map (\<lambda>e. realpath_comps (gw_fs w) (ws_path (snd e))) (gw_registry w) in
      if list_ex (\<lambda>root. list_ex (starts_with root) trusted) roots then Inl PermissionError else Inr roots)"

section \<open>Loading the remote authority\<close>

record remote_grant =
  gr_workspace :: string
  gr_remote :: string
  gr_url :: string
  gr_ref :: string
  gr_operations :: "string list"
  gr_credential :: "string option"
  gr_username :: string
  gr_repository :: string

record remotes =
  rm_digest :: string
  rm_grants :: "remote_grant list"
  rm_identities :: "(string \<times> root_identity) list"
  rm_trusted :: "string list list"
  rm_mode :: string
  rm_legacy :: "string option"

definition REMOTE_OPERATIONS :: "string list" where
  "REMOTE_OPERATIONS = [''fetch'', ''pull'', ''push'', ''clone'']"

definition GRANT_FIELDS :: "string list" where
  "GRANT_FIELDS = [''workspace_id'', ''remote_id'', ''url'', ''ref'', ''operations'', ''credential_file'', ''username'']"

definition id_char :: "char \<Rightarrow> bool" where
  "id_char c \<longleftrightarrow> is_alnum c \<or> c \<in> set ''_-''"

definition ident_ok :: "pyval \<Rightarrow> bool" where
  "ident_ok v \<longleftrightarrow> is_pstr v \<and> class_match id_char 1 128 (the_str v)"

definition owner_path :: "pyval \<Rightarrow> string result" where
  "owner_path v = (if is_pstr v \<and> canonical_abs (the_str v) then Inr (the_str v) else Inl PermissionError)"

definition operations_of :: "string \<Rightarrow> pyval \<Rightarrow> string list result" where
  "operations_of mode v = (case v of
       PList xs \<Rightarrow>
         if mode = ''workspace'' \<and> PStr ''push'' \<in> set xs then Inl PermissionError
         else if xs = [] \<or> \<not> list_all is_pstr xs \<or> \<not> list_all (\<lambda>x. the_str x \<in> set REMOTE_OPERATIONS) xs
                 \<or> \<not> distinct (map the_str xs) then Inl ValueError
         else Inr (map the_str xs)
     | _ \<Rightarrow> Inl ValueError)"

text \<open>\<open>_ref\<close> on a text of code points rather than its UTF-8 bytes.\<close>

definition branch_text :: "string \<Rightarrow> bool" where
  "branch_text name \<longleftrightarrow> utf8_len name \<le> 1024 \<and> Git_Wire.ref_ok True name"

definition get_default :: "pydict \<Rightarrow> string \<Rightarrow> pyval \<Rightarrow> pyval" where
  "get_default d k v = (case map_of d k of None \<Rightarrow> v | Some x \<Rightarrow> x)"

definition grant_schema :: "pydict \<Rightarrow> bool" where
  "grant_schema e \<longleftrightarrow> field_names e = set GRANT_FIELDS \<or> field_names e = insert ''repository'' (set GRANT_FIELDS)"

text \<open>The fields of a grant that do not need the world, in the order of the loop body.\<close>

definition parse_grant :: "string \<Rightarrow> pyval \<Rightarrow> remote_grant result" where
  "parse_grant mode entry = (case entry of
       PDict e \<Rightarrow>
         if \<not> grant_schema e then Inl ValueError
         else if \<not> ident_ok (dict_get e ''workspace_id'') \<or> \<not> ident_ok (dict_get e ''remote_id'') then Inl ValueError
         else if \<not> (is_pstr (dict_get e ''ref'') \<and> branch_text (the_str (dict_get e ''ref''))) then Inl ValueError
         else rbind (operations_of mode (dict_get e ''operations'')) (\<lambda>ops.
           rbind (repository_relative (get_default e ''repository'' (PStr ''.''))) (\<lambda>rel.
           rbind (if is_pstr (dict_get e ''url'') then rbind (Git_Wire.remote_parts (the_str (dict_get e ''url''))) (\<lambda>_. Inr ())
                  else Inl ValueError) (\<lambda>_.
           rbind (if dict_get e ''credential_file'' = PNone then Inr None
                  else rbind (owner_path (dict_get e ''credential_file'')) (\<lambda>p. Inr (Some p))) (\<lambda>cred.
           if \<not> is_pstr (dict_get e ''username'') then Inl TypeError
           else if \<not> class_match Git_Wire.path_char 1 128 (the_str (dict_get e ''username'')) then Inl ValueError
           else Inr \<lparr>gr_workspace = the_str (dict_get e ''workspace_id''), gr_remote = the_str (dict_get e ''remote_id''),
                gr_url = the_str (dict_get e ''url''), gr_ref = the_str (dict_get e ''ref''), gr_operations = ops,
                gr_credential = cred, gr_username = the_str (dict_get e ''username''), gr_repository = rel\<rparr>))))
     | _ \<Rightarrow> Inl ValueError)"

definition grant_key :: "remote_grant \<Rightarrow> string \<times> string \<times> string \<times> string" where
  "grant_key g = (gr_workspace g, gr_repository g, gr_remote g, gr_ref g)"

definition remote_key :: "remote_grant \<Rightarrow> string \<times> string \<times> string" where
  "remote_key g = (gr_workspace g, gr_repository g, gr_remote g)"

definition endpoint :: "remote_grant \<Rightarrow> string \<times> string option \<times> string" where
  "endpoint g = (gr_url g, gr_credential g, gr_username g)"

text \<open>One grant against those before it and the world: its workspace identity.\<close>

definition check_grant :: "git_world \<Rightarrow> remote_grant list \<Rightarrow> remote_grant \<Rightarrow> root_identity result" where
  "check_grant w before_it g =
     (if grant_key g \<in> grant_key ` set before_it then Inl ValueError
      else if list_ex (\<lambda>h. remote_key h = remote_key g \<and> endpoint h \<noteq> endpoint g) before_it then Inl ValueError
      else rbind (Registry.get (gw_registry w) (gr_workspace g)) (\<lambda>ws.
        if \<not> writable ws \<or> \<not> allow_git ws then Inl ValueError
        else rbind (strict_root w (ws_path ws)) (\<lambda>root.
          rbind (if ''clone'' \<in> set (gr_operations g)
              then validate_clone_target root (PStr (gr_repository g)) (gw_steps w (wr_path root) (gr_repository g))
                (gw_entries w (wr_path root) (gr_repository g)) False
              else rbind (selected_repository root (PStr (gr_repository g)) (gw_steps w (wr_path root) (gr_repository g))) (\<lambda>_. Inr ())) (\<lambda>_.
            if gr_repository g \<noteq> ''.'' \<and> ''push'' \<in> set (gr_operations g) then Inl PermissionError
            else Inr (root_identity root)))))"

fun load_grants :: "git_world \<Rightarrow> string \<Rightarrow> remote_grant list \<Rightarrow> (string \<times> root_identity) list \<Rightarrow> pyval list
    \<Rightarrow> (remote_grant list \<times> (string \<times> root_identity) list) result" where
  "load_grants w mode grants ids [] = Inr (grants, ids)"
| "load_grants w mode grants ids (entry # entries) =
     rbind (parse_grant mode entry) (\<lambda>g.
     rbind (check_grant w grants g) (\<lambda>i.
       load_grants w mode (grants @ [g]) (dict_set (gr_workspace g) i ids) entries))"

definition hex64 :: "pyval \<Rightarrow> bool" where
  "hex64 v \<longleftrightarrow> is_pstr v \<and> class_match is_hex 64 64 (the_str v)"

definition REMOTE_POLICY_FIELDS :: "string list" where
  "REMOTE_POLICY_FIELDS = [''version'', ''verification_key'', ''ledger_path'', ''grants'']"

definition remote_schema :: "pydict \<Rightarrow> bool" where
  "remote_schema d \<longleftrightarrow> (let f = set REMOTE_POLICY_FIELDS in
     field_names d \<in> {f, insert ''authorization_mode'' f, insert ''legacy_policy_sha256'' (insert ''authorization_mode'' f)})
     \<and> dict_get d ''version'' = PInt 1 \<and> hex64 (dict_get d ''verification_key'')"

definition load_document :: "(string \<Rightarrow> string) \<Rightarrow> git_world \<Rightarrow> string list \<Rightarrow> string \<Rightarrow> pyval \<Rightarrow> remotes result" where
  "load_document sha w own raw doc = (case doc of
       PDict d \<Rightarrow>
         if \<not> remote_schema d then Inl ValueError
         else (let mode = get_default d ''authorization_mode'' (PStr ''owner_signature''); legacy = dict_get d ''legacy_policy_sha256'' in
           if mode \<noteq> PStr ''owner_signature'' \<and> mode \<noteq> PStr ''workspace'' then Inl ValueError
           else if legacy \<noteq> PNone \<and> (mode \<noteq> PStr ''workspace'' \<or> \<not> hex64 legacy) then Inl ValueError
           else rbind (owner_path (dict_get d ''ledger_path'')) (\<lambda>ledger.
             case dict_get d ''grants'' of
               PList entries \<Rightarrow>
                 if \<not> (1 \<le> length entries \<and> int (length entries) \<le> 512) then Inl ValueError
                 else rbind (load_grants w (the_str mode) [] [] entries) (\<lambda>(grants, ids).
                   let trusted = map (realpath_comps (gw_fs w)) (own @ [ledger] @ List.map_filter gr_credential grants) in
                   rbind (separation w trusted) (\<lambda>_.
                     Inr \<lparr>rm_digest = sha raw, rm_grants = grants, rm_identities = ids, rm_trusted = trusted, rm_mode = the_str mode,
                       rm_legacy = (if is_pstr legacy then Some (the_str legacy) else None)\<rparr>))
             | _ \<Rightarrow> Inl ValueError))
     | _ \<Rightarrow> Inl ValueError)"

definition denies :: "py_error \<Rightarrow> bool" where
  "denies e \<longleftrightarrow> e \<in> {ValueError, TypeError, KeyError}"

text \<open>
  \<open>load_owner_git_remotes\<close> after the policy text is read; \<open>own\<close> are the control, state and program directories
  and \<open>opened\<close> is what opening the existing ledger yields.
\<close>

definition load_owner_git_remotes :: "(string \<Rightarrow> string) \<Rightarrow> git_world \<Rightarrow> string list \<Rightarrow> string option
    \<Rightarrow> (verifier \<times> ledger_row list) result \<Rightarrow> (remotes \<times> verifier) option result" where
  "load_owner_git_remotes sha w own raw opened = (case raw of
       None \<Rightarrow> Inr None
     | Some r \<Rightarrow>
         (case rbind (decode r) (\<lambda>doc. rbind (load_document sha w own r doc) (\<lambda>rm. rbind opened (\<lambda>(v, _). Inr (rm, v)))) of
            Inl e \<Rightarrow> Inl (if denies e then PermissionError else e)
          | Inr x \<Rightarrow> Inr (Some x)))"

section \<open>Using the remote authority\<close>

definition accepts_policy_sha256 :: "remotes \<Rightarrow> string \<Rightarrow> bool \<Rightarrow> bool" where
  "accepts_policy_sha256 rm v legacy \<longleftrightarrow> v = rm_digest rm \<or> (legacy \<and> rm_mode rm = ''workspace'' \<and> rm_legacy rm = Some v)"

definition same_workspace :: "git_world \<Rightarrow> string \<times> root_identity \<Rightarrow> unit result" where
  "same_workspace w entry =
     rbind (Registry.get (gw_registry w) (fst entry)) (\<lambda>ws.
     rbind (strict_root w (ws_path ws)) (\<lambda>root.
       require (writable ws \<and> allow_git ws \<and> root_identity root = snd entry) PermissionError))"

text \<open>\<open>catalog\<close>; \<open>current\<close> is the policy text read again.\<close>

definition catalog :: "(string \<Rightarrow> string) \<Rightarrow> remotes \<Rightarrow> git_world \<Rightarrow> string option \<Rightarrow> remote_grant list result" where
  "catalog sha rm w current =
     (if map_option sha current \<noteq> Some (rm_digest rm) then Inl PermissionError
      else rbind (separation w (rm_trusted rm)) (\<lambda>_.
        rbind (rcheck_list (same_workspace w) (rm_identities rm)) (\<lambda>_. Inr (rm_grants rm))))"

definition grant_matches :: "remote_grant \<Rightarrow> string \<Rightarrow> string \<Rightarrow> string \<Rightarrow> string \<Rightarrow> bool" where
  "grant_matches g workspace_id remote_id ref operation \<longleftrightarrow>
     gr_workspace g = workspace_id \<and> gr_remote g = remote_id \<and> gr_ref g = ref \<and> operation \<in> set (gr_operations g)"

definition matching_grants :: "remotes \<Rightarrow> string \<Rightarrow> string \<Rightarrow> string \<Rightarrow> string \<Rightarrow> string option \<Rightarrow> remote_grant list" where
  "matching_grants rm workspace_id remote_id ref operation repository =
     (let exact = filter (\<lambda>g. grant_matches g workspace_id remote_id ref operation
            \<and> (case repository of None \<Rightarrow> True | Some r \<Rightarrow> gr_repository g = r)) (rm_grants rm)
      in if repository = None \<and> 1 < length exact then filter (\<lambda>g. gr_repository g = ''.'') exact else exact)"

definition INBOUND :: "string list" where
  "INBOUND = [''fetch'', ''pull'', ''clone'']"

text \<open>
  \<open>authorize\<close>: \<open>repository\<close> is \<open>None\<close> when the caller names none.  A location that no grant can have is looked
  at only when there is a grant to compare it with.
\<close>

definition asked_location :: "remotes \<Rightarrow> string \<Rightarrow> string \<Rightarrow> string \<Rightarrow> string \<Rightarrow> pyval option \<Rightarrow> string option result" where
  "asked_location rm workspace_id remote_id ref operation repository = (case repository of
       None \<Rightarrow> Inr None
     | Some r \<Rightarrow> if \<not> list_ex (\<lambda>g. grant_matches g workspace_id remote_id ref operation) (rm_grants rm) then Inr None
         else rbind (repository_relative r) (\<lambda>p. Inr (Some p)))"

definition authorize_remote :: "(string \<Rightarrow> string) \<Rightarrow> remotes \<Rightarrow> git_world \<Rightarrow> string option \<Rightarrow> string \<Rightarrow> string \<Rightarrow> string \<Rightarrow> string
    \<Rightarrow> pyval option \<Rightarrow> (remote_grant \<times> Git_Wire.transport) result" where
  "authorize_remote sha rm w current workspace_id remote_id ref operation repository =
     rbind (catalog sha rm w current) (\<lambda>_.
       if rm_mode rm = ''workspace'' \<and> operation \<notin> set INBOUND then Inl PermissionError
       else rbind (separation w (rm_trusted rm)) (\<lambda>roots.
         rbind (asked_location rm workspace_id remote_id ref operation repository) (\<lambda>rel. (case matching_grants rm workspace_id remote_id ref operation rel of
           [g] \<Rightarrow>
             rbind (Registry.get (gw_registry w) workspace_id) (\<lambda>ws.
             rbind (strict_root w (ws_path ws)) (\<lambda>root.
               if \<not> writable ws \<or> \<not> allow_git ws \<or> map_of (rm_identities rm) workspace_id \<noteq> Some (root_identity root) then Inl PermissionError
               else rbind (if operation = ''clone''
                   then validate_clone_target root (PStr (gr_repository g)) (gw_steps w (wr_path root) (gr_repository g))
                     (gw_entries w (wr_path root) (gr_repository g)) True
                   else rbind (selected_repository root (PStr (gr_repository g)) (gw_steps w (wr_path root) (gr_repository g))) (\<lambda>_. Inr ())) (\<lambda>_.
                 rbind (Git_Wire.new_transport (gw_fs w) (gr_url g) (gr_credential g) (gr_username g) (map to_path roots)) (\<lambda>t.
                   Inr (g, t)))))
         | _ \<Rightarrow> Inl PermissionError))))"

section \<open>Local claims\<close>

text \<open>Python equality of a JSON number or truth value with an integer.\<close>

definition eq_int :: "pyval \<Rightarrow> int \<Rightarrow> bool" where
  "eq_int v n = (case v of PInt i \<Rightarrow> i = n | PBool b \<Rightarrow> n = (if b then 1 else 0) | _ \<Rightarrow> False)"

definition names_root :: "pyval \<Rightarrow> workspace_root \<Rightarrow> bool" where
  "names_root v root = (case v of
       PDict e \<Rightarrow> field_names e = {''path'', ''device'', ''inode''} \<and> dict_get e ''path'' = PStr (wr_path root)
         \<and> eq_int (dict_get e ''device'') (st_dev (wr_info root)) \<and> eq_int (dict_get e ''inode'') (st_ino (wr_info root))
     | _ \<Rightarrow> False)"

definition inside :: "string \<Rightarrow> string \<Rightarrow> string" where
  "inside root rel = (if rel = ''.'' then root else path_join root rel)"

definition fields_of :: "pyval \<Rightarrow> pydict" where
  "fields_of v = (case v of PDict d \<Rightarrow> d | _ \<Rightarrow> [])"

text \<open>\<open>validate_workspace_request\<close> on a stored request; \<open>p\<close> are its fields and \<open>v\<close> its parameters.\<close>

definition exact_grants :: "remote_grant list \<Rightarrow> pydict \<Rightarrow> pydict \<Rightarrow> string \<Rightarrow> remote_grant list" where
  "exact_grants grants p v relative =
     filter (\<lambda>g. PStr (gr_workspace g) = dict_get p ''workspace_id'' \<and> gr_repository g = relative
       \<and> PStr (gr_remote g) = dict_get v ''remote_id'' \<and> PStr (gr_ref g) = dict_get v ''remote_ref''
       \<and> the_str (dict_get p ''operation'') \<in> set (gr_operations g) \<and> PStr (gr_url g) = dict_get v ''remote_url'') grants"

definition validate_scope :: "(string \<Rightarrow> string) \<Rightarrow> remotes \<Rightarrow> git_world \<Rightarrow> string option \<Rightarrow> pydict \<Rightarrow> unit result" where
  "validate_scope sha rm w current p =
     (let v = fields_of (dict_get p ''parameters''); operation = the_str (dict_get p ''operation'') in
      if operation \<notin> set INBOUND \<or> dict_get v ''policy_sha256'' \<noteq> PStr (rm_digest rm) then Inl PermissionError
      else rbind (repository_relative (get_default v (if operation = ''clone'' then ''repository'' else ''repository_relative'') (PStr ''.''))) (\<lambda>relative.
        rbind (catalog sha rm w current) (\<lambda>grants.
          if length (exact_grants grants p v relative) \<noteq> 1 then Inl PermissionError
          else rbind (Registry.get (gw_registry w) (the_str (dict_get p ''workspace_id''))) (\<lambda>ws.
            rbind (strict_root w (ws_path ws)) (\<lambda>root.
              if dict_get p ''repository_path'' \<noteq> PStr (if operation = ''clone'' then wr_path root else inside (wr_path root) relative)
              then Inl PermissionError
              else rbind (if operation = ''clone'' then Inr (wr_info root)
                  else selected_repository root (PStr relative) (gw_steps w (wr_path root) relative)) (\<lambda>actual.
                if dict_get p ''repository_device'' \<noteq> PInt (st_dev actual) \<or> dict_get p ''repository_inode'' \<noteq> PInt (st_ino actual)
                then Inl PermissionError
                else if relative \<noteq> ''.'' \<and> operation \<noteq> ''clone'' \<and> \<not> names_root (dict_get v ''workspace_identity'') root
                then Inl PermissionError
                else Inr ()))))))"

definition validate_workspace_request :: "(string \<Rightarrow> string) \<Rightarrow> remotes \<Rightarrow> git_world \<Rightarrow> string option \<Rightarrow> string \<Rightarrow> unit result" where
  "validate_workspace_request sha rm w current payload =
     (if rm_mode rm \<noteq> ''workspace'' then Inl PermissionError
      else rbind (decode payload) (\<lambda>doc. validate_scope sha rm w current (fields_of doc)))"

text \<open>
  \<open>claim\<close>: an owner receipt in the signature mode, a server-made operation id in the workspace mode.  The world
  may have changed by the time the database lock is held (\<open>cl_locked\<close>).
\<close>

record claim_call =
  cl_verify :: verify_call                      \<comment> \<open>receipt, payload, clocks and ledger files\<close>
  cl_nonce :: string                            \<comment> \<open>given, or from \<open>secrets\<close>\<close>
  cl_first :: "git_world \<times> string option"
  cl_locked :: "git_world \<times> string option"
  cl_files_locked :: ledger_files

definition claim :: "(string \<Rightarrow> string) \<Rightarrow> (string \<Rightarrow> string \<Rightarrow> bool) \<Rightarrow> int \<Rightarrow> verifier \<Rightarrow> remotes \<Rightarrow> claim_call
    \<Rightarrow> ledger_row list \<Rightarrow> (approval \<times> ledger_row list) result" where
  "claim sha verify me vf rm c db =
     (let payload = vc_payload (cl_verify c) in
      if rm_mode rm \<noteq> ''workspace'' then verify_and_consume sha verify me vf (cl_verify c) db
      else if vc_receipt (cl_verify c) \<noteq> [] then Inl ValueError
      else rbind (validate_workspace_request sha rm (fst (cl_first c)) (snd (cl_first c)) payload) (\<lambda>_.
        if \<not> nonce_ok (cl_nonce c) then Inl PermissionError
        else rbind (check_ledger_identity me vf (vc_files (cl_verify c))) (\<lambda>_.
          rbind (check_ledger_identity me vf (cl_files_locked c)) (\<lambda>_.
          rbind (validate_workspace_request sha rm (fst (cl_locked c)) (snd (cl_locked c)) payload) (\<lambda>_.
            case spend (cl_nonce c) (digest sha payload) (vc_locked (cl_verify c)) 0 db of
              Inl _ \<Rightarrow> Inl PermissionError
            | Inr db' \<Rightarrow> Inr (\<lparr>va_request = digest sha payload, va_nonce = cl_nonce c, va_expires = 0\<rparr>, db'))))))"

definition assert_claim :: "(string \<Rightarrow> string) \<Rightarrow> int \<Rightarrow> verifier \<Rightarrow> remotes \<Rightarrow> git_world \<Rightarrow> string option \<Rightarrow> ledger_files
    \<Rightarrow> string \<Rightarrow> pyval \<Rightarrow> ledger_row list \<Rightarrow> unit result" where
  "assert_claim sha me vf rm w current env payload nonce db =
     rbind (validate_workspace_request sha rm w current payload) (\<lambda>_.
     rbind (assert_consumed sha me vf env nonce payload db) (\<lambda>_.
       require (map (\<lambda>r. (lr_request r, lr_expires r)) (filter (\<lambda>r. PStr (lr_nonce r) = nonce) db) = [(digest sha payload, 0)]) PermissionError))"

definition workspace_policy_document :: "(string \<Rightarrow> string) \<Rightarrow> pydict \<Rightarrow> string option \<Rightarrow> pydict result" where
  "workspace_policy_document sha data previous_raw =
     (case dict_get data ''grants'' of
        PList gs \<Rightarrow>
          if list_ex (\<lambda>g. PStr ''push'' \<in> set (case dict_get (fields_of g) ''operations'' of PList ops \<Rightarrow> ops | _ \<Rightarrow> [])) gs
          then Inl PermissionError
          else (let result = dict_set ''authorization_mode'' (PStr ''workspace'') data in
            Inr (case previous_raw of None \<Rightarrow> result | Some raw \<Rightarrow> dict_set ''legacy_policy_sha256'' (PStr (sha raw)) result))
      | _ \<Rightarrow> Inl TypeError)"

section \<open>Approved commits\<close>

record commit_policy =
  cp_digest :: string
  cp_workspaces :: "(string \<times> root_identity) list"
  cp_trusted :: "string list list"

definition COMMIT_POLICY_FIELDS :: "string list" where
  "COMMIT_POLICY_FIELDS = [''version'', ''author_name'', ''author_email'', ''verification_key'', ''ledger_path'', ''workspaces'']"

definition commit_workspaces :: "pyval \<Rightarrow> string list option" where
  "commit_workspaces v = (case v of
       PList ids \<Rightarrow> if 1 \<le> length ids \<and> length ids \<le> 128 \<and> list_all (\<lambda>i. is_pstr i \<and> the_str i \<notin> {[], ''*''}) ids \<and> distinct (map the_str ids)
         then Some (map the_str ids) else None
     | _ \<Rightarrow> None)"

definition pin_workspace :: "git_world \<Rightarrow> string \<Rightarrow> (string \<times> root_identity) result" where
  "pin_workspace w name =
     rbind (Registry.get (gw_registry w) name) (\<lambda>ws.
       if \<not> writable ws \<or> \<not> allow_git ws then Inl PermissionError
       else rbind (strict_root w (ws_path ws)) (\<lambda>root. Inr (name, root_identity root)))"

definition author_ok :: "pyval \<Rightarrow> bool" where
  "author_ok v \<longleftrightarrow> is_pstr v \<and> the_str v \<noteq> [] \<and> length (the_str v) \<le> 256
     \<and> list_all (\<lambda>c. 32 \<le> char_code c \<and> char_code c \<noteq> 127 \<and> c \<notin> set ''<>'') (the_str v)"

text \<open>\<open>opened\<close> is what opening the existing ledger yields; \<open>runtime\<close>: supervised and transactional, shared with the jobs.\<close>

definition load_approved_commits :: "(string \<Rightarrow> string) \<Rightarrow> git_world \<Rightarrow> string list \<Rightarrow> bool \<Rightarrow> string option
    \<Rightarrow> (verifier \<times> ledger_row list) result \<Rightarrow> (commit_policy \<times> verifier) option result" where
  "load_approved_commits sha w own runtime raw opened = (case raw of
       None \<Rightarrow> Inr None
     | Some r \<Rightarrow> rbind (decode r) (\<lambda>doc. case doc of
         PDict d \<Rightarrow>
           if field_names d \<noteq> set COMMIT_POLICY_FIELDS \<or> dict_get d ''version'' \<noteq> PInt 1 then Inl PermissionError
           else if \<not> hex64 (dict_get d ''verification_key'') then Inl PermissionError
           else rbind (owner_path (dict_get d ''ledger_path'')) (\<lambda>ledger.
             case commit_workspaces (dict_get d ''workspaces'') of
               None \<Rightarrow> Inl PermissionError
             | Some ids \<Rightarrow>
                 let trusted = map (realpath_comps (gw_fs w)) (own @ [ledger]) in
                 rbind (separation w trusted) (\<lambda>_.
                 rbind (rmap_list (pin_workspace w) ids) (\<lambda>pins.
                 rbind opened (\<lambda>(v, _).
                   if \<not> runtime then Inl PermissionError
                   else if \<not> author_ok (dict_get d ''author_name'') \<or> \<not> author_ok (dict_get d ''author_email'') then Inl ValueError
                   else Inr (Some (\<lparr>cp_digest = sha r, cp_workspaces = pins, cp_trusted = trusted\<rparr>, v))))))
       | _ \<Rightarrow> Inl PermissionError))"

definition authorize_commit :: "(string \<Rightarrow> string) \<Rightarrow> commit_policy \<Rightarrow> git_world \<Rightarrow> string option \<Rightarrow> string \<Rightarrow> unit result" where
  "authorize_commit sha cp w current workspace_id =
     (if map_option sha current \<noteq> Some (cp_digest cp) then Inl PermissionError
      else (case map_of (cp_workspaces cp) workspace_id of
          None \<Rightarrow> Inl PermissionError
        | Some pinned \<Rightarrow>
            rbind (separation w (cp_trusted cp)) (\<lambda>_.
            rbind (Registry.get (gw_registry w) workspace_id) (\<lambda>ws.
            rbind (strict_root w (ws_path ws)) (\<lambda>root. require (root_identity root = pinned) PermissionError)))))"


section \<open>The remote authority\<close>

lemma separation_iff:
  "separation w trusted = Inr roots \<longleftrightarrow> roots = map (\<lambda>e. realpath_comps (gw_fs w) (ws_path (snd e))) (gw_registry w)
     \<and> (\<forall>e \<in> set (gw_registry w). \<forall>t \<in> set trusted. \<not> starts_with (realpath_comps (gw_fs w) (ws_path (snd e))) t)"
  by (auto simp: separation_def Let_def list_ex_iff)

lemma catalog_iff:
  "catalog sha rm w current = Inr gs \<longleftrightarrow> gs = rm_grants rm \<and> map_option sha current = Some (rm_digest rm)
     \<and> (\<exists>roots. separation w (rm_trusted rm) = Inr roots) \<and> (\<forall>e \<in> set (rm_identities rm). same_workspace w e = Inr ())"
  by (auto simp: catalog_def guard_Inr_iff list_all_iff)

lemma matching_unique:
  assumes "matching_grants rm i r f op loc = [g]"
  shows "g \<in> set (rm_grants rm) \<and> grant_matches g i r f op \<and> (\<forall>l. loc = Some l \<longrightarrow> gr_repository g = l)
    \<and> (\<forall>h \<in> set (rm_grants rm). grant_matches h i r f op \<longrightarrow> h = g \<or> (case loc of None \<Rightarrow> gr_repository g = ''.'' \<and> gr_repository h \<noteq> ''.'' | Some l \<Rightarrow> gr_repository h \<noteq> l))"
proof (cases loc)
  case (Some l)
  with assms have "filter (\<lambda>g. grant_matches g i r f op \<and> gr_repository g = l) (rm_grants rm) = [g]"
    by (simp add: matching_grants_def)
  from filter_unique [OF this] Some show ?thesis by auto
next
  case None
  let ?e = "filter (\<lambda>g. grant_matches g i r f op) (rm_grants rm)"
  from assms None have m: "(if 1 < length ?e then filter (\<lambda>g. gr_repository g = ''.'') ?e else ?e) = [g]"
    by (simp add: matching_grants_def Let_def)
  show ?thesis
  proof (cases "1 < length ?e")
    case True
    with m have "filter (\<lambda>g. gr_repository g = ''.'' \<and> grant_matches g i r f op) (rm_grants rm) = [g]" by (simp add: conj_commute)
    from filter_unique [OF this] None show ?thesis by auto
  next
    case False
    with m have "?e = [g]" by simp
    from filter_unique [OF this] None show ?thesis by auto
  qed
qed

lemma asked_location_iff:
  assumes "asked_location rm i r f op repository = Inr loc" and "matching_grants rm i r f op loc = [g]"
  shows "case repository of None \<Rightarrow> loc = None | Some v \<Rightarrow> loc = Some (gr_repository g) \<and> v = PStr (gr_repository g)"
proof (cases repository)
  case (Some v)
  have g: "g \<in> set (rm_grants rm)" "grant_matches g i r f op" and l: "\<And>l. loc = Some l \<Longrightarrow> gr_repository g = l"
    using matching_unique [OF assms(2)] by auto
  with Some assms(1) obtain p where "repository_relative v = Inr p" "loc = Some p"
    by (auto simp: asked_location_def grant_matches_def list_ex_iff split: if_splits)
  moreover from this(1) have "v = PStr p" by (auto simp: repository_relative_def guard_Inr_iff split: pyval.splits if_splits)
  ultimately show ?thesis using l Some by simp
qed (use assms(1) in \<open>simp add: asked_location_def\<close>)

text \<open>
  C27.  A remote operation is authorised only by one grant of the loaded owner policy: the grant names the asked
  workspace, remote and reference, lists the operation and has the asked location, and no other grant of that
  location fits; push is never authorised in the workspace mode; the policy file still has the loaded digest, the
  workspace is still registered, writable, open to Git and the directory pinned at load; no exposed workspace
  contains a trusted path; and the transport talks to the host and path of the grant under the grant's user name.
\<close>

theorem remote_authority_exact:
  assumes "authorize_remote sha rm w current i r f op repository = Inr (g, t)"
  shows "g \<in> set (rm_grants rm) \<and> grant_matches g i r f op
    \<and> (case repository of None \<Rightarrow> True | Some v \<Rightarrow> v = PStr (gr_repository g))
    \<and> (\<forall>h \<in> set (rm_grants rm). grant_matches h i r f op \<longrightarrow> h = g \<or> gr_repository h \<noteq> gr_repository g)
    \<and> (rm_mode rm = ''workspace'' \<longrightarrow> op \<noteq> ''push'')
    \<and> map_option sha current = Some (rm_digest rm)
    \<and> (\<exists>ws root. Registry.get (gw_registry w) i = Inr ws \<and> writable ws \<and> allow_git ws
         \<and> gw_root w (ws_path ws) = Some root \<and> map_of (rm_identities rm) i = Some (root_identity root))
    \<and> (\<forall>e \<in> set (gw_registry w). \<forall>p \<in> set (rm_trusted rm). \<not> starts_with (realpath_comps (gw_fs w) (ws_path (snd e))) p)
    \<and> Git_Wire.remote_parts (gr_url g) = Inr (tr_host t, tr_path t) \<and> tr_username t = gr_username g"
proof -
  obtain roots loc ws root where cat: "map_option sha current = Some (rm_digest rm)"
    and mode: "rm_mode rm = ''workspace'' \<longrightarrow> op \<in> set INBOUND"
    and sep: "separation w (rm_trusted rm) = Inr roots"
    and loc: "asked_location rm i r f op repository = Inr loc" and m: "matching_grants rm i r f op loc = [g]"
    and ws: "Registry.get (gw_registry w) i = Inr ws" and root: "strict_root w (ws_path ws) = Inr root"
    and ok: "writable ws" "allow_git ws" "map_of (rm_identities rm) i = Some (root_identity root)"
    and t: "Git_Wire.new_transport (gw_fs w) (gr_url g) (gr_credential g) (gr_username g) (map to_path roots) = Inr t"
    using assms by (auto simp: authorize_remote_def guard_Inr_iff catalog_iff the_only_Inr)
  have "Git_Wire.remote_parts (gr_url g) = Inr (tr_host t, tr_path t)" "tr_username t = gr_username g"
    using t by (auto simp: Git_Wire.new_transport_def guard_Inr_iff Let_def split: prod.splits option.splits)
  moreover have "gw_root w (ws_path ws) = Some root" using root by (simp add: strict_root_def split: option.splits)
  moreover have "case repository of None \<Rightarrow> True | Some v \<Rightarrow> v = PStr (gr_repository g)"
    using asked_location_iff [OF loc m] by (simp split: option.splits)
  moreover have "\<forall>h \<in> set (rm_grants rm). grant_matches h i r f op \<longrightarrow> h = g \<or> gr_repository h \<noteq> gr_repository g"
    using matching_unique [OF m] by (fastforce split: option.splits)
  ultimately show ?thesis using cat mode sep ws ok matching_unique [OF m] by (auto simp: separation_iff INBOUND_def)
qed

definition grant_ok :: "string \<Rightarrow> remote_grant \<Rightarrow> bool" where
  "grant_ok mode g \<longleftrightarrow> gr_operations g \<noteq> [] \<and> distinct (gr_operations g) \<and> set (gr_operations g) \<subseteq> set REMOTE_OPERATIONS
     \<and> (''push'' \<in> set (gr_operations g) \<longrightarrow> mode \<noteq> ''workspace'' \<and> gr_repository g = ''.'')"

definition pinned_workspace :: "git_world \<Rightarrow> string \<Rightarrow> root_identity \<Rightarrow> bool" where
  "pinned_workspace w i p \<longleftrightarrow> (\<exists>ws root. Registry.get (gw_registry w) i = Inr ws \<and> writable ws \<and> allow_git ws
     \<and> gw_root w (ws_path ws) = Some root \<and> p = root_identity root)"

definition consistent_remotes :: "remote_grant list \<Rightarrow> bool" where
  "consistent_remotes gs \<longleftrightarrow> (\<forall>g \<in> set gs. \<forall>h \<in> set gs. remote_key g = remote_key h \<longrightarrow> endpoint g = endpoint h)"

definition grants_ok :: "string \<Rightarrow> git_world \<Rightarrow> remote_grant list \<Rightarrow> (string \<times> root_identity) list \<Rightarrow> bool" where
  "grants_ok mode w gs ids \<longleftrightarrow> distinct (map grant_key gs) \<and> (\<forall>g \<in> set gs. grant_ok mode g)
     \<and> consistent_remotes gs \<and> fst ` set ids = gr_workspace ` set gs \<and> (\<forall>e \<in> set ids. pinned_workspace w (fst e) (snd e))"

lemma operations_of_Inr:
  "operations_of mode v = Inr ops \<Longrightarrow> ops \<noteq> [] \<and> distinct ops \<and> set ops \<subseteq> set REMOTE_OPERATIONS \<and> (''push'' \<in> set ops \<longrightarrow> mode \<noteq> ''workspace'')"
  by (auto simp: operations_of_def guard_Inr_iff the_str_member split: pyval.splits if_splits) (auto simp: list_all_iff)

lemma parse_grant_Inr:
  assumes "parse_grant mode entry = Inr g"
  shows "gr_operations g \<noteq> [] \<and> distinct (gr_operations g) \<and> set (gr_operations g) \<subseteq> set REMOTE_OPERATIONS
    \<and> (''push'' \<in> set (gr_operations g) \<longrightarrow> mode \<noteq> ''workspace'')"
proof -
  obtain e ops where "operations_of mode (dict_get e ''operations'') = Inr ops" "gr_operations g = ops"
    using assms by (auto simp: parse_grant_def guard_Inr_iff split: pyval.splits if_splits)
  then show ?thesis using operations_of_Inr by simp
qed

lemma check_grant_Inr:
  assumes "check_grant w gs g = Inr i"
  shows "grant_key g \<notin> grant_key ` set gs \<and> (\<forall>h \<in> set gs. remote_key h = remote_key g \<longrightarrow> endpoint h = endpoint g)
    \<and> (''push'' \<in> set (gr_operations g) \<longrightarrow> gr_repository g = ''.'') \<and> pinned_workspace w (gr_workspace g) i"
  using assms by (auto simp: check_grant_def guard_Inr_iff list_ex_iff strict_root_def pinned_workspace_def split: option.splits if_splits)

lemma load_grants_ok:
  assumes "load_grants w mode gs ids entries = Inr (gs', ids')" and "grants_ok mode w gs ids"
  shows "grants_ok mode w gs' ids'"
  using assms
proof (induction entries arbitrary: gs ids)
  case (Cons entry entries)
  from Cons.prems(1) obtain g i where g: "parse_grant mode entry = Inr g" and i: "check_grant w gs g = Inr i"
    and rest: "load_grants w mode (gs @ [g]) (dict_set (gr_workspace g) i ids) entries = Inr (gs', ids')" by auto
  note old = Cons.prems(2) [unfolded grants_ok_def]
  from check_grant_Inr [OF i] have new: "grant_key g \<notin> grant_key ` set gs" "pinned_workspace w (gr_workspace g) i"
    and same: "\<forall>h \<in> set gs. remote_key h = remote_key g \<longrightarrow> endpoint h = endpoint g"
    and push: "''push'' \<in> set (gr_operations g) \<longrightarrow> gr_repository g = ''.''" by blast+
  have "grant_ok mode g" using parse_grant_Inr [OF g] push by (simp add: grant_ok_def)
  moreover have "\<forall>e \<in> set (dict_set (gr_workspace g) i ids). pinned_workspace w (fst e) (snd e)"
    using old new set_dict_set [of "gr_workspace g" i ids] by auto
  moreover have "consistent_remotes (gs @ [g])"
    using old same unfolding consistent_remotes_def set_append list.set by (metis UnE empty_iff insertE)
  ultimately have "grants_ok mode w (gs @ [g]) (dict_set (gr_workspace g) i ids)"
    using old new(1) by (simp add: grants_ok_def keys_dict_set)
  from Cons.IH [OF rest this] show ?case .
qed simp

lemma load_grants_length: "load_grants w mode gs ids entries = Inr (gs', ids') \<Longrightarrow> length gs' = length gs + length entries"
  by (induction entries arbitrary: gs ids) fastforce+

text \<open>
  C28.  A policy that loads holds between 1 and 512 grants with distinct scopes, each with known, distinct operations, with
  push only outside the workspace mode and at the workspace root, and with one endpoint per remote; every granted
  workspace is pinned to the directory it resolved to while writable and open to Git; and no exposed workspace
  contains the control, state or program directories, or a credential file of a grant.
\<close>

theorem loaded_remotes_wellformed:
  assumes "load_owner_git_remotes sha w own raw opened = Inr (Some (rm, v))"
  shows "map_option sha raw = Some (rm_digest rm) \<and> rm_mode rm \<in> {''owner_signature'', ''workspace''}
    \<and> 1 \<le> length (rm_grants rm) \<and> length (rm_grants rm) \<le> 512 \<and> distinct (map grant_key (rm_grants rm))
    \<and> (\<forall>g \<in> set (rm_grants rm). grant_ok (rm_mode rm) g)
    \<and> consistent_remotes (rm_grants rm)
    \<and> (\<forall>g \<in> set (rm_grants rm). \<exists>p. map_of (rm_identities rm) (gr_workspace g) = Some p \<and> pinned_workspace w (gr_workspace g) p)
    \<and> realpath_comps (gw_fs w) ` (set own \<union> {c. \<exists>g \<in> set (rm_grants rm). gr_credential g = Some c}) \<subseteq> set (rm_trusted rm)
    \<and> (\<forall>e \<in> set (gw_registry w). \<forall>p \<in> set (rm_trusted rm). \<not> starts_with (realpath_comps (gw_fs w) (ws_path (snd e))) p)"
proof -
  obtain r doc where raw: "raw = Some r" and doc: "load_document sha w own r doc = Inr rm"
    using assms by (auto simp: load_owner_git_remotes_def split: option.splits sum.splits)
  obtain d entries grants ids roots ledger where
    mode: "rm_mode rm \<in> {''owner_signature'', ''workspace''}"
    and n: "1 \<le> length entries" "length entries \<le> 512" and load: "load_grants w (rm_mode rm) [] [] entries = Inr (grants, ids)"
    and sep: "separation w (rm_trusted rm) = Inr roots"
    and rm: "rm_grants rm = grants" "rm_identities rm = ids" "rm_digest rm = sha r"
      "rm_trusted rm = map (realpath_comps (gw_fs w)) (own @ [ledger] @ List.map_filter gr_credential grants)"
    using doc by (auto simp: load_document_def guard_Inr_iff PDict_case_Inr PList_case_Inr Let_def split: prod.splits)
  have ok: "grants_ok (rm_mode rm) w grants ids" using load by (rule load_grants_ok) (simp add: grants_ok_def consistent_remotes_def)
  have ids: "\<exists>p. map_of ids (gr_workspace g) = Some p \<and> pinned_workspace w (gr_workspace g) p" if "g \<in> set grants" for g
  proof -
    from ok that have "gr_workspace g \<in> fst ` set ids" unfolding grants_ok_def by blast
    then obtain p where p: "map_of ids (gr_workspace g) = Some p" by (metis map_of_eq_None_iff not_None_eq)
    from map_of_SomeD [OF this] ok have "pinned_workspace w (gr_workspace g) p" unfolding grants_ok_def by force
    with p show ?thesis by blast
  qed
  have "realpath_comps (gw_fs w) ` (set own \<union> {c. \<exists>g \<in> set grants. gr_credential g = Some c}) \<subseteq> set (rm_trusted rm)"
    unfolding rm by (auto dest: map_filter_member)
  then show ?thesis using mode n load_grants_length [OF load] raw rm(1-3) sep ids ok by (auto simp: grants_ok_def separation_iff)
qed
section \<open>Claims\<close>

lemma claim_workspace_Inr:
  assumes "claim sha verify me vf rm c db = Inr (a, db')" and "rm_mode rm = ''workspace''"
  shows "validate_workspace_request sha rm (fst (cl_locked c)) (snd (cl_locked c)) (vc_payload (cl_verify c)) = Inr ()
    \<and> nonce_ok (cl_nonce c) \<and> check_ledger_identity me vf (cl_files_locked c) = Inr () \<and> vc_receipt (cl_verify c) = []
    \<and> spend (cl_nonce c) (digest sha (vc_payload (cl_verify c))) (vc_locked (cl_verify c)) 0 db = Inr db'
    \<and> a = \<lparr>va_request = digest sha (vc_payload (cl_verify c)), va_nonce = cl_nonce c, va_expires = 0\<rparr>"
  using assms by (auto simp: claim_def guard_Inr_iff Let_def split: sum.splits if_splits)

definition claim_step :: "(string \<Rightarrow> string) \<Rightarrow> (string \<Rightarrow> string \<Rightarrow> bool) \<Rightarrow> int \<Rightarrow> verifier \<Rightarrow> remotes \<Rightarrow> claim_call
    \<Rightarrow> ledger_row list \<Rightarrow> ledger_row list result" where
  "claim_step sha verify me vf rm c db = rbind (claim sha verify me vf rm c db) (\<lambda>(a, db'). Inr db')"

definition claim_nonce :: "(string \<Rightarrow> string) \<Rightarrow> (string \<Rightarrow> string \<Rightarrow> bool) \<Rightarrow> remotes \<Rightarrow> claim_call \<Rightarrow> string" where
  "claim_nonce sha verify rm c = (if rm_mode rm = ''workspace'' then cl_nonce c else receipt_nonce sha verify (cl_verify c))"

definition claim_valid :: "(string \<Rightarrow> string) \<Rightarrow> (string \<Rightarrow> string \<Rightarrow> bool) \<Rightarrow> remotes \<Rightarrow> claim_call \<Rightarrow> bool" where
  "claim_valid sha verify rm c \<longleftrightarrow>
     (if rm_mode rm = ''workspace''
      then vc_receipt (cl_verify c) = [] \<and> validate_workspace_request sha rm (fst (cl_locked c)) (snd (cl_locked c)) (vc_payload (cl_verify c)) = Inr ()
      else owner_approved sha verify (cl_verify c))"

text \<open>Both ways of claiming keep the contract of a ledger with valid entries.\<close>

interpretation claims: expiring_use "claim_step sha verify me vf rm" "claim_nonce sha verify rm" spent "claim_valid sha verify rm"
  for sha verify me vf rm
proof
  fix c db db'
  assume step: "claim_step sha verify me vf rm c db = Inr db'"
  have "claim_nonce sha verify rm c \<notin> spent db \<and> spent db' = insert (claim_nonce sha verify rm c) (spent db) \<and> claim_valid sha verify rm c"
  proof (cases "rm_mode rm = ''workspace''")
    case True
    from step obtain a where "claim sha verify me vf rm c db = Inr (a, db')" by (auto simp: claim_step_def)
    from claim_workspace_Inr [OF this True] show ?thesis
      using True spend_Inr by (auto simp: claim_nonce_def claim_valid_def)
  next
    case False
    with step have "consume_approval sha verify me vf (cl_verify c) db = Inr db'"
      by (simp add: claim_step_def claim_def consume_approval_def)
    from approvals.consume_fresh [OF this] approvals.consume_marks [OF this] approvals.consume_valid [OF this] False
    show ?thesis by (simp add: claim_nonce_def claim_valid_def)
  qed
  then show "claim_nonce sha verify rm c \<notin> spent db" "spent db' = insert (claim_nonce sha verify rm c) (spent db)" "claim_valid sha verify rm c"
    by blast+
qed

definition within_grant :: "(string \<Rightarrow> string) \<Rightarrow> remotes \<Rightarrow> string option \<Rightarrow> pydict \<Rightarrow> remote_grant \<Rightarrow> bool" where
  "within_grant sha rm current p g \<longleftrightarrow> (let v = fields_of (dict_get p ''parameters'') in
     g \<in> set (rm_grants rm) \<and> dict_get p ''workspace_id'' = PStr (gr_workspace g)
     \<and> dict_get p ''operation'' \<in> PStr ` (set INBOUND \<inter> set (gr_operations g))
     \<and> dict_get v ''remote_id'' = PStr (gr_remote g) \<and> dict_get v ''remote_ref'' = PStr (gr_ref g) \<and> dict_get v ''remote_url'' = PStr (gr_url g)
     \<and> dict_get v ''policy_sha256'' = PStr (rm_digest rm) \<and> map_option sha current = Some (rm_digest rm))"

lemma request_within_grant:
  assumes "validate_workspace_request sha rm w current payload = Inr ()"
  shows "\<exists>p g. decode payload = Inr (PDict p) \<and> within_grant sha rm current p g"
proof -
  from assms obtain doc relative where doc: "decode payload = Inr doc" and sha: "map_option sha current = Some (rm_digest rm)"
    and op: "the_str (dict_get (fields_of doc) ''operation'') \<in> set INBOUND"
    and digest: "dict_get (fields_of (dict_get (fields_of doc) ''parameters'')) ''policy_sha256'' = PStr (rm_digest rm)"
    and one: "length (exact_grants (rm_grants rm) (fields_of doc) (fields_of (dict_get (fields_of doc) ''parameters'')) relative) = 1"
    unfolding validate_workspace_request_def validate_scope_def guard_Inr_iff rbind_Inr_iff Let_def de_Morgan_disj not_not catalog_iff by blast
  let ?p = "fields_of doc"
  obtain s where s: "dict_get ?p ''operation'' = PStr s" using op by (cases "dict_get ?p ''operation''") (simp_all add: INBOUND_def)
  obtain d where d: "doc = PDict d" using s by (cases doc) (simp_all add: fields_of_def dict_get_def)
  from one obtain g where "exact_grants (rm_grants rm) ?p (fields_of (dict_get ?p ''parameters'')) relative = [g]"
    by (auto simp: length_Suc_conv)
  from filter_unique [OF this [unfolded exact_grants_def]] op s digest sha have "within_grant sha rm current ?p g"
    by (auto simp: within_grant_def Let_def)
  with doc d show ?thesis by (auto simp: fields_of_def)
qed

text \<open>
  In the workspace mode, over any sequence of claims against one ledger, the claims that succeed have distinct
  operation ids none of which was spent before, carried no external receipt, and each was for a request that, when the
  database lock was held, lay within a grant of the unchanged policy: its workspace, remote, reference, URL and
  inbound operation, under the policy digest the request names.
\<close>

theorem workspace_claims_single_use:
  assumes "accepted (claim_step sha verify me vf rm) calls db = (done_calls, db')" and "rm_mode rm = ''workspace''"
  shows "distinct (map cl_nonce done_calls) \<and> cl_nonce ` set done_calls \<inter> spent db = {} \<and> spent db' = spent db \<union> cl_nonce ` set done_calls
    \<and> (\<forall>c \<in> set done_calls. vc_receipt (cl_verify c) = []
         \<and> (\<exists>p g. decode (vc_payload (cl_verify c)) = Inr (PDict p) \<and> within_grant sha rm (snd (cl_locked c)) p g))"
proof -
  have key: "claim_nonce sha verify rm = cl_nonce" using assms(2) by (simp add: claim_nonce_def fun_eq_iff)
  have "vc_receipt (cl_verify c) = [] \<and> (\<exists>p g. decode (vc_payload (cl_verify c)) = Inr (PDict p) \<and> within_grant sha rm (snd (cl_locked c)) p g)"
    if "c \<in> set done_calls" for c
    using claims.accepted_valid [OF assms(1) that] assms(2) request_within_grant by (auto simp: claim_valid_def)
  with claims.accepted_once [OF assms(1)] show ?thesis unfolding key by blast
qed

text \<open>
  Recovery accepts exactly the claimed request: after a claim in the workspace mode, a request that still lies within
  its grant is recognised under the claimed operation id iff its digest is the one that was claimed.
\<close>

theorem claimed_operation_recovers:
  assumes "claim sha verify me vf rm c db = Inr (a, db')" and "rm_mode rm = ''workspace''"
    and "validate_workspace_request sha rm w current payload = Inr ()" and "check_ledger_identity me vf env = Inr ()"
  shows "assert_claim sha me vf rm w current env payload (PStr (cl_nonce c)) db' = Inr () \<longleftrightarrow> digest sha payload = va_request a"
proof -
  note cl = claim_workspace_Inr [OF assms(1,2)]
  then have "filter (\<lambda>r. lr_nonce r = cl_nonce c) db' = [\<lparr>lr_nonce = cl_nonce c, lr_request = va_request a, lr_claimed = vc_locked (cl_verify c), lr_expires = 0\<rparr>]"
    by (force simp: spend_def filter_empty_conv split: if_splits)
  with assms(3,4) cl show ?thesis by (auto simp: assert_claim_def assert_consumed_def)
qed
section \<open>Witnesses\<close>

definition demo_repo_workspace :: workspace where
  "demo_repo_workspace = \<lparr>ws_id = ''w'', ws_path = ''/srv/w'', writable = True, description = [], allow_execute = False,
     allow_git = True, allow_artifacts = False, allow_agent_dispatch = False, auto_discover = False, local_http_ports = []\<rparr>"

definition demo_root :: workspace_root where
  "demo_root = \<lparr>wr_path = ''/srv/w'', wr_info = demo_private Directory 9, wr_pinned = demo_private Directory 9,
     wr_start = demo_private Directory 9, wr_mount = 3\<rparr>"

definition demo_world :: git_world where
  "demo_world = \<lparr>gw_fs = demo_fs, gw_registry = [(''w'', demo_repo_workspace)],
     gw_root = (\<lambda>p. if p = ''/srv/w'' then Some demo_root else None), gw_steps = (\<lambda>_ _. []), gw_entries = (\<lambda>_ _. [])\<rparr>"

definition demo_remote_policy :: pyval where
  "demo_remote_policy = PDict [(''version'', PInt 1), (''verification_key'', PStr (replicate 64 (CHR ''a''))),
     (''ledger_path'', PStr ''/srv/ledger/db''), (''authorization_mode'', PStr ''workspace''),
     (''grants'', PList [PDict [(''workspace_id'', PStr ''w''), (''remote_id'', PStr ''origin''), (''url'', PStr ''https://github.com/o/r.git''),
        (''ref'', PStr ''refs/heads/main''), (''operations'', PList [PStr ''fetch'', PStr ''pull'']),
        (''credential_file'', PStr ''/srv/keys/token''), (''username'', PStr ''git'')]])]"

definition demo_grant :: remote_grant where
  "demo_grant = \<lparr>gr_workspace = ''w'', gr_remote = ''origin'', gr_url = ''https://github.com/o/r.git'', gr_ref = ''refs/heads/main'',
     gr_operations = [''fetch'', ''pull''], gr_credential = Some ''/srv/keys/token'', gr_username = ''git'', gr_repository = ''.''\<rparr>"

definition demo_remotes :: remotes where
  "demo_remotes = \<lparr>rm_digest = replicate 64 (CHR ''5''), rm_grants = [demo_grant], rm_identities = [(''w'', (''/srv/w'', 1, 9))],
     rm_trusted = [[''srv'', ''cfg''], [''srv'', ''ledger'', ''db''], [''srv'', ''keys'', ''token'']], rm_mode = ''workspace'', rm_legacy = None\<rparr>"

lemma demo_remotes_loaded:
  "load_owner_git_remotes demo_sha demo_world [''/srv/cfg''] (Some (canonical demo_remote_policy)) (Inr (demo_verifier, []))
     = Inr (Some (demo_remotes, demo_verifier))"
proof -
  have "doc_ok demo_remote_policy" using small_time [of 1] by (simp add: demo_remote_policy_def)
  from decode_canonical [OF this] have "decode (canonical demo_remote_policy) = Inr (sort_doc demo_remote_policy)" .
  moreover have "load_document demo_sha demo_world [''/srv/cfg''] [] (sort_doc demo_remote_policy) = Inr demo_remotes" by code_simp
  then have "load_document demo_sha demo_world [''/srv/cfg''] (canonical demo_remote_policy) (sort_doc demo_remote_policy) = Inr demo_remotes"
    unfolding load_document_def demo_sha_def .
  ultimately show ?thesis by (simp add: load_owner_git_remotes_def)
qed

theorem loaded_remotes_wellformed_witness:
  "distinct (map grant_key [demo_grant]) \<and> grant_ok ''workspace'' demo_grant \<and> pinned_workspace demo_world ''w'' (''/srv/w'', 1, 9)"
  using loaded_remotes_wellformed [OF demo_remotes_loaded] by (simp add: demo_remotes_def demo_grant_def)

lemma demo_authorized:
  "\<exists>t. authorize_remote demo_sha demo_remotes demo_world (Some []) ''w'' ''origin'' ''refs/heads/main'' ''pull'' None = Inr (demo_grant, t)"
proof -
  have "map_sum id fst (authorize_remote demo_sha demo_remotes demo_world (Some []) ''w'' ''origin'' ''refs/heads/main'' ''pull'' None) = Inr demo_grant"
    by code_simp
  then show ?thesis by (cases "authorize_remote demo_sha demo_remotes demo_world (Some []) ''w'' ''origin'' ''refs/heads/main'' ''pull'' None") auto
qed

theorem remote_authority_exact_witness:
  "\<exists>t. authorize_remote demo_sha demo_remotes demo_world (Some []) ''w'' ''origin'' ''refs/heads/main'' ''pull'' None = Inr (demo_grant, t)
     \<and> Git_Wire.remote_parts ''https://github.com/o/r.git'' = Inr (tr_host t, tr_path t) \<and> tr_username t = ''git''"
proof -
  obtain t where "authorize_remote demo_sha demo_remotes demo_world (Some []) ''w'' ''origin'' ''refs/heads/main'' ''pull'' None = Inr (demo_grant, t)"
    using demo_authorized by blast
  with remote_authority_exact [OF this] show ?thesis by (auto simp: demo_grant_def)
qed

definition demo_pull :: pyval where
  "demo_pull = PDict [(''operation'', PStr ''pull''), (''workspace_id'', PStr ''w''), (''repository_path'', PStr ''/srv/w''),
     (''repository_device'', PInt 1), (''repository_inode'', PInt 9), (''expected_head'', PNone),
     (''expected_tree'', PStr (replicate 40 (CHR ''a''))), (''branch'', PStr ''refs/heads/main''),
     (''parameters'', PDict [(''policy_sha256'', PStr (replicate 64 (CHR ''5''))), (''remote_id'', PStr ''origin''),
        (''remote_ref'', PStr ''refs/heads/main''), (''remote_url'', PStr ''https://github.com/o/r.git'')])]"

lemma demo_pull_valid:
  "validate_workspace_request demo_sha demo_remotes demo_world (Some []) (canonical demo_pull) = Inr ()"
proof -
  have "doc_ok demo_pull" using small_time [of 1] small_time [of 9] by (simp add: demo_pull_def)
  from decode_canonical [OF this] have d: "decode (canonical demo_pull) = Inr (sort_doc demo_pull)" .
  have "validate_scope demo_sha demo_remotes demo_world (Some []) (fields_of (sort_doc demo_pull)) = Inr ()" by code_simp
  with d show ?thesis by (simp add: validate_workspace_request_def demo_remotes_def)
qed

definition demo_claim :: claim_call where
  "demo_claim = \<lparr>cl_verify = \<lparr>vc_receipt = [], vc_payload = canonical demo_pull, vc_now = None, vc_start = 1001, vc_locked = 1200,
      vc_files = demo_ledger\<rparr>, cl_nonce = demo_nonce, cl_first = (demo_world, Some []), cl_locked = (demo_world, Some []),
      cl_files_locked = demo_ledger\<rparr>"

definition demo_claimed :: ledger_row where
  "demo_claimed = \<lparr>lr_nonce = demo_nonce, lr_request = demo_sha [], lr_claimed = 1200, lr_expires = 0\<rparr>"

lemma demo_claim_done:
  "claim demo_sha demo_verify 7 demo_verifier demo_remotes demo_claim []
     = Inr (\<lparr>va_request = demo_sha [], va_nonce = demo_nonce, va_expires = 0\<rparr>, [demo_claimed])"
proof -
  have "nonce_ok demo_nonce" "check_ledger_identity 7 demo_verifier demo_ledger = Inr ()" by code_simp+
  with demo_pull_valid show ?thesis
    by (simp add: claim_def demo_claim_def spend_def demo_claimed_def digest_def demo_sha_def demo_remotes_def)
qed

lemma demo_claim_run:
  "accepted (claim_step demo_sha demo_verify 7 demo_verifier demo_remotes) [demo_claim, demo_claim] [] = ([demo_claim], [demo_claimed])"
proof -
  have first: "claim_step demo_sha demo_verify 7 demo_verifier demo_remotes demo_claim [] = Inr [demo_claimed]"
    using demo_claim_done by (simp add: claim_step_def)
  have "claim_nonce demo_sha demo_verify demo_remotes demo_claim \<in> spent [demo_claimed]"
    by (simp add: claim_nonce_def spent_def demo_remotes_def demo_claim_def demo_claimed_def)
  from claims.replay_refused [OF this] obtain e where
    "claim_step demo_sha demo_verify 7 demo_verifier demo_remotes demo_claim [demo_claimed] = Inl e" by blast
  with first show ?thesis by simp
qed

theorem workspace_claims_single_use_witness:
  "spent [demo_claimed] = {demo_nonce} \<and> (\<exists>p g. decode (canonical demo_pull) = Inr (PDict p) \<and> within_grant demo_sha demo_remotes (Some []) p g)"
  using workspace_claims_single_use [OF demo_claim_run] by (simp add: demo_remotes_def demo_claim_def spent_def)

theorem claimed_operation_recovers_witness:
  "assert_claim demo_sha 7 demo_verifier demo_remotes demo_world (Some []) demo_ledger (canonical demo_pull) (PStr demo_nonce) [demo_claimed] = Inr ()"
proof -
  have "check_ledger_identity 7 demo_verifier demo_ledger = Inr ()" by code_simp
  from claimed_operation_recovers [OF demo_claim_done _ demo_pull_valid this] show ?thesis
    by (simp add: demo_remotes_def demo_claim_def digest_def demo_sha_def)
qed

end
