(* ===== verification/Scoped_HTTPS.thy ===== *)
theory Scoped_HTTPS
  imports Host_Files
begin

text \<open>
  \<open>scoped_https.py\<close> and \<open>scoped_https_worker.py\<close>: the operator-scoped public HTTPS fetcher.  The resolver, the
  connection and the parsed policy document are inputs; \<open>is_global\<close> stands for the interpreter's address tables.
\<close>

section \<open>URLs\<close>

text \<open>\<open>urlsplit\<close> on a text without spaces and control characters.\<close>

definition break_at :: "(char \<Rightarrow> bool) \<Rightarrow> string \<Rightarrow> string \<times> string" where
  "break_at P s = (takeWhile (\<lambda>c. \<not> P c) s, dropWhile (\<lambda>c. \<not> P c) s)"

record url_parts =
  up_scheme :: string
  up_netloc :: string
  up_path :: string
  up_query :: string
  up_fragment :: string

definition scheme_char :: "char \<Rightarrow> bool" where
  "scheme_char c \<longleftrightarrow> is_alnum c \<or> c \<in> set ''+-.''"

definition urlsplit :: "string \<Rightarrow> url_parts" where
  "urlsplit url =
     (let (word, after) = break_at (\<lambda>c. c = CHR '':'') url;
          has = (after \<noteq> [] \<and> word \<noteq> [] \<and> is_alpha (hd word) \<and> list_all scheme_char word);
          rest = (if has then tl after else url);
          (netloc, tail) = (if starts_with ''//'' rest then break_at (\<lambda>c. c \<in> set ''/?#'') (drop 2 rest) else ([], rest));
          (front, fragment) = break_at (\<lambda>c. c = CHR ''#'') tail;
          (path, query) = break_at (\<lambda>c. c = CHR ''?'') front
      in \<lparr>up_scheme = (if has then py_lower word else []), up_netloc = netloc, up_path = path, up_query = tl query,
          up_fragment = tl fragment\<rparr>)"

text \<open>
  Percent-decoding of a parameter name, to code points: each ASCII run becomes bytes and must be UTF-8.
  \<open>lower_point\<close> covers the code points whose lower case contains an ASCII letter; the others stay above 127.
\<close>

fun percent_bytes :: "string \<Rightarrow> nat list" where
  "percent_bytes [] = []"
| "percent_bytes (c # s) =
     (if c = CHR ''%'' \<and> 2 \<le> length s \<and> is_hex (lower_char (hd s)) \<and> is_hex (lower_char (s ! 1))
      then (16 * hex_value (lower_char (hd s)) + hex_value (lower_char (s ! 1))) # percent_bytes (drop 2 s)
      else char_code c # percent_bytes s)"

fun utf8_points :: "nat list \<Rightarrow> nat list option" where
  "utf8_points [] = Some []"
| "utf8_points (a # s) =
     (if a < 128 then map_option (Cons a) (utf8_points s)
      else if 194 \<le> a \<and> a \<le> 223 then
        (case s of b # t \<Rightarrow> if utf8_cont b then map_option (Cons ((a - 192) * 64 + (b - 128))) (utf8_points t) else None | _ \<Rightarrow> None)
      else if 224 \<le> a \<and> a \<le> 239 then
        (case s of b # c # t \<Rightarrow> if utf8_second a b \<and> utf8_cont c
            then map_option (Cons ((a - 224) * 4096 + (b - 128) * 64 + (c - 128))) (utf8_points t) else None | _ \<Rightarrow> None)
      else if 240 \<le> a \<and> a \<le> 244 then
        (case s of b # c # d # t \<Rightarrow> if utf8_second a b \<and> utf8_cont c \<and> utf8_cont d
            then map_option (Cons ((a - 240) * 262144 + (b - 128) * 4096 + (c - 128) * 64 + (d - 128))) (utf8_points t) else None
          | _ \<Rightarrow> None)
      else None)"

fun ascii_runs :: "string \<Rightarrow> (bool \<times> string) list" where
  "ascii_runs [] = []"
| "ascii_runs (c # s) = (let a = (char_code c < 128) in
     case ascii_runs s of
       (b, w) # ws \<Rightarrow> if a = b then (a, c # w) # ws else (a, [c]) # (b, w) # ws
     | [] \<Rightarrow> [(a, [c])])"

definition unquote_run :: "bool \<times> string \<Rightarrow> nat list option" where
  "unquote_run r = (case r of (a, w) \<Rightarrow> if a then utf8_points (percent_bytes w) else Some (map char_code w))"

definition unquote :: "string \<Rightarrow> nat list option" where
  "unquote s = (if CHR ''%'' \<notin> set s then Some (map char_code s)
     else map_option concat (those (map unquote_run (ascii_runs s))))"

definition lower_point :: "nat \<Rightarrow> nat list" where
  "lower_point p = (if p < 256 then [char_code (lower_char (char_of p))] else if p = 8490 then [107]
     else if p = 304 then [105, 775] else [p])"

definition FORBIDDEN_PARAMETERS :: "string list" where
  "FORBIDDEN_PARAMETERS = [''token'', ''access_token'', ''apikey'', ''api_key'', ''secret'', ''password'', ''auth'']"

text \<open>One component of the query: \<open>unquote\<close> in strict mode raises a \<open>ValueError\<close> that nothing here catches.\<close>

definition check_parameter :: "string \<Rightarrow> unit result" where
  "check_parameter component = (case unquote (fst (break_at (\<lambda>c. c = CHR ''='') component)) of
       None \<Rightarrow> Inl ValueError
     | Some points \<Rightarrow>
         (let decoded = concat (map lower_point points) in
          if decoded \<in> set (map (map char_code) FORBIDDEN_PARAMETERS) \<or> list_ex (\<lambda>p. p \<in> set (map char_code ''&;='')) decoded
          then Inl PermissionError else Inr ()))"

definition url_host_char :: "char \<Rightarrow> bool" where
  "url_host_char c \<longleftrightarrow> in_range (CHR ''a'') (CHR ''z'') c \<or> is_digit c \<or> c \<in> set ''.-''"

definition url_port_ok :: "string \<Rightarrow> bool" where
  "url_port_ok port \<longleftrightarrow> port = [] \<or> (list_all is_digit port \<and> decimal_value port = 443)"

text \<open>
  \<open>_url_parts\<close>.  A bracketed authority is either refused by \<open>urlsplit\<close> or has an address literal for a host
  name, and user information in front of an \<open>@\<close> is refused, so both are refused here.
\<close>

definition url_parts_of :: "string \<Rightarrow> (string \<times> string) result" where
  "url_parts_of url =
     (if url = [] \<or> 2048 < int (length url) then Inl PermissionError
      else if list_ex (\<lambda>c. char_code c < 33 \<or> char_code c = 127 \<or> c = BSLASH) url then Inl PermissionError
      else (let parts = urlsplit url;
                (name, colon) = break_at (\<lambda>c. c = CHR '':'') (up_netloc parts);
                host = py_lower name
            in if up_scheme parts \<noteq> ''https'' \<or> host = [] \<or> CHR ''@'' \<in> set (up_netloc parts) \<or> up_fragment parts \<noteq> []
                 \<or> ends_with ''.'' host then Inl PermissionError
               else if \<not> url_port_ok (tl colon) then Inl PermissionError
               else if \<not> list_all url_host_char host then Inl PermissionError
               else rbind (if up_query parts = [] then Inr () else rcheck_list check_parameter (split_on (CHR ''&'') (up_query parts))) (\<lambda>_.
                 let path = (if up_path parts = [] then ''/'' else up_path parts)
                 in Inr (host, path @ (if up_query parts = [] then [] else CHR ''?'' # up_query parts)))))"

section \<open>Addresses\<close>

datatype ip_address = IPv4 int | IPv6 int

datatype family = AF_INET | AF_INET6 | AF_OTHER

text \<open>One row of \<open>getaddrinfo\<close>; the address text is parsed, \<open>dns_scoped\<close> says that it carried a scope id.\<close>

record dns_answer =
  dns_family :: family
  dns_stream :: bool
  dns_port :: "int option"     \<comment> \<open>\<open>None\<close>: not a socket address pair\<close>
  dns_scoped :: bool
  dns_ip :: ip_address

definition v6_prefix :: "int \<Rightarrow> nat \<Rightarrow> int \<Rightarrow> bool" where
  "v6_prefix net bits a \<longleftrightarrow> a div 2 ^ (128 - bits) = net div 2 ^ (128 - bits)"

text \<open>IPv4-mapped, 6to4, Teredo and the two NAT64 networks.\<close>

definition embeds_v4 :: "int \<Rightarrow> bool" where
  "embeds_v4 a \<longleftrightarrow> v6_prefix 0xffff00000000 96 a \<or> v6_prefix 0x20020000000000000000000000000000 16 a
     \<or> v6_prefix 0x20010000000000000000000000000000 32 a \<or> v6_prefix 0x64ff9b000000000000000000000000 96 a
     \<or> v6_prefix 0x64ff9b000100000000000000000000 48 a"

definition check_address :: "(ip_address \<Rightarrow> bool) \<Rightarrow> dns_answer \<Rightarrow> unit result" where
  "check_address is_global a =
     (if dns_family a = AF_OTHER then Inl PermissionError
      else if \<not> dns_stream a \<or> dns_port a \<noteq> Some 443 then Inl PermissionError
      else if dns_scoped a then Inl PermissionError
      else if \<not> is_global (dns_ip a) then Inl PermissionError
      else (case dns_ip a of
          IPv6 n \<Rightarrow> if embeds_v4 n then Inl PermissionError else Inr ()
        | IPv4 _ \<Rightarrow> Inr ()))"

definition resolve_public_addresses :: "(ip_address \<Rightarrow> bool) \<Rightarrow> dns_answer list \<Rightarrow> dns_answer list result" where
  "resolve_public_addresses is_global answers =
     (if answers = [] then Inl PermissionError
      else rbind (rcheck_list (check_address is_global) answers) (\<lambda>_. Inr answers))"

text \<open>\<open>connect\<close>: the vetted addresses in order, \<open>attempt\<close> says whether TCP and TLS to one succeed.\<close>

fun connect_first :: "(dns_answer \<Rightarrow> bool) \<Rightarrow> dns_answer list \<Rightarrow> dns_answer result" where
  "connect_first attempt [] = Inl OSError"
| "connect_first attempt (a # as) = (if attempt a then Inr a else connect_first attempt as)"

definition pinned_connect :: "(ip_address \<Rightarrow> bool) \<Rightarrow> (dns_answer \<Rightarrow> bool) \<Rightarrow> dns_answer list \<Rightarrow> dns_answer result" where
  "pinned_connect is_global attempt answers = rbind (resolve_public_addresses is_global answers) (connect_first attempt)"

section \<open>Download targets\<close>

definition name_rest :: "char \<Rightarrow> bool" where
  "name_rest c \<longleftrightarrow> is_alnum c \<or> c = CHR ''.''"

definition version_char :: "char \<Rightarrow> bool" where
  "version_char c \<longleftrightarrow> is_alnum c \<or> c \<in> set ''.+_-''"

text \<open>\<open>name_version.tar.gz\<close> with a package name: the name ends at the first underscore.\<close>

definition tarball_name :: "string \<Rightarrow> string option" where
  "tarball_name f =
     (let (name, tail) = break_at (\<lambda>c. c = CHR ''_'') f;
          version = take (length (tl tail) - 7) (tl tail)
      in if name \<noteq> [] \<and> is_alpha (hd name) \<and> list_all name_rest name \<and> ends_with ''.tar.gz'' (tl tail)
            \<and> version \<noteq> [] \<and> list_all version_char version
         then Some name else None)"

definition leap :: "int \<Rightarrow> bool" where
  "leap y \<longleftrightarrow> 4 dvd y \<and> (100 dvd y \<longrightarrow> 400 dvd y)"

definition month_days :: "int \<Rightarrow> int \<Rightarrow> int" where
  "month_days y m = (if m = 2 then (if leap y then 29 else 28) else if m \<in> {4, 6, 9, 11} then 30 else 31)"

text \<open>\<open>date.fromisoformat\<close> of \<open>dddd-dd-dd\<close>.\<close>

definition iso_shape :: "string \<Rightarrow> bool" where
  "iso_shape d \<longleftrightarrow> length d = 10 \<and> d ! 4 = CHR ''-'' \<and> d ! 7 = CHR ''-''
     \<and> list_all is_digit (take 4 d @ take 2 (drop 5 d) @ drop 8 d)"

definition valid_date :: "string \<Rightarrow> bool" where
  "valid_date d = (let y = decimal_value (take 4 d); m = decimal_value (take 2 (drop 5 d)); n = decimal_value (drop 8 d) in
     1 \<le> y \<and> 1 \<le> m \<and> m \<le> 12 \<and> 1 \<le> n \<and> n \<le> month_days y m)"

definition download_target :: "string \<Rightarrow> string \<Rightarrow> bool \<Rightarrow> unit result" where
  "download_target host target cran_all_paths =
     (if host = ''cran.r-project.org'' \<and> cran_all_paths then
        require (starts_with ''/'' target \<and> CHR ''?'' \<notin> set target) PermissionError
      else if host = ''packagemanager.posit.co'' then
        (let date = take 10 (drop 6 target); file = drop 29 target in
         if starts_with ''/cran/'' target \<and> iso_shape date \<and> starts_with ''/src/contrib/'' (drop 16 target)
            \<and> (file \<in> {''PACKAGES'', ''PACKAGES.gz''} \<or> tarball_name file \<noteq> None)
         then require (valid_date date) ValueError else Inl PermissionError)
      else if host = ''cran.r-project.org'' then
        (let (folder, file) = break_at (\<lambda>c. c = sep) (drop 21 target) in
         require (starts_with ''/src/contrib/Archive/'' target \<and> folder \<noteq> [] \<and> tarball_name (tl file) = Some folder) PermissionError)
      else Inl PermissionError)"

section \<open>The owner policy\<close>

definition REVIEWED_HOSTS :: "string list" where
  "REVIEWED_HOSTS = [''api.github.com'', ''cran.r-project.org'', ''cran-archive.r-project.org'', ''bioconductor.org'',
     ''packagemanager.posit.co'']"

definition SUPPORTED_METHODS :: "string list" where
  "SUPPORTED_METHODS = [''GET'', ''HEAD'']"

record download_grant =
  dg_hosts :: "string list"
  dg_directory :: string
  dg_max_bytes :: int
  dg_timeout :: int
  dg_cran_all :: bool

record https_scope =
  hs_hosts :: "string list"
  hs_methods :: "string list"
  hs_max_bytes :: int
  hs_timeout :: int
  hs_downloads :: "download_grant option"

definition int_in :: "int \<Rightarrow> int \<Rightarrow> pyval \<Rightarrow> bool" where
  "int_in lo hi v = (case v of PInt i \<Rightarrow> lo \<le> i \<and> i \<le> hi | _ \<Rightarrow> False)"

definition the_int :: "pyval \<Rightarrow> int" where
  "the_int v = (case v of PInt i \<Rightarrow> i | _ \<Rightarrow> 0)"

text \<open>A nonempty list of distinct strings out of a catalog.\<close>

definition names_in :: "(string \<Rightarrow> bool) \<Rightarrow> pyval \<Rightarrow> string list option" where
  "names_in allowed v = (case v of
       PList xs \<Rightarrow> if xs \<noteq> [] \<and> list_all is_pstr xs \<and> distinct (map the_str xs) \<and> list_all allowed (map the_str xs)
         then Some (map the_str xs) else None
     | _ \<Rightarrow> None)"

definition receipt_char :: "char \<Rightarrow> bool" where
  "receipt_char c \<longleftrightarrow> is_alnum c \<or> c \<in> set ''._-''"

definition download_directory :: "string \<Rightarrow> bool" where
  "download_directory d \<longleftrightarrow> (case split_on sep d of
       [a, b, c, name, e] \<Rightarrow> [a, b, c] = [''data-raw'', ''cran-history'', ''reports''] \<and> e = ''downloads''
         \<and> class_match receipt_char 1 101 name \<and> is_alnum (hd name)
     | _ \<Rightarrow> False)"

definition read_downloads :: "string list \<Rightarrow> pyval \<Rightarrow> download_grant result" where
  "read_downloads hosts v = (case v of
       PDict d \<Rightarrow>
         (let keys = {''hosts'', ''directory'', ''max_response_bytes'', ''timeout_seconds''};
              own = names_in (\<lambda>h. h \<in> set hosts \<and> h \<in> {''cran.r-project.org'', ''packagemanager.posit.co''}) (dict_get d ''hosts'')
          in if field_names d \<noteq> keys \<and> field_names d \<noteq> insert ''cran_all_paths'' keys then Inl ValueError
             else if ''cran_all_paths'' \<in> field_names d \<and> dict_get d ''cran_all_paths'' \<notin> {PBool True, PBool False} then Inl ValueError
             else if own = None \<or> \<not> int_in 1 16777216 (dict_get d ''max_response_bytes'') \<or> \<not> int_in 1 60 (dict_get d ''timeout_seconds'')
             then Inl ValueError
             else if \<not> (is_pstr (dict_get d ''directory'') \<and> download_directory (the_str (dict_get d ''directory''))) then Inl ValueError
             else Inr \<lparr>dg_hosts = the own, dg_directory = the_str (dict_get d ''directory''),
                dg_max_bytes = the_int (dict_get d ''max_response_bytes''), dg_timeout = the_int (dict_get d ''timeout_seconds''),
                dg_cran_all = (dict_get d ''cran_all_paths'' = PBool True)\<rparr>)
     | _ \<Rightarrow> Inl ValueError)"

definition read_scope :: "bool \<Rightarrow> pyval \<Rightarrow> https_scope result" where
  "read_scope v2 spec = (case spec of
       PDict d \<Rightarrow>
         (let keys = {''hosts'', ''methods'', ''max_response_bytes'', ''timeout_seconds''};
              hosts = names_in (\<lambda>h. h \<in> set REVIEWED_HOSTS) (dict_get d ''hosts'');
              methods = names_in (\<lambda>m. m \<in> set SUPPORTED_METHODS) (dict_get d ''methods'')
          in if field_names d \<noteq> (if v2 then insert ''downloads'' keys else keys) then Inl ValueError
             else if hosts = None \<or> methods = None then Inl ValueError
             else if \<not> int_in 1 1048576 (dict_get d ''max_response_bytes'') \<or> \<not> int_in 1 20 (dict_get d ''timeout_seconds'') then Inl ValueError
             else rbind (if v2 then rbind (read_downloads (the hosts) (dict_get d ''downloads'')) (\<lambda>g. Inr (Some g)) else Inr None) (\<lambda>downloads.
               Inr \<lparr>hs_hosts = the hosts, hs_methods = the methods, hs_max_bytes = the_int (dict_get d ''max_response_bytes''),
                 hs_timeout = the_int (dict_get d ''timeout_seconds''), hs_downloads = downloads\<rparr>))
     | _ \<Rightarrow> Inl ValueError)"

definition read_document :: "pyval \<Rightarrow> (string \<times> https_scope) list result" where
  "read_document doc = (case doc of
       PDict d \<Rightarrow>
         if field_names d \<noteq> {''version'', ''workspaces''} then Inl ValueError
         else if dict_get d ''version'' \<noteq> PInt 1 \<and> dict_get d ''version'' \<noteq> PInt 2 then Inl ValueError
         else (case dict_get d ''workspaces'' of
             PDict scopes \<Rightarrow>
               if field_names scopes \<noteq> {''public-data''} then Inl ValueError
               else rbind (read_scope (dict_get d ''version'' = PInt 2) (dict_get scopes ''public-data'')) (\<lambda>s. Inr [(''public-data'', s)])
           | _ \<Rightarrow> Inl ValueError)
     | _ \<Rightarrow> Inl ValueError)"

text \<open>The file \<open>public-https.yaml\<close> in the opened control directory; a missing file is an empty policy.\<close>

definition read_policy :: "int \<Rightarrow> pyval lookup \<Rightarrow> (string \<times> https_scope) list result" where
  "read_policy me file = (case file of
       Missing \<Rightarrow> Inr []
     | IsLink \<Rightarrow> Inl OSError
     | Found s doc \<Rightarrow>
         if st_type s \<noteq> Regular \<or> \<not> owner_or_root me s \<or> open_to_others s then Inl PermissionError
         else if 16384 < st_size s then Inl ValueError
         else read_document doc)"

text \<open>The constructor: \<open>root\<close> and \<open>steps\<close> are what the walk to the control directory meets.\<close>

definition new_https_policy :: "int \<Rightarrow> host_fs \<Rightarrow> string \<Rightarrow> string list \<Rightarrow> stat \<Rightarrow> dir_open list \<Rightarrow> pyval lookup
    \<Rightarrow> (string \<times> https_scope) list result" where
  "new_https_policy me fs config_dir workspace_roots root steps file =
     (let cfg = norm_comps True [] (split_on sep (if is_abs config_dir then config_dir else path_join (to_path (fs_cwd fs)) config_dir)) in
      if list_ex (\<lambda>r. starts_with (realpath_comps fs r) cfg) workspace_roots then Inl PermissionError
      else rbind (trusted_walk me root steps) (\<lambda>dir. case dir of None \<Rightarrow> Inr [] | Some _ \<Rightarrow> read_policy me file))"

definition authorize :: "(string \<times> https_scope) list \<Rightarrow> string \<Rightarrow> string \<Rightarrow> string \<Rightarrow> (string \<times> string \<times> https_scope) result" where
  "authorize scopes workspace_id meth url =
     rbind (url_parts_of url) (\<lambda>(host, target).
       case map_of scopes workspace_id of
         None \<Rightarrow> Inl PermissionError
       | Some scope \<Rightarrow>
           if host \<notin> set (hs_hosts scope) \<or> meth \<notin> set (hs_methods scope) then Inl PermissionError
           else rbind (if host = ''packagemanager.posit.co'' then download_target host target False else Inr ()) (\<lambda>_.
             Inr (host, target, scope)))"

definition authorize_download :: "(string \<times> https_scope) list \<Rightarrow> string \<Rightarrow> string \<Rightarrow> (string \<times> string \<times> download_grant) result" where
  "authorize_download scopes workspace_id url =
     rbind (authorize scopes workspace_id ''GET'' url) (\<lambda>(host, target, scope).
       case hs_downloads scope of
         None \<Rightarrow> Inl PermissionError
       | Some grant \<Rightarrow>
           if host \<notin> set (dg_hosts grant) then Inl PermissionError
           else rbind (download_target host target (dg_cran_all grant)) (\<lambda>_. Inr (host, target, grant)))"

section \<open>Requests\<close>

definition parse_curl :: "string list \<Rightarrow> (string \<times> string) result" where
  "parse_curl argv = (case argv of
       [tool, flag, url] \<Rightarrow>
         if tool \<noteq> ''curl'' then Inl PermissionError
         else if flag = ''-fsS'' then Inr (''GET'', url)
         else if flag = ''-sSI'' then Inr (''HEAD'', url)
         else Inl PermissionError
     | _ \<Rightarrow> Inl PermissionError)"

definition clamp_to :: "int \<Rightarrow> int \<Rightarrow> int" where
  "clamp_to budget t = min (max 1 t) budget"

text \<open>What the connection yields; the body is what \<open>read\<close> returns for any size.\<close>

record http_reply =
  rp_status :: int
  rp_length :: "int option"
  rp_headers :: "(string \<times> string) list"
  rp_body :: string

definition utf8_char :: "char \<Rightarrow> string" where
  "utf8_char c = (let n = char_code c in if n < 128 then [c] else [char_of (192 + n div 64), char_of (128 + n mod 64)])"

definition utf8_text :: "string \<Rightarrow> string" where
  "utf8_text s = concat (map utf8_char s)"

definition SAFE_HEADERS :: "string list" where
  "SAFE_HEADERS = [''content-type'', ''content-length'', ''etag'', ''last-modified'']"

definition CRLF :: string where
  "CRLF = [CHR 0x0D, CHR 0x0A]"

fun head_lines :: "int \<Rightarrow> (string \<times> string) list \<Rightarrow> string list result" where
  "head_lines remaining [] = Inr []"
| "head_lines remaining ((key, v) # hs) =
     (if py_lower key \<notin> set SAFE_HEADERS then head_lines remaining hs
      else if list_ex (\<lambda>c. char_code c < 32 \<or> char_code c = 127) v then Inl ValueError
      else (let line = key @ '': '' @ take 512 v; left = remaining - (int (utf8_len line) + 2) in
        if left < 0 then Inl ValueError
        else rbind (head_lines left hs) (\<lambda>ls. Inr (line # ls))))"

fun join_lines :: "string list \<Rightarrow> string" where
  "join_lines [] = []"
| "join_lines [l] = l"
| "join_lines (l # m # ls) = l @ CRLF @ join_lines (m # ls)"

definition head_text :: "int \<Rightarrow> http_reply \<Rightarrow> string result" where
  "head_text limit r =
     (let status = ''HTTP/1.1 '' @ show_int (rp_status r); remaining = limit - int (utf8_len status) - 4 in
      if remaining < 0 then Inl ValueError
      else rbind (head_lines remaining (rp_headers r)) (\<lambda>ls. Inr (utf8_text (join_lines (status # ls) @ CRLF @ CRLF))))"

record https_result =
  hr_stdout :: string        \<comment> \<open>as UTF-8 bytes\<close>
  hr_stderr :: string
  hr_exit :: int
  hr_status :: int
  hr_bytes :: nat

definition run_reply :: "string \<Rightarrow> int \<Rightarrow> http_reply \<Rightarrow> https_result result" where
  "run_reply meth limit r =
     (if 300 \<le> rp_status r \<and> rp_status r < 400 then Inl PermissionError
      else rbind (if meth = ''HEAD'' then Inr []
          else if (case rp_length r of None \<Rightarrow> False | Some n \<Rightarrow> limit < n) then Inl ValueError
          else (let body = take (nat (limit + 1)) (rp_body r) in
            if limit < int (length body) then Inl ValueError else Inr body)) (\<lambda>body.
        rbind (if meth = ''HEAD'' then head_text limit r
            else Inr (decode_replace body)) (\<lambda>out.
          if limit < int (length out) then Inl ValueError
          else Inr \<lparr>hr_stdout = out, hr_stderr = (if rp_status r < 400 then [] else ''HTTP '' @ show_int (rp_status r)),
            hr_exit = (if 200 \<le> rp_status r \<and> rp_status r < 300 then 0 else 22), hr_status = rp_status r, hr_bytes = length body\<rparr>)))"

record https_request =
  rq_host :: string
  rq_timeout :: int
  rq_method :: string
  rq_target :: string

text \<open>\<open>run\<close>; \<open>net\<close> performs one request over a pinned connection or raises.\<close>

definition run :: "(string \<times> https_scope) list \<Rightarrow> (https_request \<Rightarrow> http_reply result) \<Rightarrow> string \<Rightarrow> string list \<Rightarrow> int \<Rightarrow> string
    \<Rightarrow> https_result result" where
  "run scopes net workspace_id argv timeout cwd =
     (if cwd \<noteq> [] then Inl PermissionError
      else rbind (parse_curl argv) (\<lambda>(meth, url).
        rbind (authorize scopes workspace_id meth url) (\<lambda>(host, target, scope).
        rbind (net \<lparr>rq_host = host, rq_timeout = clamp_to (hs_timeout scope) timeout, rq_method = meth, rq_target = target\<rparr>) (\<lambda>r.
          run_reply meth (hs_max_bytes scope) r))))"

section \<open>The worker process\<close>

definition worker_command :: "string \<Rightarrow> string \<Rightarrow> string \<Rightarrow> string \<Rightarrow> string \<Rightarrow> int \<Rightarrow> string list" where
  "worker_command python config_dir workspace_id meth url timeout =
     [python, ''-I'', ''-m'', ''agentporter.scoped_https_worker'', ''--config-dir'', config_dir, ''--workspace-id'', workspace_id,
      ''--method'', meth, ''--url'', url, ''--timeout'', show_int timeout]"

datatype worker_end = WorkerTimeout | WorkerDone int string string

record bounded_result =
  br_exit :: int
  br_stdout :: string
  br_stderr :: string
  br_timeout :: bool

text \<open>\<open>subprocess.run(text=True)\<close> reads the pipes with universal newlines.\<close>

fun universal_newlines :: "string \<Rightarrow> string" where
  "universal_newlines [] = []"
| "universal_newlines (c # s) =
     (if c = CHR 0x0D then CHR 0x0A # universal_newlines (if starts_with [CHR 0x0A] s then tl s else s)
      else c # universal_newlines s)"

text \<open>\<open>run_bounded\<close>: the command it starts and the result it makes of the way the worker ends.\<close>

definition run_bounded :: "(string \<times> https_scope) list \<Rightarrow> string \<Rightarrow> string \<Rightarrow> (string list \<Rightarrow> int \<Rightarrow> worker_end)
    \<Rightarrow> string \<Rightarrow> string list \<Rightarrow> int \<Rightarrow> string \<Rightarrow> bounded_result result" where
  "run_bounded scopes python config_dir start workspace_id argv timeout cwd =
     (if cwd \<noteq> [] then Inl PermissionError
      else rbind (parse_curl argv) (\<lambda>(meth, url).
        rbind (authorize scopes workspace_id meth url) (\<lambda>(host, target, scope).
          let budget = clamp_to (hs_timeout scope) timeout
          in Inr (case start (worker_command python config_dir workspace_id meth url budget) budget of
                WorkerTimeout \<Rightarrow> \<lparr>br_exit = 124, br_stdout = [], br_stderr = ''Public HTTPS request timed out'', br_timeout = True\<rparr>
              | WorkerDone code out err \<Rightarrow> \<lparr>br_exit = code, br_stdout = universal_newlines out,
                  br_stderr = take 4096 (universal_newlines err), br_timeout = False\<rparr>))))"

text \<open>
  \<open>main\<close> of the worker: it loads the policy itself (\<open>load\<close>) and turns refusals into exit status 77.  \<open>cls\<close> is the class
  name of the exception it reports, which the errors of this model are too coarse to name.
\<close>

record worker_output =
  wo_exit :: int
  wo_stdout :: string
  wo_stderr :: string

definition denial_line :: "string \<Rightarrow> string" where
  "denial_line cls = ''Scoped public HTTPS denied: '' @ cls @ [CHR 0x0A]"

definition error_line :: "string \<Rightarrow> string" where
  "error_line err = (if err = [] then [] else err @ [CHR 0x0A])"

definition worker_main :: "(string \<times> https_scope) list result \<Rightarrow> (https_request \<Rightarrow> http_reply result) \<Rightarrow> string \<Rightarrow> string \<Rightarrow> string
    \<Rightarrow> string \<Rightarrow> int \<Rightarrow> worker_output result" where
  "worker_main load net cls workspace_id meth url timeout =
     (case rbind load (\<lambda>scopes. run scopes net workspace_id [''curl'', (if meth = ''GET'' then ''-fsS'' else ''-sSI''), url] timeout []) of
        Inr r \<Rightarrow> Inr \<lparr>wo_exit = hr_exit r, wo_stdout = hr_stdout r, wo_stderr = error_line (hr_stderr r)\<rparr>
      | Inl e \<Rightarrow> if is_permission_error e \<or> e \<in> {ValueError, OSError, FileNotFoundError}
          then Inr \<lparr>wo_exit = 77, wo_stdout = [], wo_stderr = denial_line cls\<rparr> else Inl e)"

text \<open>
  The worker as a process: \<open>argparse\<close> on the options of its command line, exit status 1 after an uncaught exception.  What
  else goes to its stderr, depending on its command line, is a parameter: the usage text of \<open>argparse\<close>, the traceback of an
  uncaught exception, and the warning that \<open>logging\<close> prints, without a handler, before a refusal leaves \<open>run\<close>.  Informative
  messages are below the level that is printed, so a run that succeeds adds nothing.
\<close>

record worker_diag =
  wd_class :: string
  wd_log :: string

fun option_pairs :: "string list \<Rightarrow> (string \<times> string) list" where
  "option_pairs (k # v # r) = (k, v) # option_pairs r"
| "option_pairs _ = []"

definition worker_process :: "(string \<times> https_scope) list result \<Rightarrow> (https_request \<Rightarrow> http_reply result) \<Rightarrow> (string list \<Rightarrow> worker_diag)
    \<Rightarrow> string list \<Rightarrow> worker_end" where
  "worker_process load net diag cmd =
     (let opts = option_pairs (drop 4 cmd); log = wd_log (diag cmd) in
      case (map_of opts ''--workspace-id'', map_of opts ''--method'', map_of opts ''--url'', map_of opts ''--timeout'') of
        (Some w, Some m, Some u, Some t) \<Rightarrow>
          if m \<notin> set SUPPORTED_METHODS \<or> t = [] \<or> \<not> list_all is_digit t then WorkerDone 2 [] log
          else (case worker_main load net (wd_class (diag cmd)) w m u (decimal_value t) of
              Inr o' \<Rightarrow> WorkerDone (wo_exit o') (wo_stdout o') (if wo_exit o' = 77 then log @ wo_stderr o' else wo_stderr o')
            | Inl _ \<Rightarrow> WorkerDone 1 [] log)
      | _ \<Rightarrow> WorkerDone 2 [] log)"

text \<open>The checks of \<open>JobManager.start_scoped_https_job\<close> and the command of the job.\<close>

definition scoped_https_job :: "host_fs \<Rightarrow> string \<Rightarrow> string \<Rightarrow> string \<Rightarrow> string \<Rightarrow> string \<Rightarrow> string \<Rightarrow> int
    \<Rightarrow> (string list \<times> string list) result" where
  "scoped_https_job fs python workspace_id workspace_path config_dir meth url timeout =
     (if workspace_id \<noteq> ''public-data'' \<or> meth \<notin> set SUPPORTED_METHODS then Inl PermissionError
      else rbind (url_parts_of url) (\<lambda>(host, _).
        if \<not> (1 \<le> timeout \<and> timeout \<le> 20) then Inl ValueError
        else if realpath fs config_dir = realpath fs workspace_path
             \<or> starts_with (realpath fs workspace_path @ ''/'') (realpath fs config_dir) then Inl PermissionError
        else Inr (worker_command python (realpath fs config_dir) workspace_id meth url timeout,
          [''scoped-public-https'', meth, host])))"

section \<open>What a loaded policy can grant\<close>

definition scope_ok :: "https_scope \<Rightarrow> bool" where
  "scope_ok s \<longleftrightarrow> set (hs_hosts s) \<subseteq> set REVIEWED_HOSTS \<and> set (hs_methods s) \<subseteq> set SUPPORTED_METHODS
     \<and> 1 \<le> hs_max_bytes s \<and> hs_max_bytes s \<le> 1048576 \<and> 1 \<le> hs_timeout s \<and> hs_timeout s \<le> 20"

lemma names_in_Some: "names_in P v = Some xs \<Longrightarrow> xs \<noteq> [] \<and> distinct xs \<and> list_all P xs"
  by (auto simp: names_in_def split: pyval.splits if_splits)

lemma int_in_iff: "int_in lo hi v \<longleftrightarrow> (\<exists>i. v = PInt i \<and> lo \<le> i \<and> i \<le> hi)"
  by (cases v) (auto simp: int_in_def)

lemma read_scope_ok:
  assumes "read_scope v2 spec = Inr s"
  shows "scope_ok s"
proof -
  obtain d where spec: "spec = PDict d" using assms by (cases spec) (simp_all add: read_scope_def)
  note r = assms [unfolded read_scope_def spec pyval.case Let_def guard_Inr_iff rbind_Inr_iff]
  obtain hosts where h: "names_in (\<lambda>h. h \<in> set REVIEWED_HOSTS) (dict_get d ''hosts'') = Some hosts"
    using r by (cases "names_in (\<lambda>h. h \<in> set REVIEWED_HOSTS) (dict_get d ''hosts'')") simp_all
  obtain methods where m: "names_in (\<lambda>m. m \<in> set SUPPORTED_METHODS) (dict_get d ''methods'') = Some methods"
    using r by (cases "names_in (\<lambda>m. m \<in> set SUPPORTED_METHODS) (dict_get d ''methods'')") simp_all
  have i: "int_in 1 1048576 (dict_get d ''max_response_bytes'')" "int_in 1 20 (dict_get d ''timeout_seconds'')"
    using r by blast+
  obtain b t where bt: "dict_get d ''max_response_bytes'' = PInt b" "1 \<le> b" "b \<le> 1048576"
    "dict_get d ''timeout_seconds'' = PInt t" "1 \<le> t" "t \<le> 20" using i unfolding int_in_iff by blast
  have "hs_hosts s = hosts" "hs_methods s = methods" "hs_max_bytes s = b" "hs_timeout s = t"
    using r unfolding h m bt(1,4) by (auto simp: the_int_def)
  then show ?thesis using names_in_Some [OF h] names_in_Some [OF m] bt by (auto simp: scope_ok_def list_all_iff)
qed

lemma read_document_ok:
  assumes "read_document doc = Inr scopes"
  obtains s where "scopes = [(''public-data'', s)]" "scope_ok s"
proof -
  obtain d where doc: "doc = PDict d" using assms by (cases doc) (simp_all add: read_document_def)
  note r = assms [unfolded read_document_def doc pyval.case]
  obtain w where w: "dict_get d ''workspaces'' = PDict w"
    using r by (cases "dict_get d ''workspaces''") (simp_all split: if_splits)
  obtain s where "read_scope (dict_get d ''version'' = PInt 2) (dict_get w ''public-data'') = Inr s" "scopes = [(''public-data'', s)]"
    using r unfolding w by (auto split: if_splits)
  with that read_scope_ok show thesis by blast
qed

lemma new_https_policy_scope:
  assumes "new_https_policy me fs config_dir roots root steps file = Inr scopes" and "map_of scopes w = Some s"
  shows "w = ''public-data'' \<and> scope_ok s"
proof -
  from assms(1) obtain dir :: "stat option" where "(case dir of None \<Rightarrow> Inr [] | Some _ \<Rightarrow> read_policy me file) = Inr scopes"
    unfolding new_https_policy_def Let_def guard_Inr_iff rbind_Inr_iff by blast
  then have "scopes = [] \<or> read_policy me file = Inr scopes" by (cases dir) auto
  then have "scopes = [] \<or> (\<exists>doc. read_document doc = Inr scopes)" by (auto simp: read_policy_def split: lookup.splits if_splits)
  then show ?thesis
  proof
    assume "\<exists>doc. read_document doc = Inr scopes"
    then obtain s' where "scopes = [(''public-data'', s')]" "scope_ok s'" using read_document_ok by blast
    with assms(2) show ?thesis by (auto split: if_splits)
  qed (use assms(2) in simp)
qed

section \<open>What a request can reach\<close>

lemma break_at_append: "break_at P s = (a, b) \<Longrightarrow> s = a @ b"
  by (auto simp: break_at_def)

lemma break_at_hd: "break_at P s = (a, b) \<Longrightarrow> b \<noteq> [] \<Longrightarrow> P (hd b)"
  by (metis break_at_def hd_dropWhile prod.inject)

lemma break_at_none: "break_at P s = (a, b) \<Longrightarrow> c \<in> set a \<Longrightarrow> \<not> P c"
  by (auto simp: break_at_def dest: set_takeWhileD)

lemma urlsplit_https:
  assumes "up_scheme (urlsplit url) = ''https''" and "up_netloc (urlsplit url) \<noteq> []"
  obtains word tail where "url = word @ ''://'' @ up_netloc (urlsplit url) @ tail" "py_lower word = ''https''"
    "tail = [] \<or> hd tail \<in> set ''/?#''"
    "up_path (urlsplit url) = [] \<or> hd (up_path (urlsplit url)) = CHR ''/''"
proof -
  obtain word after where w: "break_at (\<lambda>c. c = CHR '':'') url = (word, after)" by fastforce
  define has where "has \<longleftrightarrow> after \<noteq> [] \<and> word \<noteq> [] \<and> is_alpha (hd word) \<and> list_all scheme_char word"
  define rest where "rest = (if has then tl after else url)"
  obtain netloc tail where t: "(if starts_with ''//'' rest then break_at (\<lambda>c. c \<in> set ''/?#'') (drop 2 rest) else ([], rest)) = (netloc, tail)"
    by fastforce
  obtain front fragment where f: "break_at (\<lambda>c. c = CHR ''#'') tail = (front, fragment)" by fastforce
  obtain path query where q: "break_at (\<lambda>c. c = CHR ''?'') front = (path, query)" by fastforce
  have u: "urlsplit url = \<lparr>up_scheme = (if has then py_lower word else []), up_netloc = netloc, up_path = path, up_query = tl query,
      up_fragment = tl fragment\<rparr>"
    by (simp only: urlsplit_def w prod.case Let_def has_def [symmetric] rest_def [symmetric] t f q)
  have has: "has" and word: "py_lower word = ''https''" using assms(1) by (auto simp: u split: if_splits)
  have "starts_with ''//'' rest" using assms(2) t by (auto simp: u split: if_splits)
  then obtain r where r: "rest = ''//'' @ r" unfolding starts_with_iff by blast
  have nt: "break_at (\<lambda>c. c \<in> set ''/?#'') r = (netloc, tail)" using t r by simp
  have "after \<noteq> []" using has by (simp add: has_def)
  with break_at_hd [OF w] have "after = CHR '':'' # rest" using has by (cases after) (auto simp: rest_def)
  with break_at_append [OF w] r break_at_append [OF nt] have url: "url = word @ ''://'' @ netloc @ tail" by simp
  have tail: "tail = [] \<or> hd tail \<in> set ''/?#''" using break_at_hd [OF nt] by blast
  have path: "path = [] \<or> hd path = CHR ''/''"
  proof (cases path)
    case (Cons c p)
    then have fr: "front = c # p @ query" using break_at_append [OF q] by simp
    then have "tail = c # p @ query @ fragment" using break_at_append [OF f] by simp
    with tail have "c \<in> set ''/?#''" by simp
    moreover have "c \<noteq> CHR ''#''" using break_at_none [OF f] fr by auto
    moreover have "c \<noteq> CHR ''?''" using break_at_none [OF q] Cons by auto
    ultimately show ?thesis using Cons by simp
  qed simp
  have n: "up_netloc (urlsplit url) = netloc" "up_path (urlsplit url) = path" by (simp_all add: u)
  show thesis by (rule that [of word tail, unfolded n, OF url word tail path])
qed

text \<open>What an accepted URL names: the host is the authority, up to the case of letters and an explicit port 443.\<close>

definition names_host :: "string \<Rightarrow> string \<Rightarrow> bool" where
  "names_host url host \<longleftrightarrow> starts_with (''https://'' @ host) (py_lower url)
     \<and> (length url = 8 + length host \<or> url ! (8 + length host) \<in> set ''/?#:'')"

lemma url_parts_of_Inr:
  assumes "url_parts_of url = Inr (host, target)"
  shows "host \<noteq> [] \<and> list_all url_host_char host \<and> names_host url host \<and> starts_with ''/'' target"
proof -
  let ?p = "urlsplit url"
  obtain name colon where n: "break_at (\<lambda>c. c = CHR '':'') (up_netloc ?p) = (name, colon)" by fastforce
  note r = assms [unfolded url_parts_of_def Let_def n prod.case guard_Inr_iff rbind_Inr_iff]
  have host: "host = py_lower name" "list_all url_host_char host" "host \<noteq> []" and sch: "up_scheme ?p = ''https''"
    and target: "target = (if up_path ?p = [] then ''/'' else up_path ?p) @ (if up_query ?p = [] then [] else CHR ''?'' # up_query ?p)"
    using r by auto
  have "up_netloc ?p \<noteq> []" using host n break_at_append [OF n] by (auto simp: py_lower_def)
  from urlsplit_https [OF sch this] obtain word tail where
    url: "url = word @ ''://'' @ up_netloc ?p @ tail" and word: "py_lower word = ''https''"
    and tail: "tail = [] \<or> hd tail \<in> set ''/?#''" and path: "up_path ?p = [] \<or> hd (up_path ?p) = CHR ''/''" .
  have len: "length word = 5" using arg_cong [OF word, of length] by (simp add: py_lower_def)
  have split: "url = word @ ''://'' @ name @ colon @ tail" using url break_at_append [OF n] by simp
  have low: "py_lower ''://'' = ''://''" by code_simp
  have "py_lower url = py_lower word @ py_lower ''://'' @ py_lower name @ py_lower (colon @ tail)"
    by (simp add: split py_lower_def)
  then have "starts_with (''https://'' @ host) (py_lower url)" by (simp add: word low host(1))
  moreover have "length url = 8 + length host \<or> url ! (8 + length host) \<in> set ''/?#:''"
  proof (cases "colon @ tail")
    case Nil
    then show ?thesis using split len host(1) by (simp add: py_lower_def)
  next
    case (Cons c t)
    then have "url ! (8 + length host) = c" using split len host(1) by (simp add: py_lower_def nth_append)
    moreover have "c \<in> set ''/?#:''"
      using Cons tail break_at_hd [OF n] by (cases colon) auto
    ultimately show ?thesis by simp
  qed
  moreover have "starts_with ''/'' target" using path target by (cases "up_path ?p") auto
  ultimately show ?thesis using host by (simp add: names_host_def)
qed

lemma authorize_Inr:
  assumes "authorize scopes w meth url = Inr (host, target, scope)"
  shows "url_parts_of url = Inr (host, target) \<and> map_of scopes w = Some scope \<and> host \<in> set (hs_hosts scope) \<and> meth \<in> set (hs_methods scope)"
proof -
  from assms obtain h t where u: "url_parts_of url = Inr (h, t)" by (auto simp: authorize_def)
  obtain sc where "map_of scopes w = Some sc" using assms u by (cases "map_of scopes w") (simp_all add: authorize_def)
  with assms u show ?thesis by (auto simp: authorize_def split: if_splits)
qed

lemma parse_curl_Inr:
  "parse_curl argv = Inr (meth, url) \<longleftrightarrow>
     (argv = [''curl'', ''-fsS'', url] \<and> meth = ''GET'') \<or> (argv = [''curl'', ''-sSI'', url] \<and> meth = ''HEAD'')"
  by (auto simp: parse_curl_def split: list.splits if_splits)

lemma clamp_to_bounds: "1 \<le> b \<Longrightarrow> 1 \<le> clamp_to b t \<and> clamp_to b t \<le> b"
  by (simp add: clamp_to_def)

text \<open>The requests that may leave the gateway.\<close>

definition in_scope_request :: "https_request \<Rightarrow> bool" where
  "in_scope_request rq \<longleftrightarrow> rq_host rq \<in> set REVIEWED_HOSTS \<and> rq_method rq \<in> set SUPPORTED_METHODS
     \<and> 1 \<le> rq_timeout rq \<and> rq_timeout rq \<le> 20 \<and> starts_with ''/'' (rq_target rq)"

lemma run_cases:
  assumes "new_https_policy me fs config_dir roots root steps file = Inr scopes"
  obtains (refused) e where "\<And>net. run scopes net w argv t cwd = Inl e"
  | (sent) meth url host target scope where "cwd = []" "parse_curl argv = Inr (meth, url)"
      "authorize scopes w meth url = Inr (host, target, scope)" "w = ''public-data''" "scope_ok scope"
      "in_scope_request \<lparr>rq_host = host, rq_timeout = clamp_to (hs_timeout scope) t, rq_method = meth, rq_target = target\<rparr>"
      "names_host url host"
      "\<And>net. run scopes net w argv t cwd =
         rbind (net \<lparr>rq_host = host, rq_timeout = clamp_to (hs_timeout scope) t, rq_method = meth, rq_target = target\<rparr>)
           (run_reply meth (hs_max_bytes scope))"
proof (cases "cwd = []")
  case False
  then show thesis by (intro refused) (simp add: run_def)
next
  case cwd: True
  show thesis
  proof (cases "parse_curl argv")
    case (Inl e)
    with cwd show thesis by (intro refused) (simp add: run_def)
  next
    case (Inr p)
    then obtain meth url where p: "parse_curl argv = Inr (meth, url)" by (cases p) auto
    show thesis
    proof (cases "authorize scopes w meth url")
      case (Inl e)
      with cwd p show thesis by (intro refused) (simp add: run_def)
    next
      case (Inr q)
      then obtain host target scope where a: "authorize scopes w meth url = Inr (host, target, scope)" by (cases q) auto
      from authorize_Inr [OF this] have u: "url_parts_of url = Inr (host, target)" and sc: "map_of scopes w = Some scope"
        and mem: "host \<in> set (hs_hosts scope)" "meth \<in> set (hs_methods scope)" by auto
      from new_https_policy_scope [OF assms sc] have w: "w = ''public-data''" and ok: "scope_ok scope" by auto
      from url_parts_of_Inr [OF u] have n: "names_host url host" "starts_with ''/'' target" by auto
      have budget: "1 \<le> hs_timeout scope" "hs_timeout scope \<le> 20" using ok by (simp_all add: scope_ok_def)
      have "in_scope_request \<lparr>rq_host = host, rq_timeout = clamp_to (hs_timeout scope) t, rq_method = meth, rq_target = target\<rparr>"
        using mem ok n(2) clamp_to_bounds [OF budget(1), of t] budget(2) by (auto simp: in_scope_request_def scope_ok_def)
      from sent [OF cwd p a w ok this n(1)] show thesis using cwd p a by (simp add: run_def)
    qed
  qed
qed

text \<open>
  C25.  Public HTTPS never leaves its scope: with any policy the gateway can load, the result of a fetch depends on
  the network only through one GET or HEAD request over TLS to a reviewed host with a time budget of at most 20
  seconds, and a fetch that succeeds was a \<open>curl\<close> command in the public-data workspace whose URL names that
  reviewed host, without user information, on port 443.
\<close>

theorem https_network_confined:
  assumes "new_https_policy me fs config_dir roots root steps file = Inr scopes"
    and "\<And>rq. in_scope_request rq \<Longrightarrow> net rq = net' rq"
  shows "run scopes net w argv t cwd = run scopes net' w argv t cwd
    \<and> (\<forall>r. run scopes net w argv t cwd = Inr r \<longrightarrow> w = ''public-data'' \<and> cwd = []
         \<and> (\<exists>url. \<exists>host \<in> set REVIEWED_HOSTS. names_host url host
              \<and> (argv = [''curl'', ''-fsS'', url] \<or> argv = [''curl'', ''-sSI'', url])))"
proof (cases rule: run_cases [OF assms(1), of w argv t cwd, case_names refused sent])
  case (refused e)
  then show ?thesis by simp
next
  case (sent meth url host target scope)
  have "host \<in> set REVIEWED_HOSTS" using sent(6) by (simp add: in_scope_request_def)
  with sent(1,2,4,7) show ?thesis unfolding sent(8) assms(2) [OF sent(6)] parse_curl_Inr by auto
qed

text \<open>
  A fetch returns no more than its budget: the text, measured in the bytes it has after decoding with
  replacement characters, and the body both stay within the approved size, which is at most 1 MiB; redirects are
  refused and the exit status is 0 exactly for a 2xx response and 22 otherwise.
\<close>

theorem https_output_bounded:
  assumes "new_https_policy me fs config_dir roots root steps file = Inr scopes"
    and "run scopes net w argv t cwd = Inr r"
  shows "int (length (hr_stdout r)) \<le> 1048576 \<and> int (hr_bytes r) \<le> 1048576
    \<and> \<not> (300 \<le> hr_status r \<and> hr_status r < 400)
    \<and> hr_exit r = (if 200 \<le> hr_status r \<and> hr_status r < 300 then 0 else 22)"
proof (cases rule: run_cases [OF assms(1), of w argv t cwd, case_names refused sent])
  case (refused e)
  with assms(2) show ?thesis by simp
next
  case (sent meth url host target scope)
  from assms(2) obtain reply where rep: "run_reply meth (hs_max_bytes scope) reply = Inr r" unfolding sent(8) by auto
  have b: "1 \<le> hs_max_bytes scope" "hs_max_bytes scope \<le> 1048576" using sent(5) by (simp_all add: scope_ok_def)
  have "int (length (hr_stdout r)) \<le> hs_max_bytes scope" "int (hr_bytes r) \<le> hs_max_bytes scope"
    "\<not> (300 \<le> hr_status r \<and> hr_status r < 400)" "hr_exit r = (if 200 \<le> hr_status r \<and> hr_status r < 300 then 0 else 22)"
    using rep b unfolding run_reply_def guard_Inr_iff rbind_Inr_iff Let_def by (auto split: if_splits option.splits)
  with b show ?thesis by simp
qed

text \<open>The exit status of a direct run is 0 or 22.\<close>

lemma run_exit: "run scopes net w argv t cwd = Inr r \<Longrightarrow> hr_exit r = 0 \<or> hr_exit r = 22"
  by (auto simp: run_def run_reply_def Let_def split: if_splits prod.splits)

text \<open>
  C26.  Running in the isolated worker changes nothing: the bounded run that does not time out returns exactly the exit
  status, the text and the error line of the direct run when that succeeds, up to the newline convention of the pipe (a
  carriage return does not survive), because the worker reads back the arguments it was given and applies the same policy.
  When the direct run is refused, it returns an empty text with a failing status: 77 with the line that names the exception
  behind the diagnostics of the process, or 1 after an uncaught one.
\<close>

theorem bounded_run_refines_run:
  assumes "new_https_policy me fs config_dir roots root steps file = Inr scopes"
    and "\<And>cmd budget. start cmd budget \<noteq> WorkerTimeout \<Longrightarrow> start cmd budget = worker_process (Inr scopes) net diag cmd"
    and "run_bounded scopes python config start w argv t cwd = Inr b" and "\<not> br_timeout b"
  shows "case run scopes net w argv t cwd of
      Inr r \<Rightarrow> br_exit b = hr_exit r \<and> br_stdout b = universal_newlines (hr_stdout r)
        \<and> br_stderr b = take 4096 (universal_newlines (error_line (hr_stderr r)))
    | Inl e \<Rightarrow> br_stdout b = [] \<and> (\<exists>log cls. br_exit b = 77 \<and> br_stderr b = take 4096 (universal_newlines (log @ denial_line cls))
        \<or> br_exit b = 1 \<and> br_stderr b = take 4096 (universal_newlines log))"
proof (cases rule: run_cases [OF assms(1), of w argv t cwd, case_names refused sent])
  case (refused e)
  have "cwd = []" using assms(3) by (auto simp: run_bounded_def split: if_splits)
  moreover from this assms(3) obtain meth url host target scope where "parse_curl argv = Inr (meth, url)"
    "authorize scopes w meth url = Inr (host, target, scope)" by (auto simp: run_bounded_def)
  ultimately have "run scopes (\<lambda>_. Inl x) w argv t cwd = Inl x" for x by (simp add: run_def)
  from this [of OSError] this [of KeyError] show ?thesis by (simp add: refused)
next
  case (sent meth url host target scope)
  let ?b = "clamp_to (hs_timeout scope) t"
  let ?cmd = "worker_command python config w meth url ?b"
  let ?res = "run scopes net w argv t cwd"
  have "1 \<le> hs_timeout scope" using sent(5) by (simp add: scope_ok_def)
  then have b: "1 \<le> ?b" "clamp_to (hs_timeout scope) ?b = ?b" by (auto simp: clamp_to_def)
  have meth: "meth \<in> set SUPPORTED_METHODS" and flag: "parse_curl [''curl'', if meth = ''GET'' then ''-fsS'' else ''-sSI'', url] = Inr (meth, url)"
    using sent(2) by (auto simp: parse_curl_Inr SUPPORTED_METHODS_def)
  have num: "show_int ?b \<noteq> []" "list_all is_digit (show_int ?b)" "decimal_value (show_int ?b) = ?b"
    using decimal_text [of "nat ?b"] b(1) by (auto simp: show_int_def)
  have "run scopes net w [''curl'', if meth = ''GET'' then ''-fsS'' else ''-sSI'', url] ?b [] = ?res"
    unfolding sent(8) using flag sent(3) b(2) by (simp add: run_def)
  then have main: "worker_main (Inr scopes) net (wd_class (diag ?cmd)) w meth url ?b = (case ?res of
        Inr r \<Rightarrow> Inr \<lparr>wo_exit = hr_exit r, wo_stdout = hr_stdout r, wo_stderr = error_line (hr_stderr r)\<rparr>
      | Inl e \<Rightarrow> if is_permission_error e \<or> e \<in> {ValueError, OSError, FileNotFoundError}
          then Inr \<lparr>wo_exit = 77, wo_stdout = [], wo_stderr = denial_line (wd_class (diag ?cmd))\<rparr> else Inl e)"
    by (simp add: worker_main_def)
  have proc: "worker_process (Inr scopes) net diag ?cmd = (case worker_main (Inr scopes) net (wd_class (diag ?cmd)) w meth url ?b of
        Inr o' \<Rightarrow> WorkerDone (wo_exit o') (wo_stdout o') (if wo_exit o' = 77 then wd_log (diag ?cmd) @ wo_stderr o' else wo_stderr o')
      | Inl _ \<Rightarrow> WorkerDone 1 [] (wd_log (diag ?cmd)))"
  proof -
    have opts: "option_pairs (drop 4 ?cmd) = [(''--config-dir'', config), (''--workspace-id'', w), (''--method'', meth), (''--url'', url),
        (''--timeout'', show_int ?b)]" by (simp add: worker_command_def)
    show ?thesis unfolding worker_process_def opts Let_def using meth num by simp
  qed
  have bd: "b = (case start ?cmd ?b of
        WorkerTimeout \<Rightarrow> \<lparr>br_exit = 124, br_stdout = [], br_stderr = ''Public HTTPS request timed out'', br_timeout = True\<rparr>
      | WorkerDone code out err \<Rightarrow> \<lparr>br_exit = code, br_stdout = universal_newlines out,
                  br_stderr = take 4096 (universal_newlines err), br_timeout = False\<rparr>)"
    using assms(3) sent(1-3) by (simp add: run_bounded_def Let_def)
  with assms(4) have "start ?cmd ?b \<noteq> WorkerTimeout" by auto
  from assms(2) [OF this] bd proc
  have b': "b = (case worker_main (Inr scopes) net (wd_class (diag ?cmd)) w meth url ?b of
        Inr o' \<Rightarrow> \<lparr>br_exit = wo_exit o', br_stdout = universal_newlines (wo_stdout o'),
          br_stderr = take 4096 (universal_newlines (if wo_exit o' = 77 then wd_log (diag ?cmd) @ wo_stderr o' else wo_stderr o')), br_timeout = False\<rparr>
      | Inl _ \<Rightarrow> \<lparr>br_exit = 1, br_stdout = [], br_stderr = take 4096 (universal_newlines (wd_log (diag ?cmd))), br_timeout = False\<rparr>)"
    by (simp split: sum.splits)
  show ?thesis
  proof (cases ?res)
    case (Inl e)
    with b' main show ?thesis by auto
  next
    case (Inr r)
    with b' main run_exit [OF Inr] show ?thesis by auto
  qed
qed

section \<open>Witnesses\<close>

definition demo_stat :: "file_type \<Rightarrow> int \<Rightarrow> stat" where
  "demo_stat ty perm = \<lparr>st_type = ty, st_mode = perm, st_uid = 0, st_gid = 0, st_dev = 1, st_ino = 2, st_nlink = 1,
     st_size = 100, st_mtime_ns = 0, st_ctime_ns = 0\<rparr>"

definition demo_https_doc :: pyval where
  "demo_https_doc = PDict [(''version'', PInt 1), (''workspaces'', PDict [(''public-data'', PDict
     [(''hosts'', PList [PStr ''bioconductor.org'']), (''methods'', PList [PStr ''GET'', PStr ''HEAD'']),
      (''max_response_bytes'', PInt 1000), (''timeout_seconds'', PInt 10)])])]"

definition demo_scopes :: "(string \<times> https_scope) list" where
  "demo_scopes = [(''public-data'', \<lparr>hs_hosts = [''bioconductor.org''], hs_methods = [''GET'', ''HEAD''], hs_max_bytes = 1000,
     hs_timeout = 10, hs_downloads = None\<rparr>)]"

definition demo_url :: string where
  "demo_url = ''https://Bioconductor.org:443/index?x=1''"

definition demo_http :: "https_request \<Rightarrow> http_reply result" where
  "demo_http rq = (if rq_target rq = ''/index?x=1'' then Inr \<lparr>rp_status = 200, rp_length = Some 2, rp_headers = [], rp_body = ''ok''\<rparr>
     else Inl OSError)"

definition demo_result :: https_result where
  "demo_result = \<lparr>hr_stdout = ''ok'', hr_stderr = [], hr_exit = 0, hr_status = 200, hr_bytes = 2\<rparr>"

definition demo_diag :: "string list \<Rightarrow> worker_diag" where
  "demo_diag cmd = \<lparr>wd_class = ''TimeoutError'', wd_log = []\<rparr>"

definition demo_start :: "string list \<Rightarrow> int \<Rightarrow> worker_end" where
  "demo_start cmd budget = (if budget \<le> 10 then worker_process (Inr demo_scopes) demo_http demo_diag cmd else WorkerTimeout)"

lemma demo_https_loads:
  "new_https_policy 7 \<lparr>fs_links = [], fs_cwd = []\<rparr> ''/etc/agentporter'' [''/srv/w''] (demo_stat Directory 493)
     [Opened (demo_stat Directory 493), Opened (demo_stat Directory 448)] (Found (demo_stat Regular 384) demo_https_doc) = Inr demo_scopes"
  by code_simp

lemma demo_https_run:
  "run demo_scopes demo_http ''public-data'' [''curl'', ''-fsS'', demo_url] 30 [] = Inr demo_result"
  by code_simp

lemma demo_bounded_run:
  "run_bounded demo_scopes ''/usr/bin/python3'' ''/etc/agentporter'' demo_start ''public-data'' [''curl'', ''-fsS'', demo_url] 30 []
     = Inr \<lparr>br_exit = 0, br_stdout = ''ok'', br_stderr = [], br_timeout = False\<rparr>"
  by code_simp

theorem https_network_confined_witness:
  "run demo_scopes (\<lambda>rq. if in_scope_request rq then demo_http rq else Inl KeyError) ''public-data'' [''curl'', ''-fsS'', demo_url] 30 []
     = Inr demo_result"
proof -
  have "run demo_scopes demo_http ''public-data'' [''curl'', ''-fsS'', demo_url] 30 []
      = run demo_scopes (\<lambda>rq. if in_scope_request rq then demo_http rq else Inl KeyError) ''public-data'' [''curl'', ''-fsS'', demo_url] 30 []"
    using https_network_confined [OF demo_https_loads, of demo_http "\<lambda>rq. if in_scope_request rq then demo_http rq else Inl KeyError"]
    by simp
  with demo_https_run show ?thesis by simp
qed

theorem https_output_bounded_witness:
  "int (length (hr_stdout demo_result)) \<le> 1048576 \<and> hr_exit demo_result = 0"
  using https_output_bounded [OF demo_https_loads demo_https_run] by (simp add: demo_result_def)

theorem bounded_run_refines_run_witness:
  "br_stdout \<lparr>br_exit = 0, br_stdout = ''ok'', br_stderr = [], br_timeout = False\<rparr> = universal_newlines (hr_stdout demo_result)"
proof -
  have "demo_start cmd budget \<noteq> WorkerTimeout \<Longrightarrow> demo_start cmd budget = worker_process (Inr demo_scopes) demo_http demo_diag cmd" for cmd budget
    by (simp add: demo_start_def split: if_splits)
  from bounded_run_refines_run [OF demo_https_loads this demo_bounded_run] demo_https_run show ?thesis by simp
qed

end
