(* ===== verification/Https_Download.thy ===== *)
theory Https_Download
  imports Scoped_HTTPS Registry
begin

text \<open>
  \<open>https_download.py\<close>: the owner-approved acquisition of one file.  A worker process streams the body into a
  private spool and reports a receipt; the gateway checks the receipt, checks the spool again and publishes file
  and receipt into the approved directory without replacing anything.  The worker, the directory and what other
  processes do to it between two steps are inputs; \<open>utc\<close> stands for \<open>datetime.fromisoformat\<close> (the offset
  in seconds of the time it reads, if any).
\<close>

section \<open>Names, checksums and receipts\<close>

definition RECEIPT_SUFFIX :: string where
  "RECEIPT_SUFFIX = ''.receipt.json''"

definition MAX_RECEIPT_BYTES :: nat where
  "MAX_RECEIPT_BYTES = 8192"

definition MAX_DOWNLOAD_BYTES :: int where
  "MAX_DOWNLOAD_BYTES = 16777216"

definition plain_name :: "string \<Rightarrow> bool" where
  "plain_name s \<longleftrightarrow> class_match receipt_char 1 128 s \<and> is_alnum (hd s)"

definition check_filename :: "string \<Rightarrow> unit result" where
  "check_filename name = require (plain_name name \<and> \<not> ends_with RECEIPT_SUFFIX name) ValueError"

definition checksum :: "pyval \<Rightarrow> string option result" where
  "checksum v = (case v of
       PNone \<Rightarrow> Inr None
     | PStr s \<Rightarrow> if class_match is_hex 64 64 s then Inr (Some s) else Inl ValueError
     | _ \<Rightarrow> Inl ValueError)"

definition safe_text :: "string \<Rightarrow> bool" where
  "safe_text s \<longleftrightarrow> utf8_len s \<le> 512 \<and> list_all (\<lambda>c. 32 \<le> char_code c \<and> char_code c \<noteq> 127) s"

definition WORKER_FIELDS :: "string list" where
  "WORKER_FIELDS = [''http_status'', ''bytes'', ''sha256'', ''expected_sha256_verified'']"

definition get_or :: "pydict \<Rightarrow> string \<Rightarrow> pyval \<Rightarrow> pyval" where
  "get_or d k v = (case map_of d k of None \<Rightarrow> v | Some x \<Rightarrow> x)"

definition headers_ok :: "pyval \<Rightarrow> bool" where
  "headers_ok v = (case v of
       PDict h \<Rightarrow> field_names h \<subseteq> set SAFE_HEADERS \<and> list_all (\<lambda>p. is_pstr (snd p) \<and> safe_text (the_str (snd p))) h
     | _ \<Rightarrow> False)"

text \<open>\<open>_worker_receipt\<close>; \<open>now\<close> is the time put in when the worker reports none.\<close>

definition worker_receipt :: "(string \<Rightarrow> int option) \<Rightarrow> string \<Rightarrow> pyval \<Rightarrow> int \<Rightarrow> string option \<Rightarrow> pydict result" where
  "worker_receipt utc now v max_bytes expected = (case v of
       PDict d \<Rightarrow>
         if \<not> set WORKER_FIELDS \<subseteq> field_names d \<or> \<not> field_names d \<subseteq> set WORKER_FIELDS \<union> {''headers'', ''retrieved_at''}
            \<or> \<not> int_in 0 max_bytes (dict_get d ''bytes'') \<or> dict_get d ''http_status'' \<noteq> PInt 200
            \<or> dict_get d ''expected_sha256_verified'' \<noteq> PBool (expected \<noteq> None) then Inl ValueError
         else rbind (checksum (dict_get d ''sha256'')) (\<lambda>actual.
           if actual = None \<or> (expected \<noteq> None \<and> actual \<noteq> expected) then Inl ValueError
           else let headers = get_or d ''headers'' (PDict []); timestamp = get_or d ''retrieved_at'' (PStr now) in
             if \<not> headers_ok headers then Inl ValueError
             else if \<not> (is_pstr timestamp \<and> 1 \<le> length (the_str timestamp) \<and> length (the_str timestamp) \<le> 64) then Inl ValueError
             else if utc (the_str timestamp) \<noteq> Some 0 then Inl ValueError
             else Inr (dict_set ''retrieved_at'' timestamp (dict_set ''headers'' headers d)))
     | _ \<Rightarrow> Inl ValueError)"

text \<open>\<open>json.dumps\<close> with sorted keys, compact separators and without ASCII escapes.\<close>

definition raw_escape :: "char \<Rightarrow> string" where
  "raw_escape c = (case map_of short_escapes c of
       Some e \<Rightarrow> [BSLASH, e]
     | None \<Rightarrow> if 32 \<le> char_code c then [c] else BSLASH # CHR ''u'' # hex4 (char_code c))"

definition raw_quote :: "string \<Rightarrow> string" where
  "raw_quote s = DQUOTE # concat (map raw_escape s) @ [DQUOTE]"

fun raw_dump :: "pyval \<Rightarrow> string" where
  "raw_dump PNone = ''null''"
| "raw_dump (PBool b) = (if b then ''true'' else ''false'')"
| "raw_dump (PInt i) = show_int i"
| "raw_dump (PStr s) = raw_quote s"
| "raw_dump (PList xs) = CHR ''['' # join_with (CHR '','') (map raw_dump xs) @ '']''"
| "raw_dump (PDict d) = CHR ''{'' # join_with (CHR '','') (map (\<lambda>p. raw_quote (fst p) @ CHR '':'' # raw_dump (snd p)) d) @ ''}''"

definition receipt_text :: "pydict \<Rightarrow> string" where
  "receipt_text d = utf8_text (raw_dump (sort_doc (PDict d)) @ [CHR 0x0A])"

definition RECEIPT_FIELDS :: "string list" where
  "RECEIPT_FIELDS = [''schema_version'', ''workspace_id'', ''source_url'', ''path'', ''http_status'', ''bytes'', ''sha256'',
     ''expected_sha256'', ''expected_sha256_verified'', ''headers'', ''retrieved_at'', ''training_eligible'',
     ''historical_identity_verified'', ''file_integrity_status'', ''historical_validation_status'']"

definition receipt_shape :: "string \<Rightarrow> string \<Rightarrow> pydict \<Rightarrow> bool" where
  "receipt_shape directory name d \<longleftrightarrow>
     field_names d = set RECEIPT_FIELDS \<and> dict_get d ''schema_version'' = PInt 1
     \<and> is_pstr (dict_get d ''workspace_id'') \<and> plain_name (the_str (dict_get d ''workspace_id''))
     \<and> is_pstr (dict_get d ''source_url'')
     \<and> (let url = the_str (dict_get d ''source_url'') in 1 \<le> length url \<and> length url \<le> 2048 \<and> starts_with ''https://'' url
          \<and> list_all (\<lambda>c. 32 \<le> char_code c \<and> char_code c \<noteq> 127) url)
     \<and> dict_get d ''path'' = PStr (directory @ ''/'' @ name)
     \<and> dict_get d ''training_eligible'' = PBool False \<and> dict_get d ''historical_identity_verified'' = PBool False
     \<and> dict_get d ''file_integrity_status'' = PStr ''sha256_verified''
     \<and> dict_get d ''historical_validation_status'' = PStr ''not_verified''"

definition worker_part :: "pydict \<Rightarrow> pydict" where
  "worker_part d = map (\<lambda>k. (k, dict_get d k)) [''http_status'', ''bytes'', ''sha256'', ''expected_sha256_verified'', ''headers'', ''retrieved_at'']"

definition receipt_bytes :: "(string \<Rightarrow> int option) \<Rightarrow> string \<Rightarrow> pydict \<Rightarrow> string \<Rightarrow> string \<Rightarrow> pydict \<Rightarrow> string result" where
  "receipt_bytes utc now receipt directory name expected =
     (if \<not> receipt_shape directory name receipt then Inl ValueError
      else rbind (checksum (dict_get receipt ''expected_sha256'')) (\<lambda>external.
        rbind (worker_receipt utc now (PDict (worker_part receipt)) MAX_DOWNLOAD_BYTES external) (\<lambda>metadata.
          if dict_get metadata ''bytes'' \<noteq> dict_get expected ''bytes'' \<or> dict_get metadata ''sha256'' \<noteq> dict_get expected ''sha256''
          then Inl ValueError
          else if MAX_RECEIPT_BYTES < length (receipt_text receipt) then Inl ValueError
          else Inr (receipt_text receipt))))"

section \<open>Streaming\<close>

text \<open>
  The read loops: blocks of \<open>step n\<close> bytes are copied until the source is exhausted; more than \<open>limit\<close>
  bytes are an error.  The result is what was written.
\<close>

function copy_blocks :: "(nat \<Rightarrow> nat) \<Rightarrow> nat \<Rightarrow> nat \<Rightarrow> string \<Rightarrow> string result" where
  "copy_blocks step limit n body =
     (let block = take (step n) body in
      if block = [] then Inr []
      else if limit < n + length block then Inl ValueError
      else rbind (copy_blocks step limit (n + length block) (drop (length block) body)) (\<lambda>out. Inr (block @ out)))"
  by pat_completeness auto
termination
  by (relation "measure (\<lambda>(_, _, _, body). length body)") auto

declare copy_blocks.simps [simp del]

record download_request =
  dl_host :: string
  dl_target :: string
  dl_timeout :: int

definition values_of :: "string \<Rightarrow> (string \<times> string) list \<Rightarrow> string list" where
  "values_of name headers = map snd (filter (\<lambda>h. py_lower (fst h) = name) headers)"

definition framing :: "int \<Rightarrow> (string \<times> string) list \<Rightarrow> int option result" where
  "framing max_bytes headers =
     (let encodings = map (\<lambda>v. py_strip (py_lower v)) (values_of ''content-encoding'' headers);
          lengths = values_of ''content-length'' headers;
          transfers = map (\<lambda>v. py_strip (py_lower v)) (values_of ''transfer-encoding'' headers)
      in if encodings \<noteq> [] \<and> encodings \<noteq> [''identity''] then Inl ValueError
         else if 1 < length lengths \<or> (lengths \<noteq> [] \<and> \<not> class_match is_digit 1 12 (hd lengths)) \<or> (lengths \<noteq> [] \<and> transfers \<noteq> [])
            \<or> (transfers \<noteq> [] \<and> transfers \<noteq> [''chunked'']) then Inl ValueError
         else let declared = (if lengths = [] then None else Some (decimal_value (hd lengths))) in
           if (case declared of None \<Rightarrow> False | Some n \<Rightarrow> max_bytes < n) then Inl ValueError else Inr declared)"

fun safe_headers :: "pydict \<Rightarrow> (string \<times> string) list \<Rightarrow> pydict result" where
  "safe_headers safe [] = Inr safe"
| "safe_headers safe ((name, v) # hs) =
     (if py_lower name \<notin> set SAFE_HEADERS then safe_headers safe hs
      else if \<not> safe_text v then Inl ValueError
      else if py_lower name \<in> field_names safe then Inl ValueError
      else safe_headers (safe @ [(py_lower name, PStr v)]) hs)"

text \<open>\<open>stream_download\<close>: the receipt and the bytes written to the spool; \<open>net\<close> performs the one request.\<close>

definition stream_download :: "(string \<Rightarrow> string) \<Rightarrow> (string \<times> https_scope) list \<Rightarrow> (download_request \<Rightarrow> http_reply result) \<Rightarrow> string
    \<Rightarrow> string \<Rightarrow> string \<Rightarrow> string option \<Rightarrow> int \<Rightarrow> int \<Rightarrow> (pydict \<times> string) result" where
  "stream_download sha scopes net now workspace_id url expected max_bytes timeout =
     (if (case expected of None \<Rightarrow> False | Some e \<Rightarrow> \<not> class_match is_hex 64 64 e) then Inl ValueError
      else rbind (authorize_download scopes workspace_id url) (\<lambda>(host, target, grant).
        if \<not> (1 \<le> max_bytes \<and> max_bytes \<le> dg_max_bytes grant) then Inl ValueError
        else if \<not> (1 \<le> timeout \<and> timeout \<le> dg_timeout grant) then Inl ValueError
        else rbind (net \<lparr>dl_host = host, dl_target = target, dl_timeout = timeout\<rparr>) (\<lambda>r.
          if rp_status r \<noteq> 200 then Inl PermissionError
          else rbind (framing max_bytes (rp_headers r)) (\<lambda>declared.
            rbind (copy_blocks (\<lambda>n. min 65536 (nat max_bytes - n + 1)) (nat max_bytes) 0 (rp_body r)) (\<lambda>body.
              if declared \<noteq> None \<and> declared \<noteq> Some (int (length body)) then Inl ValueError
              else if expected \<noteq> None \<and> expected \<noteq> Some (sha body) then Inl ValueError
              else rbind (safe_headers [] (rp_headers r)) (\<lambda>safe.
                Inr ([(''http_status'', PInt 200), (''bytes'', PInt (int (length body))), (''sha256'', PStr (sha body)),
                  (''expected_sha256_verified'', PBool (expected \<noteq> None)), (''headers'', PDict safe), (''retrieved_at'', PStr now)], body)))))))"

text \<open>\<open>main\<close> of the worker: exit status, the receipt it prints, and the spool.\<close>

definition download_main :: "(string \<Rightarrow> string) \<Rightarrow> (string \<times> https_scope) list result \<Rightarrow> (download_request \<Rightarrow> http_reply result) \<Rightarrow> string
    \<Rightarrow> int \<Rightarrow> bool \<Rightarrow> string \<Rightarrow> string \<Rightarrow> string option \<Rightarrow> int \<Rightarrow> int \<Rightarrow> int \<times> (pydict \<times> string) option" where
  "download_main sha load net now output_fd regular workspace_id url expected max_bytes timeout =
     (case (if output_fd < 3 \<or> \<not> regular then Inl ValueError
            else rbind load (\<lambda>scopes. stream_download sha scopes net now workspace_id url expected max_bytes timeout)) of
        Inr r \<Rightarrow> (0, Some r)
      | Inl _ \<Rightarrow> (77, None))"

section \<open>Publication\<close>

datatype pub_entry = Plain string | Foreign

type_synonym pub_dir = "(string \<times> pub_entry) list"

text \<open>
  What publication meets: whether the workspace and each component open as directories, the name limit, whether
  anonymous files are supported, what others do to the directory before each link, and the final sync.
\<close>

record pub_env =
  pe_root :: bool
  pe_walk :: "bool list"
  pe_name_max :: nat
  pe_stage :: bool
  pe_races :: "(pub_dir \<Rightarrow> pub_dir) list"
  pe_sync :: bool

fun link_all :: "(pub_dir \<Rightarrow> pub_dir) list \<Rightarrow> (string \<times> string) list \<Rightarrow> pub_dir \<Rightarrow> bool \<times> pub_dir" where
  "link_all races [] d = (True, d)"
| "link_all races ((name, body) # ps) d =
     (let now = (case races of [] \<Rightarrow> d | r # _ \<Rightarrow> r d) in
      if name \<in> field_names now then (False, now) else link_all (tl races) ps (now @ [(name, Plain body)]))"

definition spool_matches :: "(string \<Rightarrow> string) \<Rightarrow> string \<Rightarrow> pydict \<Rightarrow> string result" where
  "spool_matches sha spool expected =
     rbind (copy_blocks (\<lambda>_. 65536) (nat (the_int (dict_get expected ''bytes''))) 0 spool) (\<lambda>body.
       if PInt (int (length body)) \<noteq> dict_get expected ''bytes'' \<or> PStr (sha body) \<noteq> dict_get expected ''sha256'' then Inl ValueError
       else Inr body)"

definition publication_names :: "string \<Rightarrow> string option \<Rightarrow> string list" where
  "publication_names name receipt = name # (case receipt of None \<Rightarrow> [] | Some _ \<Rightarrow> [name @ RECEIPT_SUFFIX])"

text \<open>\<open>publish\<close> up to the links: the staged receipt and file.\<close>

definition stage_publication :: "(string \<Rightarrow> string) \<Rightarrow> (string \<Rightarrow> int option) \<Rightarrow> string \<Rightarrow> pub_env \<Rightarrow> string \<Rightarrow> string \<Rightarrow> string
    \<Rightarrow> pydict \<Rightarrow> pydict option \<Rightarrow> pub_dir \<Rightarrow> (string option \<times> string) result" where
  "stage_publication sha utc now env directory name spool expected receipt d =
     rbind (check_filename name) (\<lambda>_.
       if \<not> download_directory directory then Inl PermissionError
       else if \<not> int_in 0 MAX_DOWNLOAD_BYTES (dict_get expected ''bytes'') then Inl ValueError
       else rbind (checksum (dict_get expected ''sha256'')) (\<lambda>sum.
         if sum = None then Inl ValueError
         else rbind (case receipt of None \<Rightarrow> Inr None
             | Some r \<Rightarrow> rbind (receipt_bytes utc now r directory name expected) (\<lambda>b. Inr (Some b))) (\<lambda>body.
           if \<not> pe_root env \<or> \<not> list_all id (pe_walk env) then Inl OSError
           else if list_ex (\<lambda>n. pe_name_max env < length n) (publication_names name body) then Inl ValueError
           else if list_ex (\<lambda>n. n \<in> field_names d) (publication_names name body) then Inl OSError
           else if \<not> pe_stage env then Inl OSError
           else rbind (spool_matches sha spool expected) (\<lambda>content. Inr (body, content)))))"

definition publications :: "string \<Rightarrow> string option \<Rightarrow> string \<Rightarrow> (string \<times> string) list" where
  "publications name body content = (case body of None \<Rightarrow> [] | Some b \<Rightarrow> [(name @ RECEIPT_SUFFIX, b)]) @ [(name, content)]"

text \<open>\<open>publish\<close>: the outcome and the directory afterwards.  The receipt is linked before the file.\<close>

definition publish :: "(string \<Rightarrow> string) \<Rightarrow> (string \<Rightarrow> int option) \<Rightarrow> string \<Rightarrow> pub_env \<Rightarrow> string \<Rightarrow> string \<Rightarrow> string \<Rightarrow> pydict
    \<Rightarrow> pydict option \<Rightarrow> pub_dir \<Rightarrow> (string \<times> (string \<times> string) option) result \<times> pub_dir" where
  "publish sha utc now env directory name spool expected receipt d =
     (case stage_publication sha utc now env directory name spool expected receipt d of
        Inl e \<Rightarrow> (Inl e, d)
      | Inr (body, content) \<Rightarrow>
          (case link_all (pe_races env) (publications name body content) d of
             (linked, d') \<Rightarrow>
               (if \<not> linked \<or> \<not> pe_sync env then Inl OSError
                else Inr (directory @ ''/'' @ name,
                  map_option (\<lambda>b. (directory @ ''/'' @ name @ RECEIPT_SUFFIX, sha b)) body), d')))"

section \<open>The tool\<close>

text \<open>How the worker ends; its standard output is given parsed (\<open>json.loads\<close> refusing duplicate keys).\<close>

record download_worker =
  dw_code :: int
  dw_out :: nat
  dw_err :: nat
  dw_document :: "pyval result"
  dw_spool :: string

definition download_command :: "string \<Rightarrow> string \<Rightarrow> int \<Rightarrow> string \<Rightarrow> string \<Rightarrow> int \<Rightarrow> int \<Rightarrow> string option \<Rightarrow> string list" where
  "download_command python config_dir fd workspace_id url max_bytes timeout expected =
     [python, ''-I'', ''-m'', ''agentporter.https_download'', ''--config-dir'', config_dir, ''--workspace-id'', workspace_id,
      ''--url'', url, ''--output-fd'', show_int fd, ''--max-bytes'', show_int max_bytes, ''--timeout'', show_int timeout]
     @ (case expected of None \<Rightarrow> [] | Some e \<Rightarrow> [''--expected-sha256'', e])"

definition durable_receipt :: "string \<Rightarrow> string \<Rightarrow> string \<Rightarrow> string \<Rightarrow> string option \<Rightarrow> pydict \<Rightarrow> pydict" where
  "durable_receipt workspace_id directory name url expected r =
     dict_set ''historical_validation_status'' (PStr ''not_verified'') (dict_set ''file_integrity_status'' (PStr ''sha256_verified'')
     (dict_set ''historical_identity_verified'' (PBool False) (dict_set ''training_eligible'' (PBool False)
     (dict_set ''expected_sha256'' (case expected of None \<Rightarrow> PNone | Some e \<Rightarrow> PStr e) (dict_set ''source_url'' (PStr url)
     (dict_set ''path'' (PStr (directory @ ''/'' @ name)) (dict_set ''workspace_id'' (PStr workspace_id)
     (dict_set ''schema_version'' (PInt 1) r))))))))"

definition published_receipt :: "string \<times> (string \<times> string) option \<Rightarrow> pydict \<Rightarrow> pydict" where
  "published_receipt p r = (case snd p of
       None \<Rightarrow> r
     | Some (receipt_path, digest) \<Rightarrow> dict_set ''receipt_sha256'' (PStr digest) (dict_set ''receipt_path'' (PStr receipt_path)
         (dict_set ''path'' (PStr (fst p)) r)))"

text \<open>
  \<open>https_download\<close>: \<open>free\<close> is the acquisition semaphore, \<open>slot\<close> the execution slot, and \<open>start\<close> runs the
  (leased) worker command under the timeout.
\<close>

record download_host =
  dh_scopes :: "(string \<times> https_scope) list"
  dh_registry :: registry
  dh_python :: string
  dh_config :: string
  dh_free :: bool
  dh_slot :: "unit result"
  dh_fd :: int
  dh_start :: "string list \<Rightarrow> int \<Rightarrow> download_worker result"
  dh_now :: string
  dh_env :: pub_env

definition check_worker :: "(string \<Rightarrow> int option) \<Rightarrow> string \<Rightarrow> download_worker \<Rightarrow> int \<Rightarrow> string option \<Rightarrow> pydict result" where
  "check_worker utc now worker max_bytes expected =
     (if dw_code worker \<noteq> 0 \<or> 4096 < dw_out worker \<or> 4096 < dw_err worker then Inl ValueError
      else rbind (dw_document worker) (\<lambda>doc. worker_receipt utc now doc max_bytes expected))"

definition acquire_file :: "(string \<Rightarrow> int option) \<Rightarrow> download_host \<Rightarrow> string \<Rightarrow> string \<Rightarrow> string \<Rightarrow> string option \<Rightarrow> int \<Rightarrow> int
    \<Rightarrow> (string \<times> pydict \<times> string) result" where
  "acquire_file utc h workspace_id url filename expected max_bytes timeout =
     rbind (Registry.get (dh_registry h) workspace_id) (\<lambda>ws.
       if \<not> writable ws \<or> \<not> allow_execute ws then Inl PermissionError
       else rbind (authorize_download (dh_scopes h) workspace_id url) (\<lambda>(host, target, grant).
       rbind (checksum (case expected of None \<Rightarrow> PNone | Some e \<Rightarrow> PStr e)) (\<lambda>_.
       rbind (check_filename filename) (\<lambda>_.
       if \<not> (1 \<le> max_bytes \<and> max_bytes \<le> dg_max_bytes grant) then Inl ValueError
       else if \<not> (1 \<le> timeout \<and> timeout \<le> dg_timeout grant) then Inl ValueError
       else if \<not> dh_free h then Inl PermissionError
       else rbind (dh_slot h) (\<lambda>_.
       rbind (dh_start h (download_command (dh_python h) (dh_config h) (dh_fd h) workspace_id url max_bytes timeout expected) timeout) (\<lambda>worker.
       rbind (check_worker utc (dh_now h) worker max_bytes expected) (\<lambda>r.
         Inr (dg_directory grant, durable_receipt workspace_id (dg_directory grant) filename url expected r, dw_spool worker))))))))"

definition https_download :: "(string \<Rightarrow> string) \<Rightarrow> (string \<Rightarrow> int option) \<Rightarrow> download_host \<Rightarrow> string \<Rightarrow> string \<Rightarrow> string \<Rightarrow> string option
    \<Rightarrow> int \<Rightarrow> int \<Rightarrow> pub_dir \<Rightarrow> pydict result \<times> pub_dir" where
  "https_download sha utc h workspace_id url filename expected max_bytes timeout d =
     (case acquire_file utc h workspace_id url filename expected max_bytes timeout of
        Inl e \<Rightarrow> (Inl e, d)
      | Inr (directory, receipt, spool) \<Rightarrow>
          (case publish sha utc (dh_now h) (dh_env h) directory filename spool receipt (Some receipt) d of
             (outcome, d') \<Rightarrow> (rbind outcome (\<lambda>p. Inr (published_receipt p receipt)), d')))"

section \<open>The read loops\<close>

lemma copy_blocks_eq:
  assumes "\<forall>n \<le> limit. 0 < step n" and "n \<le> limit"
  shows "copy_blocks step limit n body = (if n + length body \<le> limit then Inr body else Inl ValueError)"
  using assms(2)
proof (induction "length body" arbitrary: n body rule: less_induct)
  case less
  show ?case
  proof (cases "body = []")
    case True
    with less.prems show ?thesis by (simp add: copy_blocks.simps [of step limit n])
  next
    case False
    let ?block = "take (step n) body"
    have step: "0 < step n" using assms(1) less.prems by simp
    with False have b: "?block \<noteq> []" by simp
    show ?thesis
    proof (cases "limit < n + length ?block")
      case True
      with b show ?thesis by (simp add: copy_blocks.simps [of step limit n] Let_def min_def split: if_splits)
    next
      case fits: False
      have len: "length (drop (length ?block) body) < length body" using b by (cases body) auto
      have rest: "copy_blocks step limit (n + length ?block) (drop (length ?block) body)
          = (if n + length ?block + length (drop (length ?block) body) \<le> limit then Inr (drop (length ?block) body) else Inl ValueError)"
        using fits by (intro less.hyps [OF len]) simp
      have "?block @ drop (length ?block) body = body" by (simp add: min_def)
      moreover have "length ?block + length (drop (length ?block) body) = length body" by (simp add: min_def)
      ultimately show ?thesis
        using b fits rest by (subst copy_blocks.simps) (auto simp: Let_def add.assoc simp del: take_eq_Nil length_take)
    qed
  qed
qed

lemma spool_matches_Inr:
  assumes "spool_matches sha spool expected = Inr file"
  shows "file = spool \<and> dict_get expected ''bytes'' = PInt (int (length spool)) \<and> dict_get expected ''sha256'' = PStr (sha spool)"
proof -
  have "copy_blocks (\<lambda>_. 65536) (nat (the_int (dict_get expected ''bytes''))) 0 spool =
      (if 0 + length spool \<le> nat (the_int (dict_get expected ''bytes'')) then Inr spool else Inl ValueError)"
    by (rule copy_blocks_eq) simp_all
  then show ?thesis using assms by (auto simp: spool_matches_def split: if_splits)
qed

section \<open>Publication keeps what is there\<close>

text \<open>Interference that only adds entries.\<close>

definition keeps_entries :: "(pub_dir \<Rightarrow> pub_dir) \<Rightarrow> bool" where
  "keeps_entries r \<longleftrightarrow> (\<forall>d n e. map_of d n = Some e \<longrightarrow> map_of (r d) n = Some e)"

lemma link_all_keeps:
  "link_all races ps d = (ok, d') \<Longrightarrow> \<forall>r \<in> set races. keeps_entries r \<Longrightarrow> map_of d n = Some e \<Longrightarrow> map_of d' n = Some e"
proof (induction races ps d rule: link_all.induct)
  case (2 races name body ps d)
  let ?now = "case races of [] \<Rightarrow> d | r # _ \<Rightarrow> r d"
  have now: "map_of ?now n = Some e" using 2(3,4) by (cases races) (auto simp: keeps_entries_def)
  show ?case
  proof (cases "name \<in> field_names ?now")
    case True
    with 2(2) now show ?thesis by (simp add: Let_def)
  next
    case False
    have "\<forall>r \<in> set (tl races). keeps_entries r" using 2(3) by (cases races) auto
    moreover have "map_of (?now @ [(name, Plain body)]) n = Some e" using now by (simp add: map_add_def)
    ultimately show ?thesis using 2(1) [OF refl False] 2(2) False by (simp add: Let_def)
  qed
qed simp

lemma link_all_fresh:
  "link_all races ps d = (True, d') \<Longrightarrow> \<forall>r \<in> set races. keeps_entries r \<Longrightarrow> (name, body) \<in> set ps
     \<Longrightarrow> map_of d' name = Some (Plain body)"
proof (induction races ps d rule: link_all.induct)
  case (2 races name0 body0 ps d)
  let ?now = "case races of [] \<Rightarrow> d | r # _ \<Rightarrow> r d"
  have new: "name0 \<notin> field_names ?now" and rest: "link_all (tl races) ps (?now @ [(name0, Plain body0)]) = (True, d')"
    using 2(2) by (auto simp: Let_def split: if_splits)
  have races: "\<forall>r \<in> set (tl races). keeps_entries r" using 2(3) by (cases races) auto
  show ?case
  proof (cases "(name, body) = (name0, body0)")
    case True
    have "map_of (?now @ [(name0, Plain body0)]) name0 = Some (Plain body0)"
      using new map_of_Some_field by (fastforce simp: map_add_def split: option.splits)
    with link_all_keeps [OF rest races] True show ?thesis by simp
  next
    case False
    with 2(1) [OF refl new rest races] 2(4) show ?thesis by auto
  qed
qed simp

lemma receipt_bytes_Inr:
  assumes "receipt_bytes utc now r directory name expected = Inr b"
  shows "b = receipt_text r \<and> length b \<le> MAX_RECEIPT_BYTES \<and> receipt_shape directory name r"
  using assms by (auto simp: receipt_bytes_def guard_Inr_iff)

lemma stage_publication_Inr:
  assumes "stage_publication sha utc now env directory name spool expected receipt d = Inr (body, content)"
  shows "plain_name name \<and> download_directory directory \<and> content = spool \<and> body = map_option receipt_text receipt
    \<and> int (length spool) \<le> MAX_DOWNLOAD_BYTES
    \<and> dict_get expected ''bytes'' = PInt (int (length spool)) \<and> dict_get expected ''sha256'' = PStr (sha spool)
    \<and> map_of d name = None \<and> (\<forall>r. receipt = Some r \<longrightarrow> receipt_shape directory name r \<and> map_of d (name @ RECEIPT_SUFFIX) = None)"
proof -
  note r = assms [unfolded stage_publication_def guard_Inr_iff rbind_Inr_iff]
  from r have name: "plain_name name" "download_directory directory" "int_in 0 MAX_DOWNLOAD_BYTES (dict_get expected ''bytes'')"
    by (auto simp: check_filename_def)
  from r have spool: "spool_matches sha spool expected = Inr content" by auto
  from r have fresh: "\<forall>n \<in> set (publication_names name body). n \<notin> field_names d" by (auto simp: list_ex_iff)
  from r have body: "(case receipt of None \<Rightarrow> Inr None
      | Some r \<Rightarrow> rbind (receipt_bytes utc now r directory name expected) (\<lambda>b. Inr (Some b))) = Inr body" by auto
  then have "body = map_option receipt_text receipt \<and> (\<forall>r. receipt = Some r \<longrightarrow> receipt_shape directory name r)"
    using receipt_bytes_Inr by (auto split: option.splits)
  with fresh have "map_of d name = None" "\<forall>r. receipt = Some r \<longrightarrow> receipt_shape directory name r \<and> map_of d (name @ RECEIPT_SUFFIX) = None"
    by (auto simp: publication_names_def field_names_def map_of_eq_None_iff)
  with name spool_matches_Inr [OF spool] body \<open>body = _ \<and> _\<close> show ?thesis by (auto simp: int_in_iff)
qed

lemma publish_never_replaces:
  assumes "publish sha utc now env directory name spool expected receipt d = (outcome, d')"
    and "\<forall>r \<in> set (pe_races env). keeps_entries r"
  shows "(\<forall>n e. map_of d n = Some e \<longrightarrow> map_of d' n = Some e)
    \<and> (\<forall>p. outcome = Inr p \<longrightarrow>
         download_directory directory \<and> plain_name name \<and> fst p = directory @ ''/'' @ name \<and> map_of d name = None
         \<and> map_of d' name = Some (Plain spool) \<and> int (length spool) \<le> MAX_DOWNLOAD_BYTES
         \<and> dict_get expected ''bytes'' = PInt (int (length spool)) \<and> dict_get expected ''sha256'' = PStr (sha spool)
         \<and> (\<forall>r. receipt = Some r \<longrightarrow> receipt_shape directory name r \<and> map_of d (name @ RECEIPT_SUFFIX) = None
              \<and> map_of d' (name @ RECEIPT_SUFFIX) = Some (Plain (receipt_text r))
              \<and> snd p = Some (directory @ ''/'' @ name @ RECEIPT_SUFFIX, sha (receipt_text r))))"
proof (cases "stage_publication sha utc now env directory name spool expected receipt d")
  case (Inl e)
  with assms(1) show ?thesis by (auto simp: publish_def)
next
  case (Inr q)
  obtain body content where q: "q = (body, content)" by (cases q)
  note st = stage_publication_Inr [OF Inr [unfolded q]]
  obtain linked d1 where l: "link_all (pe_races env) (publications name body content) d = (linked, d1)" by fastforce
  from assms(1) have d1: "d' = d1" and out: "outcome = (if \<not> linked \<or> \<not> pe_sync env then Inl OSError
      else Inr (directory @ ''/'' @ name, map_option (\<lambda>b. (directory @ ''/'' @ name @ RECEIPT_SUFFIX, sha b)) body))"
    by (auto simp: publish_def Inr q l)
  have pub: "map_of d' n = Some (Plain b)" if "linked" "(n, b) \<in> set (publications name body content)" for n b
    using link_all_fresh [OF _ assms(2) that(2)] l that(1) d1 by simp
  show ?thesis
  proof (intro conjI allI impI)
    fix n e
    assume "map_of d n = Some e"
    with link_all_keeps [OF l assms(2)] d1 show "map_of d' n = Some e" by simp
  next
    fix p assume p: "outcome = Inr p"
    then have "linked" using out by (auto split: if_splits)
    with pub st p out show "fst p = directory @ ''/'' @ name" "map_of d' name = Some (Plain spool)"
      by (auto simp: publications_def split: if_splits)
    fix r assume r: "receipt = Some r"
    with \<open>linked\<close> pub st p out show "map_of d' (name @ RECEIPT_SUFFIX) = Some (Plain (receipt_text r))"
      "snd p = Some (directory @ ''/'' @ name @ RECEIPT_SUFFIX, sha (receipt_text r))"
      by (auto simp: publications_def split: if_splits)
  qed (use st in auto)
qed

lemma worker_receipt_Inr:
  assumes "worker_receipt utc now v max_bytes expected = Inr r"
  shows "(\<exists>n. dict_get r ''bytes'' = PInt n \<and> 0 \<le> n \<and> n \<le> max_bytes)
    \<and> (\<forall>e. expected = Some e \<longrightarrow> dict_get r ''sha256'' = PStr e)"
proof -
  obtain d where v: "v = PDict d" using assms by (cases v) (simp_all add: worker_receipt_def)
  note w = assms [unfolded worker_receipt_def v pyval.case guard_Inr_iff rbind_Inr_iff Let_def]
  obtain actual where a: "checksum (dict_get d ''sha256'') = Inr actual" "actual \<noteq> None" "expected \<noteq> None \<longrightarrow> actual = expected"
    using w by auto
  from a(1,2) have "\<exists>s. actual = Some s \<and> dict_get d ''sha256'' = PStr s"
    by (auto simp: checksum_def split: pyval.splits if_splits)
  with a w show ?thesis by (auto simp: int_in_iff)
qed
lemma get_durable [simp]:
  "k \<notin> {''schema_version'', ''workspace_id'', ''path'', ''source_url'', ''expected_sha256'', ''training_eligible'',
      ''historical_identity_verified'', ''file_integrity_status'', ''historical_validation_status''}
     \<Longrightarrow> dict_get (durable_receipt w dir name url expected r) k = dict_get r k"
  by (auto simp: durable_receipt_def)

lemma get_published:
  "k \<notin> {''receipt_sha256'', ''receipt_path'', ''path''} \<Longrightarrow> dict_get (published_receipt p r) k = dict_get r k"
  by (auto simp: published_receipt_def split: option.splits)

text \<open>
  C29.  A successful download was allowed and is what the receipt says: the workspace is writable and may execute, the URL is
  within the owner's download grant and the budgets are within its bounds; whatever the worker reported, the published
  file has exactly the recorded size and digest, respects the byte budget and matches a digest the caller expected;
  the receipt lies beside it under the approved directory with the reported digest; both names were free, and no
  entry of the directory was replaced, however other processes added entries between the checks and the links.
\<close>

theorem download_verified:
  assumes "https_download sha utc h workspace_id url filename expected max_bytes timeout d = (Inr r, d')"
    and "\<forall>r \<in> set (pe_races (dh_env h)). keeps_entries r"
  shows "\<exists>ws host target grant body.
      Registry.get (dh_registry h) workspace_id = Inr ws \<and> writable ws \<and> allow_execute ws
    \<and> authorize_download (dh_scopes h) workspace_id url = Inr (host, target, grant)
    \<and> max_bytes \<le> dg_max_bytes grant \<and> timeout \<le> dg_timeout grant
    \<and> map_of d filename = None \<and> map_of d' filename = Some (Plain body) \<and> int (length body) \<le> max_bytes
    \<and> (\<forall>e. expected = Some e \<longrightarrow> sha body = e)
    \<and> dict_get r ''bytes'' = PInt (int (length body)) \<and> dict_get r ''sha256'' = PStr (sha body)
    \<and> dict_get r ''path'' = PStr (dg_directory grant @ ''/'' @ filename)
    \<and> (\<exists>text. map_of d' (filename @ RECEIPT_SUFFIX) = Some (Plain text) \<and> dict_get r ''receipt_sha256'' = PStr (sha text))
    \<and> (\<forall>n e. map_of d n = Some e \<longrightarrow> map_of d' n = Some e)"
proof -
  obtain directory receipt spool where acq: "acquire_file utc h workspace_id url filename expected max_bytes timeout = Inr (directory, receipt, spool)"
    using assms(1) by (auto simp: https_download_def split: sum.splits)
  obtain outcome d1 where pub: "publish sha utc (dh_now h) (dh_env h) directory filename spool receipt (Some receipt) d = (outcome, d1)" by fastforce
  from assms(1) obtain p where p: "outcome = Inr p" "r = published_receipt p receipt" "d1 = d'"
    by (auto simp: https_download_def acq pub)
  note a = acq [unfolded acquire_file_def guard_Inr_iff rbind_Inr_iff]
  obtain ws host target grant worker w where reg: "Registry.get (dh_registry h) workspace_id = Inr ws" "writable ws" "allow_execute ws"
    and auth: "authorize_download (dh_scopes h) workspace_id url = Inr (host, target, grant)"
    and budget: "max_bytes \<le> dg_max_bytes grant" "timeout \<le> dg_timeout grant"
    and w: "check_worker utc (dh_now h) worker max_bytes expected = Inr w"
    and rec: "directory = dg_directory grant" "receipt = durable_receipt workspace_id (dg_directory grant) filename url expected w" "spool = dw_spool worker"
    using a by (auto simp: guard_Inr_iff)
  from w obtain doc where "worker_receipt utc (dh_now h) doc max_bytes expected = Inr w" by (auto simp: check_worker_def guard_Inr_iff)
  note wr = worker_receipt_Inr [OF this]
  note pb = publish_never_replaces [OF pub assms(2)]
  from pb p have pub_facts: "map_of d filename = None" "map_of d' filename = Some (Plain spool)"
    "dict_get receipt ''bytes'' = PInt (int (length spool))" "dict_get receipt ''sha256'' = PStr (sha spool)"
    "fst p = directory @ ''/'' @ filename" "map_of d' (filename @ RECEIPT_SUFFIX) = Some (Plain (receipt_text receipt))"
    "snd p = Some (directory @ ''/'' @ filename @ RECEIPT_SUFFIX, sha (receipt_text receipt))"
    "\<forall>n e. map_of d n = Some e \<longrightarrow> map_of d' n = Some e" by auto
  from pub_facts(3,4) have "dict_get w ''bytes'' = PInt (int (length spool))" "dict_get w ''sha256'' = PStr (sha spool)"
    by (simp_all add: rec(2))
  with wr have "int (length spool) \<le> max_bytes" "\<forall>e. expected = Some e \<longrightarrow> sha spool = e" by auto
  moreover have "dict_get r ''bytes'' = PInt (int (length spool))" "dict_get r ''sha256'' = PStr (sha spool)"
    using pub_facts(3,4) by (simp_all add: p(2) get_published)
  moreover have "dict_get r ''path'' = PStr (dg_directory grant @ ''/'' @ filename)" "dict_get r ''receipt_sha256'' = PStr (sha (receipt_text receipt))"
    using pub_facts(5,7) rec(1) by (simp_all add: p(2) published_receipt_def)
  ultimately show ?thesis using reg auth budget pub_facts(1,2,6,8) by blast
qed

lemma safe_headers_ok:
  "safe_headers s hs = Inr safe \<Longrightarrow> headers_ok (PDict s) \<Longrightarrow> headers_ok (PDict safe)"
proof (induction s hs rule: safe_headers.induct)
  case (2 s name v hs)
  then show ?case by (auto simp: headers_ok_def field_names_def split: if_splits)
qed simp

definition report :: "(string \<Rightarrow> string) \<Rightarrow> string option \<Rightarrow> string \<Rightarrow> pydict \<Rightarrow> string \<Rightarrow> pydict" where
  "report sha expected body safe now = [(''http_status'', PInt 200), (''bytes'', PInt (int (length body))), (''sha256'', PStr (sha body)),
     (''expected_sha256_verified'', PBool (expected \<noteq> None)), (''headers'', PDict safe), (''retrieved_at'', PStr now)]"

lemma stream_download_iff:
  "stream_download sha scopes net now workspace_id url expected max_bytes timeout = Inr (r, body) \<longleftrightarrow>
     (\<exists>host target grant reply safe. (\<forall>e. expected = Some e \<longrightarrow> class_match is_hex 64 64 e \<and> sha body = e)
        \<and> authorize_download scopes workspace_id url = Inr (host, target, grant)
        \<and> 1 \<le> max_bytes \<and> max_bytes \<le> dg_max_bytes grant \<and> 1 \<le> timeout \<and> timeout \<le> dg_timeout grant
        \<and> net \<lparr>dl_host = host, dl_target = target, dl_timeout = timeout\<rparr> = Inr reply
        \<and> rp_status reply = 200 \<and> body = rp_body reply \<and> int (length body) \<le> max_bytes
        \<and> framing max_bytes (rp_headers reply) \<in> {Inr None, Inr (Some (int (length body)))}
        \<and> safe_headers [] (rp_headers reply) = Inr safe
        \<and> r = report sha expected body safe now)"
proof -
  have loop: "copy_blocks (\<lambda>n. min 65536 (nat max_bytes - n + 1)) (nat max_bytes) 0 b
      = (if length b \<le> nat max_bytes then Inr b else Inl ValueError)" for b
    using copy_blocks_eq [of "nat max_bytes" "\<lambda>n. min 65536 (nat max_bytes - n + 1)" 0 b] by simp
  have size: "1 \<le> max_bytes \<Longrightarrow> (length b \<le> nat max_bytes) = (int (length b) \<le> max_bytes)" for b :: string by linarith
  show ?thesis unfolding stream_download_def guard_Inr_iff rbind_Inr_iff loop report_def
    by (auto simp: guard_Inr_iff accept_Inr_iff size split: option.splits)
qed
lemma names_in_Some_eq: "names_in P v = Some xs \<Longrightarrow> list_all P xs"
  using names_in_Some by blast

lemma read_downloads_ok:
  assumes "read_downloads hosts v = Inr g"
  shows "download_directory (dg_directory g) \<and> dg_max_bytes g \<le> MAX_DOWNLOAD_BYTES"
proof -
  obtain d where v: "v = PDict d" using assms by (cases v) (simp_all add: read_downloads_def)
  note r = assms [unfolded read_downloads_def v pyval.case Let_def guard_Inr_iff]
  then have "int_in 1 16777216 (dict_get d ''max_response_bytes'')" "download_directory (the_str (dict_get d ''directory''))" by blast+
  moreover have "dg_directory g = the_str (dict_get d ''directory'')" "dg_max_bytes g = the_int (dict_get d ''max_response_bytes'')"
    by (simp_all add: sum.inject(2) [THEN iffD1, OF r [THEN conjunct2, THEN conjunct2, THEN conjunct2, THEN conjunct2], symmetric])
  ultimately show ?thesis by (auto simp: int_in_iff the_int_def MAX_DOWNLOAD_BYTES_def)
qed

lemma read_scope_downloads:
  assumes "read_scope v2 spec = Inr s" and "hs_downloads s = Some g"
  shows "\<exists>hosts v. read_downloads hosts v = Inr g"
proof -
  obtain d where spec: "spec = PDict d" using assms(1) by (cases spec) (simp_all add: read_scope_def)
  note r = assms(1) [unfolded read_scope_def spec pyval.case Let_def guard_Inr_iff rbind_Inr_iff]
  then show ?thesis using assms(2) by (auto split: if_splits)
qed

lemma read_document_scope:
  assumes "read_document doc = Inr scopes" and "map_of scopes w = Some s"
  shows "w = ''public-data'' \<and> (\<exists>v2 spec. read_scope v2 spec = Inr s)"
proof -
  obtain d where doc: "doc = PDict d" using assms(1) by (cases doc) (simp_all add: read_document_def)
  note r = assms(1) [unfolded read_document_def doc pyval.case]
  obtain sc where w: "dict_get d ''workspaces'' = PDict sc"
    using r by (cases "dict_get d ''workspaces''") (simp_all split: if_splits)
  obtain s' where "read_scope (dict_get d ''version'' = PInt 2) (dict_get sc ''public-data'') = Inr s'" "scopes = [(''public-data'', s')]"
    using r unfolding w by (auto split: if_splits)
  with assms(2) show ?thesis by (auto split: if_splits)
qed

lemma loaded_download_grant:
  assumes "new_https_policy me fs config_dir roots root steps policy = Inr scopes"
    and "authorize_download scopes w url = Inr (host, target, grant)"
  shows "w = ''public-data'' \<and> download_directory (dg_directory grant) \<and> dg_max_bytes grant \<le> MAX_DOWNLOAD_BYTES"
proof -
  from assms(2) obtain s where s: "map_of scopes w = Some s" "hs_downloads s = Some grant"
    by (auto simp: authorize_download_def authorize_def guard_Inr_iff split: option.splits if_splits)
  from assms(1) obtain dir :: "stat option" where "(case dir of None \<Rightarrow> Inr [] | Some _ \<Rightarrow> read_policy me policy) = Inr scopes"
    unfolding new_https_policy_def Let_def guard_Inr_iff rbind_Inr_iff by blast
  with s(1) have "read_policy me policy = Inr scopes" by (cases dir) auto
  with s(1) obtain doc where "read_document doc = Inr scopes"
    by (auto simp: read_policy_def split: lookup.splits if_splits)
  from read_document_scope [OF this s(1)] show ?thesis
    using read_scope_downloads s(2) read_downloads_ok by blast
qed

lemma url_parts_ok:
  assumes "url_parts_of url = Inr x"
  shows "1 \<le> length url \<and> length url \<le> 2048 \<and> list_all (\<lambda>c. 32 \<le> char_code c \<and> char_code c \<noteq> 127) url"
proof -
  note r = assms [unfolded url_parts_of_def guard_Inr_iff]
  have "url \<noteq> []" "int (length url) \<le> 2048" "\<not> list_ex (\<lambda>c. char_code c < 33 \<or> char_code c = 127 \<or> c = BSLASH) url"
    using r by auto
  then show ?thesis by (cases url) (auto simp: list_ex_iff list_all_iff)
qed

definition publication_ready :: "pub_env \<Rightarrow> string \<Rightarrow> pub_dir \<Rightarrow> bool" where
  "publication_ready env name d \<longleftrightarrow> pe_root env \<and> list_all id (pe_walk env) \<and> length name + 13 \<le> pe_name_max env
     \<and> name \<notin> field_names d \<and> name @ RECEIPT_SUFFIX \<notin> field_names d \<and> pe_stage env \<and> pe_races env = [] \<and> pe_sync env"

lemma worker_receipt_refl:
  assumes "int_in 0 max_bytes (PInt n)" and "class_match is_hex 64 64 s" and "\<forall>e. expected = Some e \<longrightarrow> s = e"
    and "headers_ok hs" and "1 \<le> length now" "length now \<le> 64" and "utc now = Some 0"
  shows "worker_receipt utc now' (PDict [(''http_status'', PInt 200), (''bytes'', PInt n), (''sha256'', PStr s),
      (''expected_sha256_verified'', PBool (expected \<noteq> None)), (''headers'', hs), (''retrieved_at'', PStr now)]) max_bytes expected
    = Inr [(''http_status'', PInt 200), (''bytes'', PInt n), (''sha256'', PStr s),
      (''expected_sha256_verified'', PBool (expected \<noteq> None)), (''headers'', hs), (''retrieved_at'', PStr now)]"
  using assms by (cases expected)
    (simp_all add: worker_receipt_def WORKER_FIELDS_def field_names_def dict_get_def checksum_def get_or_def dict_set_def insert_commute)

lemma get_report [simp]:
  "dict_get (report sha expected body safe now) ''bytes'' = PInt (int (length body))"
  "dict_get (report sha expected body safe now) ''sha256'' = PStr (sha body)"
  by (simp_all add: report_def dict_get_def)

text \<open>What \<open>stream_download\<close> reports passes the checks of the gateway, before and inside the publication.\<close>

lemma report_accepted:
  assumes "\<forall>e. expected = Some e \<longrightarrow> class_match is_hex 64 64 e \<and> sha body = e" and "\<forall>x. class_match is_hex 64 64 (sha x)"
    and "headers_ok (PDict safe)" and "utc now = Some 0" "1 \<le> length now" "length now \<le> 64" and "int (length body) \<le> mx"
  shows "worker_receipt utc now' (PDict (report sha expected body safe now)) mx expected = Inr (report sha expected body safe now)"
  unfolding report_def using assms by (intro worker_receipt_refl) (auto simp: int_in_iff)

lemma durable_shape:
  assumes "url_parts_of url = Inr x" and "starts_with ''https://'' url"
  shows "receipt_shape directory name (durable_receipt ''public-data'' directory name url expected (report sha expected body safe now))"
proof -
  let ?r = "durable_receipt ''public-data'' directory name url expected (report sha expected body safe now)"
  have names: "field_names ?r = set RECEIPT_FIELDS"
    by (auto simp: report_def durable_receipt_def RECEIPT_FIELDS_def field_names_def keys_dict_set)
  have "plain_name ''public-data''" by code_simp
  with names url_parts_ok [OF assms(1)] assms(2) show ?thesis by (simp add: receipt_shape_def Let_def durable_receipt_def)
qed

lemma durable_bytes:
  assumes "\<forall>e. expected = Some e \<longrightarrow> class_match is_hex 64 64 e \<and> sha body = e" and "\<forall>x. class_match is_hex 64 64 (sha x)"
    and "headers_ok (PDict safe)" and "utc now = Some 0" "1 \<le> length now" "length now \<le> 64" and "int (length body) \<le> MAX_DOWNLOAD_BYTES"
    and "url_parts_of url = Inr x" "starts_with ''https://'' url"
    and "receipt = durable_receipt ''public-data'' directory name url expected (report sha expected body safe now)"
    and "length (receipt_text receipt) \<le> MAX_RECEIPT_BYTES"
  shows "receipt_bytes utc now' receipt directory name receipt = Inr (receipt_text receipt)"
proof -
  have part: "worker_part receipt = report sha expected body safe now"
    unfolding assms(10) by (simp add: worker_part_def) (simp add: report_def dict_get_def)
  have external: "checksum (dict_get receipt ''expected_sha256'') = Inr expected"
    using assms(1) by (cases expected) (simp_all add: assms(10) durable_receipt_def checksum_def)
  have "receipt_shape directory name receipt" unfolding assms(10) using assms(8,9) by (rule durable_shape)
  with assms(11) report_accepted [where sha = sha and body = body and utc = utc and now = now, OF assms(1-7)] show ?thesis
    unfolding receipt_bytes_def external rbind.simps part by (simp add: assms(10))
qed

lemma stage_ready:
  assumes "check_filename name = Inr ()" "download_directory directory" "publication_ready env name d"
    and "dict_get receipt ''bytes'' = PInt (int (length body))" "dict_get receipt ''sha256'' = PStr (sha body)"
    and "class_match is_hex 64 64 (sha body)" "int (length body) \<le> MAX_DOWNLOAD_BYTES"
    and "receipt_bytes utc now receipt directory name receipt = Inr b"
  shows "stage_publication sha utc now env directory name body receipt (Some receipt) d = Inr (Some b, body)"
proof -
  have "spool_matches sha body receipt = Inr body"
    using copy_blocks_eq [of "length body" "\<lambda>_. 65536" 0 body] assms(4,5) by (simp add: spool_matches_def the_int_def)
  with assms show ?thesis
    by (simp add: stage_publication_def checksum_def int_in_iff publication_names_def publication_ready_def RECEIPT_SUFFIX_def)
qed

text \<open>
  A download completes, under these conditions: the workspace is writable and may execute, no other download runs and a
  slot is free; the owner policy loads and grants the URL, which is spelled with a lower-case \<open>https://\<close>; the worker streams
  the body within the declared framing and the budgets, exits with 0 and prints at most 4096 bytes on each pipe; the digest
  is 64 hexadecimal digits, the clock gives a UTC time of at most 64 characters, the file name is accepted, the durable
  receipt is at most \<open>MAX_RECEIPT_BYTES\<close> long; and the target is a supported directory in which both names are free, the
  links succeed and nobody interferes (\<open>publication_ready\<close>).  Then the report is accepted and exactly two entries are added,
  the durable receipt and then the file with the streamed bytes.
\<close>

theorem download_completes:
  assumes "Registry.get (dh_registry h) workspace_id = Inr ws" "writable ws" "allow_execute ws" and "dh_free h" "dh_slot h = Inr ()"
    and policy: "new_https_policy me fs config_dir roots root steps policy = Inr (dh_scopes h)"
    and str: "stream_download sha (dh_scopes h) net (dh_now h) workspace_id url expected max_bytes timeout = Inr (r, body)"
    and auth: "authorize_download (dh_scopes h) workspace_id url = Inr (host, target, grant)"
    and worker: "dh_start h (download_command (dh_python h) (dh_config h) (dh_fd h) workspace_id url max_bytes timeout expected) timeout
        = Inr \<lparr>dw_code = 0, dw_out = n, dw_err = m, dw_document = Inr (PDict r), dw_spool = body\<rparr>" "n \<le> 4096" "m \<le> 4096"
    and "\<forall>x. class_match is_hex 64 64 (sha x)"
    and "utc (dh_now h) = Some 0" "1 \<le> length (dh_now h)" "length (dh_now h) \<le> 64"
    and "check_filename filename = Inr ()" and "starts_with ''https://'' url"
    and "length (receipt_text (durable_receipt workspace_id (dg_directory grant) filename url expected r)) \<le> MAX_RECEIPT_BYTES"
    and ready: "publication_ready (dh_env h) filename d"
  shows "\<exists>receipt. https_download sha utc h workspace_id url filename expected max_bytes timeout d =
    (Inr receipt, d @ [(filename @ RECEIPT_SUFFIX, Plain (receipt_text (durable_receipt workspace_id (dg_directory grant) filename url expected r))),
       (filename, Plain body)])"
proof -
  note s = str [unfolded stream_download_iff]
  from s auth have b: "\<forall>e. expected = Some e \<longrightarrow> class_match is_hex 64 64 e \<and> sha body = e"
    "1 \<le> max_bytes" "max_bytes \<le> dg_max_bytes grant" "1 \<le> timeout" "timeout \<le> dg_timeout grant" "int (length body) \<le> max_bytes"
    by auto
  from s obtain safe hdrs where safe: "safe_headers [] hdrs = Inr safe" and r: "r = report sha expected body safe (dh_now h)" by blast
  have h: "headers_ok (PDict safe)" using safe_headers_ok [OF safe] by (simp add: headers_ok_def field_names_def)
  note grant = loaded_download_grant [OF policy auth]
  have size: "int (length body) \<le> MAX_DOWNLOAD_BYTES" using b(3,6) grant by linarith
  obtain x where url: "url_parts_of url = Inr x" using auth by (auto simp: authorize_download_def authorize_def)
  let ?receipt = "durable_receipt workspace_id (dg_directory grant) filename url expected r"
  have acq: "acquire_file utc h workspace_id url filename expected max_bytes timeout = Inr (dg_directory grant, ?receipt, body)"
    using assms(1-5,16) auth worker b report_accepted [where sha = sha and body = body and utc = utc and now = "dh_now h", OF b(1) assms(12) h assms(13-15) b(6)]
    by (simp add: acquire_file_def check_worker_def checksum_def r split: option.splits)
  have "receipt_bytes utc (dh_now h) ?receipt (dg_directory grant) filename ?receipt = Inr (receipt_text ?receipt)"
    using grant by (intro durable_bytes [where sha = sha and body = body and utc = utc and now = "dh_now h", OF b(1) assms(12) h assms(13-15) size url assms(17) _ assms(18)]) (simp add: r)
  then have "stage_publication sha utc (dh_now h) (dh_env h) (dg_directory grant) filename body ?receipt (Some ?receipt) d
      = Inr (Some (receipt_text ?receipt), body)"
    using assms(12,16) ready grant size by (intro stage_ready) (simp_all add: r)
  then show ?thesis using ready
    by (simp add: https_download_def acq publish_def publications_def publication_ready_def field_names_def RECEIPT_SUFFIX_def)
qed
lemma scheme_spelling_never_published:
  assumes "\<not> starts_with ''https://'' url"
  shows "\<exists>e. fst (https_download sha utc h workspace_id url filename expected max_bytes timeout d) = Inl e"
proof (cases "acquire_file utc h workspace_id url filename expected max_bytes timeout")
  case (Inl e)
  then show ?thesis by (simp add: https_download_def)
next
  case (Inr q)
  obtain directory receipt spool where q: "q = (directory, receipt, spool)" by (cases q)
  then have "dict_get receipt ''source_url'' = PStr url"
    using Inr by (auto simp: acquire_file_def guard_Inr_iff durable_receipt_def)
  with assms have "\<not> receipt_shape directory filename receipt" by (simp add: receipt_shape_def Let_def)
  with stage_publication_Inr obtain e where
    "stage_publication sha utc (dh_now h) (dh_env h) directory filename spool receipt (Some receipt) d = Inl e"
    by (cases "stage_publication sha utc (dh_now h) (dh_env h) directory filename spool receipt (Some receipt) d") fastforce+
  then show ?thesis by (simp add: https_download_def Inr q publish_def)
qed

section \<open>Witnesses\<close>

definition demo_download_doc :: pyval where
  "demo_download_doc = PDict [(''version'', PInt 2), (''workspaces'', PDict [(''public-data'', PDict
     [(''hosts'', PList [PStr ''cran.r-project.org'']), (''methods'', PList [PStr ''GET'']), (''max_response_bytes'', PInt 1000),
      (''timeout_seconds'', PInt 10), (''downloads'', PDict [(''hosts'', PList [PStr ''cran.r-project.org'']),
        (''directory'', PStr ''data-raw/cran-history/reports/r1/downloads''), (''max_response_bytes'', PInt 500), (''timeout_seconds'', PInt 30)])])])]"

definition demo_download_grant :: download_grant where
  "demo_download_grant = \<lparr>dg_hosts = [''cran.r-project.org''], dg_directory = ''data-raw/cran-history/reports/r1/downloads'',
     dg_max_bytes = 500, dg_timeout = 30, dg_cran_all = False\<rparr>"

definition demo_download_scopes :: "(string \<times> https_scope) list" where
  "demo_download_scopes = [(''public-data'', \<lparr>hs_hosts = [''cran.r-project.org''], hs_methods = [''GET''], hs_max_bytes = 1000,
     hs_timeout = 10, hs_downloads = Some demo_download_grant\<rparr>)]"

definition demo_tarball :: string where
  "demo_tarball = ''https://cran.r-project.org/src/contrib/Archive/abc/abc_1.0.tar.gz''"

definition demo_sum :: "string \<Rightarrow> string" where
  "demo_sum x = replicate 64 (if x = ''data'' then CHR ''d'' else CHR ''e'')"

definition demo_utc :: "string \<Rightarrow> int option" where
  "demo_utc t = (if t = ''2024-01-01T00:00:00+00:00'' then Some 0 else None)"

definition demo_fetch :: "download_request \<Rightarrow> http_reply result" where
  "demo_fetch rq = (if dl_target rq = ''/src/contrib/Archive/abc/abc_1.0.tar.gz''
     then Inr \<lparr>rp_status = 200, rp_length = Some 4, rp_headers = [(''Content-Length'', ''4''), (''ETag'', ''x'')], rp_body = ''data''\<rparr>
     else Inl OSError)"

definition demo_report :: pydict where
  "demo_report = report demo_sum (Some (demo_sum ''data'')) ''data'' [(''content-length'', PStr ''4''), (''etag'', PStr ''x'')]
     ''2024-01-01T00:00:00+00:00''"

definition demo_pub_env :: pub_env where
  "demo_pub_env = \<lparr>pe_root = True, pe_walk = replicate 5 True, pe_name_max = 255, pe_stage = True, pe_races = [], pe_sync = True\<rparr>"

definition demo_data_workspace :: workspace where
  "demo_data_workspace = \<lparr>ws_id = ''public-data'', ws_path = ''/srv/d'', writable = True, description = [], allow_execute = True,
     allow_git = False, allow_artifacts = False, allow_agent_dispatch = False, auto_discover = False, local_http_ports = []\<rparr>"

definition demo_download_host :: download_host where
  "demo_download_host = \<lparr>dh_scopes = demo_download_scopes, dh_registry = [(''public-data'', demo_data_workspace)],
     dh_python = ''python3'', dh_config = ''/etc/agentporter'', dh_free = True, dh_slot = Inr (), dh_fd = 5,
     dh_start = (\<lambda>cmd t. Inr \<lparr>dw_code = 0, dw_out = 300, dw_err = 0, dw_document = Inr (PDict demo_report), dw_spool = ''data''\<rparr>),
     dh_now = ''2024-01-01T00:00:00+00:00'', dh_env = demo_pub_env\<rparr>"

definition demo_durable :: pydict where
  "demo_durable = durable_receipt ''public-data'' ''data-raw/cran-history/reports/r1/downloads'' ''abc.tar.gz'' demo_tarball
     (Some (demo_sum ''data'')) demo_report"

lemma demo_download_loads:
  "new_https_policy 7 \<lparr>fs_links = [], fs_cwd = []\<rparr> ''/etc/agentporter'' [''/srv/w''] (demo_stat Directory 493)
     [Opened (demo_stat Directory 493), Opened (demo_stat Directory 448)] (Found (demo_stat Regular 384) demo_download_doc)
   = Inr (dh_scopes demo_download_host)"
  by code_simp

lemma demo_streamed:
  "stream_download demo_sum (dh_scopes demo_download_host) demo_fetch (dh_now demo_download_host) ''public-data'' demo_tarball
     (Some (demo_sum ''data'')) 100 20 = Inr (demo_report, ''data'')"
  by code_simp

lemma demo_download_authorized:
  "authorize_download (dh_scopes demo_download_host) ''public-data'' demo_tarball
     = Inr (''cran.r-project.org'', ''/src/contrib/Archive/abc/abc_1.0.tar.gz'', demo_download_grant)"
  by code_simp

lemma demo_durable_short: "length (receipt_text demo_durable) \<le> MAX_RECEIPT_BYTES"
  by code_simp

lemma demo_sum_hex: "class_match is_hex 64 64 (demo_sum x)"
  by (simp add: demo_sum_def class_match_def is_hex_def list_all_iff in_range_def is_digit_def char_code_def)

theorem download_completes_witness:
  "\<exists>receipt. https_download demo_sum demo_utc demo_download_host ''public-data'' demo_tarball ''abc.tar.gz'' (Some (demo_sum ''data'')) 100 20 []
     = (Inr receipt, [(''abc.tar.gz.receipt.json'', Plain (receipt_text demo_durable)), (''abc.tar.gz'', Plain ''data'')])"
proof -
  have f: "check_filename ''abc.tar.gz'' = Inr ()" "publication_ready (dh_env demo_download_host) ''abc.tar.gz'' []"
    "starts_with ''https://'' demo_tarball" by code_simp+
  have "\<exists>receipt. https_download demo_sum demo_utc demo_download_host ''public-data'' demo_tarball ''abc.tar.gz'' (Some (demo_sum ''data'')) 100 20 []
     = (Inr receipt, [] @ [(''abc.tar.gz'' @ RECEIPT_SUFFIX, Plain (receipt_text (durable_receipt ''public-data'' (dg_directory demo_download_grant)
         ''abc.tar.gz'' demo_tarball (Some (demo_sum ''data'')) demo_report))), (''abc.tar.gz'', Plain ''data'')])"
    by (rule download_completes [where ws = demo_data_workspace and n = 300 and m = 0, OF _ _ _ _ _ demo_download_loads demo_streamed
        demo_download_authorized _ _ _ _ _ _ _ f(1) f(3) _ f(2)])
      (use demo_durable_short in \<open>simp_all add: demo_download_host_def demo_data_workspace_def demo_sum_hex demo_utc_def
        demo_durable_def demo_download_grant_def\<close>)
  then show ?thesis by (simp add: demo_durable_def demo_download_grant_def RECEIPT_SUFFIX_def)
qed

lemma demo_downloaded:
  "https_download demo_sum demo_utc demo_download_host ''public-data'' demo_tarball ''abc.tar.gz'' (Some (demo_sum ''data'')) 100 20 []
     = (Inr (published_receipt (''data-raw/cran-history/reports/r1/downloads/abc.tar.gz'',
         Some (''data-raw/cran-history/reports/r1/downloads/abc.tar.gz.receipt.json'', demo_sum [])) demo_durable),
        [(''abc.tar.gz.receipt.json'', Plain (receipt_text demo_durable)), (''abc.tar.gz'', Plain ''data'')])"
  by code_simp

theorem download_verified_witness:
  "\<exists>body. int (length body) \<le> 100 \<and> demo_sum body = replicate 64 (CHR ''d'')
     \<and> map_of [(''abc.tar.gz.receipt.json'', Plain (receipt_text demo_durable)), (''abc.tar.gz'', Plain ''data'')] ''abc.tar.gz'' = Some (Plain body)"
proof -
  have "\<forall>r \<in> set (pe_races (dh_env demo_download_host)). keeps_entries r" by (simp add: demo_download_host_def demo_pub_env_def)
  from download_verified [OF demo_downloaded this] show ?thesis by (auto simp: demo_sum_def)
qed
end
