(* ===== verification/Worker_RPC.thy ===== *)
theory Worker_RPC
  imports Git_Remotes Roster
begin

text \<open>
  \<open>worker_git_rpc.py\<close>: the per-job Git service for delegated workers.  A call is a sequence of sections under
  one lock with backend calls between them; what other threads do to the shared state before each section is an
  input.  The backend's requests and outcomes and the clock are inputs too.  Times are integers.
\<close>

section \<open>Grants\<close>

definition WORKER_VERSION :: int where "WORKER_VERSION = 1"
definition MODES :: "string list" where "MODES = [''ff-only'', ''merge'', ''rebase'']"
definition CAPABILITIES :: "string list" where "CAPABILITIES = [''read'', ''write'']"
definition MAX_FRAME :: nat where "MAX_FRAME = 65536"
definition WORKER_RECEIPT :: nat where "WORKER_RECEIPT = 8192"
definition MAX_OUTCOME :: nat where "MAX_OUTCOME = 262144"
definition PREPARED_TTL :: int where "PREPARED_TTL = 300"
definition MAX_PREPARED_PER_JOB :: nat where "MAX_PREPARED_PER_JOB = 32"
definition MAX_PREPARED_TOTAL :: nat where "MAX_PREPARED_TOTAL = 1024"

text \<open>\<open>wg_ref\<close> is the identity of the object.\<close>

record worker_grant =
  wg_ref :: nat
  wg_job :: string
  wg_agent :: string
  wg_workspace :: string
  wg_repository :: string
  wg_path :: string
  wg_caps :: "string list"
  wg_allowed :: "(string \<times> string \<times> string) list"
  wg_expires :: int
  wg_clone :: "(string \<times> string) list"
  wg_fetch :: "(string \<times> string) list"

type_synonym catalog = "worker_grant \<times> worker_grant list"   \<comment> \<open>a grant and its alternates\<close>

definition job_id_ok :: "string \<Rightarrow> bool" where
  "job_id_ok s \<longleftrightarrow> starts_with ''job_'' s \<and> class_match is_hex 24 24 (drop 4 s)"

definition remote_char :: "char \<Rightarrow> bool" where
  "remote_char c \<longleftrightarrow> is_alnum c \<or> c \<in> set ''_-''"

definition remote_ok :: "string \<Rightarrow> bool" where
  "remote_ok s \<longleftrightarrow> class_match remote_char 1 128 s"

definition location_ok :: "string \<Rightarrow> bool" where
  "location_ok s \<longleftrightarrow> class_match (\<lambda>c. is_alnum c \<or> c \<in> set ''._/-'') 1 256 s \<and> ''..'' \<notin> set (pure_parts s) \<and> \<not> starts_with ''/'' s"

text \<open>\<open>WorkerGitGrant.__post_init__\<close> for a grant without alternates, and the catalog check.\<close>

definition grant_valid :: "worker_grant \<Rightarrow> bool" where
  "grant_valid g \<longleftrightarrow> job_id_ok (wg_job g) \<and> wg_agent g \<in> set PUBLIC_AGENT_IDS
     \<and> wg_workspace g \<noteq> [] \<and> length (wg_workspace g) \<le> 256 \<and> wg_workspace g \<noteq> ''*'' \<and> location_ok (wg_repository g)
     \<and> starts_with ''/'' (wg_path g) \<and> wg_path g \<noteq> ''/'' \<and> ''..'' \<notin> set (pure_parts (wg_path g)) \<and> pure_str (wg_path g) = wg_path g
     \<and> set (wg_caps g) \<subseteq> set CAPABILITIES \<and> \<not> (wg_allowed g = [] \<and> wg_clone g = [] \<and> wg_fetch g = [])
     \<and> list_all (\<lambda>(remote, ref, m). remote_ok remote \<and> branch_text ref \<and> m \<in> set MODES) (wg_allowed g)
     \<and> list_all (\<lambda>(remote, ref). remote_ok remote \<and> branch_text ref) (wg_clone g @ wg_fetch g)
     \<and> \<not> (wg_clone g \<noteq> [] \<and> wg_repository g = ''.'') \<and> 0 < wg_expires g"

definition same_scope :: "worker_grant \<Rightarrow> worker_grant \<Rightarrow> bool" where
  "same_scope g h \<longleftrightarrow> wg_job g = wg_job h \<and> wg_agent g = wg_agent h \<and> wg_workspace g = wg_workspace h
     \<and> set (wg_caps g) = set (wg_caps h) \<and> wg_expires g = wg_expires h"

definition catalog_valid :: "catalog \<Rightarrow> bool" where
  "catalog_valid c \<longleftrightarrow> grant_valid (fst c) \<and> list_all grant_valid (snd c) \<and> length (snd c) \<le> 127
     \<and> list_all (same_scope (fst c)) (snd c) \<and> distinct (map wg_repository (fst c # snd c))"

section \<open>The shared state\<close>

text \<open>
  Prepared records are objects: the table maps a job and a digest to a reference into the heap, so that a thread
  that still holds a record of a revoked grant writes to the detached record only.
\<close>

record prepared =
  pr_scope :: "string list"
  pr_operation :: string
  pr_request :: string
  pr_at :: int
  pr_dispatched :: bool
  pr_response :: "pydict option"

type_synonym record_key = "string \<times> string"

record rpc_state =
  rs_grants :: "(string \<times> catalog) list"
  rs_selected :: "(string \<times> string) list"
  rs_prepared :: "(record_key \<times> nat) list"
  rs_heap :: "prepared list"

definition initial_rpc :: rpc_state where
  "initial_rpc = \<lparr>rs_grants = [], rs_selected = [], rs_prepared = [], rs_heap = []\<rparr>"

definition issue_grant :: "catalog \<Rightarrow> rpc_state \<Rightarrow> rpc_state result" where
  "issue_grant c s = (if wg_job (fst c) \<in> field_names (rs_grants s) then Inl ValueError
     else Inr (s\<lparr>rs_grants := dict_set (wg_job (fst c)) c (rs_grants s)\<rparr>))"

definition revoke :: "string \<Rightarrow> rpc_state \<Rightarrow> rpc_state" where
  "revoke job s = s\<lparr>rs_grants := dict_pop job (rs_grants s), rs_selected := dict_pop job (rs_selected s),
     rs_prepared := filter (\<lambda>p. fst (fst p) \<noteq> job) (rs_prepared s)\<rparr>"

definition registered :: "worker_grant \<Rightarrow> rpc_state \<Rightarrow> bool" where
  "registered g s = (case map_of (rs_grants s) (wg_job g) of
       None \<Rightarrow> False
     | Some (primary, alternates) \<Rightarrow> list_ex (\<lambda>h. wg_ref h = wg_ref g) (primary # alternates))"

definition channel :: "rpc_state \<Rightarrow> string \<Rightarrow> catalog result" where
  "channel s job = (case map_of (rs_grants s) job of None \<Rightarrow> Inl PermissionError | Some c \<Rightarrow> Inr c)"

section \<open>Sections under the lock\<close>

datatype failure = Denied string | Raised py_error

type_synonym 'a outcome = "failure + 'a"

text \<open>The first request of a job binds its repository.\<close>

definition select_repository :: "worker_grant \<Rightarrow> rpc_state \<Rightarrow> unit outcome \<times> rpc_state" where
  "select_repository g s = (case map_of (rs_selected s) (wg_job g) of
       None \<Rightarrow> (Inr (), s\<lparr>rs_selected := dict_set (wg_job g) (wg_repository g) (rs_selected s)\<rparr>)
     | Some r \<Rightarrow> (if r = wg_repository g then Inr () else Inl (Denied ''repository_bound_elsewhere''), s))"

definition record_of :: "rpc_state \<Rightarrow> nat \<Rightarrow> prepared" where
  "record_of s i = rs_heap s ! i"

definition is_idle :: "rpc_state \<Rightarrow> record_key \<times> nat \<Rightarrow> bool" where
  "is_idle s p \<longleftrightarrow> \<not> pr_dispatched (record_of s (snd p))"

text \<open>The first oldest idle record of a pool.\<close>

fun oldest :: "rpc_state \<Rightarrow> (record_key \<times> nat) list \<Rightarrow> (record_key \<times> nat) option" where
  "oldest s [] = None"
| "oldest s (p # ps) = (case oldest s ps of
       None \<Rightarrow> Some p
     | Some q \<Rightarrow> if pr_at (record_of s (snd q)) < pr_at (record_of s (snd p)) then Some q else Some p)"

definition mine :: "string \<Rightarrow> (record_key \<times> nat) list \<Rightarrow> (record_key \<times> nat) list" where
  "mine job t = filter (\<lambda>p. fst (fst p) = job) t"

definition drop_stale :: "int \<Rightarrow> int \<Rightarrow> rpc_state \<Rightarrow> rpc_state" where
  "drop_stale ttl now s =
     s\<lparr>rs_prepared := filter (\<lambda>p. \<not> (is_idle s p \<and> ttl \<le> now - pr_at (record_of s (snd p)))) (rs_prepared s)\<rparr>"

definition full :: "string \<Rightarrow> rpc_state \<Rightarrow> bool" where
  "full job s \<longleftrightarrow> MAX_PREPARED_PER_JOB \<le> length (mine job (rs_prepared s)) \<or> MAX_PREPARED_TOTAL \<le> length (rs_prepared s)"

definition idle_pool :: "string \<Rightarrow> rpc_state \<Rightarrow> (record_key \<times> nat) list" where
  "idle_pool job s = filter (is_idle s)
     (if MAX_PREPARED_PER_JOB \<le> length (mine job (rs_prepared s)) then mine job (rs_prepared s) else rs_prepared s)"

definition make_room :: "int \<Rightarrow> int \<Rightarrow> string \<Rightarrow> rpc_state \<Rightarrow> unit outcome \<times> rpc_state" where
  "make_room ttl now job s =
     (let s1 = drop_stale ttl now s in
      if full job s1 then
        (case oldest s1 (idle_pool job s1) of
           None \<Rightarrow> (Inl (Denied ''prepared_full''), s1)
         | Some victim \<Rightarrow> (Inr (), s1\<lparr>rs_prepared := filter (\<lambda>p. fst p \<noteq> fst victim) (rs_prepared s1)\<rparr>))
      else (Inr (), s1))"

definition refresh :: "int \<Rightarrow> nat \<Rightarrow> rpc_state \<Rightarrow> rpc_state" where
  "refresh now i s = (if pr_dispatched (record_of s i) then s else s\<lparr>rs_heap := (rs_heap s)[i := (record_of s i)\<lparr>pr_at := now\<rparr>]\<rparr>)"

text \<open>The section that stores a prepared request; \<open>clone\<close> records are also compared by operation.\<close>

definition store_prepared :: "int \<Rightarrow> int \<Rightarrow> worker_grant \<Rightarrow> string list \<Rightarrow> string \<Rightarrow> string \<Rightarrow> string \<Rightarrow> rpc_state
    \<Rightarrow> unit outcome \<times> rpc_state" where
  "store_prepared ttl now g scope operation dg doc s =
     (if \<not> registered g s then (Inl (Denied ''grant_revoked''), s)
      else (case map_of (rs_prepared s) (wg_job g, dg) of
          Some i \<Rightarrow>
            if pr_scope (record_of s i) \<noteq> scope \<or> (operation = ''clone'' \<and> pr_operation (record_of s i) \<noteq> ''clone'')
            then (Inl (Denied ''request_scope_mismatch''), s) else (Inr (), refresh now i s)
        | None \<Rightarrow>
            (case make_room ttl now (wg_job g) s of
               (Inl e, s1) \<Rightarrow> (Inl e, s1)
             | (Inr _, s1) \<Rightarrow> (Inr (), s1\<lparr>rs_prepared := dict_set (wg_job g, dg) (length (rs_heap s1)) (rs_prepared s1),
                 rs_heap := rs_heap s1 @ [\<lparr>pr_scope = scope, pr_operation = operation, pr_request = doc, pr_at = now,
                   pr_dispatched = False, pr_response = None\<rparr>]\<rparr>))))"

text \<open>A clone proposal of the same scope that is still fresh is returned as it is.\<close>

definition reuse_clone :: "int \<Rightarrow> int \<Rightarrow> worker_grant \<Rightarrow> string list \<Rightarrow> rpc_state \<Rightarrow> string option outcome \<times> rpc_state" where
  "reuse_clone ttl now g scope s =
     (if \<not> registered g s then (Inl (Denied ''grant_revoked''), s)
      else (case find (\<lambda>p. fst (fst p) = wg_job g \<and> pr_operation (record_of s (snd p)) = ''clone'' \<and> pr_scope (record_of s (snd p)) = scope)
              (rs_prepared s) of
          None \<Rightarrow> (Inr None, s)
        | Some p \<Rightarrow> if now - pr_at (record_of s (snd p)) < ttl
            then (Inr (Some (pr_request (record_of s (snd p)))), refresh now (snd p) s) else (Inr None, s)))"

text \<open>The section that claims a prepared request for its one dispatch.\<close>

definition dispatch :: "int \<Rightarrow> int \<Rightarrow> worker_grant \<Rightarrow> string list \<Rightarrow> string \<Rightarrow> string \<Rightarrow> rpc_state \<Rightarrow> nat outcome \<times> rpc_state" where
  "dispatch ttl now g scope operation dg s =
     (case map_of (rs_prepared s) (wg_job g, dg) of
        None \<Rightarrow> (Inl (Denied ''not_prepared''), s)
      | Some i \<Rightarrow>
          let r = record_of s i in
          if pr_scope r \<noteq> scope \<or> pr_operation r \<noteq> operation then (Inl (Denied ''prepared_scope_mismatch''), s)
          else if pr_dispatched r then (Inl (Denied ''replay''), s)
          else if ttl \<le> now - pr_at r then (Inl (Denied ''prepared_stale''), s)
          else if \<not> registered g s then (Inl (Denied ''grant_revoked''), s)
          else (Inr i, s\<lparr>rs_heap := (rs_heap s)[i := r\<lparr>pr_dispatched := True\<rparr>]\<rparr>))"

definition respond :: "nat \<Rightarrow> pydict \<Rightarrow> rpc_state \<Rightarrow> unit outcome \<times> rpc_state" where
  "respond i response s = (Inr (), s\<lparr>rs_heap := (rs_heap s)[i := (record_of s i)\<lparr>pr_response := Some response\<rparr>]\<rparr>)"

definition find_record :: "worker_grant \<Rightarrow> string list \<Rightarrow> string \<Rightarrow> string \<Rightarrow> rpc_state \<Rightarrow> nat outcome \<times> rpc_state" where
  "find_record g scope operation dg s = (case map_of (rs_prepared s) (wg_job g, dg) of
       None \<Rightarrow> (Inl (Denied ''not_prepared''), s)
     | Some i \<Rightarrow> (if pr_scope (record_of s i) \<noteq> scope \<or> pr_operation (record_of s i) \<noteq> operation then Inl (Denied ''not_prepared'')
         else Inr i, s))"

section \<open>Requests\<close>

record worker_request =
  wq_op :: string
  wq_job :: string
  wq_agent :: string
  wq_workspace :: string
  wq_repository :: string
  wq_remote :: string
  wq_ref :: string
  wq_third :: string        \<comment> \<open>mode, or branch of a clone\<close>
  wq_digest :: string
  wq_receipt :: string

definition COMMON_FIELDS :: "string list" where
  "COMMON_FIELDS = [''version'', ''op'', ''job_id'', ''agent'', ''workspace_id'', ''repository'', ''remote'', ''ref'']"

definition CLONE_OPS :: "string list" where
  "CLONE_OPS = [''clone_prepare'', ''clone'', ''wait_clone'']"

definition OP_FIELDS :: "(string \<times> string list) list" where
  "OP_FIELDS =
     [(''prepare'', ''mode'' # COMMON_FIELDS), (''pull'', ''mode'' # COMMON_FIELDS @ [''request_sha256'', ''approval_receipt'']),
      (''wait'', ''mode'' # COMMON_FIELDS @ [''request_sha256'']), (''clone_prepare'', ''branch'' # COMMON_FIELDS),
      (''clone'', ''branch'' # COMMON_FIELDS @ [''request_sha256'', ''approval_receipt'']),
      (''wait_clone'', ''branch'' # COMMON_FIELDS @ [''request_sha256'']), (''fetch'', COMMON_FIELDS)]"

definition AUTHORITY_FIELDS :: "string list" where
  "AUTHORITY_FIELDS = [''url'', ''remote_url'', ''credential'', ''credentials'', ''token'', ''password'', ''secret'', ''key'',
     ''private_key'', ''signing_key'', ''signature'', ''argv'', ''command'', ''cmd'', ''args'', ''env'', ''backend'', ''grant'',
     ''grants'', ''capabilities'', ''lease'', ''ledger'', ''allow_push'', ''push'', ''force'', ''transport'', ''path'',
     ''repository_path'', ''config'']"

text \<open>\<open>_strict\<close> on a decoded text; a number with a fraction is outside the model.\<close>

definition strict_json :: "nat \<Rightarrow> string \<Rightarrow> string \<Rightarrow> pyval outcome" where
  "strict_json limit code raw =
     (if limit < utf8_len raw then Inl (Denied code)
      else (case decode raw of
          Inr v \<Rightarrow> Inr v
        | Inl e \<Rightarrow> Inl (if e = OutsideModel then Raised OutsideModel else Denied code)))"

definition op_of :: "pydict \<Rightarrow> string outcome" where
  "op_of d =
     (if dict_get d ''op'' = PStr ''push'' \<or> truthy (dict_get d ''push'') \<or> truthy (dict_get d ''allow_push'')
      then Inl (Denied ''push_denied'')
      else (case dict_get d ''op'' of
          PStr oper \<Rightarrow> if oper \<in> field_names OP_FIELDS then Inr oper else Inl (Denied ''invalid_request'')
        | PList _ \<Rightarrow> Inl (Raised TypeError)
        | PDict _ \<Rightarrow> Inl (Raised TypeError)
        | _ \<Rightarrow> Inl (Denied ''invalid_request'')))"

definition fields_allowed :: "bool \<Rightarrow> string \<Rightarrow> string set \<Rightarrow> bool" where
  "fields_allowed requires oper names \<longleftrightarrow> (let fields = set (the (map_of OP_FIELDS oper)) in
     if oper \<in> {''pull'', ''clone''} \<and> \<not> requires
     then fields - {''request_sha256'', ''approval_receipt''} \<subseteq> names \<and> names \<subseteq> fields
     else names = fields)"

definition third_field :: "string \<Rightarrow> string list" where
  "third_field oper = (if oper = ''fetch'' then [] else if oper \<in> set CLONE_OPS then [''branch''] else [''mode''])"

definition third_ok :: "string \<Rightarrow> string \<Rightarrow> bool" where
  "third_ok oper third \<longleftrightarrow> (if oper = ''fetch'' then True else if oper \<in> set CLONE_OPS then branch_text third else third \<in> set MODES)"

definition digest_ok :: "bool \<Rightarrow> string \<Rightarrow> pyval \<Rightarrow> bool" where
  "digest_ok requires oper v \<longleftrightarrow> is_pstr v
     \<and> (oper \<in> {''wait'', ''wait_clone''} \<or> (oper \<in> {''pull'', ''clone''} \<and> (requires \<or> the_str v \<noteq> []))
        \<longrightarrow> class_match is_hex 64 64 (the_str v))"

definition check_receipt_field :: "bool \<Rightarrow> string \<Rightarrow> pyval \<Rightarrow> unit outcome" where
  "check_receipt_field requires oper v =
     (if oper \<notin> {''pull'', ''clone''} then Inr ()
      else if \<not> is_pstr v \<or> WORKER_RECEIPT < length (the_str v) \<or> \<not> list_all (\<lambda>c. char_code c < 128) (the_str v)
      then Inl (Denied ''invalid_request'')
      else if requires \<and> the_str v = [] then Inl (Denied ''invalid_request'')
      else if \<not> requires \<and> the_str v \<noteq> [] then Inl (Denied ''receipt_not_supported'')
      else Inr ())"

definition read_request :: "bool \<Rightarrow> pyval \<Rightarrow> worker_request outcome" where
  "read_request requires v = (case v of
       PDict d \<Rightarrow>
         rbind (op_of d) (\<lambda>oper.
           let text = (\<lambda>k. the_str (dict_get d k)); sha_field = get_default d ''request_sha256'' (PStr []);
               third = (case third_field oper of [] \<Rightarrow> [] | k # _ \<Rightarrow> text k) in
           if field_names d \<inter> set AUTHORITY_FIELDS \<noteq> {} then Inl (Denied ''forbidden_field'')
           else if \<not> fields_allowed requires oper (field_names d) then Inl (Denied ''invalid_request'')
           else if dict_get d ''version'' \<noteq> PInt WORKER_VERSION then Inl (Denied ''invalid_request'')
           else if \<not> list_all (\<lambda>k. is_pstr (dict_get d k))
               ([''job_id'', ''agent'', ''workspace_id'', ''repository'', ''remote'', ''ref''] @ third_field oper)
           then Inl (Denied ''invalid_request'')
           else if \<not> remote_ok (text ''remote'') \<or> \<not> branch_text (text ''ref'') \<or> \<not> third_ok oper third
           then Inl (Denied ''invalid_request'')
           else if \<not> digest_ok requires oper sha_field then Inl (Denied ''invalid_request'')
           else rbind (check_receipt_field requires oper (get_default d ''approval_receipt'' (PStr []))) (\<lambda>_.
             if oper = ''fetch'' \<and> requires then Inl (Denied ''workspace_authority_required'')
             else Inr \<lparr>wq_op = oper, wq_job = text ''job_id'', wq_agent = text ''agent'', wq_workspace = text ''workspace_id'',
               wq_repository = text ''repository'', wq_remote = text ''remote'', wq_ref = text ''ref'', wq_third = third,
               wq_digest = the_str sha_field, wq_receipt = the_str (get_default d ''approval_receipt'' (PStr []))\<rparr>))
     | _ \<Rightarrow> Inl (Denied ''invalid_request''))"

section \<open>Threads\<close>

datatype backend_call =
    PrepareFetch string string string string              \<comment> \<open>workspace, repository, remote, reference\<close>
  | PrepareRepository string string string string string
  | Prepare string string string string
  | PrepareClone string string string string string
  | Fetch string string string string
  | Clone string string string string string string string
  | PullRepository string string string string string string
  | Pull string string string string string

datatype backend_outcome = Backend_Denied | Backend_Failed | Backend_Done pyval

text \<open>A thread: the shared state, what the others do before its next sections, and the calls it made.\<close>

record thread =
  th_state :: rpc_state
  th_others :: "(rpc_state \<Rightarrow> rpc_state) list"
  th_calls :: "backend_call list"

type_synonym 'a act = "thread \<Rightarrow> 'a outcome \<times> thread"

definition act_of :: "'a outcome \<Rightarrow> 'a act" where
  "act_of r th = (r, th)"

definition act_bind :: "'a act \<Rightarrow> ('a \<Rightarrow> 'b act) \<Rightarrow> 'b act" where
  "act_bind m f th = (case m th of (Inl e, th') \<Rightarrow> (Inl e, th') | (Inr x, th') \<Rightarrow> f x th')"

definition locked :: "(rpc_state \<Rightarrow> 'a outcome \<times> rpc_state) \<Rightarrow> 'a act" where
  "locked f th = (let s = (case th_others th of [] \<Rightarrow> th_state th | g # _ \<Rightarrow> g (th_state th)) in
     case f s of (r, s') \<Rightarrow> (r, th\<lparr>th_state := s', th_others := tl (th_others th)\<rparr>))"

definition calling :: "backend_call \<Rightarrow> unit act" where
  "calling c th = (Inr (), th\<lparr>th_calls := th_calls th @ [c]\<rparr>)"

definition act_require :: "bool \<Rightarrow> string \<Rightarrow> unit act" where
  "act_require b code = act_of (if b then Inr () else Inl (Denied code))"

record rpc_config =
  rc_ttl :: int
  rc_requires :: bool        \<comment> \<open>the backend demands receipts\<close>
  rc_repository :: bool      \<comment> \<open>the backend has the repository variants\<close>
  rc_sha :: "string \<Rightarrow> string"

record call_env =
  ce_now :: int
  ce_live :: bool
  ce_later :: int
  ce_live_later :: bool
  ce_prepare :: "backend_call \<Rightarrow> string option"     \<comment> \<open>the request's canonical payload, or a refusal\<close>
  ce_execute :: "backend_call \<Rightarrow> backend_outcome"

section \<open>Preparing a request\<close>

definition reply_base :: "worker_grant \<Rightarrow> pydict" where
  "reply_base g = [(''version'', PInt WORKER_VERSION), (''job_id'', PStr (wg_job g)), (''agent'', PStr (wg_agent g)),
     (''workspace_id'', PStr (wg_workspace g)), (''repository'', PStr (wg_repository g))]"

definition job_context_ok :: "worker_grant \<Rightarrow> pydict \<Rightarrow> unit outcome" where
  "job_context_ok g params = (case get_default params ''job_context'' (PDict []) of
       PDict c \<Rightarrow> if dict_get c ''job_id'' = PStr (wg_job g) \<and> dict_get c ''agent'' = PStr (wg_agent g) then Inr ()
         else Inl (Denied ''request_scope_mismatch'')
     | _ \<Rightarrow> Inl (Raised AttributeError))"

definition param_is :: "pydict \<Rightarrow> string \<times> string \<Rightarrow> bool" where
  "param_is params kv \<longleftrightarrow> map_of params (fst kv) = Some (PStr (snd kv))"

definition read_payload :: "string \<Rightarrow> pydict outcome" where
  "read_payload doc = (case to_payload doc of
       Inr (PDict p) \<Rightarrow> Inr p
     | Inr _ \<Rightarrow> Inl (Raised TypeError)
     | Inl e \<Rightarrow> Inl (Raised e))"

text \<open>The checks of \<open>_prepare\<close> on the request the backend made.\<close>

definition check_prepared :: "bool \<Rightarrow> worker_grant \<Rightarrow> string list \<Rightarrow> string \<Rightarrow> pydict \<Rightarrow> unit outcome" where
  "check_prepared requires g scope operation p =
     (let params = fields_of (dict_get p ''parameters'') in
      if dict_get p ''operation'' \<noteq> PStr operation \<or> dict_get p ''workspace_id'' \<noteq> PStr (wg_workspace g)
         \<or> dict_get p ''repository_path'' \<noteq> PStr (wg_path g) then Inl (Denied ''request_scope_mismatch'')
      else rbind (if requires then Inr () else job_context_ok g params) (\<lambda>_.
        if list_all (param_is params) (zip [''remote_id'', ''remote_ref'', ''mode''] (if operation = ''pull'' then scope else take 2 scope))
        then Inr () else Inl (Denied ''request_scope_mismatch'')))"

definition prepare_call :: "bool \<Rightarrow> worker_grant \<Rightarrow> string list \<Rightarrow> string \<Rightarrow> backend_call" where
  "prepare_call repository g scope operation =
     (if operation = ''fetch'' then PrepareFetch (wg_workspace g) (wg_repository g) (scope ! 0) (scope ! 1)
      else if repository then PrepareRepository (wg_workspace g) (wg_repository g) (scope ! 0) (scope ! 1) (scope ! 2)
      else Prepare (wg_workspace g) (scope ! 0) (scope ! 1) (scope ! 2))"

definition ask_backend :: "call_env \<Rightarrow> backend_call \<Rightarrow> string act" where
  "ask_backend env c = act_bind (calling c) (\<lambda>_. act_of (case ce_prepare env c of
       None \<Rightarrow> Inl (Denied ''backend_refused'') | Some doc \<Rightarrow> Inr doc))"

text \<open>\<open>_prepare\<close>: the proposal and its digest.\<close>

definition prepare :: "rpc_config \<Rightarrow> call_env \<Rightarrow> worker_grant \<Rightarrow> string list \<Rightarrow> string \<Rightarrow> (pydict \<times> string) act" where
  "prepare cfg env g scope operation =
     act_bind (ask_backend env (prepare_call (rc_repository cfg) g scope operation)) (\<lambda>doc.
     act_bind (act_of (read_payload doc)) (\<lambda>p.
     act_bind (act_of (check_prepared (rc_requires cfg) g scope operation p)) (\<lambda>_.
     let dg = digest (rc_sha cfg) doc in
     act_bind (locked (store_prepared (rc_ttl cfg) (ce_now env) g scope operation dg doc)) (\<lambda>_.
       act_of (Inr (reply_base g @ [(''ok'', PBool True), (''status'', PStr ''prepared''), (''remote'', PStr (scope ! 0)),
         (''ref'', PStr (scope ! 1)), (''mode'', if operation = ''pull'' then PStr (scope ! 2) else PNone), (''request'', PDict p),
         (''request_sha256'', PStr dg)], dg))))))"

definition parent_path :: "string \<Rightarrow> string \<Rightarrow> string" where
  "parent_path path repository = (let parts = pure_parts path in
     replicate (initial_slashes path) sep @ join_with sep (take (length parts - length (pure_parts repository)) parts))"

definition check_clone :: "worker_grant \<Rightarrow> string list \<Rightarrow> pydict \<Rightarrow> unit outcome" where
  "check_clone g scope p =
     (let params = fields_of (dict_get p ''parameters'') in
      if dict_get p ''operation'' \<noteq> PStr ''clone'' \<or> dict_get p ''workspace_id'' \<noteq> PStr (wg_workspace g)
         \<or> dict_get p ''repository_path'' \<noteq> PStr (parent_path (wg_path g) (wg_repository g))
         \<or> dict_get p ''expected_head'' \<noteq> PNone \<or> dict_get p ''branch'' \<noteq> PStr (scope ! 2)
         \<or> \<not> list_all (param_is params) [(''identity_kind'', ''parent_workspace''), (''repository'', wg_repository g),
              (''remote_id'', scope ! 0), (''remote_ref'', scope ! 1), (''local_branch'', scope ! 2)]
      then Inl (Denied ''request_scope_mismatch'') else job_context_ok g params)"

definition clone_proposal :: "rpc_config \<Rightarrow> worker_grant \<Rightarrow> string list \<Rightarrow> string \<Rightarrow> (pydict \<times> string) outcome" where
  "clone_proposal cfg g scope doc =
     rbind (read_payload doc) (\<lambda>p. let dg = digest (rc_sha cfg) doc in
       Inr (reply_base g @ [(''ok'', PBool True), (''status'', PStr ''prepared''), (''operation'', PStr ''clone''), (''remote'', PStr (scope ! 0)),
         (''ref'', PStr (scope ! 1)), (''branch'', PStr (scope ! 2)), (''request'', PDict p), (''request_sha256'', PStr dg)], dg))"

text \<open>\<open>_prepare_clone\<close>.\<close>

definition prepare_clone :: "rpc_config \<Rightarrow> call_env \<Rightarrow> worker_grant \<Rightarrow> string list \<Rightarrow> (pydict \<times> string) act" where
  "prepare_clone cfg env g scope =
     act_bind (locked (reuse_clone (rc_ttl cfg) (ce_now env) g scope)) (\<lambda>known. case known of
         Some doc \<Rightarrow> act_of (clone_proposal cfg g scope doc)
       | None \<Rightarrow>
           act_bind (ask_backend env (PrepareClone (wg_workspace g) (wg_repository g) (scope ! 0) (scope ! 1) (scope ! 2))) (\<lambda>doc.
           act_bind (act_of (read_payload doc)) (\<lambda>p.
           act_bind (act_of (check_clone g scope p)) (\<lambda>_.
           act_bind (locked (store_prepared (rc_ttl cfg) (ce_now env) g scope ''clone'' (digest (rc_sha cfg) doc) doc)) (\<lambda>_.
             act_of (clone_proposal cfg g scope doc))))))"

section \<open>Executing a request\<close>

text \<open>\<open>_receipt_claims\<close>: shape and freshness only, the signature is the backend's.\<close>

definition receipt_claims :: "string \<Rightarrow> string \<Rightarrow> int \<Rightarrow> unit outcome" where
  "receipt_claims receipt dg now =
     rbind (strict_json WORKER_RECEIPT ''receipt_invalid'' receipt) (\<lambda>v.
       case v of
         PDict e \<Rightarrow> (case (dict_get e ''claims'') of
             PDict c \<Rightarrow>
               (case (map_of c ''issued_at'', map_of c ''expires_at'', map_of c ''request_sha256'') of
                  (Some (PInt issued), Some (PInt expires), Some bound) \<Rightarrow>
                    if field_names e \<noteq> {''claims'', ''signature''} then Inl (Denied ''receipt_invalid'')
                    else if bound \<noteq> PStr dg then Inl (Denied ''receipt_mismatch'')
                    else if now < issued \<or> expires \<le> now then Inl (Denied ''receipt_stale'')
                    else Inr ()
                | _ \<Rightarrow> Inl (Denied ''receipt_invalid''))
           | _ \<Rightarrow> Inl (Denied ''receipt_invalid''))
       | _ \<Rightarrow> Inl (Denied ''receipt_invalid''))"

definition execute_call :: "bool \<Rightarrow> worker_grant \<Rightarrow> string list \<Rightarrow> string \<Rightarrow> string \<Rightarrow> string \<Rightarrow> backend_call" where
  "execute_call repository g scope operation dg receipt =
     (if operation = ''fetch'' then Fetch (wg_workspace g) (wg_repository g) (scope ! 0) (scope ! 1)
      else if operation = ''clone'' then Clone (wg_workspace g) (wg_repository g) (scope ! 0) (scope ! 1) (scope ! 2) dg receipt
      else if repository then PullRepository (wg_workspace g) (wg_repository g) (scope ! 0) (scope ! 1) receipt (scope ! 2)
      else Pull (wg_workspace g) (scope ! 0) (scope ! 1) receipt (scope ! 2))"

definition third_entry :: "string list \<Rightarrow> string \<Rightarrow> pydict" where
  "third_entry scope operation =
     (if operation = ''fetch'' then [(''operation'', PStr ''fetch'')]
      else if operation = ''clone'' then [(''operation'', PStr ''clone''), (''branch'', PStr (scope ! 2))]
      else [(''mode'', PStr (scope ! 2))])"

text \<open>\<open>json.dumps\<close> with the default separators.\<close>

fun spaced_join :: "string list \<Rightarrow> string" where
  "spaced_join [] = []"
| "spaced_join [x] = x"
| "spaced_join (x # y # ys) = x @ '', '' @ spaced_join (y # ys)"

fun spaced_dump :: "pyval \<Rightarrow> string" where
  "spaced_dump (PList xs) = ''['' @ spaced_join (map spaced_dump xs) @ '']''"
| "spaced_dump (PDict d) = ''{'' @ spaced_join (map (\<lambda>p. quote (fst p) @ '': '' @ spaced_dump (snd p)) d) @ ''}''"
| "spaced_dump v = dump v"

definition outcome_reply :: "pydict \<Rightarrow> backend_outcome \<Rightarrow> pydict" where
  "outcome_reply base r =
     (let uncertain = base @ [(''ok'', PBool False), (''status'', PStr ''uncertain''), (''recovery_required'', PBool True),
           (''code'', PStr ''backend_outcome_unavailable'')] in
      case r of
        Backend_Denied \<Rightarrow> base @ [(''ok'', PBool False), (''status'', PStr ''denied''), (''code'', PStr ''backend_denied'')]
      | Backend_Failed \<Rightarrow> uncertain
      | Backend_Done v \<Rightarrow> (case v of
            PDict d \<Rightarrow> if MAX_OUTCOME < length (spaced_dump (sort_doc v)) then uncertain
              else base @ [(''ok'', PBool True), (''status'', PStr ''completed''), (''outcome'', sort_doc v)]
          | _ \<Rightarrow> uncertain))"

text \<open>\<open>_pull\<close>: one dispatch, one backend call, one stored reply.\<close>

definition pull :: "rpc_config \<Rightarrow> call_env \<Rightarrow> worker_grant \<Rightarrow> string list \<Rightarrow> string \<Rightarrow> string \<Rightarrow> string \<Rightarrow> pydict act" where
  "pull cfg env g scope operation dg receipt =
     act_bind (act_of (if rc_requires cfg then receipt_claims receipt dg (ce_now env)
        else if receipt \<noteq> [] then Inl (Denied ''receipt_not_supported'') else Inr ())) (\<lambda>_.
     act_bind (locked (dispatch (rc_ttl cfg) (ce_now env) g scope operation dg)) (\<lambda>i.
     let call = execute_call (rc_repository cfg) g scope operation dg receipt;
         reply = outcome_reply (reply_base g @ [(''remote'', PStr (scope ! 0)), (''ref'', PStr (scope ! 1)), (''request_sha256'', PStr dg)]
           @ third_entry scope operation) (ce_execute env call) in
     act_bind (calling call) (\<lambda>_.
     act_bind (locked (respond i reply)) (\<lambda>_. act_of (Inr reply)))))"

text \<open>\<open>_wait\<close>: the stored reply, once the wait is over and the grant is still active.\<close>

definition await_reply :: "call_env \<Rightarrow> worker_grant \<Rightarrow> string list \<Rightarrow> string \<Rightarrow> string \<Rightarrow> pydict act" where
  "await_reply env g scope operation dg =
     act_bind (locked (find_record g scope operation dg)) (\<lambda>i.
     act_bind (locked (\<lambda>s. (Inr (registered g s), s))) (\<lambda>known.
     act_bind (act_require (known \<and> ce_later env < wg_expires g \<and> ce_live_later env) ''grant_revoked'') (\<lambda>_.
     act_bind (locked (\<lambda>s. (Inr (pr_response (record_of s i)), s))) (\<lambda>response.
       act_of (Inr (case response of
           Some r \<Rightarrow> r
         | None \<Rightarrow> [(''version'', PInt WORKER_VERSION), (''ok'', PBool True), (''status'', PStr ''pending''),
             (''job_id'', PStr (wg_job g)), (''request_sha256'', PStr dg)]))))))"

section \<open>Admission and dispatch\<close>

definition scope_of :: "worker_request \<Rightarrow> string list" where
  "scope_of rq = (if wq_op rq = ''fetch'' then [wq_remote rq, wq_ref rq] else [wq_remote rq, wq_ref rq, wq_third rq])"

definition scope_allowed :: "worker_grant \<Rightarrow> worker_request \<Rightarrow> bool" where
  "scope_allowed g rq \<longleftrightarrow>
     (if wq_op rq = ''fetch'' then (wq_remote rq, wq_ref rq) \<in> set (wg_fetch g)
      else if wq_op rq \<in> set CLONE_OPS then (wq_remote rq, wq_ref rq) \<in> set (wg_clone g)
      else (wq_remote rq, wq_ref rq, wq_third rq) \<in> set (wg_allowed g))"

text \<open>The grant a request runs under: the channel's identity, the chosen repository, liveness and scope.\<close>

definition admit :: "call_env \<Rightarrow> catalog \<Rightarrow> worker_request \<Rightarrow> worker_grant act" where
  "admit env cat rq =
     act_bind (act_require (wq_job rq = wg_job (fst cat)) ''job_mismatch'') (\<lambda>_.
     act_bind (act_require (wq_agent rq = wg_agent (fst cat)) ''agent_mismatch'') (\<lambda>_.
     act_bind (act_require (wq_workspace rq = wg_workspace (fst cat)) ''workspace_mismatch'') (\<lambda>_.
     act_bind (act_of (case find (\<lambda>h. wg_repository h = wq_repository rq) (fst cat # snd cat) of
         None \<Rightarrow> Inl (Denied ''repository_mismatch'') | Some g \<Rightarrow> Inr g)) (\<lambda>g.
     act_bind (locked (\<lambda>s. (if registered g s then Inr () else Inl (Denied ''grant_revoked''), s))) (\<lambda>_.
     act_bind (act_require (ce_now env < wg_expires g) ''grant_expired'') (\<lambda>_.
     act_bind (act_require (ce_live env) ''job_not_live'') (\<lambda>_.
     act_bind (act_require (set CAPABILITIES \<subseteq> set (wg_caps g)) ''read_only'') (\<lambda>_.
     act_bind (act_require (scope_allowed g rq) ''scope_denied'') (\<lambda>_.
     act_bind (locked (select_repository g)) (\<lambda>_. act_of (Inr g)))))))))))"

definition run_request :: "rpc_config \<Rightarrow> call_env \<Rightarrow> worker_grant \<Rightarrow> worker_request \<Rightarrow> pydict act" where
  "run_request cfg env g rq =
     (let scope = scope_of rq; oper = wq_op rq in
      if oper = ''fetch'' then act_bind (prepare cfg env g scope ''fetch'') (\<lambda>p. pull cfg env g scope ''fetch'' (snd p) [])
      else if oper = ''clone_prepare'' then act_bind (prepare_clone cfg env g scope) (\<lambda>p. act_of (Inr (fst p)))
      else if oper = ''wait_clone'' then await_reply env g scope ''clone'' (wq_digest rq)
      else if oper = ''clone'' then
        act_bind (if wq_digest rq = [] then act_bind (prepare_clone cfg env g scope) (\<lambda>p. act_of (Inr (snd p)))
          else act_of (Inr (wq_digest rq))) (\<lambda>dg. pull cfg env g scope ''clone'' dg (wq_receipt rq))
      else if oper = ''prepare'' then act_bind (prepare cfg env g scope ''pull'') (\<lambda>p. act_of (Inr (fst p)))
      else if oper = ''wait'' then await_reply env g scope ''pull'' (wq_digest rq)
      else act_bind (if wq_digest rq = [] then act_bind (prepare cfg env g scope ''pull'') (\<lambda>p. act_of (Inr (snd p)))
          else act_of (Inr (wq_digest rq))) (\<lambda>dg. pull cfg env g scope ''pull'' dg (wq_receipt rq)))"

definition admit_and_run :: "rpc_config \<Rightarrow> call_env \<Rightarrow> catalog \<Rightarrow> string \<Rightarrow> pydict act" where
  "admit_and_run cfg env cat raw =
     act_bind (act_of (strict_json MAX_FRAME ''invalid_request'' raw)) (\<lambda>data.
     act_bind (act_of (read_request (rc_requires cfg) data)) (\<lambda>rq.
     act_bind (admit env cat rq) (\<lambda>g. run_request cfg env g rq)))"

definition deny_reply :: "string \<Rightarrow> pydict" where
  "deny_reply code = [(''version'', PInt WORKER_VERSION), (''ok'', PBool False), (''status'', PStr ''denied''), (''code'', PStr code)]"

text \<open>\<open>WorkerGitChannel.handle\<close>: only refusals of the service itself become replies.\<close>

definition handle :: "rpc_config \<Rightarrow> call_env \<Rightarrow> catalog \<Rightarrow> string \<Rightarrow> thread \<Rightarrow> pydict result \<times> thread" where
  "handle cfg env cat raw th = (case admit_and_run cfg env cat raw th of
       (Inr r, th') \<Rightarrow> (Inr r, th')
     | (Inl (Denied code), th') \<Rightarrow> (Inr (deny_reply code), th')
     | (Inl (Raised e), th') \<Rightarrow> (Inl e, th'))"

definition handle_bytes :: "rpc_config \<Rightarrow> call_env \<Rightarrow> catalog \<Rightarrow> string \<Rightarrow> thread \<Rightarrow> string result \<times> thread" where
  "handle_bytes cfg env cat raw th = (case handle cfg env cat raw th of
       (r, th') \<Rightarrow> (rbind r (\<lambda>d. Inr (canonical (PDict d))), th'))"

definition active :: "worker_grant \<Rightarrow> int \<Rightarrow> bool \<Rightarrow> rpc_state \<Rightarrow> bool" where
  "active g now live s \<longleftrightarrow> registered g s \<and> now < wg_expires g \<and> live"

end
