(* ===== verification/Worker_Table.thy ===== *)
theory Worker_Table
  imports Worker_RPC
begin

text \<open>
  The shared table of \<open>worker_git_rpc.py\<close> under interleaving: the sections as labelled steps, the invariants of
  the table, single dispatch and revocation.
\<close>

section \<open>Steps of the shared state\<close>

datatype rpc_label = Quiet | Issued string | Revoked string | Dispatched record_key

inductive rpc_step :: "int \<Rightarrow> rpc_state \<Rightarrow> rpc_label \<Rightarrow> rpc_state \<Rightarrow> bool" for ttl where
  looked: "rpc_step ttl s Quiet s"
| issued: "issue_grant c s = Inr s' \<Longrightarrow> rpc_step ttl s (Issued (wg_job (fst c))) s'"
| revoked: "rpc_step ttl s (Revoked job) (revoke job s)"
| selected: "select_repository g s = (r, s') \<Longrightarrow> rpc_step ttl s Quiet s'"
| stored: "store_prepared ttl now g scope operation dg doc s = (r, s') \<Longrightarrow> rpc_step ttl s Quiet s'"
| reused: "reuse_clone ttl now g scope s = (r, s') \<Longrightarrow> rpc_step ttl s Quiet s'"
| dispatched: "dispatch ttl now g scope operation dg s = (Inr i, s') \<Longrightarrow> rpc_step ttl s (Dispatched (wg_job g, dg)) s'"
| responded: "respond i reply s = (r, s') \<Longrightarrow> rpc_step ttl s Quiet s'"

inductive rpc_trace :: "int \<Rightarrow> rpc_state \<Rightarrow> rpc_label list \<Rightarrow> rpc_state \<Rightarrow> bool" for ttl where
  trace_nil: "rpc_trace ttl s [] s"
| trace_cons: "rpc_step ttl s l s1 \<Longrightarrow> rpc_trace ttl s1 ls s' \<Longrightarrow> rpc_trace ttl s (l # ls) s'"

inductive_simps trace_Nil_iff [simp]: "rpc_trace ttl s [] s'"
inductive_simps trace_Cons_iff: "rpc_trace ttl s (l # ls) s'"

lemma trace_append: "rpc_trace ttl s ls s1 \<Longrightarrow> rpc_trace ttl s1 ks s2 \<Longrightarrow> rpc_trace ttl s (ls @ ks) s2"
  by (induction rule: rpc_trace.induct) (auto intro: rpc_trace.intros)

lemma trace_step: "rpc_step ttl s l s' \<Longrightarrow> rpc_trace ttl s [l] s'"
  by (auto intro: rpc_trace.intros)

text \<open>The table: distinct keys and references into the heap, within the bounds.\<close>

definition records_ok :: "rpc_state \<Rightarrow> bool" where
  "records_ok s \<longleftrightarrow> distinct (map fst (rs_prepared s)) \<and> distinct (map snd (rs_prepared s))
     \<and> (\<forall>p \<in> set (rs_prepared s). snd p < length (rs_heap s))"

definition records_bounded :: "rpc_state \<Rightarrow> bool" where
  "records_bounded s \<longleftrightarrow> length (rs_prepared s) \<le> MAX_PREPARED_TOTAL \<and> (\<forall>job. length (mine job (rs_prepared s)) \<le> MAX_PREPARED_PER_JOB)"

lemma records_ok_filter:
  assumes "records_ok s" and "rs_heap s' = rs_heap s" and "rs_prepared s' = filter P (rs_prepared s)"
  shows "records_ok s'"
  using assms by (auto simp: records_ok_def distinct_map_filter)

lemma mine_filter: "length (mine job (filter P t)) \<le> length (mine job t)"
  by (induction t) (auto simp: mine_def)

lemma mine_length: "length (mine job t) \<le> length t"
  by (simp add: mine_def)

lemma oldest_mem: "oldest s ps = Some p \<Longrightarrow> p \<in> set ps"
  by (induction ps arbitrary: p) (auto split: option.splits if_splits)

lemma remove_one:
  assumes "distinct (map fst t)" and "v \<in> set t"
  shows "length (filter (\<lambda>p. fst p \<noteq> fst v) t) < length t"
    and "fst (fst v) = job \<Longrightarrow> length (mine job (filter (\<lambda>p. fst p \<noteq> fst v) t)) < length (mine job t)"
proof -
  show "length (filter (\<lambda>p. fst p \<noteq> fst v) t) < length t"
    using assms(2) by (intro length_filter_less [of v]) auto
  assume j: "fst (fst v) = job"
  have "mine job (filter (\<lambda>p. fst p \<noteq> fst v) t) = filter (\<lambda>p. fst p \<noteq> fst v) (mine job t)"
    by (simp add: mine_def conj_commute)
  moreover have "v \<in> set (mine job t)" using assms(2) j by (simp add: mine_def)
  ultimately show "length (mine job (filter (\<lambda>p. fst p \<noteq> fst v) t)) < length (mine job t)"
    by (simp add: length_filter_less [of v])
qed

text \<open>Making room keeps the objects and every dispatched record, and leaves space for one more.\<close>

definition pruned :: "rpc_state \<Rightarrow> rpc_state \<Rightarrow> bool" where
  "pruned s s' \<longleftrightarrow> rs_heap s' = rs_heap s \<and> rs_grants s' = rs_grants s \<and> rs_selected s' = rs_selected s
     \<and> (\<exists>P. rs_prepared s' = filter P (rs_prepared s) \<and> (\<forall>p \<in> set (rs_prepared s). \<not> is_idle s p \<longrightarrow> P p))"

lemma is_idle_heap: "rs_heap s' = rs_heap s \<Longrightarrow> is_idle s' = is_idle s"
  by (simp add: is_idle_def record_of_def fun_eq_iff)

lemma pruned_trans: "pruned s s1 \<Longrightarrow> pruned s1 s2 \<Longrightarrow> pruned s s2"
  unfolding pruned_def using is_idle_heap [of s1 s] by (auto simp: filter_filter)

lemma pruned_stale: "pruned s (drop_stale ttl now s)"
  by (auto simp: pruned_def drop_stale_def)

lemma pruned_ok: "pruned s s' \<Longrightarrow> records_ok s \<Longrightarrow> records_ok s'"
  using records_ok_filter by (auto simp: pruned_def)

lemma pruned_bounded: "pruned s s' \<Longrightarrow> records_bounded s \<Longrightarrow> records_bounded s'"
  unfolding pruned_def records_bounded_def using mine_filter length_filter_le by (metis le_trans)

lemma evict_facts:
  assumes "records_ok s" and "oldest s (idle_pool job s) = Some v"
  shows "v \<in> set (rs_prepared s) \<and> pruned s (s\<lparr>rs_prepared := filter (\<lambda>p. fst p \<noteq> fst v) (rs_prepared s)\<rparr>)"
proof -
  have v: "v \<in> set (rs_prepared s)" "is_idle s v"
    using oldest_mem [OF assms(2)] by (auto simp: idle_pool_def mine_def split: if_splits)
  have "fst p \<noteq> fst v" if "p \<in> set (rs_prepared s)" "\<not> is_idle s p" for p
    using assms(1) v that eq_key_imp_eq_value [of "rs_prepared s" "fst v" "snd v" "snd p"]
    by (cases p; cases v) (auto simp: records_ok_def)
  with v show ?thesis by (auto simp: pruned_def)
qed

lemma make_room_facts:
  assumes "make_room ttl now job s = (r, s')" and "records_ok s"
  shows "pruned s s' \<and> (r = Inr () \<longrightarrow> records_bounded s \<longrightarrow>
     length (rs_prepared s') < MAX_PREPARED_TOTAL \<and> length (mine job (rs_prepared s')) < MAX_PREPARED_PER_JOB)"
proof -
  let ?s = "drop_stale ttl now s"
  have ok: "records_ok ?s" using pruned_ok pruned_stale assms(2) by blast
  have b: "records_bounded s \<longrightarrow> records_bounded ?s" using pruned_bounded pruned_stale by blast
  show ?thesis
  proof (cases "full job ?s")
    case False
    with assms(1) pruned_stale show ?thesis by (auto simp: make_room_def full_def Let_def)
  next
    case True
    show ?thesis
    proof (cases "oldest ?s (idle_pool job ?s)")
      case None
      with assms(1) True pruned_stale show ?thesis by (auto simp: make_room_def Let_def)
    next
      case (Some v)
      let ?t = "?s\<lparr>rs_prepared := filter (\<lambda>p. fst p \<noteq> fst v) (rs_prepared ?s)\<rparr>"
      from Some assms(1) True have r: "r = Inr ()" "s' = ?t" by (auto simp: make_room_def Let_def)
      from evict_facts [OF ok Some] have v: "v \<in> set (rs_prepared ?s)" and p: "pruned ?s ?t" by auto
      have d: "distinct (map fst (rs_prepared ?s))" using ok by (simp add: records_ok_def)
      have own: "MAX_PREPARED_PER_JOB \<le> length (mine job (rs_prepared ?s)) \<Longrightarrow> fst (fst v) = job"
        using oldest_mem [OF Some] by (simp add: idle_pool_def mine_def)
      have "length (mine job (rs_prepared ?t)) < MAX_PREPARED_PER_JOB" if "records_bounded ?s"
      proof -
        have "length (mine job (rs_prepared ?s)) \<le> MAX_PREPARED_PER_JOB" using that by (simp add: records_bounded_def)
        moreover have "length (mine job (rs_prepared ?t)) \<le> length (mine job (rs_prepared ?s))" using mine_filter by simp
        moreover have "MAX_PREPARED_PER_JOB \<le> length (mine job (rs_prepared ?s))
            \<Longrightarrow> length (mine job (rs_prepared ?t)) < length (mine job (rs_prepared ?s))"
          using remove_one(2) [OF d v own] by simp
        ultimately show ?thesis by linarith
      qed
      moreover have "length (rs_prepared ?t) < MAX_PREPARED_TOTAL" if "records_bounded ?s"
        using remove_one(1) [OF d v] that by (simp add: records_bounded_def)
      ultimately show ?thesis using b pruned_trans [OF pruned_stale p] r by simp
    qed
  qed
qed

text \<open>Steps that keep the keys and the dispatched flags.\<close>

definition retains :: "rpc_state \<Rightarrow> rpc_state \<Rightarrow> bool" where
  "retains s s' \<longleftrightarrow> rs_prepared s' = rs_prepared s \<and> length (rs_heap s') = length (rs_heap s)
     \<and> (\<forall>i < length (rs_heap s). pr_dispatched (record_of s i) \<longrightarrow> pr_dispatched (record_of s' i))"

lemma update_at: "i < length xs \<Longrightarrow> xs[j := y] ! i = (if j = i then y else xs ! i)"
  by (simp add: nth_list_update)

lemma retains_refl: "retains s s"
  by (simp add: retains_def)

lemma retains_refresh: "retains s (refresh now i s)"
  by (simp add: retains_def refresh_def record_of_def update_at)

lemma retains_respond: "retains s (snd (respond i reply s))"
  by (simp add: retains_def respond_def record_of_def update_at)

lemma retains_select: "retains s (snd (select_repository g s))"
  by (auto simp: retains_def select_repository_def record_of_def split: option.splits)

lemma retains_issue: "issue_grant c s = Inr s' \<Longrightarrow> retains s s'"
  by (auto simp: retains_def issue_grant_def record_of_def split: if_splits)

lemma retains_reuse: "retains s (snd (reuse_clone ttl now g scope s))"
  by (auto simp: reuse_clone_def retains_refl retains_refresh split: option.splits)

lemma retains_dispatch: "retains s (snd (dispatch ttl now g scope operation dg s))"
  by (simp add: dispatch_def retains_def record_of_def Let_def update_at split: option.split)

text \<open>Storing retains a record, or prunes the table and adds an undispatched record under a new key.\<close>

definition adds :: "record_key \<Rightarrow> rpc_state \<Rightarrow> rpc_state \<Rightarrow> bool" where
  "adds k s s' \<longleftrightarrow> k \<notin> fst ` set (rs_prepared s) \<and> rs_prepared s' = rs_prepared s @ [(k, length (rs_heap s))]
     \<and> (\<exists>r. rs_heap s' = rs_heap s @ [r] \<and> \<not> pr_dispatched r)"

lemma store_prepared_cases:
  assumes "store_prepared ttl now g scope operation dg doc s = (r, s')" and "records_ok s"
  shows "retains s s' \<or> pruned s s'
    \<or> (\<exists>s1. pruned s s1 \<and> adds (wg_job g, dg) s1 s' \<and> (records_bounded s \<longrightarrow>
         length (rs_prepared s1) < MAX_PREPARED_TOTAL \<and> length (mine (wg_job g) (rs_prepared s1)) < MAX_PREPARED_PER_JOB))"
proof (cases "registered g s \<and> map_of (rs_prepared s) (wg_job g, dg) = None")
  case False
  with assms(1) show ?thesis
    by (auto simp: store_prepared_def retains_refl retains_refresh split: option.splits if_splits)
next
  case True
  obtain e s1 where m: "make_room ttl now (wg_job g) s = (e, s1)" by fastforce
  note facts = make_room_facts [OF m assms(2)]
  show ?thesis
  proof (cases e)
    case (Inl x)
    with True m facts assms(1) show ?thesis by (auto simp: store_prepared_def)
  next
    case (Inr u)
    have "(wg_job g, dg) \<notin> fst ` set (rs_prepared s)" using True by (simp add: map_of_eq_None_iff)
    with facts have new: "(wg_job g, dg) \<notin> fst ` set (rs_prepared s1)" by (auto simp: pruned_def)
    with True m Inr assms(1) have "adds (wg_job g, dg) s1 s'"
      by (auto simp: store_prepared_def adds_def dict_set_def field_names_def)
    with facts Inr show ?thesis by auto
  qed
qed

section \<open>Invariants of the table\<close>

lemma retains_ok: "retains s s' \<Longrightarrow> records_ok s \<Longrightarrow> records_ok s'"
  by (simp add: retains_def records_ok_def)

lemma retains_bounded: "retains s s' \<Longrightarrow> records_bounded s \<Longrightarrow> records_bounded s'"
  by (simp add: retains_def records_bounded_def)

lemma adds_ok: "adds k s s' \<Longrightarrow> records_ok s \<Longrightarrow> records_ok s'"
  by (force simp: adds_def records_ok_def)

lemma adds_bounded:
  "adds k s s' \<Longrightarrow> records_bounded s \<Longrightarrow> length (rs_prepared s) < MAX_PREPARED_TOTAL
     \<Longrightarrow> length (mine (fst k) (rs_prepared s)) < MAX_PREPARED_PER_JOB \<Longrightarrow> records_bounded s'"
  by (auto simp: adds_def records_bounded_def mine_def)

lemma revoke_pruned: "records_ok s \<Longrightarrow> records_ok (revoke job s)" "records_bounded s \<Longrightarrow> records_bounded (revoke job s)"
proof -
  show "records_ok s \<Longrightarrow> records_ok (revoke job s)" by (rule records_ok_filter) (simp_all add: revoke_def)
  show "records_bounded s \<Longrightarrow> records_bounded (revoke job s)"
    by (auto simp: records_bounded_def revoke_def intro: le_trans [OF length_filter_le] le_trans [OF mine_filter])
qed

lemma rpc_step_cases:
  assumes "rpc_step ttl s l s'" and "records_ok s"
  obtains (revoked) job where "l = Revoked job" "s' = revoke job s"
  | (retained) "retains s s'" "\<forall>job. l \<noteq> Revoked job"
  | (pruned) "pruned s s'" "l = Quiet"
  | (added) s1 k where "pruned s s1" "adds k s1 s'" "l = Quiet"
      "records_bounded s \<longrightarrow> length (rs_prepared s1) < MAX_PREPARED_TOTAL \<and> length (mine (fst k) (rs_prepared s1)) < MAX_PREPARED_PER_JOB"
  using assms
proof (cases rule: rpc_step.cases)
  case (stored now g scope operation dg doc r)
  from store_prepared_cases [OF stored(2) assms(2)] stored(1) retained pruned added show thesis by fastforce
next
  case (selected g r)
  with retained retains_select [of s g] show thesis by simp
next
  case (reused now g scope r)
  with retained retains_reuse [of s ttl now g scope] show thesis by simp
next
  case (dispatched now g scope operation dg i)
  with retained retains_dispatch [of s ttl now g scope operation dg] show thesis by simp
next
  case (responded i reply r)
  with retained retains_respond [of s i reply] show thesis by simp
next
  case (issued c)
  with retained retains_issue show thesis by blast
qed (use retained revoked retains_refl in auto)

lemma records_step:
  assumes "rpc_step ttl s l s'" and "records_ok s" and "records_bounded s"
  shows "records_ok s' \<and> records_bounded s'"
  using assms(1,2)
proof (cases rule: rpc_step_cases)
  case (added s1 k)
  then show ?thesis using pruned_ok pruned_bounded adds_ok adds_bounded assms(2,3) by blast
qed (use assms(2,3) revoke_pruned retains_ok retains_bounded pruned_ok pruned_bounded in auto)

lemma records_trace: "rpc_trace ttl s ls s' \<Longrightarrow> records_ok s \<and> records_bounded s \<Longrightarrow> records_ok s' \<and> records_bounded s'"
  by (induction rule: rpc_trace.induct) (use records_step in blast)+

text \<open>A claimed key stays claimed until its job is revoked, and a claimed key is not claimed again.\<close>

definition claimed :: "record_key \<Rightarrow> rpc_state \<Rightarrow> bool" where
  "claimed k s \<longleftrightarrow> (\<exists>i. (k, i) \<in> set (rs_prepared s) \<and> pr_dispatched (record_of s i))"

lemma claimed_pruned: "pruned s s' \<Longrightarrow> claimed k s \<Longrightarrow> claimed k s'"
  by (force simp: pruned_def claimed_def is_idle_def record_of_def)

lemma claimed_step:
  assumes "rpc_step ttl s l s'" and "records_ok s" and "claimed k s" and "l \<noteq> Revoked (fst k)"
  shows "claimed k s'"
  using assms(1,2)
proof (cases rule: rpc_step_cases)
  case (revoked job)
  with assms(3,4) show ?thesis by (auto simp: claimed_def revoke_def record_of_def)
next
  case retained
  with assms(2,3) show ?thesis by (fastforce simp: claimed_def retains_def records_ok_def)
next
  case (added s1 k1)
  have "claimed k s1" "records_ok s1" using claimed_pruned [OF added(1)] pruned_ok [OF added(1)] assms(2,3) by auto
  then obtain i where "(k, i) \<in> set (rs_prepared s1)" "pr_dispatched (record_of s1 i)" "i < length (rs_heap s1)"
    by (auto simp: claimed_def records_ok_def)
  with added(2) show ?thesis by (auto simp: claimed_def adds_def record_of_def nth_append)
qed (use assms(3) claimed_pruned in blast)

lemma dispatched_step:
  assumes "rpc_step ttl s (Dispatched k) s'" and "records_ok s"
  shows "\<not> claimed k s \<and> claimed k s'"
  using assms(1)
proof (cases rule: rpc_step.cases)
  case (dispatched now g scope operation dg i)
  then have i: "map_of (rs_prepared s) k = Some i" "\<not> pr_dispatched (record_of s i)"
    "s' = s\<lparr>rs_heap := (rs_heap s)[i := (record_of s i)\<lparr>pr_dispatched := True\<rparr>]\<rparr>"
    by (auto simp: dispatch_def Let_def split: option.splits if_splits)
  from map_of_SomeD [OF i(1)] have m: "(k, i) \<in> set (rs_prepared s)" .
  have "j = i" if "(k, j) \<in> set (rs_prepared s)" for j
    using that i(1) assms(2) by (simp add: records_ok_def)
  then have "\<not> claimed k s" using i(2) by (auto simp: claimed_def)
  moreover have "i < length (rs_heap s)" using m assms(2) by (auto simp: records_ok_def)
  then have "claimed k s'" using m i(3) by (auto simp: claimed_def record_of_def)
  ultimately show ?thesis by simp
qed

lemma claimed_trace:
  "rpc_trace ttl s ls s' \<Longrightarrow> records_ok s \<Longrightarrow> records_bounded s \<Longrightarrow> claimed k s
     \<Longrightarrow> j < length ls \<Longrightarrow> ls ! j = Dispatched k \<Longrightarrow> \<exists>m < j. ls ! m = Revoked (fst k)"
proof (induction arbitrary: j rule: rpc_trace.induct)
  case (trace_cons s l s1 ls s')
  note ok = records_step [OF trace_cons(1,4,5)]
  show ?case
  proof (cases "l = Revoked (fst k)")
    case True
    then show ?thesis using trace_cons.prems by (cases j) (auto dest: dispatched_step)
  next
    case False
    then have "claimed k s1" using claimed_step trace_cons by blast
    moreover obtain j' where "j = Suc j'" using trace_cons.prems dispatched_step trace_cons.hyps(1) by (cases j) auto
    ultimately obtain m where "m < j'" "ls ! m = Revoked (fst k)" using trace_cons ok by auto
    with \<open>j = Suc j'\<close> show ?thesis by (intro exI [of _ "Suc m"]) simp
  qed
qed simp

lemma trace_split: "rpc_trace ttl s (ls @ ks) s' \<Longrightarrow> \<exists>s1. rpc_trace ttl s ls s1 \<and> rpc_trace ttl s1 ks s'"
  by (induction ls arbitrary: s) (fastforce simp: trace_Cons_iff)+

lemma trace_at:
  assumes "rpc_trace ttl s ls s'" and "i < length ls"
  obtains s1 s2 where "rpc_trace ttl s (take i ls) s1" "rpc_step ttl s1 (ls ! i) s2" "rpc_trace ttl s2 (drop (Suc i) ls) s'"
proof -
  have "ls = take i ls @ ls ! i # drop (Suc i) ls" using assms(2) by (simp add: Cons_nth_drop_Suc)
  with assms(1) trace_split [of ttl s "take i ls" "ls ! i # drop (Suc i) ls" s'] that show thesis
    by (auto simp: trace_Cons_iff)
qed

lemma initial_records: "records_ok initial_rpc \<and> records_bounded initial_rpc"
  by (simp add: records_ok_def records_bounded_def initial_rpc_def mine_def)

text \<open>A job without a grant gets one only by an issue, and dispatches nothing before.\<close>

definition granted :: "string \<Rightarrow> rpc_state \<Rightarrow> bool" where
  "granted job s \<longleftrightarrow> map_of (rs_grants s) job \<noteq> None"

lemma granted_revoke: "\<not> granted job (revoke job s)"
  by (auto simp: granted_def revoke_def dict_pop_def map_of_eq_None_iff)

lemma grants_store: "rs_grants (snd (store_prepared ttl now g scope operation dg doc s)) = rs_grants s"
  by (auto simp: store_prepared_def refresh_def make_room_def drop_stale_def Let_def split: option.splits sum.splits)

lemma grants_reuse: "rs_grants (snd (reuse_clone ttl now g scope s)) = rs_grants s"
  by (simp add: reuse_clone_def refresh_def split: option.splits)

lemma grants_select: "rs_grants (snd (select_repository g s)) = rs_grants s"
  by (simp add: select_repository_def split: option.splits)

lemma grants_dispatch: "rs_grants (snd (dispatch ttl now g scope operation dg s)) = rs_grants s"
  by (simp add: dispatch_def Let_def split: option.splits)

lemma granted_step:
  assumes "rpc_step ttl s l s'" and "\<not> granted job s" and "l \<noteq> Issued job"
  shows "\<not> granted job s' \<and> (\<forall>dg. l \<noteq> Dispatched (job, dg))"
  using assms(1)
proof (cases rule: rpc_step.cases)
  case (issued c)
  with assms(2,3) show ?thesis by (auto simp: granted_def issue_grant_def map_of_dict_set split: if_splits)
next
  case (revoked job')
  with assms(2) show ?thesis by (auto simp: granted_def revoke_def dict_pop_def map_of_eq_None_iff)
next
  case (stored now g scope operation dg doc r)
  with assms(2) grants_store [of ttl now g scope operation dg doc s] show ?thesis by (simp add: granted_def)
next
  case (reused now g scope r)
  with assms(2) grants_reuse [of ttl now g scope s] show ?thesis by (simp add: granted_def)
next
  case (selected g r)
  with assms(2) grants_select [of g s] show ?thesis by (simp add: granted_def)
next
  case (dispatched now g scope operation dg i)
  moreover have "granted (wg_job g) s" using dispatched
    by (auto simp: dispatch_def Let_def registered_def granted_def split: option.splits if_splits)
  ultimately show ?thesis using assms(2) grants_dispatch [of ttl now g scope operation dg s] by (auto simp: granted_def)
next
  case (responded i reply r)
  with assms(2) show ?thesis by (auto simp: granted_def respond_def)
qed (use assms(2) in auto)

lemma granted_trace:
  "rpc_trace ttl s ls s' \<Longrightarrow> \<not> granted job s \<Longrightarrow> j < length ls \<Longrightarrow> ls ! j = Dispatched (job, dg)
     \<Longrightarrow> \<exists>m < j. ls ! m = Issued job"
proof (induction arbitrary: j rule: rpc_trace.induct)
  case (trace_cons s l s1 ls s')
  show ?case
  proof (cases "l = Issued job")
    case True
    with trace_cons.prems show ?thesis by (cases j) auto
  next
    case False
    note g = granted_step [OF trace_cons(1,4) False]
    then obtain j' where "j = Suc j'" using trace_cons.prems by (cases j) auto
    then show ?thesis using trace_cons g by fastforce
  qed
qed simp

section \<open>Properties of the shared state\<close>

text \<open>
  C31.  Over any interleaving of sections of the service, a prepared request is dispatched at most once: two
  dispatches of the same job and digest have a revocation of the job between them.
\<close>
theorem dispatched_once:
  assumes "rpc_trace ttl initial_rpc ls s" and "i < j" and "j < length ls"
    and "ls ! i = Dispatched k" and "ls ! j = Dispatched k"
  shows "\<exists>m. i < m \<and> m < j \<and> ls ! m = Revoked (fst k)"
proof -
  from assms(2,3) have "i < length ls" by simp
  from trace_at [OF assms(1) this] obtain s1 s2 where t: "rpc_trace ttl initial_rpc (take i ls) s1"
    "rpc_step ttl s1 (ls ! i) s2" "rpc_trace ttl s2 (drop (Suc i) ls) s" by metis
  have ok: "records_ok s1 \<and> records_bounded s1" using records_trace [OF t(1)] initial_records by simp
  then have ok2: "records_ok s2 \<and> records_bounded s2" using records_step [OF t(2)] by simp
  have "claimed k s2" using dispatched_step t(2) ok assms(4) by auto
  moreover have "j - Suc i < length (drop (Suc i) ls)" "drop (Suc i) ls ! (j - Suc i) = Dispatched k"
    using assms(2,3,5) by auto
  ultimately obtain m where "m < j - Suc i" "drop (Suc i) ls ! m = Revoked (fst k)"
    using claimed_trace [OF t(3)] ok2 by blast
  with assms(2,3) show ?thesis by (intro exI [of _ "Suc i + m"]) auto
qed

text \<open>
  A job whose grant was revoked dispatches nothing until a grant is issued to it again.
\<close>
theorem revoked_job_is_silent:
  assumes "rpc_trace ttl s0 ls s" and "i < j" and "j < length ls"
    and "ls ! i = Revoked job" and "ls ! j = Dispatched (job, dg)"
  shows "\<exists>m. i < m \<and> m < j \<and> ls ! m = Issued job"
proof -
  from assms(2,3) have "i < length ls" by simp
  from trace_at [OF assms(1) this] obtain s1 s2 where t: "rpc_step ttl s1 (ls ! i) s2" "rpc_trace ttl s2 (drop (Suc i) ls) s" by metis
  have "\<not> granted job s2" using t(1) assms(4) granted_revoke by (auto elim: rpc_step.cases)
  moreover have "j - Suc i < length (drop (Suc i) ls)" "drop (Suc i) ls ! (j - Suc i) = Dispatched (job, dg)"
    using assms(2,3,5) by auto
  ultimately obtain m where "m < j - Suc i" "drop (Suc i) ls ! m = Issued job"
    using granted_trace [OF t(2)] by blast
  with assms(2,3) show ?thesis by (intro exI [of _ "Suc i + m"]) auto
qed

text \<open>
  In every reachable state the table holds at most 32 prepared requests of a job and 1024 in total, each a
  record of its own.
\<close>
theorem prepared_bounded:
  assumes "rpc_trace ttl initial_rpc ls s"
  shows "length (rs_prepared s) \<le> 1024 \<and> length (filter (\<lambda>p. fst (fst p) = job) (rs_prepared s)) \<le> 32
    \<and> distinct (map snd (rs_prepared s))"
  using records_trace [OF assms] initial_records
  by (simp add: records_ok_def records_bounded_def mine_def MAX_PREPARED_TOTAL_def MAX_PREPARED_PER_JOB_def)

section \<open>A run with a revocation\<close>

definition sample_grant :: worker_grant where
  "sample_grant = \<lparr>wg_ref = 0, wg_job = ''job_aaaaaaaaaaaaaaaaaaaaaaaa'', wg_agent = ''codex'', wg_workspace = ''w'', wg_repository = ''r'',
    wg_path = ''/w/r'', wg_caps = [''read'', ''write''], wg_allowed = [], wg_expires = 9, wg_clone = [], wg_fetch = [(''o'', ''refs/heads/m'')]\<rparr>"

definition sample_key :: record_key where "sample_key = (wg_job sample_grant, ''d'')"

definition sample_labels :: "rpc_label list" where
  "sample_labels = (let job = wg_job sample_grant in
     [Issued job, Quiet, Dispatched sample_key, Revoked job, Issued job, Quiet, Dispatched sample_key])"

definition sample_round :: "rpc_state \<Rightarrow> rpc_state" where
  "sample_round s = s\<lparr>rs_grants := [(wg_job sample_grant, (sample_grant, []))], rs_prepared := [(sample_key, length (rs_heap s))],
     rs_heap := rs_heap s @ [\<lparr>pr_scope = [''o''], pr_operation = ''fetch'', pr_request = ''x'', pr_at = 5, pr_dispatched = True, pr_response = None\<rparr>]\<rparr>"

definition sample_end :: rpc_state where
  "sample_end = sample_round (revoke (wg_job sample_grant) (sample_round initial_rpc))"

lemma sample_round_run:
  assumes "rs_grants s = []" and "rs_prepared s = []"
  shows "rpc_trace 300 s [Issued (wg_job sample_grant), Quiet, Dispatched sample_key] (sample_round s)"
proof -
  let ?s1 = "s\<lparr>rs_grants := [(wg_job sample_grant, (sample_grant, []))]\<rparr>"
  let ?s2 = "snd (store_prepared 300 5 sample_grant [''o''] ''fetch'' ''d'' ''x'' ?s1)"
  have "issue_grant (sample_grant, []) s = Inr ?s1" using assms by (simp add: issue_grant_def dict_set_def field_names_def)
  from rpc_step.issued [OF this, of 300] have a: "rpc_step 300 s (Issued (wg_job sample_grant)) ?s1" by simp
  have b: "rpc_step 300 ?s1 Quiet ?s2" by (rule rpc_step.stored) (rule surjective_pairing)
  have "dispatch 300 5 sample_grant [''o''] ''fetch'' ''d'' ?s2 = (Inr (length (rs_heap s)), sample_round s)"
    using assms by (simp add: sample_round_def sample_key_def store_prepared_def dispatch_def registered_def make_room_def drop_stale_def
      full_def mine_def MAX_PREPARED_PER_JOB_def MAX_PREPARED_TOTAL_def dict_set_def field_names_def record_of_def Let_def)
  from rpc_step.dispatched [OF this] have c: "rpc_step 300 ?s2 (Dispatched sample_key) (sample_round s)" by (simp add: sample_key_def)
  from a b c show ?thesis by (meson rpc_trace.intros)
qed

lemma sample_run: "rpc_trace 300 initial_rpc sample_labels sample_end"
proof -
  let ?s = "sample_round initial_rpc" and ?job = "wg_job sample_grant"
  have "rs_grants (revoke ?job ?s) = []" "rs_prepared (revoke ?job ?s) = []"
    by (simp_all add: revoke_def sample_round_def initial_rpc_def dict_pop_def sample_key_def)
  from trace_cons [OF rpc_step.revoked sample_round_run [OF this]]
  have "rpc_trace 300 ?s [Revoked ?job, Issued ?job, Quiet, Dispatched sample_key] sample_end" by (simp add: sample_end_def)
  with trace_append [OF sample_round_run [of initial_rpc] this] show ?thesis
    by (simp add: sample_labels_def Let_def initial_rpc_def)
qed

theorem dispatched_once_witness:
  "rpc_trace 300 initial_rpc sample_labels sample_end \<and> (\<exists>m. 2 < m \<and> m < 6 \<and> sample_labels ! m = Revoked (fst sample_key))"
  using sample_run dispatched_once [OF sample_run, of 2 6 sample_key] by (simp add: sample_labels_def Let_def)

theorem revoked_job_is_silent_witness:
  "rpc_trace 300 initial_rpc sample_labels sample_end \<and> (\<exists>m. 3 < m \<and> m < 6 \<and> sample_labels ! m = Issued (wg_job sample_grant))"
  using sample_run revoked_job_is_silent [OF sample_run, of 3 6 "wg_job sample_grant" "''d''"]
  by (simp add: sample_labels_def Let_def sample_key_def)

theorem prepared_bounded_witness:
  "length (rs_prepared sample_end) = 1 \<and> length (rs_prepared sample_end) \<le> 1024
    \<and> length (filter (\<lambda>p. fst (fst p) = wg_job sample_grant) (rs_prepared sample_end)) \<le> 32 \<and> distinct (map snd (rs_prepared sample_end))"
  using prepared_bounded [OF sample_run, of "wg_job sample_grant"] by (simp add: sample_end_def sample_round_def)

end
