(* ===== verification/Worker_Calls.thy ===== *)
theory Worker_Calls
  imports Worker_Table
begin

text \<open>
  One handled frame of \<open>worker_git_rpc.py\<close>: the thread's own sections and backend calls, and the confinement of a
  call to an admitted grant.
\<close>

section \<open>What one call may do\<close>

fun executes :: "backend_call \<Rightarrow> bool" where
  "executes (Fetch w rp rm rf) = True"
| "executes (Clone w rp rm rf b d rc) = True"
| "executes (PullRepository w rp rm rf rc m) = True"
| "executes (Pull w rm rf rc m) = True"
| "executes _ = False"

text \<open>Workspace, repository, remote and reference of a backend call.\<close>

fun call_target :: "backend_call \<Rightarrow> string \<times> string option \<times> string \<times> string" where
  "call_target (PrepareFetch w rp rm rf) = (w, Some rp, rm, rf)"
| "call_target (PrepareRepository w rp rm rf m) = (w, Some rp, rm, rf)"
| "call_target (Prepare w rm rf m) = (w, None, rm, rf)"
| "call_target (PrepareClone w rp rm rf b) = (w, Some rp, rm, rf)"
| "call_target (Fetch w rp rm rf) = (w, Some rp, rm, rf)"
| "call_target (Clone w rp rm rf b d rc) = (w, Some rp, rm, rf)"
| "call_target (PullRepository w rp rm rf rc m) = (w, Some rp, rm, rf)"
| "call_target (Pull w rm rf rc m) = (w, None, rm, rf)"

definition targets_grant :: "worker_grant \<Rightarrow> worker_request \<Rightarrow> backend_call \<Rightarrow> bool" where
  "targets_grant g rq c \<longleftrightarrow> (\<exists>rp. (rp = None \<or> rp = Some (wg_repository g)) \<and> call_target c = (wg_workspace g, rp, wq_remote rq, wq_ref rq))"

text \<open>The own events of a thread: a section runs on the state the others left, a call is recorded.\<close>

datatype event = Section rpc_label | Call backend_call

definition handed :: "thread \<Rightarrow> rpc_state" where
  "handed th = (case th_others th of [] \<Rightarrow> th_state th | f # _ \<Rightarrow> f (th_state th))"

inductive served :: "int \<Rightarrow> thread \<Rightarrow> event list \<Rightarrow> thread \<Rightarrow> bool" for ttl where
  served_nil: "served ttl th [] th"
| served_section: "rpc_step ttl (handed th) l s \<Longrightarrow> served ttl (th\<lparr>th_state := s, th_others := tl (th_others th)\<rparr>) es th'
    \<Longrightarrow> served ttl th (Section l # es) th'"
| served_call: "served ttl (th\<lparr>th_calls := th_calls th @ [c]\<rparr>) es th' \<Longrightarrow> served ttl th (Call c # es) th'"

inductive_simps served_Nil_iff [simp]: "served ttl th [] th'"
inductive_simps served_Section_iff: "served ttl th (Section l # es) th'"
inductive_simps served_Call_iff [simp]: "served ttl th (Call c # es) th'"

lemma served_append: "served ttl a es b \<Longrightarrow> served ttl b fs c \<Longrightarrow> served ttl a (es @ fs) c"
  by (induction rule: served.induct) (auto intro: served.intros)

definition runs :: "int \<Rightarrow> (event list \<Rightarrow> bool) \<Rightarrow> 'a act \<Rightarrow> bool" where
  "runs ttl Q m \<longleftrightarrow> (\<forall>th. \<exists>es. served ttl th es (snd (m th)) \<and> Q es)"

text \<open>Sequencing.\<close>

lemma runs_bind:
  assumes "runs ttl Q1 m" and "\<And>x th th'. m th = (Inr x, th') \<Longrightarrow> runs ttl Q2 (f x)"
    and "\<And>es. Q1 es \<Longrightarrow> Q es" and "\<And>es fs. Q1 es \<Longrightarrow> Q2 fs \<Longrightarrow> Q (es @ fs)"
  shows "runs ttl Q (act_bind m f)"
  unfolding runs_def
proof
  fix th
  from assms(1) obtain es where m: "served ttl th es (snd (m th))" "Q1 es" unfolding runs_def by blast
  obtain r th1 where r: "m th = (r, th1)" by fastforce
  show "\<exists>es. served ttl th es (snd (act_bind m f th)) \<and> Q es"
  proof (cases r)
    case (Inl e)
    with m r assms(3) show ?thesis by (auto simp: act_bind_def)
  next
    case (Inr x)
    with assms(2) r obtain fs where "served ttl th1 fs (snd (f x th1))" "Q2 fs" unfolding runs_def by blast
    with m r Inr assms(4) served_append show ?thesis by (fastforce simp: act_bind_def)
  qed
qed

lemma runs_weaken: "runs ttl Q m \<Longrightarrow> (\<And>es. Q es \<Longrightarrow> Q' es) \<Longrightarrow> runs ttl Q' m"
  unfolding runs_def by blast

lemma runs_act_of: "Q [] \<Longrightarrow> runs ttl Q (act_of r)"
  by (force simp: runs_def act_of_def)

lemma runs_calling: "Q [Call c] \<Longrightarrow> runs ttl Q (calling c)"
  unfolding runs_def calling_def by (intro allI exI [of _ "[Call c]"]) simp

lemma snd_locked: "snd (locked f th) = th\<lparr>th_state := snd (f (handed th)), th_others := tl (th_others th)\<rparr>"
  by (simp add: locked_def handed_def Let_def split: prod.split)

lemma runs_locked:
  assumes "\<And>s. \<exists>l. rpc_step ttl s l (snd (f s)) \<and> Q [Section l]"
  shows "runs ttl Q (locked f)"
  unfolding runs_def snd_locked using assms served.intros by metis

text \<open>Acts that execute nothing; and acts whose only executing call follows their own dispatch at once.\<close>

definition quiet :: "(backend_call \<Rightarrow> bool) \<Rightarrow> event list \<Rightarrow> bool" where
  "quiet P es \<longleftrightarrow> (\<forall>c. Call c \<in> set es \<longrightarrow> P c \<and> \<not> executes c)"

definition fires :: "(backend_call \<Rightarrow> bool) \<Rightarrow> string \<Rightarrow> (string \<Rightarrow> bool) \<Rightarrow> event list \<Rightarrow> bool" where
  "fires P job R es \<longleftrightarrow> quiet P es \<or> (\<exists>before dg c after. es = before @ [Section (Dispatched (job, dg)), Call c] @ after
     \<and> quiet P before \<and> quiet P after \<and> P c \<and> executes c \<and> R dg)"

lemma quiet_append [simp]: "quiet P (es @ fs) \<longleftrightarrow> quiet P es \<and> quiet P fs"
  by (auto simp: quiet_def)

lemma quiet_simps [simp]: "quiet P []" "quiet P (Section l # es) \<longleftrightarrow> quiet P es"
  "quiet P (Call c # es) \<longleftrightarrow> P c \<and> \<not> executes c \<and> quiet P es"
  by (auto simp: quiet_def)

lemma quiet_fires: "quiet P es \<Longrightarrow> fires P job R es"
  by (simp add: fires_def)

lemma fires_after: "quiet P es \<Longrightarrow> fires P job R fs \<Longrightarrow> fires P job R (es @ fs)"
  unfolding fires_def by (metis append.assoc quiet_append)

lemma quiet_bind:
  "runs ttl (quiet P) m \<Longrightarrow> (\<And>x. runs ttl (quiet P) (f x)) \<Longrightarrow> runs ttl (quiet P) (act_bind m f)"
  by (rule runs_bind [where ?Q1.0 = "quiet P" and ?Q2.0 = "quiet P"]) auto

lemma quiet_then_fires:
  "runs ttl (quiet P) m \<Longrightarrow> (\<And>x th th'. m th = (Inr x, th') \<Longrightarrow> runs ttl (fires P job R) (f x))
     \<Longrightarrow> runs ttl (fires P job R) (act_bind m f)"
  by (rule runs_bind [where ?Q1.0 = "quiet P" and ?Q2.0 = "fires P job R"]) (auto intro: quiet_fires fires_after)

lemma quiet_act_of: "runs ttl (quiet P) (act_of r)"
  by (rule runs_act_of) simp

lemma quiet_require: "runs ttl (quiet P) (act_require b code)"
  by (simp add: act_require_def quiet_act_of)

lemma quiet_read: "runs ttl (quiet P) (locked (\<lambda>s. (r s, s)))"
  by (rule runs_locked) (auto intro: rpc_step.looked)

lemma quiet_ask: "P c \<Longrightarrow> \<not> executes c \<Longrightarrow> runs ttl (quiet P) (ask_backend env c)"
  unfolding ask_backend_def by (intro quiet_bind quiet_act_of runs_calling) simp

lemma quiet_store: "runs ttl (quiet P) (locked (store_prepared ttl now g scope operation dg doc))"
  by (rule runs_locked) (metis rpc_step.stored prod.collapse quiet_simps(1,2))

lemma quiet_reuse: "runs ttl (quiet P) (locked (reuse_clone ttl now g scope))"
  by (rule runs_locked) (metis rpc_step.reused prod.collapse quiet_simps(1,2))

lemma quiet_select: "runs ttl (quiet P) (locked (select_repository g))"
  by (rule runs_locked) (metis rpc_step.selected prod.collapse quiet_simps(1,2))

lemma quiet_respond: "runs ttl (quiet P) (locked (respond i reply))"
  by (rule runs_locked) (metis rpc_step.responded prod.collapse quiet_simps(1,2))

lemma quiet_find: "runs ttl (quiet P) (locked (find_record g scope operation dg))"
proof (rule runs_locked)
  fix s
  have "snd (find_record g scope operation dg s) = s" by (simp add: find_record_def split: option.split)
  then show "\<exists>l. rpc_step ttl s l (snd (find_record g scope operation dg s)) \<and> quiet P [Section l]"
    using rpc_step.looked by force
qed

lemmas quiet_acts = quiet_bind quiet_act_of quiet_require quiet_read quiet_ask quiet_store quiet_reuse quiet_select
  quiet_respond quiet_find


lemma targets_prepare:
  "scope ! 0 = wq_remote rq \<Longrightarrow> scope ! 1 = wq_ref rq \<Longrightarrow> targets_grant g rq (prepare_call repository g scope operation)"
  by (simp add: targets_grant_def prepare_call_def)

lemma targets_execute:
  "scope ! 0 = wq_remote rq \<Longrightarrow> scope ! 1 = wq_ref rq \<Longrightarrow> targets_grant g rq (execute_call repository g scope operation dg receipt)"
  by (simp add: targets_grant_def execute_call_def)

lemma executes_prepare [simp]: "\<not> executes (prepare_call repository g scope operation)"
  by (simp add: prepare_call_def)

lemma executes_execute [simp]: "executes (execute_call repository g scope operation dg receipt)"
  by (simp add: execute_call_def)

lemma quiet_prepare:
  assumes "scope ! 0 = wq_remote rq" and "scope ! 1 = wq_ref rq"
  shows "runs (rc_ttl cfg) (quiet (targets_grant g rq)) (prepare cfg env g scope operation)"
  unfolding prepare_def Let_def by (intro quiet_acts targets_prepare assms executes_prepare)

lemma quiet_prepare_clone:
  assumes "scope ! 0 = wq_remote rq" and "scope ! 1 = wq_ref rq"
  shows "runs (rc_ttl cfg) (quiet (targets_grant g rq)) (prepare_clone cfg env g scope)"
  unfolding prepare_clone_def
  by (intro quiet_bind quiet_reuse) (auto simp: targets_grant_def assms [simplified] split: option.split intro!: quiet_acts)

lemma quiet_await: "runs ttl (quiet P) (await_reply env g scope operation dg)"
  unfolding await_reply_def by (intro quiet_acts)

lemma quiet_admit: "runs ttl (quiet P) (admit env cat rq)"
  unfolding admit_def by (intro quiet_acts)

text \<open>The dispatch of a call and the call itself.\<close>

lemma runs_dispatched:
  assumes "\<And>i. runs ttl (quiet P) (act_bind (f i) h)" and "P c" and "executes c" and "R dg"
  shows "runs ttl (fires P (wg_job g) R)
     (act_bind (locked (dispatch ttl now g scope operation dg)) (\<lambda>i. act_bind (calling c) (\<lambda>_. act_bind (f i) h)))"
  unfolding runs_def
proof
  fix th
  let ?m = "dispatch ttl now g scope operation dg"
  let ?th = "th\<lparr>th_state := snd (?m (handed th)), th_others := tl (th_others th)\<rparr>"
  obtain r s where d: "?m (handed th) = (r, s)" by fastforce
  have l: "locked ?m th = (r, ?th)" using d snd_locked [of ?m th]
    by (simp add: locked_def handed_def Let_def split: prod.splits)
  show "\<exists>es. served ttl th es (snd (act_bind (locked ?m) (\<lambda>i. act_bind (calling c) (\<lambda>_. act_bind (f i) h)) th)) \<and> fires P (wg_job g) R es"
  proof (cases r)
    case (Inl e)
    then have "s = handed th" using d by (auto simp: dispatch_def Let_def split: option.splits if_splits)
    then have "served ttl th [Section Quiet] ?th" using d rpc_step.looked by (auto simp: served_Section_iff)
    with Inl l show ?thesis by (auto simp: act_bind_def fires_def intro!: exI [of _ "[Section Quiet]"])
  next
    case (Inr i)
    let ?th2 = "?th\<lparr>th_calls := th_calls ?th @ [c]\<rparr>"
    from Inr d have st: "rpc_step ttl (handed th) (Dispatched (wg_job g, dg)) s" by (auto intro: rpc_step.dispatched)
    from assms(1) obtain es where es: "served ttl ?th2 es (snd (act_bind (f i) h ?th2))" "quiet P es" unfolding runs_def by blast
    have "served ttl th (Section (Dispatched (wg_job g, dg)) # Call c # es) (snd (act_bind (f i) h ?th2))"
      using st es(1) d by (auto intro!: served_section)
    moreover have "fires P (wg_job g) R (Section (Dispatched (wg_job g, dg)) # Call c # es)"
      unfolding fires_def using es(2) assms(2-4) by (intro disjI2 exI [of _ "[]"] exI) auto
    ultimately show ?thesis using Inr l by (auto simp: act_bind_def calling_def)
  qed
qed

definition receipt_ok :: "rpc_config \<Rightarrow> call_env \<Rightarrow> string \<Rightarrow> string \<Rightarrow> bool" where
  "receipt_ok cfg env receipt dg \<longleftrightarrow> (if rc_requires cfg then receipt_claims receipt dg (ce_now env) = Inr () else receipt = [])"

lemma fires_pull:
  assumes "scope ! 0 = wq_remote rq" and "scope ! 1 = wq_ref rq"
  shows "runs (rc_ttl cfg) (fires (targets_grant g rq) (wg_job g) (receipt_ok cfg env receipt)) (pull cfg env g scope operation dg receipt)"
  unfolding pull_def Let_def
  by (rule quiet_then_fires [OF quiet_act_of], intro runs_dispatched quiet_acts targets_execute executes_execute assms)
    (auto simp: receipt_ok_def act_of_def split: if_splits)


lemma act_bind_Inr_iff: "act_bind m f th = (Inr y, th') \<longleftrightarrow> (\<exists>x th1. m th = (Inr x, th1) \<and> f x th1 = (Inr y, th'))"
  by (auto simp: act_bind_def split: prod.split sum.split)

lemma act_require_Inr_iff: "act_require b code th = (Inr u, th') \<longleftrightarrow> b \<and> th' = th"
  by (auto simp: act_require_def act_of_def)

definition admitted :: "call_env \<Rightarrow> catalog \<Rightarrow> worker_request \<Rightarrow> worker_grant \<Rightarrow> bool" where
  "admitted env cat rq g \<longleftrightarrow> g \<in> set (fst cat # snd cat) \<and> wq_job rq = wg_job (fst cat) \<and> wq_agent rq = wg_agent (fst cat)
     \<and> wq_workspace rq = wg_workspace (fst cat) \<and> wq_repository rq = wg_repository g \<and> ce_now env < wg_expires g \<and> ce_live env
     \<and> {''read'', ''write''} \<subseteq> set (wg_caps g) \<and> scope_allowed g rq"

lemma find_member: "find P xs = Some x \<Longrightarrow> x \<in> set xs \<and> P x"
  by (induction xs) (auto split: if_splits)

lemma admit_admitted:
  assumes "admit env cat rq th = (Inr g, th')"
  shows "admitted env cat rq g"
proof -
  note r = assms [unfolded admit_def act_bind_Inr_iff act_require_Inr_iff]
  from r obtain h where f: "find (\<lambda>h. wg_repository h = wq_repository rq) (fst cat # snd cat) = Some h" "g = h"
    and c: "wq_job rq = wg_job (fst cat)" "wq_agent rq = wg_agent (fst cat)" "wq_workspace rq = wg_workspace (fst cat)"
      "ce_now env < wg_expires h" "ce_live env" "set CAPABILITIES \<subseteq> set (wg_caps h)" "scope_allowed h rq"
    by (auto simp: act_of_def split: option.splits)
  have "g \<in> set (fst cat # snd cat)" "wg_repository g = wq_repository rq"
    using find_member [OF f(1)] f(2) by simp_all
  with c f(2) show ?thesis by (simp add: admitted_def CAPABILITIES_def)
qed

lemma scope_of_parts: "scope_of rq ! 0 = wq_remote rq" "scope_of rq ! 1 = wq_ref rq"
  by (simp_all add: scope_of_def)

lemma fires_of_quiet: "runs ttl (quiet P) m \<Longrightarrow> runs ttl (fires P job R) m"
  using runs_weaken quiet_fires by blast

definition call_receipt :: "worker_request \<Rightarrow> string" where
  "call_receipt rq = (if wq_op rq = ''fetch'' then [] else wq_receipt rq)"

lemma fires_run:
  "runs (rc_ttl cfg) (fires (targets_grant g rq) (wg_job g) (receipt_ok cfg env (call_receipt rq))) (run_request cfg env g rq)"
proof -
  note q = quiet_prepare [OF scope_of_parts] quiet_prepare_clone [OF scope_of_parts] quiet_await quiet_act_of quiet_bind
  show ?thesis
    unfolding run_request_def Let_def
    by (auto simp: call_receipt_def intro!: q quiet_then_fires fires_pull [OF scope_of_parts] intro: fires_of_quiet q)
qed

text \<open>A run that calls nothing, or one admitted for a request read from the frame.\<close>

definition confined :: "rpc_config \<Rightarrow> call_env \<Rightarrow> catalog \<Rightarrow> string \<Rightarrow> event list \<Rightarrow> bool" where
  "confined cfg env cat raw es \<longleftrightarrow> quiet (\<lambda>c. False) es
     \<or> (\<exists>data rq g. strict_json MAX_FRAME ''invalid_request'' raw = Inr data \<and> read_request (rc_requires cfg) data = Inr rq
          \<and> admitted env cat rq g \<and> fires (targets_grant g rq) (wg_job g) (receipt_ok cfg env (call_receipt rq)) es)"

lemma quiet_none: "quiet (\<lambda>c. False) es \<Longrightarrow> quiet P es"
  by (auto simp: quiet_def)

lemma confined_bind:
  assumes "runs ttl (quiet (\<lambda>c. False)) m" and "\<And>x th th'. m th = (Inr x, th') \<Longrightarrow> runs ttl (confined cfg env cat raw) (f x)"
  shows "runs ttl (confined cfg env cat raw) (act_bind m f)"
proof (rule runs_bind [OF assms])
  fix es fs assume e: "quiet (\<lambda>c. False) es" and f: "confined cfg env cat raw fs"
  note after = fires_after [OF quiet_none [OF e]]
  from f show "confined cfg env cat raw (es @ fs)"
  proof (unfold confined_def, elim disjE exE conjE, goal_cases)
    case 1
    with e show ?case by simp
  next
    case (2 data rq g)
    with after show ?case by blast
  qed
qed (auto simp: confined_def)

lemma confined_run:
  assumes "strict_json MAX_FRAME ''invalid_request'' raw = Inr data" and "read_request (rc_requires cfg) data = Inr rq"
    and "admitted env cat rq g"
  shows "runs (rc_ttl cfg) (confined cfg env cat raw) (run_request cfg env g rq)"
  by (rule runs_weaken [OF fires_run]) (use assms in \<open>auto simp: confined_def\<close>)

lemma confined_call: "runs (rc_ttl cfg) (confined cfg env cat raw) (admit_and_run cfg env cat raw)"
  unfolding admit_and_run_def
proof (intro confined_bind quiet_act_of quiet_admit, goal_cases)
  case (1 data th th1 rq th2 th3 g th4)
  then show ?case by (intro confined_run) (auto simp: act_of_def admit_admitted)
qed

lemma handle_thread: "snd (handle cfg env cat raw th) = snd (admit_and_run cfg env cat raw th)"
  by (auto simp: handle_def split: prod.split sum.split failure.split)


section \<open>Confinement of a call\<close>

text \<open>
  C30.  Whatever bytes a worker sends and whatever other threads do, a handled frame either calls the backend not at
  all, or only for a request read from that frame and admitted under a live, unexpired, read-write grant of the
  channel for exactly that job, agent, workspace and repository: every backend call names the grant's workspace and
  repository and the requested remote and reference, which the grant lists.  At most one call executes, right after
  the thread's own successful dispatch of that digest, with an accepted receipt when the backend demands receipts.
\<close>
theorem worker_call_confined:
  assumes "handle cfg env cat raw th = (r, th')"
  shows "\<exists>es. served (rc_ttl cfg) th es th' \<and>
    ((\<forall>c. Call c \<notin> set es) \<or>
     (\<exists>data rq g. strict_json MAX_FRAME ''invalid_request'' raw = Inr data \<and> read_request (rc_requires cfg) data = Inr rq
        \<and> admitted env cat rq g \<and> (\<forall>c. Call c \<in> set es \<longrightarrow> targets_grant g rq c)
        \<and> ((\<forall>c. Call c \<in> set es \<longrightarrow> \<not> executes c) \<or>
           (\<exists>before dg c after. es = before @ [Section (Dispatched (wg_job g, dg)), Call c] @ after
              \<and> (\<forall>c. Call c \<in> set (before @ after) \<longrightarrow> \<not> executes c)
              \<and> receipt_ok cfg env (call_receipt rq) dg))))"
proof -
  have "snd (admit_and_run cfg env cat raw th) = th'" using handle_thread [of cfg env cat raw th] assms by simp
  with confined_call [of cfg env cat raw] obtain es where es: "served (rc_ttl cfg) th es th'" "confined cfg env cat raw es"
    unfolding runs_def by metis
  show ?thesis
  proof (cases "quiet (\<lambda>c. False) es")
    case True
    with es(1) show ?thesis by (auto simp: quiet_def)
  next
    case False
    with es(2) obtain data rq g where q: "strict_json MAX_FRAME ''invalid_request'' raw = Inr data"
      "read_request (rc_requires cfg) data = Inr rq" "admitted env cat rq g"
      "fires (targets_grant g rq) (wg_job g) (receipt_ok cfg env (call_receipt rq)) es" by (auto simp: confined_def)
    from q(4) have "(\<forall>c. Call c \<in> set es \<longrightarrow> targets_grant g rq c) \<and> ((\<forall>c. Call c \<in> set es \<longrightarrow> \<not> executes c) \<or>
           (\<exists>before dg c after. es = before @ [Section (Dispatched (wg_job g, dg)), Call c] @ after
              \<and> (\<forall>c. Call c \<in> set (before @ after) \<longrightarrow> \<not> executes c)
              \<and> receipt_ok cfg env (call_receipt rq) dg))" (is ?calls)
      unfolding fires_def
    proof (elim disjE exE conjE, goal_cases)
      case 1
      then show ?case by (simp add: quiet_def)
    next
      case (2 before dg c after)
      then have "\<forall>c. Call c \<in> set es \<longrightarrow> targets_grant g rq c" "\<forall>c. Call c \<in> set (before @ after) \<longrightarrow> \<not> executes c"
        by (auto simp: quiet_def)
      with 2 show ?case by blast
    qed
    with es(1) q(1-3) show ?thesis by blast
  qed
qed


section \<open>A fetch\<close>

definition sample_cfg :: rpc_config where
  "sample_cfg = \<lparr>rc_ttl = 300, rc_requires = False, rc_repository = True, rc_sha = (\<lambda>x. ''s'')\<rparr>"
definition sample_payload where
  "sample_payload = PDict [(''operation'', PStr ''fetch''), (''parameters'', PDict [(''job_context'', PDict [(''agent'', PStr ''codex''), (''job_id'', PStr ''job_aaaaaaaaaaaaaaaaaaaaaaaa'')]), (''remote_id'', PStr ''o''), (''remote_ref'', PStr ''refs/heads/m'')]), (''repository_path'', PStr ''/w/r''), (''workspace_id'', PStr ''w'')]"
definition sample_env :: call_env where
  "sample_env = \<lparr>ce_now = 5, ce_live = True, ce_later = 6, ce_live_later = True, ce_prepare = (\<lambda>c. Some (canonical sample_payload)),
     ce_execute = (\<lambda>c. Backend_Done (PDict []))\<rparr>"
definition sample_raw where "sample_raw = canonical (PDict [(''agent'', PStr ''codex''), (''job_id'', PStr ''job_aaaaaaaaaaaaaaaaaaaaaaaa''), (''op'', PStr ''fetch''), (''ref'', PStr ''refs/heads/m''), (''remote'', PStr ''o''), (''repository'', PStr ''r''), (''version'', PInt 1), (''workspace_id'', PStr ''w'')])"
definition sample_thread where
  "sample_thread = \<lparr>th_state = initial_rpc\<lparr>rs_grants := [(wg_job sample_grant, (sample_grant, []))]\<rparr>, th_others = [], th_calls = []\<rparr>"

theorem worker_call_confined_witness:
  "th_calls (snd (handle sample_cfg sample_env (sample_grant, []) sample_raw sample_thread)) =
     [PrepareFetch ''w'' ''r'' ''o'' ''refs/heads/m'', Fetch ''w'' ''r'' ''o'' ''refs/heads/m'']
   \<and> (\<exists>es. served 300 sample_thread es (snd (handle sample_cfg sample_env (sample_grant, []) sample_raw sample_thread)))"
proof
  show "th_calls (snd (handle sample_cfg sample_env (sample_grant, []) sample_raw sample_thread)) =
     [PrepareFetch ''w'' ''r'' ''o'' ''refs/heads/m'', Fetch ''w'' ''r'' ''o'' ''refs/heads/m'']" by code_simp
  show "\<exists>es. served 300 sample_thread es (snd (handle sample_cfg sample_env (sample_grant, []) sample_raw sample_thread))"
    using worker_call_confined [of sample_cfg sample_env "(sample_grant, [])" sample_raw sample_thread, OF surjective_pairing]
    by (auto simp: sample_cfg_def)
qed

end
