(* ===== verification/Sockets.thy ===== *)
theory Sockets
  imports Json
begin

text \<open>
  Byte strings and stream sockets, shared by the egress relays (\<open>agents/development_egress.py\<close>,
  \<open>agents/provider_egress.py\<close>) and the worker transport (\<open>worker_git_transport.py\<close>).  A byte is a character; a
  connection is the list of what its next receives meet.
\<close>

section \<open>Byte strings\<close>

definition EOL :: string where
  "EOL = [CHR 0x0D, CHR 0x0A]"

text \<open>\<open>bytes.lower\<close> and \<open>bytes.strip\<close>.\<close>

definition lower_byte :: "char \<Rightarrow> char" where
  "lower_byte c = (if in_range (CHR ''A'') (CHR ''Z'') c then char_of (char_code c + 32) else c)"

definition byte_lower :: "string \<Rightarrow> string" where
  "byte_lower s = map lower_byte s"

definition byte_space :: "char \<Rightarrow> bool" where
  "byte_space c \<longleftrightarrow> c = CHR '' '' \<or> in_range (CHR 0x09) (CHR 0x0D) c"

definition byte_strip :: "string \<Rightarrow> string" where
  "byte_strip s = rev (dropWhile byte_space (rev (dropWhile byte_space s)))"

text \<open>The first occurrence of a separator, and \<open>split\<close> on it.\<close>

fun cut_at :: "string \<Rightarrow> string \<Rightarrow> (string \<times> string) option" where
  "cut_at p [] = (if p = [] then Some ([], []) else None)"
| "cut_at p (c # s) = (if starts_with p (c # s) then Some ([], drop (length p) (c # s))
     else map_option (\<lambda>(a, b). (c # a, b)) (cut_at p s))"

lemma cut_at_Some: "cut_at p s = Some (a, b) \<Longrightarrow> s = a @ p @ b"
  by (induction s arbitrary: a) (auto simp: starts_with_iff split: if_splits)

lemma cut_at_shorter: "cut_at p s = Some (a, b) \<Longrightarrow> p \<noteq> [] \<Longrightarrow> length b < length s"
  by (auto dest: cut_at_Some)

function split_at :: "string \<Rightarrow> string \<Rightarrow> string list" where
  "split_at p s = (if p = [] then [s] else (case cut_at p s of None \<Rightarrow> [s] | Some (a, b) \<Rightarrow> a # split_at p b))"
  by pat_completeness auto
termination
  by (relation "measure (length o snd)") (auto dest: cut_at_shorter)

declare split_at.simps [simp del]

fun eol_join :: "string list \<Rightarrow> string" where
  "eol_join [] = []"
| "eol_join [l] = l"
| "eol_join (l # m # ls) = l @ EOL @ eol_join (m # ls)"

lemma cut_at_prefix:
  assumes "\<forall>c \<in> set a. c \<noteq> p" shows "cut_at (p # q) (a @ p # q @ b) = Some (a, b)"
  using assms
proof (induction a)
  case Nil
  have "starts_with (p # q) (p # q @ b)" by (metis append_Cons starts_with_append)
  then show ?case by simp
next
  case (Cons c a)
  then show ?case by (auto simp: starts_with_def)
qed

lemma cut_at_absent: "p \<notin> set s \<Longrightarrow> cut_at (p # q) s = None"
  by (induction s) auto

lemma split_eol_join:
  "ls \<noteq> [] \<Longrightarrow> \<forall>l \<in> set ls. CHR 0x0D \<notin> set l \<Longrightarrow> split_at EOL (eol_join ls) = ls"
proof (induction ls rule: eol_join.induct)
  case (2 l)
  then show ?case by (subst split_at.simps) (simp add: EOL_def cut_at_absent)
next
  case (3 l m ls)
  have "cut_at EOL (l @ EOL @ eol_join (m # ls)) = Some (l, eol_join (m # ls))"
    using 3 cut_at_prefix [of l "CHR 0x0D" "[CHR 0x0A]"] by (force simp: EOL_def)
  with 3 show ?case by (simp add: split_at.simps [of EOL "l @ EOL @ eol_join (m # ls)"] EOL_def [symmetric])
    (simp add: EOL_def)
qed simp

section \<open>Receiving\<close>

text \<open>A block arrives, the deadline passes before it, or the socket fails; the end of the list is the end of the stream.\<close>

datatype io_event = Data string | Late | Broken

fun recv :: "nat \<Rightarrow> io_event list \<Rightarrow> string result \<times> io_event list" where
  "recv n [] = (Inr [], [])"
| "recv n (Data b # es) = (Inr (take n b), if drop n b = [] then es else Data (drop n b) # es)"
| "recv n (Late # es) = (Inl ValueError, es)"
| "recv n (Broken # es) = (Inl OSError, es)"

text \<open>What a stream without failures carries.\<close>

fun carried :: "io_event list \<Rightarrow> string" where
  "carried (Data b # es) = b @ carried es"
| "carried _ = []"

fun steady :: "io_event list \<Rightarrow> bool" where
  "steady [] = True"
| "steady (Data b # es) = (b \<noteq> [] \<and> steady es)"
| "steady _ = False"

lemma recv_carried: "recv n es = (Inr b, es') \<Longrightarrow> b \<noteq> [] \<Longrightarrow> carried es = b @ carried es'"
  by (cases "(n, es)" rule: recv.cases) (auto split: if_splits)

lemma recv_length: "recv n es = (Inr b, es') \<Longrightarrow> length b \<le> n"
  by (cases "(n, es)" rule: recv.cases) auto

lemma recv_steady:
  "steady es \<Longrightarrow> recv n es = (r, es') \<Longrightarrow> steady es' \<and> (\<exists>b. r = Inr b \<and> (b = [] \<longrightarrow> es = [] \<or> n = 0))"
  by (cases "(n, es)" rule: recv.cases) (auto split: if_splits)

text \<open>Reading exactly \<open>want\<close> bytes.\<close>

function recv_exact :: "nat \<Rightarrow> string \<Rightarrow> io_event list \<Rightarrow> string result \<times> io_event list" where
  "recv_exact want data es =
     (if want \<le> length data then (Inr data, es)
      else (case recv (want - length data) es of
          (Inl e, es') \<Rightarrow> (Inl e, es')
        | (Inr b, es') \<Rightarrow> if b = [] then (Inl EOFError, es') else recv_exact want (data @ b) es'))"
  by pat_completeness auto
termination
  by (relation "measure (\<lambda>(want, data, es). want - length data)") (auto intro!: diff_less_mono2)

declare recv_exact.simps [simp del]

lemma recv_exact_sound:
  "recv_exact want data es = (Inr out, es') \<Longrightarrow> length data \<le> want
     \<Longrightarrow> length out = want \<and> data @ carried es = out @ carried es'"
proof (induction want data es rule: recv_exact.induct)
  case (1 want data es)
  show ?case
  proof (cases "want \<le> length data")
    case True
    with 1 show ?thesis by (simp add: recv_exact.simps [of want data es])
  next
    case False
    with 1 obtain b es1 where r: "recv (want - length data) es = (Inr b, es1)" "b \<noteq> []"
      "recv_exact want (data @ b) es1 = (Inr out, es')"
      by (auto simp: recv_exact.simps [of want data es] split: prod.splits sum.splits if_splits)
    with recv_length [OF r(1)] False have "length (data @ b) \<le> want" by simp
    with 1 False r show ?thesis using recv_carried [OF r(1,2)] by fastforce
  qed
qed

lemma recv_exact_complete:
  "steady es \<Longrightarrow> length data \<le> want \<Longrightarrow> want \<le> length (data @ carried es) \<Longrightarrow>
     \<exists>es'. recv_exact want data es = (Inr (take want (data @ carried es)), es') \<and> steady es' \<and> carried es' = drop want (data @ carried es)"
proof (induction want data es rule: recv_exact.induct)
  case (1 want data es)
  show ?case
  proof (cases "want \<le> length data")
    case True
    with 1 show ?thesis by (simp add: recv_exact.simps [of want data es])
  next
    case False
    obtain r es1 where r: "recv (want - length data) es = (r, es1)" by fastforce
    from recv_steady [OF 1(2) r] obtain b where b: "r = Inr b" "b = [] \<longrightarrow> es = [] \<or> want - length data = 0" "steady es1" by auto
    with 1 False have "b \<noteq> []" by auto
    with r b have c: "carried es = b @ carried es1" using recv_carried by blast
    have "length (data @ b) \<le> want" using recv_length r b False by fastforce
    with 1(1) [OF False] r b c \<open>b \<noteq> []\<close> 1(4) False show ?thesis
      by (auto simp: recv_exact.simps [of want data es])
  qed
qed


text \<open>Reading a header up to its blank line; \<open>refuse\<close> sees what was read before a block and the block.\<close>

definition HEAD_END :: string where
  "HEAD_END = EOL @ EOL"

definition load :: "io_event list \<Rightarrow> nat" where
  "load es = sum_list (map (\<lambda>e. case e of Data b \<Rightarrow> Suc (length b) | _ \<Rightarrow> 1) es)"

lemma recv_load: "recv n es = (Inr b, es') \<Longrightarrow> b \<noteq> [] \<Longrightarrow> load es' < load es"
  by (cases "(n, es)" rule: recv.cases) (auto simp: load_def split: if_splits)

function head_loop :: "(string \<Rightarrow> nat) \<Rightarrow> (string \<Rightarrow> bool) \<Rightarrow> (string \<Rightarrow> string \<Rightarrow> bool) \<Rightarrow> string \<Rightarrow> io_event list
    \<Rightarrow> (string \<times> string) result \<times> io_event list" where
  "head_loop step stop refuse data es =
     (case cut_at HEAD_END data of
        Some hr \<Rightarrow> (Inr hr, es)
      | None \<Rightarrow>
          if stop data then (Inl ValueError, es)
          else (case recv (step data) es of
              (Inl e, es') \<Rightarrow> (Inl e, es')
            | (Inr b, es') \<Rightarrow> if b = [] \<or> refuse data b then (Inl ValueError, es') else head_loop step stop refuse (data @ b) es'))"
  by pat_completeness auto
termination
  by (relation "measure (\<lambda>(step, stop, refuse, data, es). load es)") (auto intro: recv_load [OF sym])

declare head_loop.simps [simp del]

lemma head_loop_sound:
  "head_loop step stop refuse data es = (Inr (h, rest), es') \<Longrightarrow> data @ carried es = h @ HEAD_END @ rest @ carried es'"
proof (induction step stop refuse data es rule: head_loop.induct)
  case (1 step stop refuse data es)
  show ?case
  proof (cases "cut_at HEAD_END data")
    case (Some hr)
    with 1(2) show ?thesis using cut_at_Some [of HEAD_END data h rest] by (simp add: head_loop.simps [of step stop refuse data es])
  next
    case None
    with 1(2) obtain b es1 where r: "recv (step data) es = (Inr b, es1)" "b \<noteq> []" "\<not> stop data" "\<not> refuse data b"
      "head_loop step stop refuse (data @ b) es1 = (Inr (h, rest), es')"
      by (auto simp: head_loop.simps [of step stop refuse data es] split: prod.splits sum.splits if_splits)
    with 1(1) [OF None r(3) r(1) [symmetric]] recv_carried [OF r(1,2)] show ?thesis by simp
  qed
qed

end
