(* ===== verification/Egress.thy ===== *)
theory Egress
  imports Sockets
begin

text \<open>
  \<open>agents/development_egress.py\<close>: the CONNECT endpoint of a job without network, and the endpoint of one local model
  service.  Resolved addresses, their classification by \<open>ipaddress\<close>, the connection attempts and the upgrade key
  hash are inputs.  An endpoint's effects are the writes it attempts, in order.
\<close>

section \<open>CONNECT requests\<close>

definition MAX_HEADER_BYTES :: nat where "MAX_HEADER_BYTES = 8192"
definition MAX_CONNECTIONS :: nat where "MAX_CONNECTIONS = 32"

definition token_char :: "char \<Rightarrow> bool" where
  "token_char c \<longleftrightarrow> is_alnum c \<or> c \<in> set ''!#$%&*+.^_`|~-'' \<or> c = CHR 0x27"

text \<open>\<open>CONNECT (\[[0-9a-fA-F:]+\]|[A-Za-z0-9.-]+):443 HTTP/1\.[01]\<close>.\<close>

definition destination_ok :: "string \<Rightarrow> bool" where
  "destination_ok d \<longleftrightarrow> d \<noteq> [] \<and> (list_all (\<lambda>c. is_alnum c \<or> c \<in> set ''.-'') d
     \<or> (3 \<le> length d \<and> hd d = CHR ''['' \<and> last d = CHR '']''
        \<and> list_all (\<lambda>c. is_hex (lower_char c) \<or> c = CHR '':'') (butlast (tl d))))"

definition connect_target :: "string \<Rightarrow> string option" where
  "connect_target line =
     (if starts_with ''CONNECT '' line \<and> (ends_with '':443 HTTP/1.0'' line \<or> ends_with '':443 HTTP/1.1'' line)
      then (let d = take (length line - 21) (drop 8 line) in if destination_ok d then Some d else None) else None)"

definition connect_header_ok :: "string \<Rightarrow> bool" where
  "connect_header_ok line \<longleftrightarrow> (case cut_at '':'' line of
       None \<Rightarrow> False
     | Some (name, v) \<Rightarrow> name \<noteq> [] \<and> list_all token_char name
         \<and> list_all (\<lambda>c. c = CHR 0x09 \<or> (32 \<le> char_code c \<and> char_code c \<le> 126)) v)"

definition is_bracket :: "char \<Rightarrow> bool" where
  "is_bracket c \<longleftrightarrow> c \<in> set ''[]''"

definition parse_connect :: "string \<Rightarrow> string result" where
  "parse_connect header =
     (if \<not> list_all (\<lambda>c. char_code c < 128) header then Inl ValueError
      else (let lines = split_at EOL header in
        case connect_target (hd lines) of
          None \<Rightarrow> Inl ValueError
        | Some d \<Rightarrow>
            if \<not> list_all connect_header_ok (tl lines) then Inl ValueError
            else (let host = rev (dropWhile is_bracket (rev (dropWhile is_bracket d))) in
              if 253 < length host \<or> host = [] \<or> starts_with ''.'' host \<or> contains ''..'' host then Inl ValueError
              else Inr host)))"

definition read_connect :: "io_event list \<Rightarrow> (string \<times> string) result \<times> io_event list" where
  "read_connect es =
     (case head_loop (\<lambda>data. min 4096 (MAX_HEADER_BYTES + 1 - length data)) (\<lambda>data. False)
        (\<lambda>data b. case cut_at HEAD_END (data @ b) of None \<Rightarrow> MAX_HEADER_BYTES < length (data @ b)
           | Some (h, _) \<Rightarrow> MAX_HEADER_BYTES < length h + 4) [] es of
        (Inl e, es') \<Rightarrow> (Inl e, es')
      | (Inr (header, rest), es') \<Rightarrow> (rbind (parse_connect header) (\<lambda>host. Inr (host, rest)), es'))"

section \<open>Public addresses\<close>

record address_facts =
  af_global :: bool
  af_multicast :: bool
  af_reserved :: bool
  af_unspecified :: bool
  af_loopback :: bool
  af_transition :: bool     \<comment> \<open>IPv6: mapped, 6to4, Teredo or NAT64\<close>

text \<open>\<open>None\<close>: not an address literal.\<close>

definition public_address :: "(string \<Rightarrow> address_facts option) \<Rightarrow> string \<Rightarrow> bool" where
  "public_address classify v = (case classify v of
       None \<Rightarrow> False
     | Some a \<Rightarrow> af_global a \<and> \<not> af_multicast a \<and> \<not> af_reserved a \<and> \<not> af_unspecified a \<and> \<not> af_loopback a \<and> \<not> af_transition a)"

datatype attempt = Connected | Refused | Out_Of_Time

fun try_addresses :: "(string \<Rightarrow> attempt) \<Rightarrow> string list \<Rightarrow> string result" where
  "try_addresses reach [] = Inl OSError"
| "try_addresses reach (a # as) = (case reach a of
       Connected \<Rightarrow> Inr a
     | Refused \<Rightarrow> try_addresses reach as
     | Out_Of_Time \<Rightarrow> Inl OSError)"

record network =
  nw_classify :: "string \<Rightarrow> address_facts option"
  nw_resolve :: "string \<Rightarrow> string list result"
  nw_reach :: "string \<Rightarrow> attempt"

definition connect_public :: "network \<Rightarrow> string \<Rightarrow> string result" where
  "connect_public nw host =
     rbind (nw_resolve nw host) (\<lambda>answers.
       if answers = [] \<or> list_ex (\<lambda>a. \<not> public_address (nw_classify nw) a) answers then Inl PermissionError
       else try_addresses (nw_reach nw) answers)"

section \<open>The public endpoint\<close>

datatype net_effect =
    Reply string                  \<comment> \<open>to the client\<close>
  | Forward string string         \<comment> \<open>to an address\<close>
  | Relay string                  \<comment> \<open>both directions, with an address\<close>

definition ESTABLISHED :: string where
  "ESTABLISHED = ''HTTP/1.1 200 Connection Established'' @ HEAD_END"

definition refusal :: "py_error \<Rightarrow> string" where
  "refusal e = ''HTTP/1.1 '' @ (if is_permission_error e then ''403 Forbidden'' else if e = ValueError then ''400 Bad Request''
     else ''502 Bad Gateway'') @ EOL @ ''Connection: close'' @ EOL @ ''Content-Length: 0'' @ HEAD_END"

text \<open>\<open>PublicEgress._handle\<close>; \<open>stopped\<close> tells whether the endpoint was closed meanwhile.\<close>

definition public_handle :: "network \<Rightarrow> bool \<Rightarrow> io_event list \<Rightarrow> net_effect list" where
  "public_handle nw stopped es =
     (case (case read_connect es of (r, _) \<Rightarrow>
         rbind r (\<lambda>(host, rest). rbind (connect_public nw host) (\<lambda>a. Inr (rest, a)))) of
        Inl e \<Rightarrow> [Reply (refusal e)]
      | Inr (rest, a) \<Rightarrow>
          if stopped then []
          else Reply ESTABLISHED # (if rest = [] then [] else [Forward a rest]) @ [Relay a])"

section \<open>The model service endpoint\<close>

fun headroom_headers :: "string list \<Rightarrow> (string \<times> string) list \<Rightarrow> (string \<times> string) list result" where
  "headroom_headers [] hs = Inr hs"
| "headroom_headers (line # lines) hs = (case cut_at '':'' line of
       None \<Rightarrow> Inl ValueError
     | Some (n, v) \<Rightarrow>
         (let name = byte_lower n; val = byte_strip v in
          if name = [] \<or> \<not> list_all (\<lambda>c. in_range (CHR ''a'') (CHR ''z'') c \<or> is_digit c \<or> c = CHR ''-'') name
             \<or> name \<in> field_names hs \<or> list_ex (\<lambda>c. char_code c < 32 \<or> char_code c = 127) val
          then Inl ValueError else headroom_headers lines (dict_set name val hs)))"

definition header_get :: "(string \<times> string) list \<Rightarrow> string \<Rightarrow> string \<Rightarrow> string" where
  "header_get hs k d = (case map_of hs k of None \<Rightarrow> d | Some v \<Rightarrow> v)"

definition HEADROOM_API :: "(string \<times> string) list" where
  "HEADROOM_API = [(''POST'', ''/v1/responses''), (''POST'', ''/v1/responses/compact''), (''GET'', ''/v1/models''), (''GET'', ''/v1/responses'')]"

definition headroom_authority :: "nat \<Rightarrow> string" where
  "headroom_authority port = ''127.0.0.1:'' @ decimal port"

text \<open>\<open>base64.b64decode(key, validate=True)\<close> gives 16 bytes.\<close>

definition websocket_key_ok :: "string \<Rightarrow> bool" where
  "websocket_key_ok k \<longleftrightarrow> length k = 24 \<and> list_all (\<lambda>c. is_alnum c \<or> c \<in> set ''+/'') (take 22 k) \<and> drop 22 k = ''==''"

definition headroom_admitted :: "nat \<Rightarrow> string \<Rightarrow> (string \<times> string) list \<Rightarrow> bool \<Rightarrow> bool" where
  "headroom_admitted port line hs upgrade \<longleftrightarrow> (case split_on (CHR '' '') line of
       [meth, target, version] \<Rightarrow> version = ''HTTP/1.1'' \<and> map_of hs ''host'' = Some (headroom_authority port)
         \<and> ''transfer-encoding'' \<notin> field_names hs \<and> (meth, target) \<in> set HEADROOM_API
         \<and> (meth = ''GET'' \<and> target = ''/v1/responses'' \<longleftrightarrow> upgrade)
     | _ \<Rightarrow> False)"

definition headroom_length :: "(string \<times> string) list \<Rightarrow> nat result" where
  "headroom_length hs = (let len = header_get hs ''content-length'' ''0'' in
     if class_match is_digit 1 8 len \<and> decimal_value len \<le> 16777216 then Inr (nat (decimal_value len)) else Inl ValueError)"

text \<open>The body is read in blocks of at most 65536 bytes; the block size does not matter.\<close>

definition rest_of_body :: "nat \<Rightarrow> string \<Rightarrow> io_event list \<Rightarrow> string result \<times> io_event list" where
  "rest_of_body len first es = (case recv_exact len first es of
       (Inl e, es') \<Rightarrow> (Inl (if e = EOFError then ValueError else e), es')
     | r \<Rightarrow> r)"

definition header_line :: "string \<times> string \<Rightarrow> string" where
  "header_line h = fst h @ '': '' @ snd h"

definition rebuilt :: "string \<Rightarrow> (string \<times> string) list \<Rightarrow> string \<Rightarrow> string" where
  "rebuilt line hs body = line @ EOL @ eol_join (map header_line hs) @ HEAD_END @ body"

definition headroom_head :: "io_event list \<Rightarrow> (string \<times> string) result \<times> io_event list" where
  "headroom_head es = head_loop (\<lambda>data. min 4096 (MAX_HEADER_BYTES + 1 - length data)) (\<lambda>data. False)
     (\<lambda>data b. MAX_HEADER_BYTES \<le> length data) [] es"

definition headroom_body :: "(string \<times> string) list \<Rightarrow> bool \<Rightarrow> string \<Rightarrow> io_event list \<Rightarrow> ((string \<times> string) list \<times> string) result" where
  "headroom_body hs upgrade rest es =
     rbind (headroom_length hs) (\<lambda>len.
       if upgrade then
         (if len \<noteq> 0 \<or> rest \<noteq> [] \<or> \<not> websocket_key_ok (header_get hs ''sec-websocket-key'' [])
             \<or> byte_lower (header_get hs ''connection'' []) \<noteq> ''upgrade'' then Inl ValueError else Inr (hs, rest))
       else if len < length rest then Inl ValueError
       else rbind (fst (rest_of_body len rest es)) (\<lambda>body. Inr (dict_set ''connection'' ''close'' hs, body)))"

definition headroom_request :: "nat \<Rightarrow> io_event list \<Rightarrow> (string \<times> bool) result" where
  "headroom_request port es =
     (if port \<notin> {8787, 9787} then Inl PermissionError
      else (case headroom_head es of
          (Inl e, _) \<Rightarrow> Inl e
        | (Inr (head, rest), es') \<Rightarrow>
            if MAX_HEADER_BYTES < length head then Inl ValueError
            else (let lines = split_at EOL head in
              if length (split_on (CHR '' '') (hd lines)) \<noteq> 3 then Inl ValueError
              else rbind (headroom_headers (tl lines) []) (\<lambda>hs.
                let upgrade = (byte_lower (header_get hs ''upgrade'' []) = ''websocket'') in
                if \<not> headroom_admitted port (hd lines) hs upgrade then Inl PermissionError
                else rbind (headroom_body hs upgrade rest es') (\<lambda>(hs', body). Inr (rebuilt (hd lines) hs' body, upgrade))))))"

end
