(* ===== verification/Provider_Egress.thy ===== *)
theory Provider_Egress
  imports Egress Scoped_HTTPS
begin

text \<open>
  \<open>agents/provider_egress.py\<close>: the relay between a confined worker and its model provider.  TLS and the decoding of
  the body to text are inputs; certificates, logging and the observer of replies are not modelled.
\<close>

section \<open>Rules\<close>

type_synonym operations = "(string \<times> string) list"
type_synonym provider_rules = "(string \<times> operations) list"

definition OPENAI_API :: operations where
  "OPENAI_API = [(''POST'', ''/v1/responses''), (''POST'', ''/v1/chat/completions''), (''GET'', ''/v1/models'')]"

definition CODEX_API :: operations where
  "CODEX_API = [(''POST'', ''/backend-api/codex/responses''), (''GET'', ''/backend-api/codex/models''),
     (''GET'', ''/backend-api/wham/config/bundle''), (''GET'', ''/backend-api/wham/accounts/check'')]"

definition COPILOT_API :: operations where
  "COPILOT_API = [(''POST'', ''/chat/completions''), (''POST'', ''/responses''), (''GET'', ''/models''), (''POST'', ''/v1/messages'')]"

definition internal_operations :: "string list \<Rightarrow> operations" where
  "internal_operations names = map (\<lambda>n. (''POST'', ''/v1internal:'' @ n)) names"

definition GOOGLE_API :: operations where
  "GOOGLE_API = internal_operations [''loadCodeAssist'', ''fetchAvailableModels'', ''streamGenerateContent'', ''generateContent'', ''countTokens'']"

definition GOOGLE_BOOTSTRAP :: operations where
  "GOOGLE_BOOTSTRAP = internal_operations [''fetchAdminControls'', ''fetchUserInfo'', ''retrieveUserQuotaSummary'', ''listExperiments'']"

definition COPILOT_RULES :: provider_rules where
  "COPILOT_RULES = map (\<lambda>h. (h, COPILOT_API)) [''api.githubcopilot.com'', ''api.individual.githubcopilot.com'',
     ''api.business.githubcopilot.com'', ''api.enterprise.githubcopilot.com''] @ [(''api.github.com'', [(''GET'', ''/copilot_internal/user'')])]"

definition CODEX_RULES :: provider_rules where
  "CODEX_RULES = [(''chatgpt.com'', CODEX_API), (''api.openai.com'', OPENAI_API), (''auth.openai.com'', [(''POST'', ''/oauth/token'')])]"

definition RULES :: "(string \<times> provider_rules) list" where
  "RULES = [(''codex_impl'', CODEX_RULES),
     (''claude_agent'', [(''api.anthropic.com'', [(''POST'', ''/v1/messages''), (''POST'', ''/v1/messages/count_tokens'')]),
        (''platform.claude.com'', [(''POST'', ''/v1/oauth/token'')])]),
     (''opencode_free'', [(''opencode.ai'', [(''POST'', ''/inference/openai/v1/chat/completions'')])]),
     (''agy_agent'', [(''cloudcode-pa.googleapis.com'', GOOGLE_API), (''daily-cloudcode-pa.googleapis.com'', GOOGLE_API @ GOOGLE_BOOTSTRAP),
        (''www.googleapis.com'', [(''GET'', ''/oauth2/v2/userinfo'')]), (''oauth2.googleapis.com'', [(''POST'', ''/token'')]),
        (''lh3.googleusercontent.com'', [])]),
     (''copilot_agent'', COPILOT_RULES), (''codex_research'', CODEX_RULES), (''codex_review'', CODEX_RULES)]"

definition provider_rules_of :: "string \<Rightarrow> bool \<Rightarrow> provider_rules result" where
  "provider_rules_of agent parallel_search = (case map_of RULES agent of
       None \<Rightarrow> Inl KeyError
     | Some rules \<Rightarrow> Inr (if parallel_search
         then dict_set ''search.parallel.ai'' [(''POST'', ''/mcp''), (''GET'', ''/mcp''), (''DELETE'', ''/mcp'')] rules else rules))"

text \<open>The profile image: \<open>/a/[A-Za-z0-9_=-]+\<close>.\<close>

definition image_path :: "string \<Rightarrow> bool" where
  "image_path p \<longleftrightarrow> starts_with ''/a/'' p \<and> 3 < length p \<and> list_all (\<lambda>c. is_alnum c \<or> c \<in> set ''_=-'') (drop 3 p)"

definition operation_allowed :: "provider_rules \<Rightarrow> string \<Rightarrow> string \<Rightarrow> string \<Rightarrow> bool" where
  "operation_allowed rules host meth target =
     (case map_of rules host of
        None \<Rightarrow> False
      | Some ops \<Rightarrow>
          if \<not> starts_with ''/'' target \<or> starts_with ''//'' target then False
          else (let parsed = urlsplit target; path = up_path parsed in
            if up_scheme parsed \<noteq> [] \<or> up_netloc parsed \<noteq> [] \<or> up_fragment parsed \<noteq> [] \<or> CHR ''%'' \<in> set path
               \<or> BSLASH \<in> set path \<or> list_ex (\<lambda>w. w = ''.'' \<or> w = ''..'') (split_on sep path) then False
            else (meth, path) \<in> set ops \<or> (host = ''lh3.googleusercontent.com'' \<and> meth = ''GET'' \<and> image_path path)))"

section \<open>The request header\<close>

definition MAX_HEADER :: nat where "MAX_HEADER = 32768"
definition MAX_BODY :: nat where "MAX_BODY = 16777216"

definition read_header :: "io_event list \<Rightarrow> (string \<times> string) result \<times> io_event list" where
  "read_header es = head_loop (\<lambda>data. min 4096 (MAX_HEADER - length data)) (\<lambda>data. MAX_HEADER \<le> length data) (\<lambda>data b. False) [] es"

definition request_line :: "string \<Rightarrow> (string \<times> string) option" where
  "request_line line = (case split_on (CHR '' '') line of
       [meth, target, version] \<Rightarrow>
         if meth \<in> {''GET'', ''POST'', ''DELETE''} \<and> version = ''HTTP/1.1'' \<and> target \<noteq> []
            \<and> list_all (\<lambda>c. 33 \<le> char_code c \<and> char_code c \<le> 126) target then Some (meth, target) else None
     | _ \<Rightarrow> None)"

definition control_byte :: "char \<Rightarrow> bool" where
  "control_byte c \<longleftrightarrow> char_code c < 32 \<or> char_code c = 127"

fun read_fields :: "string list \<Rightarrow> (string \<times> string) list \<Rightarrow> (string \<times> string) list result" where
  "read_fields [] hs = Inr hs"
| "read_fields (line # lines) hs = (case cut_at '':'' line of
       None \<Rightarrow> Inl ValueError
     | Some (n, v) \<Rightarrow>
         if n = [] \<or> \<not> list_all token_char n \<or> list_ex control_byte v then Inl ValueError
         else if byte_lower n \<in> field_names hs then Inl ValueError
         else read_fields lines (dict_set (byte_lower n) (byte_strip v) hs))"

definition authority_ok :: "string \<Rightarrow> (string \<times> string) list \<Rightarrow> unit result" where
  "authority_ok host hs =
     (let a = header_get hs ''host'' [] in
      if \<not> list_all (\<lambda>c. char_code c < 128) a then Inl ValueError
      else if byte_lower a = host \<or> byte_lower a = host @ '':443'' then Inr () else Inl PermissionError)"

text \<open>The framing checks: a chunked body has size -1.\<close>

definition body_size :: "string \<Rightarrow> (string \<times> string) list \<Rightarrow> int result" where
  "body_size meth hs =
     (let transfer = map_of hs ''transfer-encoding''; len = header_get hs ''content-length'' ''0'' in
      if ''expect'' \<in> field_names hs \<or> ''trailer'' \<in> field_names hs
         \<or> (case transfer of None \<Rightarrow> False
              | Some t \<Rightarrow> byte_lower t \<noteq> ''chunked'' \<or> ''content-length'' \<in> field_names hs \<or> meth \<noteq> ''POST'') then Inl ValueError
      else if byte_lower (header_get hs ''content-encoding'' ''identity'') \<noteq> ''identity'' then Inl PermissionError
      else if \<not> (len = ''0'' \<or> (class_match is_digit 1 9 len \<and> hd len \<noteq> CHR ''0'')) \<or> int MAX_BODY < decimal_value len then Inl ValueError
      else let n = (if transfer = None then decimal_value len else -1) in
        if meth \<noteq> ''POST'' \<and> n \<noteq> 0 then Inl ValueError
        else if ''upgrade'' \<in> field_names hs then Inl PermissionError
        else Inr n)"

definition connection_tokens :: "(string \<times> string) list \<Rightarrow> string list" where
  "connection_tokens hs = map (\<lambda>v. byte_lower (byte_strip v)) (split_on (CHR '','') (header_get hs ''connection'' []))"

definition HOP_HEADERS :: "string list" where
  "HOP_HEADERS = [''host'', ''connection'', ''proxy-authorization'', ''proxy-connection'', ''te'', ''trailer'', ''transfer-encoding'',
     ''upgrade'', ''forwarded'', ''x-http-method-override'', ''x-method-override'', ''x-original-url'', ''x-rewrite-url'']"

definition kept :: "(string \<times> string) list \<Rightarrow> string \<times> string \<Rightarrow> bool" where
  "kept hs h \<longleftrightarrow> fst h \<notin> set HOP_HEADERS \<and> fst h \<notin> set (connection_tokens hs)
     \<and> \<not> starts_with ''x-forwarded-'' (fst h) \<and> \<not> starts_with ''x-original-'' (fst h)"

definition outgoing_lines :: "string \<Rightarrow> string \<Rightarrow> (string \<times> string) list \<Rightarrow> string list" where
  "outgoing_lines line host hs = [line, ''Host: '' @ host, ''Connection: close''] @ map header_line (filter (kept hs) hs)"

definition request_header :: "string \<Rightarrow> string \<Rightarrow> provider_rules \<Rightarrow> (string \<times> int) result" where
  "request_header header host rules =
     (let lines = split_at EOL header in
      case request_line (hd lines) of
        None \<Rightarrow> Inl ValueError
      | Some (meth, target) \<Rightarrow>
          if \<not> operation_allowed rules host meth target then Inl PermissionError
          else rbind (read_fields (tl lines) []) (\<lambda>hs.
            rbind (authority_ok host hs) (\<lambda>_.
            rbind (body_size meth hs) (\<lambda>n.
              if set (connection_tokens hs) \<inter> {''host'', ''content-length'', ''authorization''} \<noteq> {} then Inl ValueError
              else Inr (eol_join (outgoing_lines (hd lines) host hs) @ HEAD_END, n)))))"

section \<open>Bodies\<close>

definition chunk_size :: "string \<Rightarrow> nat" where
  "chunk_size line = foldl (\<lambda>n c. 16 * n + hex_value (lower_char c)) 0 line"

text \<open>\<open>receive\<close> and \<open>take\<close>; \<open>pending\<close> holds the bytes that arrived.\<close>

function take_bytes :: "nat \<Rightarrow> string \<Rightarrow> io_event list \<Rightarrow> (string \<times> string) result \<times> io_event list" where
  "take_bytes n pending es =
     (if n \<le> length pending then (Inr (take n pending, drop n pending), es)
      else (case recv 65536 es of
          (Inl e, es') \<Rightarrow> (Inl e, es')
        | (Inr b, es') \<Rightarrow> if b = [] then (Inl ValueError, es') else take_bytes n (pending @ b) es'))"
  by pat_completeness auto
termination
  by (relation "measure (\<lambda>(n, pending, es). load es)") (auto intro: recv_load [OF sym])

declare take_bytes.simps [simp del]

function size_line :: "string \<Rightarrow> io_event list \<Rightarrow> (string \<times> string) result \<times> io_event list" where
  "size_line pending es = (case cut_at EOL pending of
       Some lr \<Rightarrow> (Inr lr, es)
     | None \<Rightarrow>
         if 16 < length pending then (Inl ValueError, es)
         else (case recv 65536 es of
             (Inl e, es') \<Rightarrow> (Inl e, es')
           | (Inr b, es') \<Rightarrow> if b = [] then (Inl ValueError, es') else size_line (pending @ b) es'))"
  by pat_completeness auto
termination
  by (relation "measure (\<lambda>(pending, es). load es)") (auto intro: recv_load [OF sym])

declare size_line.simps [simp del]

fun chunk_loop :: "nat \<Rightarrow> string \<Rightarrow> string \<Rightarrow> io_event list \<Rightarrow> string result" where
  "chunk_loop 0 body pending es = Inl ValueError"
| "chunk_loop (Suc k) body pending es =
     (case size_line pending es of
        (Inl e, _) \<Rightarrow> Inl e
      | (Inr (line, rest), es1) \<Rightarrow>
          if \<not> class_match (\<lambda>c. is_hex (lower_char c)) 1 16 line then Inl ValueError
          else (let n = chunk_size line in
            if MAX_BODY - length body < n then Inl ValueError
            else (case take_bytes n rest es1 of
                (Inl e, _) \<Rightarrow> Inl e
              | (Inr (block, rest1), es2) \<Rightarrow>
                  (case take_bytes 2 rest1 es2 of
                     (Inl e, _) \<Rightarrow> Inl e
                   | (Inr (ending, rest2), es3) \<Rightarrow>
                       if ending \<noteq> EOL \<or> (n = 0 \<and> rest2 \<noteq> []) then Inl ValueError
                       else if n = 0 then Inr body else chunk_loop k (body @ block) rest2 es3))))"

definition read_chunked_body :: "string \<Rightarrow> io_event list \<Rightarrow> string result" where
  "read_chunked_body initial es = chunk_loop 4096 [] initial es"


section \<open>Payloads\<close>

definition FREE_MODELS :: "string list" where
  "FREE_MODELS = [''beam-free'', ''deepseek-v4.1-flash-free'', ''glm-5.3-flash-free'', ''longcat-2.5-preview-free'',
     ''mimo-v2.6-flash-free'', ''nemotron-3-ultra-free'', ''nemotron-3.5-lightning-free'', ''nemotron-3.5-super-vl-free'', ''space-bunny-free'']"

definition OAUTH_PATHS :: "string list" where
  "OAUTH_PATHS = [''/oauth/token'', ''/v1/oauth/token'', ''/token'']"

definition OPAQUE_FIELDS :: "string list" where
  "OPAQUE_FIELDS = [''mcp_servers'', ''mcpServers'', ''web_search_options'', ''webSearchOptions'', ''previous_response_id'',
     ''previousResponseId'', ''conversation'', ''prompt'', ''cachedContent'', ''cached_content'']"

definition CONNECTOR_FIELDS :: "string list" where
  "CONNECTOR_FIELDS = [''server_url'', ''connector_id'', ''authorization'', ''require_approval'']"

definition MCP_METHODS :: "string list" where
  "MCP_METHODS = [''initialize'', ''notifications/initialized'', ''notifications/cancelled'', ''ping'', ''tools/list'', ''tools/call'']"

definition PARALLEL_MCP_TOOLS :: "string list" where
  "PARALLEL_MCP_TOOLS = [''web_search'', ''web_fetch'']"

fun is_plist :: "pyval \<Rightarrow> bool" where
  "is_plist (PList xs) = True"
| "is_plist _ = False"

text \<open>The members of all objects of a document.\<close>

fun member_count :: "pyval \<Rightarrow> nat" where
  "member_count (PList xs) = sum_list (map member_count xs)"
| "member_count (PDict d) = length d + sum_list (map (\<lambda>p. member_count (snd p)) d)"
| "member_count v = 0"

text \<open>
  \<open>json.loads\<close> with a limit on members.  \<open>decode\<close> refuses documents outside its subset (a fraction, an exponent, a code point
  above 255), which the code accepts: what is proved of an accepted payload is about payloads without them.
\<close>

definition load_body :: "(string \<Rightarrow> string result) \<Rightarrow> string \<Rightarrow> pyval result" where
  "load_body text body = (case rbind (text body) decode of
       Inl e \<Rightarrow> Inl (if e = OutsideModel then e else ValueError)
     | Inr v \<Rightarrow> if 100000 < member_count v then Inl ValueError else Inr v)"

definition plain_encoding :: "string \<Rightarrow> bool" where
  "plain_encoding line \<longleftrightarrow> (case cut_at '':'' line of
       None \<Rightarrow> True
     | Some (n, v) \<Rightarrow> byte_lower n \<noteq> ''content-encoding'' \<or> byte_lower (byte_strip v) = ''identity'')"

definition free_model_only :: "pydict \<Rightarrow> unit result" where
  "free_model_only d = (case dict_get d ''model'' of
       PStr m \<Rightarrow> if m \<in> set FREE_MODELS then Inr () else Inl PermissionError
     | PList _ \<Rightarrow> Inl TypeError
     | PDict _ \<Rightarrow> Inl TypeError
     | _ \<Rightarrow> Inl PermissionError)"

definition parallel_operation :: "pydict \<Rightarrow> unit result" where
  "parallel_operation d =
     (if dict_get d ''jsonrpc'' \<noteq> PStr ''2.0'' \<or> dict_get d ''method'' \<notin> PStr ` set MCP_METHODS then Inl PermissionError
      else if dict_get d ''method'' = PStr ''tools/call'' then
        (case dict_get d ''params'' of
           PDict ps \<Rightarrow> if dict_get ps ''name'' \<in> PStr ` set PARALLEL_MCP_TOOLS then Inr () else Inl PermissionError
         | _ \<Rightarrow> Inl PermissionError)
      else Inr ())"

text \<open>\<open>check_tools\<close>; the depth limit of 8 is a fuel of 9, \<open>deeper\<close> checks the tools of a namespace.\<close>

definition check_tool :: "bool \<Rightarrow> bool \<Rightarrow> (pyval \<Rightarrow> unit result) \<Rightarrow> pyval \<Rightarrow> unit result" where
  "check_tool google anthropic deeper t = (case t of
       PDict tool \<Rightarrow>
         (let kind = dict_get tool ''type'' in
          if field_names tool \<inter> set CONNECTOR_FIELDS \<noteq> {} then Inl PermissionError
          else if google then
            require (field_names tool \<subseteq> {''functionDeclarations''} \<and> is_plist (dict_get tool ''functionDeclarations'')) PermissionError
          else if anthropic then require (kind \<in> {PNone, PStr ''custom''} \<and> is_pstr (dict_get tool ''name'')) PermissionError
          else if kind = PStr ''namespace'' then deeper (dict_get tool ''tools'')
          else require (kind \<in> {PStr ''function'', PStr ''custom''}) PermissionError)
     | _ \<Rightarrow> Inl ValueError)"

primrec check_tools :: "bool \<Rightarrow> bool \<Rightarrow> nat \<Rightarrow> pyval \<Rightarrow> unit result" where
  "check_tools google anthropic 0 items = Inl ValueError"
| "check_tools google anthropic (Suc n) items = (case items of
       PList tools \<Rightarrow> rcheck_list (check_tool google anthropic (check_tools google anthropic n)) tools
     | _ \<Rightarrow> Inl ValueError)"

definition check_choice :: "pyval \<Rightarrow> unit result" where
  "check_choice choice = (case choice of
       PNone \<Rightarrow> Inr ()
     | PDict c \<Rightarrow> require (dict_get c ''type'' \<in> PStr ` {''function'', ''custom'', ''tool'', ''auto'', ''any'', ''none''}) PermissionError
     | v \<Rightarrow> require (v \<in> PStr ` {''auto'', ''required'', ''none'', ''any''}) PermissionError)"

definition mcp_item :: "pyval \<Rightarrow> bool" where
  "mcp_item v \<longleftrightarrow> (case v of
       PDict d \<Rightarrow> (case dict_get d ''type'' of PStr t \<Rightarrow> starts_with ''mcp_'' t | _ \<Rightarrow> False)
     | _ \<Rightarrow> False)"

definition or_default :: "pydict \<Rightarrow> string \<Rightarrow> pyval \<Rightarrow> pyval" where
  "or_default d k v = (case map_of d k of None \<Rightarrow> v | Some x \<Rightarrow> x)"

definition check_envelope :: "bool \<Rightarrow> bool \<Rightarrow> pyval \<Rightarrow> unit result" where
  "check_envelope google anthropic v = (case v of
       PDict d \<Rightarrow>
         if field_names d \<inter> set OPAQUE_FIELDS \<noteq> {} then Inl PermissionError
         else rbind (check_choice (dict_get d ''tool_choice'')) (\<lambda>_.
           let tools = or_default d ''tools'' (PList []) in
           if \<not> is_plist tools then Inl ValueError
           else rbind (check_tools google anthropic 9 tools) (\<lambda>_.
             case or_default d ''input'' (PList []) of
               PList xs \<Rightarrow> if list_ex mcp_item xs then Inl PermissionError else Inr ()
             | _ \<Rightarrow> Inr ()))
     | _ \<Rightarrow> Inl ValueError)"

definition anthropic_style :: "string \<Rightarrow> string \<Rightarrow> bool" where
  "anthropic_style host path \<longleftrightarrow> host = ''api.anthropic.com'' \<or> (host \<in> field_names COPILOT_RULES \<and> path = ''/v1/messages'')"

definition check_document :: "string \<Rightarrow> string \<Rightarrow> pyval \<Rightarrow> unit result" where
  "check_document host path v = (case v of
       PDict d \<Rightarrow>
         rbind (if host = ''opencode.ai'' then free_model_only d else Inr ()) (\<lambda>_.
           if host = ''search.parallel.ai'' then parallel_operation d
           else let google = ends_with ''cloudcode-pa.googleapis.com'' host; anthropic = anthropic_style host path in
             rbind (check_envelope google anthropic (PDict d)) (\<lambda>_.
               check_envelope google anthropic (or_default d ''request'' (PDict []))))
     | _ \<Rightarrow> Inl ValueError)"

definition validate_payload :: "(string \<Rightarrow> string result) \<Rightarrow> string \<Rightarrow> string \<Rightarrow> string \<Rightarrow> unit result" where
  "validate_payload text header body host =
     (let lines = split_at EOL header in
      case split_on (CHR '' '') (hd lines) of
        [meth, target, _] \<Rightarrow>
          if meth \<noteq> ''POST'' then Inr ()
          else if \<not> list_all plain_encoding (tl lines) then Inl PermissionError
          else if \<not> list_all (\<lambda>c. char_code c < 128) target then Inl ValueError
          else if up_path (urlsplit target) \<in> set OAUTH_PATHS then Inr ()
          else rbind (load_body text body) (check_document host (up_path (urlsplit target)))
      | _ \<Rightarrow> Inl ValueError)"

section \<open>The endpoints\<close>

definition FORBIDDEN :: string where
  "FORBIDDEN = ''HTTP/1.1 403 Forbidden'' @ EOL @ ''Connection: close'' @ EOL @ ''Content-Length: 0'' @ HEAD_END"

definition answered :: "py_error \<Rightarrow> bool" where
  "answered e \<longleftrightarrow> e \<in> {OSError, ValueError, PermissionError}"

record provider_env =
  pe_net :: network
  pe_text :: "string \<Rightarrow> string result"     \<comment> \<open>the decoding of \<open>json.loads\<close>\<close>
  pe_client :: "io_event list"              \<comment> \<open>before TLS\<close>
  pe_inner :: "io_event list result"        \<comment> \<open>inside TLS, or a failed handshake\<close>
  pe_upstream :: "io_event list result"     \<comment> \<open>the provider's reply, or a failed handshake\<close>

definition admit_connect :: "provider_rules \<Rightarrow> io_event list \<Rightarrow> string result" where
  "admit_connect rules es = rbind (fst (read_connect es)) (\<lambda>(host, rest).
     if byte_lower host \<notin> field_names rules \<or> rest \<noteq> [] then Inl PermissionError else Inr (byte_lower host))"

definition content_length_line :: "nat \<Rightarrow> string" where
  "content_length_line n = ''Content-Length: '' @ decimal n"

text \<open>The request as it is forwarded: one canonical header and the whole body.\<close>

definition admit_request :: "provider_rules \<Rightarrow> (string \<Rightarrow> string result) \<Rightarrow> string \<Rightarrow> io_event list \<Rightarrow> string result" where
  "admit_request rules text host es = (case read_header es of
       (Inl e, _) \<Rightarrow> Inl e
     | (Inr (header, initial), es') \<Rightarrow>
         rbind (request_header header host rules) (\<lambda>(outgoing, n).
         rbind (if n = -1 then rbind (read_chunked_body initial es') (\<lambda>body.
               Inr (take (length outgoing - 2) outgoing @ content_length_line (length body) @ HEAD_END, body))
             else if nat n < length initial then Inl ValueError
             else rbind (fst (rest_of_body (nat n) initial es')) (\<lambda>body. Inr (outgoing, body))) (\<lambda>(head, body).
         rbind (validate_payload text header body host) (\<lambda>_. Inr (head @ body)))))"

function copy_reply :: "io_event list \<Rightarrow> net_effect list" where
  "copy_reply es = (case recv 65536 es of
       (Inl e, _) \<Rightarrow> []
     | (Inr b, es') \<Rightarrow> if b = [] then [] else Reply b # copy_reply es')"
  by pat_completeness auto
termination
  by (relation "measure load") (auto intro: recv_load [OF sym])

declare copy_reply.simps [simp del]

text \<open>\<open>int\<close> refuses a status of more digits than the interpreter converts.\<close>

definition huge_status :: "string \<Rightarrow> bool" where
  "huge_status header \<longleftrightarrow> (case split_on (CHR '' '') header of
       _ # status # _ \<Rightarrow> MAX_STR_DIGITS < length status \<and> list_all is_digit status
     | _ \<Rightarrow> False)"

definition provider_reply :: "io_event list \<Rightarrow> net_effect list" where
  "provider_reply es = (case read_header es of
       (Inl e, _) \<Rightarrow> [Reply FORBIDDEN]
     | (Inr (header, body), es') \<Rightarrow>
         if huge_status header \<or> starts_with ''HTTP/1.1 101 '' header then [Reply FORBIDDEN]
         else Reply (header @ HEAD_END @ body) # copy_reply es')"

definition denied :: "py_error \<Rightarrow> net_effect list" where
  "denied e = (if answered e then [Reply FORBIDDEN] else [])"

text \<open>\<open>ProviderEgress._handle\<close>.\<close>

definition provider_handle :: "provider_rules \<Rightarrow> provider_env \<Rightarrow> net_effect list" where
  "provider_handle rules env = (case admit_connect rules (pe_client env) of
       Inl e \<Rightarrow> denied e
     | Inr host \<Rightarrow> Reply ESTABLISHED #
         (case rbind (pe_inner env) (admit_request rules (pe_text env) host) of
            Inl e \<Rightarrow> denied e
          | Inr sent \<Rightarrow>
              (case rbind (connect_public (pe_net env) host) (\<lambda>a. rbind (pe_upstream env) (\<lambda>es. Inr (a, es))) of
                 Inl e \<Rightarrow> denied e
               | Inr (a, es) \<Rightarrow> Forward a sent # provider_reply es)))"

text \<open>\<open>HeadroomEgress._handle\<close> up to the response; the two relays of the response are not modelled.\<close>

definition headroom_handle :: "nat \<Rightarrow> bool \<Rightarrow> (string \<Rightarrow> string result) \<Rightarrow> bool \<Rightarrow> io_event list \<Rightarrow> net_effect list" where
  "headroom_handle port enforce text reachable es =
     (case rbind (headroom_request port es) (\<lambda>(request, websocket).
         rbind (if \<not> enforce then Inr ()
            else if websocket then Inl PermissionError
            else (case cut_at HEAD_END request of
                None \<Rightarrow> Inl ValueError
              | Some (header, body) \<Rightarrow> validate_payload text header body ''api.openai.com'')) (\<lambda>_.
         if reachable then Inr request else Inl OSError)) of
        Inl e \<Rightarrow> []
      | Inr request \<Rightarrow> [Forward (headroom_authority port) request])"

end
