(* ===== verification/Egress_Confined.thy ===== *)
theory Egress_Confined
  imports Provider_Egress
begin

text \<open>
  What the relays of \<open>agents/development_egress.py\<close> and \<open>agents/provider_egress.py\<close> let out: the forwarded
  header, the destination, the payload and the bodies.
\<close>

section \<open>Bytes\<close>

lemma lower_byte_upper:
  assumes "in_range (CHR ''A'') (CHR ''Z'') c"
  shows "in_range (CHR ''a'') (CHR ''z'') (lower_byte c)"
  using assms by (simp add: lower_byte_def in_range_def char_code_def)

lemma lower_byte_fixed: "\<not> in_range (CHR ''A'') (CHR ''Z'') (lower_byte c)"
proof (cases "in_range (CHR ''A'') (CHR ''Z'') c")
  case True
  from lower_byte_upper [OF this] show ?thesis by (simp add: in_range_def char_code_def)
qed (simp add: lower_byte_def)

lemma lower_byte_idem [simp]: "lower_byte (lower_byte c) = lower_byte c"
  using lower_byte_fixed [of c] by (simp add: lower_byte_def [of "lower_byte c"])

lemma byte_lower_idem [simp]: "byte_lower (byte_lower s) = byte_lower s"
  by (simp add: byte_lower_def)

lemma lower_byte_token: "token_char c \<Longrightarrow> token_char (lower_byte c)"
proof (cases "in_range (CHR ''A'') (CHR ''Z'') c")
  case True
  from lower_byte_upper [OF this] show ?thesis by (simp add: token_char_def is_alnum_def is_alpha_def)
qed (simp add: lower_byte_def)

lemma byte_lower_token: "list_all token_char s \<Longrightarrow> list_all token_char (byte_lower s)"
  by (simp add: byte_lower_def list_all_iff lower_byte_token)

lemma byte_lower_Nil [simp]: "byte_lower s = [] \<longleftrightarrow> s = []"
  by (simp add: byte_lower_def)

lemma set_byte_strip: "set (byte_strip s) \<subseteq> set s"
  by (auto simp: byte_strip_def dest!: set_dropWhileD)

lemma token_control: "token_char c \<Longrightarrow> \<not> control_byte c"
  by (auto simp: token_char_def control_byte_def is_alnum_def is_alpha_def is_digit_def in_range_def char_code_def)

lemma no_control_no_CR: "\<not> list_ex control_byte s \<Longrightarrow> CHR 0x0D \<notin> set s"
  by (auto simp: list_ex_iff control_byte_def char_code_def)

section \<open>Header fields\<close>

definition fields_ok :: "(string \<times> string) list \<Rightarrow> bool" where
  "fields_ok hs \<longleftrightarrow> distinct (map fst hs) \<and> (\<forall>h \<in> set hs. fst h \<noteq> [] \<and> list_all token_char (fst h)
     \<and> byte_lower (fst h) = fst h \<and> \<not> list_ex control_byte (snd h))"

lemma fields_ok_set:
  assumes "fields_ok hs" and "n \<noteq> []" and "list_all token_char n" and "\<not> list_ex control_byte v"
  shows "fields_ok (dict_set (byte_lower n) (byte_strip v) hs)"
proof -
  have "\<not> list_ex control_byte (byte_strip v)" using assms(4) set_byte_strip by (auto simp: list_ex_iff)
  with assms byte_lower_token [OF assms(3)] set_dict_set [of "byte_lower n" "byte_strip v" hs] show ?thesis
    unfolding fields_ok_def by (auto intro: distinct_dict_set)
qed

lemma read_fields_ok: "read_fields lines hs0 = Inr hs \<Longrightarrow> fields_ok hs0 \<Longrightarrow> fields_ok hs"
proof (induction lines hs0 rule: read_fields.induct)
  case (2 line lines hs0)
  then obtain n v where "cut_at '':'' line = Some (n, v)" "n \<noteq> []" "list_all token_char n" "\<not> list_ex control_byte v"
    "byte_lower n \<notin> field_names hs0" "read_fields lines (dict_set (byte_lower n) (byte_strip v) hs0) = Inr hs"
    by (auto split: option.splits if_splits)
  with 2 fields_ok_set show ?case by auto
qed simp

lemma header_line_clean: "h \<in> set hs \<Longrightarrow> fields_ok hs \<Longrightarrow> \<not> list_ex control_byte (header_line h)"
  using token_control by (fastforce simp: fields_ok_def header_line_def list_ex_iff list_all_iff control_byte_def char_code_def)

lemma request_line_clean: "request_line line = Some (meth, target) \<Longrightarrow> \<not> list_ex control_byte line"
proof -
  assume r: "request_line line = Some (meth, target)"
  then obtain version where s: "split_on (CHR '' '') line = [meth, target, version]" "meth \<in> {''GET'', ''POST'', ''DELETE''}"
    "version = ''HTTP/1.1''" "list_all (\<lambda>c. 33 \<le> char_code c \<and> char_code c \<le> 126) target"
    by (auto simp: request_line_def split: list.splits if_splits)
  have "\<not> list_ex control_byte target" using s(4) by (fastforce simp: list_all_iff list_ex_iff control_byte_def)
  moreover have "line = meth @ CHR '' '' # target @ CHR '' '' # version"
    using join_split_on [of "CHR '' ''" line] s(1) by simp
  ultimately show ?thesis using s(2,3) by (auto simp: control_byte_def char_code_def)
qed


section \<open>The forwarded header\<close>

definition framed :: "string \<Rightarrow> string \<Rightarrow> (string \<times> string) list \<Rightarrow> string \<Rightarrow> string \<Rightarrow> bool" where
  "framed host line fs body b \<longleftrightarrow>
     (let lines = line # (''Host: '' @ host) # ''Connection: close'' # map header_line fs in
      b = eol_join lines @ HEAD_END @ body \<and> split_at EOL (eol_join lines) = lines
      \<and> distinct (map (byte_lower \<circ> fst) fs)
      \<and> (\<forall>h \<in> set fs. list_all token_char (fst h) \<and> byte_lower (fst h) \<notin> set HOP_HEADERS)
      \<and> decimal_value (header_get (map (\<lambda>h. (byte_lower (fst h), snd h)) fs) ''content-length'' ''0'') = int (length body))"

definition clean :: "string \<Rightarrow> bool" where
  "clean s \<longleftrightarrow> CHR 0x0D \<notin> set s"

lemma clean_append [simp]: "clean (a @ b) \<longleftrightarrow> clean a \<and> clean b"
  by (simp add: clean_def)

lemma clean_of_control: "\<not> list_ex control_byte s \<Longrightarrow> clean s"
  by (simp add: clean_def no_control_no_CR)

lemma framed_lines:
  assumes "clean line" and "clean host" and "\<forall>h \<in> set fs. clean (header_line h)"
  defines "lines \<equiv> line # (''Host: '' @ host) # ''Connection: close'' # map header_line fs"
  shows "split_at EOL (eol_join lines) = lines"
  using assms by (intro split_eol_join) (auto simp: clean_def lines_def)

lemma map_of_filter_key: "(\<And>h. fst h = k \<Longrightarrow> P h) \<Longrightarrow> map_of (filter P xs) k = map_of xs k"
  by (induction xs) auto

lemma kept_content_length:
  assumes "set (connection_tokens hs) \<inter> {''host'', ''content-length'', ''authorization''} = {}"
  shows "header_get (filter (kept hs) hs) ''content-length'' d = header_get hs ''content-length'' d"
proof -
  have "kept hs h" if "fst h = ''content-length''" for h
    using that assms by (auto simp: kept_def HOP_HEADERS_def)
  then have "map_of (filter (kept hs) hs) ''content-length'' = map_of hs ''content-length''"
    by (rule map_of_filter_key)
  then show ?thesis by (simp add: header_get_def)
qed


lemma eol_join_snoc: "ls \<noteq> [] \<Longrightarrow> eol_join (ls @ [l]) = eol_join ls @ EOL @ l"
  by (induction ls rule: eol_join.induct) auto

lemma decimal_value_nonneg: "list_all is_digit s \<Longrightarrow> 0 \<le> decimal_value s"
  by (induction s rule: rev_induct) (auto simp: decimal_value_snoc decimal_value_def is_digit_def in_range_def char_code_def)

lemma body_size_facts:
  assumes "body_size meth hs = Inr n"
  shows "n = -1 \<longrightarrow> ''content-length'' \<notin> field_names hs"
    and "n \<noteq> -1 \<longrightarrow> decimal_value (header_get hs ''content-length'' ''0'') = n \<and> 0 \<le> n"
proof -
  let ?len = "header_get hs ''content-length'' ''0''"
  have d: "?len = ''0'' \<or> class_match is_digit 1 9 ?len"
    using assms by (auto simp: body_size_def Let_def split: if_splits)
  have pos: "0 \<le> decimal_value ?len"
    using d by (auto simp: class_match_def intro: decimal_value_nonneg) (simp add: decimal_value_def char_code_def)
  have n: "n = (if map_of hs ''transfer-encoding'' = None then decimal_value ?len else -1)"
    using assms by (auto simp: body_size_def Let_def split: if_splits)
  show "n = -1 \<longrightarrow> ''content-length'' \<notin> field_names hs"
    using assms n pos by (auto simp: body_size_def Let_def split: if_splits)
  show "n \<noteq> -1 \<longrightarrow> decimal_value ?len = n \<and> 0 \<le> n"
    using n pos by auto
qed

lemma request_header_cases:
  assumes "request_header header host rules = Inr (out, n)"
  obtains meth target hs where "request_line (hd (split_at EOL header)) = Some (meth, target)"
    "operation_allowed rules host meth target" "fields_ok hs" "body_size meth hs = Inr n"
    "set (connection_tokens hs) \<inter> {''host'', ''content-length'', ''authorization''} = {}"
    "out = eol_join (outgoing_lines (hd (split_at EOL header)) host hs) @ HEAD_END"
proof -
  from assms obtain meth target hs where r: "request_line (hd (split_at EOL header)) = Some (meth, target)"
    "operation_allowed rules host meth target" "read_fields (tl (split_at EOL header)) [] = Inr hs"
    "body_size meth hs = Inr n" "set (connection_tokens hs) \<inter> {''host'', ''content-length'', ''authorization''} = {}"
    "out = eol_join (outgoing_lines (hd (split_at EOL header)) host hs) @ HEAD_END"
    unfolding request_header_def Let_def by (auto split: option.splits if_splits)
  moreover have "fields_ok hs" using read_fields_ok [OF r(3)] by (simp add: fields_ok_def)
  ultimately show thesis using that by blast
qed

lemma lower_fields: "fields_ok hs \<Longrightarrow> map (\<lambda>h. (byte_lower (fst h), snd h)) (filter P hs) = filter P hs"
  by (rule map_idI) (auto simp: fields_ok_def)

lemma distinct_lower_fields: "fields_ok hs \<Longrightarrow> distinct (map (byte_lower \<circ> fst) (filter P hs))"
proof -
  assume ok: "fields_ok hs"
  then have eq: "map (byte_lower \<circ> fst) (filter P hs) = map fst (filter P hs)" by (auto simp: fields_ok_def)
  show ?thesis unfolding eq using ok by (simp add: fields_ok_def distinct_map_filter)
qed

lemma kept_fields:
  assumes "fields_ok hs" and "h \<in> set (filter (kept hs) hs)"
  shows "list_all token_char (fst h) \<and> byte_lower (fst h) \<notin> set HOP_HEADERS \<and> clean (header_line h)"
  using assms header_line_clean [of h hs] clean_of_control by (auto simp: fields_ok_def kept_def)

lemma framed_plain:
  assumes "fields_ok hs" and "body_size meth hs = Inr n" and "n \<noteq> -1" and "length body = nat n" and "clean line" and "clean host"
    and "set (connection_tokens hs) \<inter> {''host'', ''content-length'', ''authorization''} = {}"
  shows "framed host line (filter (kept hs) hs) body (eol_join (outgoing_lines line host hs) @ HEAD_END @ body)"
  unfolding framed_def Let_def
proof (intro conjI)
  show "split_at EOL (eol_join (line # (''Host: '' @ host) # ''Connection: close'' # map header_line (filter (kept hs) hs)))
      = line # (''Host: '' @ host) # ''Connection: close'' # map header_line (filter (kept hs) hs)"
    using kept_fields [OF assms(1)] assms(5,6) by (intro framed_lines) auto
  show "\<forall>h \<in> set (filter (kept hs) hs). list_all token_char (fst h) \<and> byte_lower (fst h) \<notin> set HOP_HEADERS"
    using kept_fields [OF assms(1)] by blast
  show "decimal_value (header_get (map (\<lambda>h. (byte_lower (fst h), snd h)) (filter (kept hs) hs)) ''content-length'' ''0'') = int (length body)"
    using body_size_facts(2) [OF assms(2)] assms(3,4) kept_content_length [OF assms(7)] by (simp add: lower_fields [OF assms(1)])
qed (use assms(1) distinct_lower_fields in \<open>simp_all add: outgoing_lines_def\<close>)

lemma decimal_clean: "clean (decimal n)"
  using decimal_text [of n] by (auto simp: clean_def list_all_iff is_digit_def in_range_def char_code_def)

lemma framed_chunked:
  fixes body :: string
  assumes "fields_ok hs" and "body_size meth hs = Inr (-1)" and "clean line" and "clean host"
  defines "fs \<equiv> filter (kept hs) hs @ [(''Content-Length'', decimal (length body))]"
    and "out \<equiv> eol_join (outgoing_lines line host hs) @ HEAD_END"
  shows "framed host line fs body ((take (length out - 2) out @ content_length_line (length body) @ HEAD_END) @ body)"
  unfolding framed_def Let_def
proof (intro conjI)
  have absent: "''content-length'' \<notin> fst ` set hs" using body_size_facts(1) [OF assms(2)] by (simp add: field_names_def)
  have cl: "byte_lower ''Content-Length'' = ''content-length''" by code_simp
  have "take (length out - 2) out = eol_join (outgoing_lines line host hs) @ EOL"
    by (simp add: out_def HEAD_END_def EOL_def)
  moreover have "map header_line fs = map header_line (filter (kept hs) hs) @ [content_length_line (length body)]"
    by (simp add: fs_def header_line_def content_length_line_def)
  ultimately show "(take (length out - 2) out @ content_length_line (length body) @ HEAD_END) @ body
      = eol_join (line # (''Host: '' @ host) # ''Connection: close'' # map header_line fs) @ HEAD_END @ body"
    using eol_join_snoc [of "outgoing_lines line host hs" "content_length_line (length body)"] by (simp add: outgoing_lines_def)
  show "split_at EOL (eol_join (line # (''Host: '' @ host) # ''Connection: close'' # map header_line fs))
      = line # (''Host: '' @ host) # ''Connection: close'' # map header_line fs"
    using kept_fields [OF assms(1)] assms(3,4) decimal_clean
    by (intro framed_lines) (auto simp: fs_def header_line_def clean_def)
  show "\<forall>h \<in> set fs. list_all token_char (fst h) \<and> byte_lower (fst h) \<notin> set HOP_HEADERS"
  proof -
    have "list_all token_char ''Content-Length'' \<and> byte_lower ''Content-Length'' \<notin> set HOP_HEADERS" by code_simp
    with kept_fields [OF assms(1)] show ?thesis by (auto simp: fs_def)
  qed
  show "distinct (map (byte_lower \<circ> fst) fs)"
    using distinct_lower_fields [OF assms(1)] absent assms(1) cl by (auto simp: fs_def fields_ok_def)
  have "map_of (filter (kept hs) hs) ''content-length'' = None" using absent by (auto simp: map_of_eq_None_iff)
  then show "decimal_value (header_get (map (\<lambda>h. (byte_lower (fst h), snd h)) fs) ''content-length'' ''0'') = int (length body)"
    using cl decimal_text by (simp add: fs_def lower_fields [OF assms(1)] header_get_def map_add_def)
qed


section \<open>Reading and connecting\<close>

lemma read_connect_sound:
  assumes "read_connect es = (Inr (host, rest), es')"
  shows "\<exists>header. carried es = header @ HEAD_END @ rest @ carried es' \<and> parse_connect header = Inr host"
proof -
  let ?step = "\<lambda>data. min 4096 (MAX_HEADER_BYTES + 1 - length data)"
  let ?refuse = "\<lambda>data b. case cut_at HEAD_END (data @ b) of None \<Rightarrow> MAX_HEADER_BYTES < length (data @ b)
           | Some (h, _) \<Rightarrow> MAX_HEADER_BYTES < length h + 4"
  from assms obtain header where r: "head_loop ?step (\<lambda>data. False) ?refuse [] es = (Inr (header, rest), es')" "parse_connect header = Inr host"
    unfolding read_connect_def by (auto split: prod.splits sum.splits)
  from head_loop_sound [OF r(1)] r(2) show ?thesis by auto
qed

lemma try_addresses_mem: "try_addresses reach as = Inr a \<Longrightarrow> a \<in> set as \<and> reach a = Connected"
  by (induction as) (auto split: attempt.splits)

definition public_host :: "network \<Rightarrow> string \<Rightarrow> string \<Rightarrow> bool" where
  "public_host nw host a \<longleftrightarrow> (\<exists>answers. nw_resolve nw host = Inr answers \<and> a \<in> set answers
     \<and> (\<forall>x \<in> set answers. public_address (nw_classify nw) x))"

lemma connect_public_sound: "connect_public nw host = Inr a \<Longrightarrow> public_host nw host a"
  using try_addresses_mem by (fastforce simp: connect_public_def public_host_def list_ex_iff split: if_splits)

lemma parse_connect_chars:
  assumes "parse_connect header = Inr host"
  shows "clean host" and "host \<noteq> []"
    and "\<exists>d v. hd (split_at EOL header) = ''CONNECT '' @ d @ '':443 HTTP/1.'' @ [v] \<and> destination_ok d
           \<and> host = rev (dropWhile is_bracket (rev (dropWhile is_bracket d)))"
proof -
  let ?l = "hd (split_at EOL header)"
  from assms obtain d where d: "connect_target ?l = Some d" "host = rev (dropWhile is_bracket (rev (dropWhile is_bracket d)))" "host \<noteq> []"
    by (auto simp: parse_connect_def Let_def split: option.splits if_splits)
  from d(1) have t: "starts_with ''CONNECT '' ?l" "ends_with '':443 HTTP/1.0'' ?l \<or> ends_with '':443 HTTP/1.1'' ?l"
    "d = take (length ?l - 21) (drop 8 ?l)" "destination_ok d"
    by (auto simp: connect_target_def Let_def split: if_splits)
  from t(1) obtain m where m: "?l = ''CONNECT '' @ m" by (auto simp: starts_with_iff)
  obtain u v where u: "?l = u @ '':443 HTTP/1.'' @ [v]" using t(2) by (auto simp: ends_with_iff)
  have "d \<noteq> []" using t(4) by (simp add: destination_ok_def)
  then have "21 < length ?l" using t(3) by (metis list.size(3) not_less diff_is_0_eq take0)
  then have "8 \<le> length u" using u by simp
  then have "take 8 u = take 8 ?l" using u by simp
  also have "\<dots> = ''CONNECT ''" using m by simp
  finally obtain w where w: "u = ''CONNECT '' @ w" by (metis append_take_drop_id)
  have "d = w" using t(3) u w by simp
  with u w t(4) d(2) show "\<exists>d v. ?l = ''CONNECT '' @ d @ '':443 HTTP/1.'' @ [v] \<and> destination_ok d
           \<and> host = rev (dropWhile is_bracket (rev (dropWhile is_bracket d)))" by auto
  have "set host \<subseteq> set d" using d(2) by (auto dest!: set_dropWhileD)
  moreover have "clean d"
  proof (cases "list_all (\<lambda>c. is_alnum c \<or> c \<in> set ''.-'') d")
    case True
    then show ?thesis by (auto simp: clean_def list_all_iff is_alnum_def is_alpha_def is_digit_def in_range_def char_code_def)
  next
    case False
    with t(4) have b: "3 \<le> length d" "hd d = CHR ''[''" "last d = CHR '']''"
      "\<forall>c \<in> set (butlast (tl d)). is_hex (lower_char c) \<or> c = CHR '':''" by (auto simp: destination_ok_def list_all_iff)
    from b(1) have "d = hd d # butlast (tl d) @ [last d]" by (cases d) auto
    with b(2,3) have "set d = {CHR ''['', CHR '']''} \<union> set (butlast (tl d))"
      by (metis (no_types) insert_is_Un list.simps(15) set_append sup_commute empty_set sup_left_commute)
    moreover have "\<not> is_hex (lower_char (CHR 0x0D))" by (simp add: is_hex_def lower_char_def is_digit_def in_range_def char_code_def)
    ultimately show ?thesis using b(4) by (auto simp: clean_def)
  qed
  ultimately show "clean host" by (auto simp: clean_def)
  show "host \<noteq> []" using d(3) .
qed


lemma clean_lower: "clean s \<Longrightarrow> clean (byte_lower s)"
proof -
  have "lower_byte c \<noteq> CHR 0x0D" if "c \<noteq> CHR 0x0D" for c
  proof (cases "in_range (CHR ''A'') (CHR ''Z'') c")
    case True
    then have "in_range (CHR ''a'') (CHR ''z'') (lower_byte c)" by (rule lower_byte_upper)
    then show ?thesis by (auto simp: in_range_def char_code_def)
  qed (use that in \<open>simp add: lower_byte_def\<close>)
  then show "clean s \<Longrightarrow> clean (byte_lower s)" unfolding clean_def byte_lower_def set_map image_iff by metis
qed

lemma admit_connect_sound:
  assumes "admit_connect rules es = Inr host"
  shows "host \<in> field_names rules \<and> clean host"
proof -
  from assms obtain h rest where "fst (read_connect es) = Inr (h, rest)" "host = byte_lower h" "byte_lower h \<in> field_names rules"
    by (auto simp: admit_connect_def split: if_splits)
  with read_connect_sound [of es h rest "snd (read_connect es)"] parse_connect_chars(1) [of _ h] clean_lower show ?thesis
    by (metis prod.collapse)
qed

text \<open>What a forwarded request is made of.\<close>

definition admitted_request :: "provider_rules \<Rightarrow> (string \<Rightarrow> string result) \<Rightarrow> string \<Rightarrow> string \<Rightarrow> bool" where
  "admitted_request rules text host b \<longleftrightarrow> (\<exists>header meth target fs body.
     request_line (hd (split_at EOL header)) = Some (meth, target) \<and> operation_allowed rules host meth target
     \<and> framed host (hd (split_at EOL header)) fs body b \<and> validate_payload text header body host = Inr ())"

lemma rest_of_body_length: "fst (rest_of_body n initial es) = Inr body \<Longrightarrow> length initial \<le> n \<Longrightarrow> length body = n"
  using recv_exact_sound [of n initial es body] by (auto simp: rest_of_body_def split: prod.splits sum.splits)

lemma admit_request_sound:
  assumes "admit_request rules text host es = Inr b" and "clean host"
  shows "admitted_request rules text host b"
proof -
  from assms(1) obtain header initial es1 out n where r: "read_header es = (Inr (header, initial), es1)"
    "request_header header host rules = Inr (out, n)" unfolding admit_request_def by (auto split: prod.splits sum.splits)
  let ?line = "hd (split_at EOL header)"
  obtain meth target hs where h: "request_line ?line = Some (meth, target)" "operation_allowed rules host meth target"
    "fields_ok hs" "body_size meth hs = Inr n" "set (connection_tokens hs) \<inter> {''host'', ''content-length'', ''authorization''} = {}"
    "out = eol_join (outgoing_lines ?line host hs) @ HEAD_END" using request_header_cases [OF r(2)] by metis
  have clean: "clean ?line" using request_line_clean [OF h(1)] by (rule clean_of_control)
  show ?thesis
  proof (cases "n = -1")
    case True
    with assms(1) r obtain body where b: "validate_payload text header body host = Inr ()"
      "b = (take (length out - 2) out @ content_length_line (length body) @ HEAD_END) @ body"
      by (auto simp: admit_request_def)
    from framed_chunked [OF h(3) _ clean assms(2), of meth body] h(4,6) True b(2)
    have "framed host ?line (filter (kept hs) hs @ [(''Content-Length'', decimal (length body))]) body b" by simp
    with h(1,2) b(1) show ?thesis unfolding admitted_request_def by blast
  next
    case False
    with assms(1) r obtain body where b: "validate_payload text header body host = Inr ()" "b = out @ body"
      "length initial \<le> nat n" "fst (rest_of_body (nat n) initial es1) = Inr body"
      by (auto simp: admit_request_def split: if_splits)
    from framed_plain [OF h(3,4) False rest_of_body_length [OF b(4,3)] clean assms(2) h(5)] h(6) b(2)
    have "framed host ?line (filter (kept hs) hs) body b" by simp
    with h(1,2) b(1) show ?thesis unfolding admitted_request_def by blast
  qed
qed

lemma copy_reply_no_forward: "Forward a b \<notin> set (copy_reply es)"
proof (induction es rule: copy_reply.induct)
  case (1 es)
  obtain r es1 where r: "recv 65536 es = (r, es1)" by fastforce
  then show ?case using 1 by (auto simp: copy_reply.simps [of es] split: sum.splits)
qed

lemma provider_reply_no_forward: "Forward a b \<notin> set (provider_reply es)"
  using copy_reply_no_forward by (auto simp: provider_reply_def split: prod.splits sum.splits)

section \<open>Confinement of the relays\<close>

text \<open>
  C32.  A provider relay writes to the network at most once per connection, only after admission, only to an address
  of a host of the agent's rules all of whose addresses are public, and only one request: an operation the rules list
  for that host, whose payload was validated, under a header that parses back to exactly its own lines, names that
  host, carries no hop-by-hop or rewriting header, has no header twice and states the length of exactly the body sent.
  Payloads with a fraction, an exponent or a code point above 255 are outside the model and outside the claim.
\<close>
theorem provider_relay_confined:
  assumes "Forward a b \<in> set (provider_handle rules env)"
  shows "\<exists>host replies. provider_handle rules env = Reply ESTABLISHED # Forward a b # replies
    \<and> (\<forall>x y. Forward x y \<notin> set replies) \<and> host \<in> field_names rules \<and> public_host (pe_net env) host a
    \<and> admitted_request rules (pe_text env) host b"
proof -
  have denied: "Forward x y \<notin> set (denied e)" for x y e by (simp add: denied_def)
  obtain host where h: "admit_connect rules (pe_client env) = Inr host"
    using assms denied by (auto simp: provider_handle_def split: sum.splits)
  obtain sent where s: "rbind (pe_inner env) (admit_request rules (pe_text env) host) = Inr sent"
    using assms h denied by (auto simp: provider_handle_def split: sum.splits)
  obtain c es where c: "rbind (connect_public (pe_net env) host) (\<lambda>a. rbind (pe_upstream env) (\<lambda>es. Inr (a, es))) = Inr (c, es)"
    using assms h s denied by (auto simp: provider_handle_def split: sum.splits)
  have p: "provider_handle rules env = Reply ESTABLISHED # Forward c sent # provider_reply es"
    by (simp only: provider_handle_def h s c sum.case prod.case)
  with assms provider_reply_no_forward have ab: "a = c" "b = sent" by auto
  from c have "connect_public (pe_net env) host = Inr c" by auto
  then have "public_host (pe_net env) host a" using connect_public_sound ab by blast
  moreover from s obtain inner where "admit_request rules (pe_text env) host inner = Inr sent" by auto
  then have "admitted_request rules (pe_text env) host b" using admit_request_sound admit_connect_sound [OF h] ab by blast
  ultimately show ?thesis using p ab admit_connect_sound [OF h] provider_reply_no_forward by blast
qed

text \<open>
  C34.  The public endpoint connects a worker only to an address of a host it named in a well-formed CONNECT header for
  port 443, when every address of that host is public, and passes on exactly the bytes after that header.
\<close>
theorem egress_reaches_public_only:
  assumes "e \<in> set (public_handle nw stopped es)" and "e = Forward a b \<or> e = Relay a"
  shows "\<exists>header host rest es' d v. carried es = header @ HEAD_END @ rest @ carried es'
    \<and> hd (split_at EOL header) = ''CONNECT '' @ d @ '':443 HTTP/1.'' @ [v] \<and> destination_ok d
    \<and> host = rev (dropWhile is_bracket (rev (dropWhile is_bracket d))) \<and> public_host nw host a
    \<and> public_handle nw stopped es = Reply ESTABLISHED # (if rest = [] then [] else [Forward a rest]) @ [Relay a]"
proof -
  obtain r es' where r: "read_connect es = (r, es')" by fastforce
  from assms r obtain host rest c where c: "r = Inr (host, rest)" "connect_public nw host = Inr c" "\<not> stopped"
    by (auto simp: public_handle_def split: sum.splits if_splits)
  have p: "public_handle nw stopped es = Reply ESTABLISHED # (if rest = [] then [] else [Forward c rest]) @ [Relay c]"
    using r c by (simp add: public_handle_def)
  with assms have a: "a = c" by (auto split: if_splits)
  from read_connect_sound r c(1) obtain header where h: "carried es = header @ HEAD_END @ rest @ carried es'" "parse_connect header = Inr host" by blast
  from parse_connect_chars(3) [OF h(2)] h(1) p a connect_public_sound [OF c(2)] show ?thesis by blast
qed


section \<open>Concrete runs\<close>

definition demo_network :: network where
  "demo_network = \<lparr>nw_classify = (\<lambda>a. Some \<lparr>af_global = True, af_multicast = False, af_reserved = False, af_unspecified = False,
     af_loopback = False, af_transition = False\<rparr>), nw_resolve = (\<lambda>h. Inr [''8.8.8.8'']), nw_reach = (\<lambda>a. Connected)\<rparr>"

definition demo_connect :: "io_event list" where
  "demo_connect = [Data (''CONNECT api.openai.com:443 HTTP/1.1'' @ HEAD_END)]"

definition demo_provider :: provider_env where
  "demo_provider = \<lparr>pe_net = demo_network, pe_text = Inr, pe_client = demo_connect,
     pe_inner = Inr [Data (eol_join [''POST /v1/responses HTTP/1.1'', ''Host: api.openai.com'', ''Content-Length: 2''] @ HEAD_END), Data ''{}''],
     pe_upstream = Inr [Data (''HTTP/1.1 200 OK'' @ HEAD_END)]\<rparr>"

definition demo_sent :: string where
  "demo_sent = eol_join [''POST /v1/responses HTTP/1.1'', ''Host: api.openai.com'', ''Connection: close'', ''content-length: 2''] @ HEAD_END @ ''{}''"

theorem provider_relay_confined_witness:
  "Forward ''8.8.8.8'' demo_sent \<in> set (provider_handle CODEX_RULES demo_provider)
   \<and> (\<exists>host. host \<in> field_names CODEX_RULES \<and> public_host demo_network host ''8.8.8.8'' \<and> admitted_request CODEX_RULES Inr host demo_sent)"
proof -
  have "provider_handle CODEX_RULES demo_provider
     = [Reply ESTABLISHED, Forward ''8.8.8.8'' demo_sent, Reply (''HTTP/1.1 200 OK'' @ HEAD_END)]" by code_simp
  then have f: "Forward ''8.8.8.8'' demo_sent \<in> set (provider_handle CODEX_RULES demo_provider)" by simp
  from provider_relay_confined [OF f] f show ?thesis by (auto simp: demo_provider_def)
qed

theorem egress_reaches_public_only_witness:
  "Relay ''8.8.8.8'' \<in> set (public_handle demo_network False demo_connect) \<and> (\<exists>host. public_host demo_network host ''8.8.8.8'')"
proof -
  have "public_handle demo_network False demo_connect = [Reply ESTABLISHED, Relay ''8.8.8.8'']" by code_simp
  then have r: "Relay ''8.8.8.8'' \<in> set (public_handle demo_network False demo_connect)" by simp
  from egress_reaches_public_only [OF r, of "''8.8.8.8''" "[]"] r show ?thesis by blast
qed

end
