(* ===== verification/Egress_Payload.thy ===== *)
theory Egress_Payload
  imports Egress_Confined
begin

text \<open>
  The endpoint of the model service, the payload check and the chunked decoder of \<open>agents/development_egress.py\<close> and
  \<open>agents/provider_egress.py\<close>.
\<close>

section \<open>The model service endpoint\<close>

definition plain_fields :: "(string \<times> string) list \<Rightarrow> bool" where
  "plain_fields hs \<longleftrightarrow> distinct (map fst hs) \<and> (\<forall>h \<in> set hs. clean (header_line h))"

lemma plain_fields_set: "plain_fields hs \<Longrightarrow> clean n \<Longrightarrow> clean v \<Longrightarrow> plain_fields (dict_set n v hs)"
  using set_dict_set [of n v hs] by (auto simp: plain_fields_def header_line_def clean_def intro: distinct_dict_set)

lemma headroom_headers_plain: "headroom_headers lines hs0 = Inr hs \<Longrightarrow> plain_fields hs0 \<Longrightarrow> plain_fields hs"
proof (induction lines hs0 rule: headroom_headers.induct)
  case (2 line lines hs0)
  let ?name = "\<lambda>n. list_all (\<lambda>c. in_range (CHR ''a'') (CHR ''z'') c \<or> is_digit c \<or> c = CHR ''-'') (byte_lower n)"
  from 2(2) obtain n v where r: "cut_at '':'' line = Some (n, v)" "?name n" "\<not> list_ex control_byte (byte_strip v)"
    "headroom_headers lines (dict_set (byte_lower n) (byte_strip v) hs0) = Inr hs"
    by (auto simp: Let_def control_byte_def list_ex_iff split: option.splits if_splits)
  have "clean (byte_lower n)" using r(2) by (auto simp: clean_def list_all_iff in_range_def is_digit_def char_code_def)
  moreover have "clean (byte_strip v)" using r(3) by (rule clean_of_control)
  ultimately have "plain_fields (dict_set (byte_lower n) (byte_strip v) hs0)" using plain_fields_set 2(3) by blast
  with 2(1) r 2(2) show ?case by (auto simp: Let_def split: if_splits)
qed simp

lemma headroom_admitted_line:
  assumes "headroom_admitted port line hs upgrade"
  shows "clean line" and "\<exists>meth target. split_on (CHR '' '') line = [meth, target, ''HTTP/1.1''] \<and> (meth, target) \<in> set HEADROOM_API
    \<and> (upgrade \<longleftrightarrow> meth = ''GET'' \<and> target = ''/v1/responses'')"
proof -
  from assms obtain meth target where m: "split_on (CHR '' '') line = [meth, target, ''HTTP/1.1'']" "(meth, target) \<in> set HEADROOM_API"
    "upgrade \<longleftrightarrow> meth = ''GET'' \<and> target = ''/v1/responses''"
    by (auto simp: headroom_admitted_def split: list.splits)
  then show "\<exists>meth target. split_on (CHR '' '') line = [meth, target, ''HTTP/1.1''] \<and> (meth, target) \<in> set HEADROOM_API
    \<and> (upgrade \<longleftrightarrow> meth = ''GET'' \<and> target = ''/v1/responses'')" by blast
  have "line = meth @ CHR '' '' # target @ CHR '' '' # ''HTTP/1.1''" using join_split_on [of "CHR '' ''" line] m(1) by simp
  with m(2) show "clean line" by (auto simp: HEADROOM_API_def clean_def)
qed

lemma headroom_body_facts:
  assumes "headroom_body hs upgrade rest es = Inr (hs', body)"
  shows "hs' = (if upgrade then hs else dict_set ''connection'' ''close'' hs)"
    and "decimal_value (header_get hs' ''content-length'' ''0'') = int (length body)"
proof -
  from assms obtain len where len: "headroom_length hs = Inr len" by (auto simp: headroom_body_def)
  have r: "hs' = (if upgrade then hs else dict_set ''connection'' ''close'' hs) \<and> length body = len"
  proof (cases upgrade)
    case True
    with assms len show ?thesis by (simp add: headroom_body_def split: if_splits)
  next
    case False
    with assms len have "length rest \<le> len" "fst (rest_of_body len rest es) = Inr body" "hs' = dict_set ''connection'' ''close'' hs"
      by (simp_all add: headroom_body_def split: if_splits)
    with False rest_of_body_length show ?thesis by simp
  qed
  from len have "decimal_value (header_get hs ''content-length'' ''0'') = int len"
    using decimal_value_nonneg by (auto simp: headroom_length_def Let_def class_match_def split: if_splits)
  moreover have "header_get hs' ''content-length'' ''0'' = header_get hs ''content-length'' ''0''"
    using r by (simp add: header_get_def map_of_dict_set)
  ultimately show "decimal_value (header_get hs' ''content-length'' ''0'') = int (length body)" using r by simp
  show "hs' = (if upgrade then hs else dict_set ''connection'' ''close'' hs)" using r by simp
qed

text \<open>
  The endpoint of the model service passes on at most one request of its four operations: the rebuilt header
  parses back to its own lines, names the service once, has no header twice and no transfer coding, states the
  length of exactly the body sent, and closes the connection unless it is the one upgrade, which has no body.
\<close>
theorem headroom_single_request:
  assumes "headroom_request port es = Inr (out, upgrade)"
  shows "\<exists>line meth target hs body. out = eol_join (line # map header_line hs) @ HEAD_END @ body
    \<and> split_at EOL (eol_join (line # map header_line hs)) = line # map header_line hs
    \<and> split_on (CHR '' '') line = [meth, target, ''HTTP/1.1''] \<and> (meth, target) \<in> set HEADROOM_API
    \<and> port \<in> {8787, 9787} \<and> distinct (map fst hs) \<and> map_of hs ''host'' = Some (''127.0.0.1:'' @ decimal port)
    \<and> ''transfer-encoding'' \<notin> field_names hs
    \<and> decimal_value (header_get hs ''content-length'' ''0'') = int (length body)
    \<and> (if upgrade then (meth, target) = (''GET'', ''/v1/responses'') \<and> body = [] else map_of hs ''connection'' = Some ''close'')"
proof -
  from assms obtain head rest es' where h: "headroom_head es = (Inr (head, rest), es')" and port: "port \<in> {8787, 9787}"
    unfolding headroom_request_def by (auto split: prod.splits sum.splits if_splits)
  let ?line = "hd (split_at EOL head)"
  from assms h obtain hs0 hs body where r: "headroom_headers (tl (split_at EOL head)) [] = Inr hs0"
    "headroom_admitted port ?line hs0 upgrade" "headroom_body hs0 upgrade rest es' = Inr (hs, body)" "out = rebuilt ?line hs body"
    unfolding headroom_request_def by (auto simp: Let_def split: if_splits)
  note line = headroom_admitted_line [OF r(2)] and body = headroom_body_facts [OF r(3)]
  have "plain_fields hs0" using headroom_headers_plain [OF r(1)] by (simp add: plain_fields_def)
  then have plain: "plain_fields hs" using plain_fields_set [of hs0 "''connection''" "''close''"] body(1) by (auto simp: clean_def)
  have host: "map_of hs ''host'' = Some (''127.0.0.1:'' @ decimal port)" "''transfer-encoding'' \<notin> field_names hs"
    using r(2) body(1) by (auto simp: headroom_admitted_def headroom_authority_def map_of_dict_set field_names_map_of split: list.splits)
  then have "hs \<noteq> []" by auto
  then have "rebuilt ?line hs body = eol_join (?line # map header_line hs) @ HEAD_END @ body" by (cases hs) (auto simp: rebuilt_def)
  moreover have "split_at EOL (eol_join (?line # map header_line hs)) = ?line # map header_line hs"
    using line(1) plain by (intro split_eol_join) (auto simp: plain_fields_def clean_def)
  moreover have "upgrade \<Longrightarrow> body = []" using r(3) by (auto simp: headroom_body_def split: if_splits)
  moreover have "\<not> upgrade \<Longrightarrow> map_of hs ''connection'' = Some ''close''" using body(1) by (simp add: map_of_dict_set)
  moreover obtain meth target where m: "split_on (CHR '' '') ?line = [meth, target, ''HTTP/1.1'']" "(meth, target) \<in> set HEADROOM_API"
    "upgrade \<longleftrightarrow> meth = ''GET'' \<and> target = ''/v1/responses''" using line(2) by blast
  moreover have "distinct (map fst hs)" using plain by (simp add: plain_fields_def)
  ultimately show ?thesis using port host body(2) r(4)
    by (intro exI [of _ ?line] exI [of _ meth] exI [of _ target] exI [of _ hs] exI [of _ body]) (simp split del: if_split, simp)
qed


section \<open>Payloads\<close>

text \<open>The tool definitions of a document, through every namespace.\<close>

inductive in_tools :: "bool \<Rightarrow> pyval \<Rightarrow> pyval \<Rightarrow> bool" for nested where
  listed: "t \<in> set ts \<Longrightarrow> in_tools nested t (PList ts)"
| within: "nested \<Longrightarrow> PDict tool \<in> set ts \<Longrightarrow> dict_get tool ''type'' = PStr ''namespace'' \<Longrightarrow> in_tools nested t (dict_get tool ''tools'')
    \<Longrightarrow> in_tools nested t (PList ts)"

definition local_tool :: "bool \<Rightarrow> bool \<Rightarrow> pyval \<Rightarrow> bool" where
  "local_tool google anthropic t \<longleftrightarrow> (\<exists>tool. t = PDict tool \<and> field_names tool \<inter> set CONNECTOR_FIELDS = {} \<and>
     (if google then field_names tool \<subseteq> {''functionDeclarations''}
      else if anthropic then dict_get tool ''type'' \<in> {PNone, PStr ''custom''}
      else dict_get tool ''type'' \<in> {PStr ''namespace'', PStr ''function'', PStr ''custom''}))"

lemma check_tool_local:
  assumes "check_tool google anthropic deeper t = Inr ()" shows "local_tool google anthropic t"
  using assms by (auto simp: check_tool_def local_tool_def Let_def split: pyval.splits if_splits)

lemma check_tools_members:
  assumes "check_tools google anthropic n (PList ts) = Inr ()" and "t \<in> set ts"
  shows "\<exists>m. check_tool google anthropic (check_tools google anthropic m) t = Inr ()"
  using assms by (cases n) auto

lemma check_tools_local:
  "in_tools (\<not> google \<and> \<not> anthropic) t items \<Longrightarrow> check_tools google anthropic n items = Inr () \<Longrightarrow> local_tool google anthropic t"
proof (induction arbitrary: n rule: in_tools.induct)
  case (listed t ts)
  then show ?case using check_tools_members check_tool_local by metis
next
  case (within tool ts t)
  from check_tools_members [OF within(6,2)] obtain m where
    "check_tool google anthropic (check_tools google anthropic m) (PDict tool) = Inr ()" ..
  with within(1,3) have "check_tools google anthropic m (dict_get tool ''tools'') = Inr ()"
    by (simp add: check_tool_def Let_def split: if_splits)
  with within.IH show ?case .
qed

definition local_envelope :: "bool \<Rightarrow> bool \<Rightarrow> pydict \<Rightarrow> bool" where
  "local_envelope google anthropic d \<longleftrightarrow> field_names d \<inter> set OPAQUE_FIELDS = {}
     \<and> (\<forall>t. in_tools (\<not> google \<and> \<not> anthropic) t (dict_get d ''tools'') \<longrightarrow> local_tool google anthropic t)
     \<and> (\<forall>xs. dict_get d ''input'' = PList xs \<longrightarrow> \<not> list_ex mcp_item xs)
     \<and> (\<forall>c. dict_get d ''tool_choice'' = PDict c \<longrightarrow> dict_get c ''type'' \<in> PStr ` {''function'', ''custom'', ''tool'', ''auto'', ''any'', ''none''})"

lemma check_envelope_local:
  assumes "check_envelope google anthropic v = Inr ()"
  shows "\<exists>d. v = PDict d \<and> local_envelope google anthropic d"
proof -
  from assms obtain d where d: "v = PDict d" "field_names d \<inter> set OPAQUE_FIELDS = {}" "check_choice (dict_get d ''tool_choice'') = Inr ()"
    "check_tools google anthropic 9 (or_default d ''tools'' (PList [])) = Inr ()"
    "\<forall>xs. or_default d ''input'' (PList []) = PList xs \<longrightarrow> \<not> list_ex mcp_item xs"
    by (cases v) (auto simp: check_envelope_def Let_def split: if_splits pyval.splits)
  have "local_tool google anthropic t" if "in_tools (\<not> google \<and> \<not> anthropic) t (dict_get d ''tools'')" for t
  proof (cases "map_of d ''tools''")
    case None
    with that show ?thesis by (auto simp: dict_get_def elim: in_tools.cases)
  next
    case (Some ts)
    with that d(4) check_tools_local show ?thesis by (auto simp: dict_get_def or_default_def)
  qed
  moreover have "\<forall>xs. dict_get d ''input'' = PList xs \<longrightarrow> \<not> list_ex mcp_item xs"
    using d(5) by (auto simp: dict_get_def or_default_def split: option.splits)
  ultimately show ?thesis using d(1-3) by (auto simp: local_envelope_def check_choice_def)
qed

text \<open>
  C33.  A payload that is forwarded to a model host is a JSON object whose envelope, and whose nested request if it has
  one, declare only local tools - through every namespace - and carry no connector metadata, no reference to stored
  state, no hosted tool choice and no continuation of a hosted tool; the free-model host gets reviewed models only.  Payloads with a fraction, an
  exponent or a code point above 255 are outside the model (\<open>load_body\<close> refuses them) and outside the claim.
\<close>
theorem payload_admits_local_tools:
  assumes "validate_payload text header body host = Inr ()"
    and "split_on (CHR '' '') (hd (split_at EOL header)) = [''POST'', target, version]"
    and "up_path (urlsplit target) \<notin> set OAUTH_PATHS" and "host \<noteq> ''search.parallel.ai''"
  shows "\<exists>d. load_body text body = Inr (PDict d)
    \<and> (let google = ends_with ''cloudcode-pa.googleapis.com'' host; anthropic = anthropic_style host (up_path (urlsplit target)) in
       local_envelope google anthropic d \<and>
       (\<forall>r. map_of d ''request'' = Some r \<longrightarrow> (\<exists>e. r = PDict e \<and> local_envelope google anthropic e)))
    \<and> (host = ''opencode.ai'' \<longrightarrow> dict_get d ''model'' \<in> PStr ` set FREE_MODELS)"
proof -
  let ?google = "ends_with ''cloudcode-pa.googleapis.com'' host" and ?anthropic = "anthropic_style host (up_path (urlsplit target))"
  from assms obtain v where v: "load_body text body = Inr v" "check_document host (up_path (urlsplit target)) v = Inr ()"
    unfolding validate_payload_def Let_def by (auto split: if_splits)
  from v(2) assms(4) obtain d where d: "v = PDict d" "host = ''opencode.ai'' \<longrightarrow> free_model_only d = Inr ()"
    "check_envelope ?google ?anthropic (PDict d) = Inr ()" "check_envelope ?google ?anthropic (or_default d ''request'' (PDict [])) = Inr ()"
    unfolding check_document_def Let_def by (cases v) (simp_all split: if_splits)
  have "host = ''opencode.ai'' \<longrightarrow> dict_get d ''model'' \<in> PStr ` set FREE_MODELS"
    using d(2) by (auto simp: free_model_only_def split: pyval.splits if_splits)
  moreover have "\<exists>e. r = PDict e \<and> local_envelope ?google ?anthropic e" if "map_of d ''request'' = Some r" for r
    using check_envelope_local [OF d(4)] that by (simp add: or_default_def)
  ultimately show ?thesis using v(1) d(1) check_envelope_local [OF d(3)] by (auto simp: Let_def)
qed

section \<open>Chunked bodies\<close>

lemma cut_at_append: "cut_at p s = Some (a, b) \<Longrightarrow> cut_at p (s @ t) = Some (a, b @ t)"
proof (induction s arbitrary: a)
  case Nil
  then show ?case by (cases t) (auto simp: starts_with_def split: if_splits)
next
  case (Cons c s)
  have "length p \<le> length (c # s)" using cut_at_Some [OF Cons(2)] by (metis add_leE le_add1 le_add2 length_append)
  then have p: "starts_with p ((c # s) @ t) \<longleftrightarrow> starts_with p (c # s)" by (simp only: starts_with_def take_append) simp
  have d: "drop (length p) ((c # s) @ t) = drop (length p) (c # s) @ t" using \<open>length p \<le> length (c # s)\<close> by (simp del: append_Cons)
  show ?case
  proof (cases "starts_with p (c # s)")
    case True
    with Cons(2) p d show ?thesis by auto
  next
    case False
    with Cons p show ?thesis by auto
  qed
qed

lemma cut_line: "clean l \<Longrightarrow> cut_at EOL (l @ EOL @ t) = Some (l, t)"
  using cut_at_prefix [of l "CHR 0x0D" "[CHR 0x0A]" t] by (force simp: EOL_def clean_def)


definition chunk_text :: "(string \<times> string) list \<Rightarrow> string \<Rightarrow> string" where
  "chunk_text parts final = concat (map (\<lambda>(l, block). l @ EOL @ block @ EOL) parts) @ final @ EOL @ EOL"

definition size_text :: "string \<Rightarrow> nat \<Rightarrow> bool" where
  "size_text l n \<longleftrightarrow> class_match (\<lambda>c. is_hex (lower_char c)) 1 15 l \<and> chunk_size l = n"

lemma size_text_clean: "size_text l n \<Longrightarrow> clean l"
proof -
  have "\<not> is_hex (lower_char (CHR 0x0D))" by (simp add: is_hex_def lower_char_def is_digit_def in_range_def char_code_def)
  then show "size_text l n \<Longrightarrow> clean l" by (auto simp: size_text_def class_match_def clean_def list_all_iff)
qed

lemma take_bytes_complete:
  "steady es \<Longrightarrow> n \<le> length (pending @ carried es) \<Longrightarrow> \<exists>rest es'. take_bytes n pending es = (Inr (take n (pending @ carried es), rest), es')
     \<and> steady es' \<and> rest @ carried es' = drop n (pending @ carried es)"
proof (induction n pending es rule: take_bytes.induct)
  case (1 n pending es)
  show ?case
  proof (cases "n \<le> length pending")
    case True
    with 1 show ?thesis by (simp add: take_bytes.simps [of n pending es])
  next
    case False
    obtain r es1 where r: "recv 65536 es = (r, es1)" by fastforce
    from recv_steady [OF 1(2) r] obtain b where b: "r = Inr b" "b = [] \<longrightarrow> es = []" "steady es1" by auto
    with 1(3) False have "b \<noteq> []" by auto
    with r b have "carried es = b @ carried es1" using recv_carried by blast
    with 1(1) [OF False r [symmetric] b(1) \<open>b \<noteq> []\<close> b(3)] 1(3) False r b(1) \<open>b \<noteq> []\<close> show ?thesis
      by (simp add: take_bytes.simps [of n pending es])
  qed
qed

lemma size_line_complete:
  "steady es \<Longrightarrow> pending @ carried es = l @ EOL @ t \<Longrightarrow> clean l \<Longrightarrow> length l \<le> 15 \<Longrightarrow>
     \<exists>rest es'. size_line pending es = (Inr (l, rest), es') \<and> steady es' \<and> rest @ carried es' = t"
proof (induction pending es rule: size_line.induct)
  case (1 pending es)
  show ?case
  proof (cases "cut_at EOL pending")
    case (Some lr)
    obtain a b where ab: "lr = (a, b)" by fastforce
    with cut_at_append [of EOL pending a b "carried es"] Some 1(3) cut_line [OF 1(4), of t] have "a = l" "b @ carried es = t" by simp_all
    with Some ab 1(2) show ?thesis by (simp add: size_line.simps [of pending es])
  next
    case None
    have short: "length pending \<le> length l + 1"
    proof (rule ccontr)
      assume "\<not> length pending \<le> length l + 1"
      then have "length (l @ EOL) \<le> length pending" by (simp add: EOL_def)
      then have "take (length (l @ EOL)) pending = l @ EOL"
        using 1(3) by (metis append.assoc append_eq_conv_conj take_append diff_is_0_eq' take0 append_Nil2)
      then have "pending = l @ EOL @ drop (length (l @ EOL)) pending" by (metis append.assoc append_take_drop_id)
      with cut_line [OF 1(4)] None show False by (metis option.distinct(1))
    qed
    obtain r es1 where r: "recv 65536 es = (r, es1)" by fastforce
    from recv_steady [OF 1(2) r] obtain b where b: "r = Inr b" "b = [] \<longrightarrow> es = []" "steady es1" by auto
    have "es \<noteq> []"
    proof
      assume "es = []"
      with 1(3) have "length pending = length l + 2 + length t" by (simp add: EOL_def)
      with short show False by simp
    qed
    with b have "b \<noteq> []" by auto
    with r b have "carried es = b @ carried es1" using recv_carried by blast
    moreover have "\<not> 16 < length pending" using short 1(5) by simp
    ultimately show ?thesis using 1(1) [OF None _ r [symmetric] b(1) \<open>b \<noteq> []\<close> b(3)] 1(3-5) r b(1) \<open>b \<noteq> []\<close> None
      by (simp add: size_line.simps [of pending es])
  qed
qed


text \<open>One round of the loop on a chunk that is there in full.\<close>

lemma chunk_round:
  assumes "steady es" and "pending @ carried es = l @ EOL @ block @ EOL @ t" and "size_text l (length block)"
    and "length block \<le> MAX_BODY - length body"
  shows "\<exists>rest es'. steady es' \<and> rest @ carried es' = t \<and> chunk_loop (Suc k) body pending es =
    (if block = [] then (if rest = [] then Inr body else Inl ValueError) else chunk_loop k (body @ block) rest es')"
proof -
  have l: "clean l" "length l \<le> 15" "class_match (\<lambda>c. is_hex (lower_char c)) 1 16 l" "chunk_size l = length block"
    using assms(3) size_text_clean by (auto simp: size_text_def class_match_def)
  from size_line_complete [OF assms(1,2) l(1,2)] obtain r1 es1 where
    a: "size_line pending es = (Inr (l, r1), es1)" "steady es1" "r1 @ carried es1 = block @ EOL @ t" by blast
  from take_bytes_complete [OF a(2), of "length block" r1] a(3) obtain r2 es2 where
    b: "take_bytes (length block) r1 es1 = (Inr (block, r2), es2)" "steady es2" "r2 @ carried es2 = EOL @ t" by auto
  from take_bytes_complete [OF b(2), of 2 r2] b(3) obtain r3 es3 where
    c: "take_bytes 2 r2 es2 = (Inr (EOL, r3), es3)" "steady es3" "r3 @ carried es3 = t" by (auto simp: EOL_def)
  have "chunk_loop (Suc k) body pending es =
    (if block = [] then (if r3 = [] then Inr body else Inl ValueError) else chunk_loop k (body @ block) r3 es3)"
    using a(1) b(1) c(1) l(3,4) assms(4) by simp
  with c(2,3) show ?thesis by blast
qed

lemma chunk_loop_complete:
  "steady es \<Longrightarrow> pending @ carried es = chunk_text parts final \<Longrightarrow> \<forall>(l, block) \<in> set parts. size_text l (length block) \<and> block \<noteq> []
     \<Longrightarrow> size_text final 0 \<Longrightarrow> length parts < k \<Longrightarrow> length (body @ concat (map snd parts)) \<le> MAX_BODY
     \<Longrightarrow> chunk_loop k body pending es = Inr (body @ concat (map snd parts))"
proof (induction parts arbitrary: k body pending es)
  case Nil
  then obtain j where k: "k = Suc j" by (cases k) auto
  from chunk_round [OF Nil(1), of pending final "[]" "[]" body j] Nil(2,4) k show ?case by (auto simp: chunk_text_def)
next
  case (Cons p parts)
  obtain l block where p: "p = (l, block)" by fastforce
  from Cons.prems(5) obtain j where k: "k = Suc j" "length parts < j" by (cases k) auto
  have t: "pending @ carried es = l @ EOL @ block @ EOL @ chunk_text parts final" using Cons.prems(2) p by (simp add: chunk_text_def)
  have b: "size_text l (length block)" "block \<noteq> []" "length block \<le> MAX_BODY - length body" using Cons.prems(3,6) p by auto
  from chunk_round [OF Cons.prems(1) t b(1,3), of j] b(2) obtain r es1 where
    r: "steady es1" "r @ carried es1 = chunk_text parts final" "chunk_loop (Suc j) body pending es = chunk_loop j (body @ block) r es1" by auto
  from Cons.IH [OF r(1,2) _ Cons.prems(4) k(2), of "body @ block"] Cons.prems(3,6) p k(1) r(3) show ?case by simp
qed

text \<open>
  A chunked body, however its bytes are cut into receives, is decoded to the concatenation of its chunks: for
  fewer than 4096 non-empty chunks of at most 16 MiB in all, with sizes of up to 15 hexadecimal digits.
\<close>
theorem chunked_body_roundtrip:
  assumes "steady es" and "initial @ carried es = chunk_text parts final"
    and "\<forall>(l, block) \<in> set parts. size_text l (length block) \<and> block \<noteq> []" and "size_text final 0"
    and "length parts < 4096" and "length (concat (map snd parts)) \<le> MAX_BODY"
  shows "read_chunked_body initial es = Inr (concat (map snd parts))"
  using chunk_loop_complete [OF assms(1-5), of "[]"] assms(6) by (simp add: read_chunked_body_def)

text \<open>
  A size of 16 digits is accepted when its line arrives at once, and refused when the receive ends between the two
  bytes of the line end.
\<close>
lemma chunk_size_cut_dependent:
  "read_chunked_body [] [Data (''0000000000000000'' @ EOL @ EOL)] = Inr []"
  "read_chunked_body [] [Data (''0000000000000000'' @ [CHR 0x0D]), Data (CHR 0x0A # EOL)] = Inl ValueError"
  by code_simp+



section \<open>Concrete runs\<close>

definition demo_headroom :: "io_event list" where
  "demo_headroom = [Data (eol_join [''POST /v1/responses HTTP/1.1'', ''Host: 127.0.0.1:9787'', ''Content-Length: 2''] @ HEAD_END @ ''{}'')]"

theorem headroom_single_request_witness:
  "\<exists>out line meth target hs body. headroom_request 9787 demo_headroom = Inr (out, False)
    \<and> out = eol_join (line # map header_line hs) @ HEAD_END @ body \<and> (meth, target) \<in> set HEADROOM_API
    \<and> map_of hs ''connection'' = Some ''close''"
proof -
  have "isl (headroom_request 9787 demo_headroom) = False \<and> snd (projr (headroom_request 9787 demo_headroom)) = False" by code_simp
  then obtain out where out: "headroom_request 9787 demo_headroom = Inr (out, False)"
    by (cases "headroom_request 9787 demo_headroom") auto
  from headroom_single_request [OF out, unfolded if_False] out show ?thesis by blast
qed

definition demo_payload :: string where
  "demo_payload = canonical (PDict [(''model'', PStr ''m''), (''tools'', PList [PDict [(''type'', PStr ''function'')]])])"

definition demo_head :: string where
  "demo_head = ''POST /v1/responses HTTP/1.1''"

theorem payload_admits_local_tools_witness:
  "\<exists>d. load_body Inr demo_payload = Inr (PDict d) \<and> local_envelope False False d"
proof -
  have v: "validate_payload Inr demo_head demo_payload ''api.openai.com'' = Inr ()" by code_simp
  have s: "split_on (CHR '' '') (hd (split_at EOL demo_head)) = [''POST'', ''/v1/responses'', ''HTTP/1.1'']" by code_simp
  have p: "up_path (urlsplit ''/v1/responses'') \<notin> set OAUTH_PATHS" by code_simp
  have h: "''api.openai.com'' \<noteq> ''search.parallel.ai''" by simp
  have m: "ends_with ''cloudcode-pa.googleapis.com'' ''api.openai.com'' = False"
    "anthropic_style ''api.openai.com'' (up_path (urlsplit ''/v1/responses'')) = False" by code_simp+
  from payload_admits_local_tools [OF v s p h] show ?thesis unfolding m by auto
qed

theorem chunked_body_roundtrip_witness:
  "read_chunked_body (''2'' @ EOL) [Data ''a'', Data (''b'' @ EOL @ ''0''), Data (EOL @ EOL)] = Inr ''ab''"
proof -
  have "steady [Data ''a'', Data (''b'' @ EOL @ ''0''), Data (EOL @ EOL)]" by (simp add: EOL_def)
  moreover have "(''2'' @ EOL) @ carried [Data ''a'', Data (''b'' @ EOL @ ''0''), Data (EOL @ EOL)] = chunk_text [(''2'', ''ab'')] ''0''"
    by (simp add: EOL_def chunk_text_def)
  moreover have "size_text ''2'' 2" "size_text ''0'' 0" by code_simp+
  ultimately show ?thesis
    using chunked_body_roundtrip [of "[Data ''a'', Data (''b'' @ EOL @ ''0''), Data (EOL @ EOL)]" "''2'' @ EOL" "[(''2'', ''ab'')]" "''0''"]
    by (simp add: MAX_BODY_def numeral_2_eq_2)
qed

end
