(* ===== verification/Shared_Access.thy ===== *)
theory Shared_Access
  imports Json "HOL-Library.Word"
begin

unbundle bit_operations_syntax

text \<open>
  The access control lists of \<open>workspaces/shared_access.py\<close>: the rows \<open>getfacl\<close> prints, the list \<open>setfacl\<close> is given so
  that the owner of a workspace keeps access to what the service creates, and the search check.
\<close>

section \<open>Rows\<close>

type_synonym acl_key = "string \<times> string"             \<comment> \<open>kind and qualifier\<close>
type_synonym acl_row = "string \<times> string \<times> string"     \<comment> \<open>kind, qualifier, permissions\<close>

definition BITS :: "nat list" where
  "BITS = [4, 2, 1]"

definition bits :: "string \<Rightarrow> nat" where
  "bits v = sum_list (map snd (filter (\<lambda>p. fst p \<noteq> CHR ''-'') (zip v BITS)))"

definition permissions :: "nat \<Rightarrow> string" where
  "permissions v = map (\<lambda>(c, b). if v AND b \<noteq> 0 then c else CHR ''-'') (zip ''rwx'' BITS)"

definition masked :: "string \<Rightarrow> string \<Rightarrow> bool" where
  "masked kind qualifier \<longleftrightarrow> kind = ''group'' \<or> (kind = ''user'' \<and> qualifier \<noteq> [])"

definition mask_of :: "acl_row list \<Rightarrow> nat" where
  "mask_of rows = (case find (\<lambda>r. fst r = ''mask'') rows of None \<Rightarrow> 7 | Some (_, _, v) \<Rightarrow> bits v)"

text \<open>The loop over the rows; a repeated row would overwrite.\<close>

fun effective_loop :: "nat \<Rightarrow> acl_row list \<Rightarrow> (acl_key \<times> nat) list \<Rightarrow> (acl_key \<times> nat) list" where
  "effective_loop msk [] e = e"
| "effective_loop msk ((kind, qualifier, v) # rows) e =
     (if kind = ''mask'' then effective_loop msk rows e
      else effective_loop msk rows
        (dict_set (kind, qualifier) (if masked kind qualifier then bits v AND msk else bits v) e))"

definition effective_of :: "acl_row list \<Rightarrow> nat \<Rightarrow> (acl_key \<times> nat) list" where
  "effective_of rows allowed = (let e = effective_loop (mask_of rows) rows [] in
     if e = [] then [((''user'', []), allowed), ((''group'', []), 0), ((''other'', []), 0)] else e)"

definition owner_key :: "int \<Rightarrow> int \<Rightarrow> acl_key" where
  "owner_key owner_uid file_uid = (''user'', if owner_uid = file_uid then [] else show_int owner_uid)"

definition right_of :: "(acl_key \<times> nat) list \<Rightarrow> acl_key \<Rightarrow> nat" where
  "right_of e k = (case map_of e k of None \<Rightarrow> 0 | Some v \<Rightarrow> v)"

definition keep_previous :: "int option \<Rightarrow> int \<Rightarrow> (acl_key \<times> nat) list \<Rightarrow> (acl_key \<times> nat) list result" where
  "keep_previous previous file_uid e = (case previous of
       None \<Rightarrow> Inr e
     | Some p \<Rightarrow> if p = file_uid then Inr e else (case map_of e (''user'', []) of
           None \<Rightarrow> Inl KeyError
         | Some v \<Rightarrow> Inr (dict_set (''user'', show_int p) v e)))"

definition acl_rows :: "(acl_key \<times> nat) list \<Rightarrow> acl_row list" where
  "acl_rows e = map (\<lambda>((kind, qualifier), v). (kind, qualifier, permissions v)) e
     @ [(''mask'', [], permissions (foldl (\<lambda>m ((kind, qualifier), v). if masked kind qualifier then m OR v else m) 0 e))]"

definition shared_acl :: "acl_row list \<Rightarrow> int \<Rightarrow> int \<Rightarrow> bool \<Rightarrow> int option \<Rightarrow> acl_row list result" where
  "shared_acl rows owner_uid file_uid directory previous =
     (let allowed = (if directory then 7 else 6); k = owner_key owner_uid file_uid in
      rbind (keep_previous previous file_uid (effective_of rows allowed)) (\<lambda>e.
        let shared = dict_set k (right_of e k OR allowed) e;
            final = (if rows \<noteq> [] \<and> previous = None \<and> \<not> directory then map (\<lambda>(k, v). (k, v AND 6)) shared else shared)
        in Inr (acl_rows final)))"

fun acl_text :: "acl_row list \<Rightarrow> string" where
  "acl_text [] = []"
| "acl_text ((kind, qualifier, v) # rows) = kind @ '':'' @ qualifier @ '':'' @ v @ CHR 0x0A # acl_text rows"

section \<open>Searching a directory\<close>

text \<open>\<open>human_can_traverse\<close>; \<open>groups\<close> are the collaborator's group ids. Qualifiers of groups are decimal.\<close>

definition can_search :: "nat \<Rightarrow> bool" where
  "can_search v \<longleftrightarrow> v AND 1 \<noteq> 0"

definition human_can_traverse :: "acl_row list \<Rightarrow> int \<Rightarrow> int \<Rightarrow> int list \<Rightarrow> int \<Rightarrow> bool result" where
  "human_can_traverse rows st_uid st_gid groups human_uid =
     (let entries = foldl (\<lambda>d (kind, qualifier, v). dict_set (kind, qualifier) (bits v) d) [] rows;
          msk = (case map_of entries (''mask'', []) of None \<Rightarrow> 7 | Some m \<Rightarrow> m);
          matching = filter (\<lambda>((kind, qualifier), v). kind = ''group''
            \<and> (if qualifier = [] then st_gid else decimal_value qualifier) \<in> set groups) entries
      in if human_uid = 0 then Inr True
         else if st_uid = human_uid then
           (case map_of entries (''user'', []) of None \<Rightarrow> Inl KeyError | Some v \<Rightarrow> Inr (can_search v))
         else (case map_of entries (''user'', show_int human_uid) of
             Some v \<Rightarrow> Inr (can_search (v AND msk))
           | None \<Rightarrow>
               if matching \<noteq> [] then Inr (list_ex (\<lambda>p. can_search (snd p AND msk)) matching)
               else (case map_of entries (''other'', []) of None \<Rightarrow> Inl KeyError | Some v \<Rightarrow> Inr (can_search v))))"


section \<open>Rights\<close>

text \<open>What a list grants under one of its keys.\<close>

definition row_key :: "acl_row \<Rightarrow> acl_key" where
  "row_key r = (fst r, fst (snd r))"

definition rights :: "acl_row list \<Rightarrow> acl_key \<Rightarrow> nat option" where
  "rights rows k = (case find (\<lambda>r. fst r \<noteq> ''mask'' \<and> row_key r = k) rows of
       None \<Rightarrow> None
     | Some (kind, qualifier, v) \<Rightarrow> Some (if masked kind qualifier then bits v AND mask_of rows else bits v))"

lemma bits_bound: "bits v \<le> 7"
proof -
  have "sum_list (map snd (filter P (zip v BITS))) \<le> sum_list (map snd (zip v BITS))" for P
    by (induction v "BITS" rule: list_induct2') (auto simp: sum_list_filter_le_nat)
  moreover have "sum_list (map snd (zip v BITS)) \<le> 7"
    by (cases v; cases "tl v"; cases "tl (tl v)") (auto simp: BITS_def)
  ultimately show ?thesis unfolding bits_def by (meson le_trans)
qed

lemma bits_permissions: "v \<le> 7 \<Longrightarrow> bits (permissions v) = v"
proof -
  have "list_all (\<lambda>v. bits (permissions v) = v) [0..<8]" by code_simp
  then show "v \<le> 7 \<Longrightarrow> bits (permissions v) = v" by (simp add: list_all_iff)
qed

lemma and_bound: "(a::nat) \<le> 7 \<Longrightarrow> a AND b \<le> 7"
proof -
  have "int a AND int b \<le> int a" by (rule AND_upper1) simp
  then have "a AND b \<le> a" by (simp add: and_nat_def nat_le_iff)
  then show "a \<le> 7 \<Longrightarrow> a AND b \<le> 7" by simp
qed

lemma or_bound: "a \<le> 7 \<Longrightarrow> b \<le> 7 \<Longrightarrow> (a::nat) OR b \<le> 7"
proof -
  have "list_all (\<lambda>a. list_all (\<lambda>b. (a::nat) OR b \<le> 7) [0..<8]) [0..<8]" by code_simp
  then show "a \<le> 7 \<Longrightarrow> b \<le> 7 \<Longrightarrow> (a::nat) OR b \<le> 7" by (simp add: list_all_iff)
qed

lemma and_absorb_or: "(v::nat) AND m = v \<Longrightarrow> v AND (m OR w) = v"
  by (auto simp: bit_eq_iff bit_simps)


definition bounded_rights :: "(acl_key \<times> nat) list \<Rightarrow> bool" where
  "bounded_rights e \<longleftrightarrow> distinct (map fst e) \<and> (\<forall>p \<in> set e. snd p \<le> 7 \<and> fst (fst p) \<noteq> ''mask'')"

lemma bounded_set: "bounded_rights e \<Longrightarrow> v \<le> 7 \<Longrightarrow> fst k \<noteq> ''mask'' \<Longrightarrow> bounded_rights (dict_set k v e)"
  using set_dict_set [of k v e] by (auto simp: bounded_rights_def intro: distinct_dict_set)

lemma effective_loop_rights:
  "distinct (map row_key rows) \<Longrightarrow> bounded_rights e \<Longrightarrow> \<forall>r \<in> set rows. row_key r \<notin> fst ` set e
     \<Longrightarrow> bounded_rights (effective_loop m rows e) \<and> map_of (effective_loop m rows e) k =
       (case find (\<lambda>r. fst r \<noteq> ''mask'' \<and> row_key r = k) rows of
          None \<Rightarrow> map_of e k
        | Some (kind, qualifier, v) \<Rightarrow> Some (if masked kind qualifier then bits v AND m else bits v))"
proof (induction m rows e rule: effective_loop.induct)
  case (2 m kind qualifier v rows e)
  show ?case
  proof (cases "kind = ''mask''")
    case True
    with 2 show ?thesis by simp
  next
    case False
    let ?e = "dict_set (kind, qualifier) (if masked kind qualifier then bits v AND m else bits v) e"
    have b: "bounded_rights ?e" using 2(4) False bits_bound and_bound by (intro bounded_set) auto
    have d: "distinct (map row_key rows)" "row_key (kind, qualifier, v) \<notin> row_key ` set rows" using 2(3) by auto
    then have f: "\<forall>r \<in> set rows. row_key r \<notin> fst ` set ?e" using 2(5) by (auto simp: keys_dict_set row_key_def)
    have other: "find (\<lambda>r. fst r \<noteq> ''mask'' \<and> row_key r = (kind, qualifier)) rows = None"
      using d(2) by (force simp: find_None_iff row_key_def)
    show ?thesis
    proof (cases "k = (kind, qualifier)")
      case True
      then show ?thesis using 2(2) [OF False d(1) b f] False other by (simp add: map_of_dict_set row_key_def)
    next
      case neq: False
      then have "find (\<lambda>r. fst r \<noteq> ''mask'' \<and> row_key r = k) ((kind, qualifier, v) # rows)
          = find (\<lambda>r. fst r \<noteq> ''mask'' \<and> row_key r = k) rows" by (simp add: row_key_def)
      moreover have "map_of ?e k = map_of e k" using neq by (simp add: map_of_dict_set)
      ultimately show ?thesis using 2(2) [OF False d(1) b f] False by (simp only: effective_loop.simps if_False)
    qed
  qed
qed simp

definition default_rows :: "nat \<Rightarrow> acl_row list" where
  "default_rows allowed = [(''user'', [], permissions allowed), (''group'', [], permissions 0), (''other'', [], permissions 0)]"

definition base_rows :: "acl_row list \<Rightarrow> nat \<Rightarrow> acl_row list" where
  "base_rows rows allowed = (if list_ex (\<lambda>r. fst r \<noteq> ''mask'') rows then rows else default_rows allowed)"

lemma effective_loop_nonempty: "effective_loop m rows e = [] \<longleftrightarrow> e = [] \<and> \<not> list_ex (\<lambda>r. fst r \<noteq> ''mask'') rows"
proof (induction m rows e rule: effective_loop.induct)
  case (2 m kind qualifier v rows e)
  have "dict_set k v e \<noteq> []" for k and v :: nat by (auto simp: dict_set_def field_names_def)
  with 2 show ?case by auto
qed simp

lemma effective_rights:
  assumes "distinct (map row_key rows)" and "allowed \<le> 7"
  shows "bounded_rights (effective_of rows allowed)" and "map_of (effective_of rows allowed) k = rights (base_rows rows allowed) k"
proof -
  note l = effective_loop_rights [OF assms(1), of "[]" "mask_of rows"]
  have e: "bounded_rights []" by (simp add: bounded_rights_def)
  show "bounded_rights (effective_of rows allowed)"
    using l e assms(2) by (auto simp: effective_of_def Let_def bounded_rights_def)
  have d: "mask_of (default_rows allowed) = 7" by (simp add: mask_of_def default_rows_def)
  show "map_of (effective_of rows allowed) k = rights (base_rows rows allowed) k"
  proof (cases "list_ex (\<lambda>r. fst r \<noteq> ''mask'') rows")
    case True
    then show ?thesis using l [of k] e effective_loop_nonempty [of "mask_of rows" rows "[]"]
      by (simp add: effective_of_def base_rows_def rights_def Let_def cong: option.case_cong)
  next
    case False
    then show ?thesis using effective_loop_nonempty [of "mask_of rows" rows "[]"] assms(2) d bits_permissions
      by (auto simp: effective_of_def base_rows_def rights_def Let_def default_rows_def row_key_def masked_def)
  qed
qed

text \<open>Reading back what was written.\<close>

lemma mask_covers:
  fixes m :: nat
  assumes "p \<in> set e" and "masked (fst (fst p)) (snd (fst p))"
  shows "snd p AND foldl (\<lambda>m ((kind, qualifier), v). if masked kind qualifier then m OR v else m) m e = snd p"
proof -
  let ?f = "\<lambda>m ((kind, qualifier), v). if masked kind qualifier then m OR v else m"
  have keep: "v AND m = v \<Longrightarrow> v AND foldl ?f m e = v" for v m :: nat and e
    by (induction e arbitrary: m) (auto simp: and_absorb_or)
  show ?thesis
    using assms(1)
  proof (induction e arbitrary: m)
    case (Cons q e)
    show ?case
    proof (cases "p = q")
      case True
      have "snd p AND (m OR snd p) = snd p" by (auto simp: bit_eq_iff bit_simps)
      then show ?thesis using True assms(2) keep by (auto split: prod.splits)
    next
      case False
      with Cons show ?thesis by simp
    qed
  qed simp
qed

lemma mask_bound:
  "\<forall>p \<in> set e. snd p \<le> 7 \<Longrightarrow> m \<le> 7 \<Longrightarrow> foldl (\<lambda>m ((kind, qualifier), v). if masked kind qualifier then m OR v else m) m e \<le> (7::nat)"
  by (induction e arbitrary: m) (auto simp: or_bound)


lemma find_acl_rows:
  assumes "bounded_rights e" and "fst k \<noteq> ''mask''"
  shows "rights (acl_rows e) k = map_of e k"
proof -
  let ?m = "foldl (\<lambda>m ((kind, qualifier), v). if masked kind qualifier then m OR v else m) 0 e"
  let ?row = "\<lambda>p :: acl_key \<times> nat. (fst (fst p), snd (fst p), permissions (snd p))"
  have rows: "acl_rows e = map ?row e @ [(''mask'', [], permissions ?m)]" by (simp add: acl_rows_def case_prod_beta)
  have "find (\<lambda>r. fst r = ''mask'') (map ?row e) = None" using assms(1) by (auto simp: find_None_iff bounded_rights_def)
  then have m: "mask_of (acl_rows e) = ?m"
    using mask_bound [of e 0] assms(1) by (simp add: rows find_append mask_of_def bits_permissions bounded_rights_def)
  show ?thesis
  proof (cases "map_of e k")
    case None
    then have "find (\<lambda>r. fst r \<noteq> ''mask'' \<and> row_key r = k) (acl_rows e) = None"
      by (force simp: rows find_None_iff row_key_def map_of_eq_None_iff)
    with None show ?thesis by (simp add: rights_def)
  next
    case (Some v)
    then have kv: "(k, v) \<in> set e" by (rule map_of_SomeD)
    have v: "v \<le> 7" using kv assms(1) by (auto simp: bounded_rights_def)
    have "distinct (map row_key (map ?row e))" using assms(1) by (simp add: bounded_rights_def o_def row_key_def)
    from find_key_mem [OF _ this, of "?row (k, v)"] kv have "find (\<lambda>r. row_key r = k) (map ?row e) = Some (?row (k, v))"
      by (force simp: row_key_def)
    moreover have "find (\<lambda>r. fst r \<noteq> ''mask'' \<and> row_key r = k) (map ?row e) = find (\<lambda>r. row_key r = k) (map ?row e)"
      using assms(2) by (intro find_cong) (auto simp: row_key_def)
    ultimately have "find (\<lambda>r. fst r \<noteq> ''mask'' \<and> row_key r = k) (acl_rows e) = Some (?row (k, v))"
      by (simp add: rows find_append)
    then show ?thesis using Some m v mask_covers [OF kv, of 0] by (simp add: rights_def bits_permissions)
  qed
qed


lemma or_then_and: "(y::nat) AND z = z \<Longrightarrow> (x OR y) AND z = z"
  by (auto simp: bit_eq_iff bit_simps)

lemma map_of_narrowed: "map_of (if b then map (\<lambda>(k, v). (k, f v)) xs else xs) k = map_option (\<lambda>v. if b then f v else v) (map_of xs k)"
  by (cases b) (simp_all add: map_of_map option.map_ident)

text \<open>The rights before the rows are written, and the owner's key in them.\<close>

lemma shared_acl_cases:
  assumes "shared_acl rows owner_uid file_uid directory previous = Inr out" and "distinct (map row_key rows)"
  shows "\<exists>e. keep_previous previous file_uid (effective_of rows (if directory then 7 else 6)) = Inr e
    \<and> (\<exists>f. out = acl_rows f \<and> bounded_rights f) \<and> (\<forall>k. fst k \<noteq> ''mask'' \<longrightarrow> rights out k = map_option (\<lambda>v. if rows \<noteq> [] \<and> previous = None \<and> \<not> directory then v AND 6 else v)
       (if k = owner_key owner_uid file_uid then Some (right_of e k OR (if directory then 7 else 6)) else map_of e k))"
proof -
  let ?allowed = "if directory then 7 else 6 :: nat" and ?k = "owner_key owner_uid file_uid"
  let ?low = "rows \<noteq> [] \<and> previous = None \<and> \<not> directory"
  obtain e where e: "keep_previous previous file_uid (effective_of rows ?allowed) = Inr e"
    using assms(1) by (auto simp: shared_acl_def Let_def)
  have b0: "bounded_rights (effective_of rows ?allowed)" using effective_rights(1) [OF assms(2)] by simp
  have b: "bounded_rights e"
  proof -
    have "v \<le> 7" if "map_of (effective_of rows ?allowed) k = Some v" for k v
      using map_of_SomeD [OF that] b0 by (auto simp: bounded_rights_def)
    then show ?thesis using e b0 by (auto simp: keep_previous_def intro!: bounded_set split: option.splits if_splits)
  qed
  have r: "right_of e k \<le> 7" for k using b by (auto simp: right_of_def bounded_rights_def split: option.splits dest: map_of_SomeD)
  let ?shared = "dict_set ?k (right_of e ?k OR ?allowed) e"
  have bs: "bounded_rights ?shared" using b r by (intro bounded_set) (auto simp: or_bound owner_key_def)
  let ?final = "if ?low then map (\<lambda>(k, v). (k, v AND 6)) ?shared else ?shared"
  have bf: "bounded_rights ?final"
    using bs by (auto simp: bounded_rights_def and_bound o_def case_prod_beta)
  have out: "out = acl_rows ?final" using assms(1) e by (auto simp: shared_acl_def Let_def)
  have "map_of ?final k = map_option (\<lambda>v. if ?low then v AND 6 else v) (map_of ?shared k)" for k
    by (rule map_of_narrowed)
  then have "rights out k = map_option (\<lambda>v. if ?low then v AND 6 else v) (if k = ?k then Some (right_of e k OR ?allowed) else map_of e k)"
    if "fst k \<noteq> ''mask''" for k
    using find_acl_rows [OF bf that] out by (simp add: map_of_dict_set)
  with e bf out show ?thesis by blast
qed

text \<open>
  The list written for a shared file or directory grants every other user, group and class exactly the rights the
  old list granted through its mask, so no latent right is unmasked (a new regular file drops inherited execute
  rights); the replaced owner keeps the owner's rights; and the workspace owner has read and write access, and search
  access to a directory.
\<close>
theorem shared_acl_keeps_rights:
  assumes "shared_acl rows owner_uid file_uid directory previous = Inr out" and "distinct (map row_key rows)" and "fst k \<noteq> ''mask''"
  defines "base \<equiv> base_rows rows (if directory then 7 else 6)"
    and "narrow \<equiv> \<lambda>v. if rows \<noteq> [] \<and> previous = None \<and> \<not> directory then v AND 6 else v"
    and "kept_owner \<equiv> (\<exists>p. previous = Some p \<and> p \<noteq> file_uid \<and> k = (''user'', show_int p))"
  shows "(k \<noteq> owner_key owner_uid file_uid \<and> \<not> kept_owner \<longrightarrow> rights out k = map_option narrow (rights base k))
    \<and> (k \<noteq> owner_key owner_uid file_uid \<and> kept_owner \<longrightarrow> rights out k = rights base (''user'', []))
    \<and> (\<exists>v. rights out (owner_key owner_uid file_uid) = Some v \<and> v AND 6 = 6 \<and> (directory \<longrightarrow> v AND 1 = 1))"
proof -
  let ?allowed = "if directory then 7 else 6 :: nat" and ?o = "owner_key owner_uid file_uid"
  from shared_acl_cases [OF assms(1,2)] obtain e where e: "keep_previous previous file_uid (effective_of rows ?allowed) = Inr e"
    and r: "\<forall>k. fst k \<noteq> ''mask'' \<longrightarrow> rights out k = map_option narrow (if k = ?o then Some (right_of e k OR ?allowed) else map_of e k)"
    unfolding narrow_def by blast
  have base: "map_of (effective_of rows ?allowed) k = rights base k" for k
    unfolding base_def using effective_rights(2) [OF assms(2)] by simp
  have rk: "k \<noteq> ?o \<longrightarrow> rights out k = map_option narrow (map_of e k)" using r [rule_format, OF assms(3)] by simp
  have kp: "map_of e k = (if kept_owner then map_of (effective_of rows ?allowed) (''user'', []) else map_of (effective_of rows ?allowed) k)"
    using e by (auto simp: keep_previous_def kept_owner_def map_of_dict_set split: option.splits if_splits)
  have plain: "kept_owner \<Longrightarrow> narrow = (\<lambda>v. v)" by (auto simp: kept_owner_def narrow_def)
  have others: "k \<noteq> ?o \<and> \<not> kept_owner \<longrightarrow> rights out k = map_option narrow (rights base k)"
    using rk kp base [of k] by simp
  have replaced: "k \<noteq> ?o \<and> kept_owner \<longrightarrow> rights out k = rights base (''user'', [])"
    using rk kp base [of "(''user'', [])"] plain by (auto simp: option.map_ident)
  have o: "fst ?o \<noteq> ''mask''" by (simp add: owner_key_def)
  have "(right_of e ?o OR 6) AND 6 = 6" by (rule or_then_and) simp
  moreover have "((right_of e ?o OR 6) AND 6) AND 6 = 6" by (simp add: and.assoc) (rule or_then_and, simp)
  moreover have "(right_of e ?o OR 7) AND 6 = 6" by (rule or_then_and) simp
  moreover have "(right_of e ?o OR 7) AND 1 = 1" by (rule or_then_and) simp
  ultimately have "\<exists>v. rights out ?o = Some v \<and> v AND 6 = 6 \<and> (directory \<longrightarrow> v AND 1 = 1)"
    using r [rule_format, OF o] by (auto simp: narrow_def)
  with others replaced show ?thesis by blast
qed


definition demo_acl :: "acl_row list" where
  "demo_acl = [(''user'', [], ''rw-''), (''user'', ''1001'', ''rwx''), (''group'', [], ''rwx''), (''mask'', [], ''r--''), (''other'', [], ''---'')]"

definition demo_acl_out :: "acl_row list" where
  "demo_acl_out = [(''user'', [], ''rw-''), (''user'', ''1001'', ''r--''), (''group'', [], ''r--''), (''other'', [], ''---''),
     (''user'', ''1000'', ''rw-''), (''mask'', [], ''rw-'')]"

theorem shared_acl_keeps_rights_witness:
  "shared_acl demo_acl 1000 998 False (Some 1000) = Inr demo_acl_out \<and> rights demo_acl_out (''user'', ''1001'') = Some 4
    \<and> (\<exists>v. rights demo_acl_out (''user'', ''1000'') = Some v \<and> v AND 6 = 6)"
proof -
  have run: "shared_acl demo_acl 1000 998 False (Some 1000) = Inr demo_acl_out" by code_simp
  have d: "distinct (map row_key demo_acl)" by code_simp
  have o: "owner_key 1000 998 = (''user'', ''1000'')" and r: "rights (base_rows demo_acl 6) (''user'', ''1001'') = Some 4"
    and t: "show_int 1000 = ''1000''" by code_simp+
  from shared_acl_keeps_rights [OF run d, of "(''user'', ''1001'')"] run show ?thesis by (auto simp: o r t)
qed


section \<open>The owner can search\<close>

lemma entries_lookup:
  "distinct (map row_key rows) \<Longrightarrow> map_of (foldl (\<lambda>d (kind, qualifier, v). dict_set (kind, qualifier) (bits v) d) d rows) k
     = (case find (\<lambda>r. row_key r = k) rows of None \<Rightarrow> map_of d k | Some (_, _, v) \<Rightarrow> Some (bits v))"
proof (induction rows arbitrary: d)
  case (Cons r rows)
  obtain kind qualifier v where r: "r = (kind, qualifier, v)" by (cases r)
  show ?case
  proof (cases "row_key r = k")
    case True
    then have "k \<notin> row_key ` set rows" using Cons(2) by auto
    then have "find (\<lambda>r. row_key r = k) rows = None" unfolding find_None_iff by blast
    with Cons True r show ?thesis by (simp add: row_key_def map_of_dict_set)
  next
    case False
    then have "map_of (dict_set (kind, qualifier) (bits v) d) k = map_of d k" using r by (auto simp: row_key_def map_of_dict_set)
    with Cons False r show ?thesis by (simp split: option.split)
  qed
qed simp

lemma acl_rows_keys: "bounded_rights f \<Longrightarrow> distinct (map row_key (acl_rows f))"
proof -
  assume f: "bounded_rights f"
  have "map row_key (acl_rows f) = map fst f @ [(''mask'', [])]" by (simp add: acl_rows_def row_key_def case_prod_beta)
  with f show ?thesis by (auto simp: bounded_rights_def)
qed

lemma rights_lookup:
  assumes "bounded_rights f" and "rights (acl_rows f) k = Some v" and "fst k \<noteq> ''mask''"
  obtains kind qualifier w where "find (\<lambda>r. row_key r = k) (acl_rows f) = Some (kind, qualifier, w)" "k = (kind, qualifier)"
    "v = (if masked kind qualifier then bits w AND mask_of (acl_rows f) else bits w)"
proof -
  let ?rows = "acl_rows f"
  have "find (\<lambda>r. fst r \<noteq> ''mask'' \<and> row_key r = k) ?rows = find (\<lambda>r. row_key r = k) ?rows"
    using assms(3) by (intro find_cong) (auto simp: row_key_def)
  then obtain kind qualifier w where w: "find (\<lambda>r. row_key r = k) ?rows = Some (kind, qualifier, w)"
    "v = (if masked kind qualifier then bits w AND mask_of ?rows else bits w)"
    using assms(2) by (auto simp: rights_def split: option.splits)
  moreover have "k = (kind, qualifier)" using find_SomeD [OF w(1)] by (simp add: row_key_def)
  ultimately show thesis using that by blast
qed

lemma acl_rows_mask: "bounded_rights f \<Longrightarrow> \<exists>w. find (\<lambda>r. row_key r = (''mask'', [])) (acl_rows f) = Some (''mask'', [], w) \<and> mask_of (acl_rows f) = bits w"
proof -
  assume f: "bounded_rights f"
  let ?rows = "map (\<lambda>((kind, qualifier), v). (kind, qualifier, permissions v)) f"
  have "find (\<lambda>r. fst r = ''mask'') ?rows = None" "find (\<lambda>r. row_key r = (''mask'', [])) ?rows = None"
    using f by (auto simp: find_None_iff bounded_rights_def row_key_def)
  then show ?thesis by (auto simp: acl_rows_def mask_of_def find_append row_key_def)
qed

text \<open>A shared directory can be searched by the owner of the workspace, whatever groups the owner is in.\<close>

lemma shared_directory_total:
  assumes "shared_acl rows owner_uid st_uid True previous = Inr out" and "distinct (map row_key rows)"
  shows "human_can_traverse out st_uid st_gid groups owner_uid = Inr True"
proof -
  let ?o = "owner_key owner_uid st_uid"
  from shared_acl_cases [OF assms] obtain e f where f: "out = acl_rows f" "bounded_rights f"
    and r: "\<forall>k. fst k \<noteq> ''mask'' \<longrightarrow> rights out k = map_option (\<lambda>v. if rows \<noteq> [] \<and> previous = None \<and> \<not> True then v AND 6 else v)
       (if k = ?o then Some (right_of e k OR (if True then 7 else 6)) else map_of e k)" by blast
  have o: "fst ?o \<noteq> ''mask''" by (simp add: owner_key_def)
  have seven: "(right_of e ?o OR 7) AND 1 = 1" by (rule or_then_and) simp
  have "rights (acl_rows f) ?o = Some (right_of e ?o OR 7)" using r [rule_format, OF o] f(1) by simp
  from rights_lookup [OF f(2) this o] obtain kind qualifier w where w: "find (\<lambda>r. row_key r = ?o) out = Some (kind, qualifier, w)"
    "?o = (kind, qualifier)" "right_of e ?o OR 7 = (if masked kind qualifier then bits w AND mask_of out else bits w)"
    using f(1) by metis
  obtain m where m: "find (\<lambda>r. row_key r = (''mask'', [])) out = Some (''mask'', [], m)" "mask_of out = bits m"
    using acl_rows_mask [OF f(2)] f(1) by blast
  have look: "map_of (foldl (\<lambda>d (kind, qualifier, v). dict_set (kind, qualifier) (bits v) d) [] out) k
      = (case find (\<lambda>r. row_key r = k) out of None \<Rightarrow> None | Some (_, _, v) \<Rightarrow> Some (bits v))" for k
    using entries_lookup [OF acl_rows_keys [OF f(2)], of "[]" k] f(1) by (simp split: option.split)
  show ?thesis
  proof (cases "st_uid = owner_uid")
    case True
    then have "?o = (''user'', [])" by (simp add: owner_key_def)
    with w seven True show ?thesis
      by (auto simp: human_can_traverse_def Let_def look masked_def can_search_def)
  next
    case False
    then have ok: "?o = (''user'', show_int owner_uid)" by (simp add: owner_key_def)
    have ne: "show_int owner_uid \<noteq> []" using decimal_text by (auto simp: show_int_def)
    with w(2) ok have mk: "masked kind qualifier" by (simp add: masked_def)
    with w(1,3) ok m seven False show ?thesis
      by (auto simp: human_can_traverse_def Let_def look can_search_def)
  qed
qed

end
