(* ===== verification/Work_Tree.thy ===== *)
theory Work_Tree
  imports Host_Files Registry
begin

unbundle bit_operations_syntax

text \<open>
  The tree of files under a workspace, as the descriptor-based walks see it, and the two walks over it: the bounded
  listing of \<open>workspaces/bounded.py\<close> and the check of a job's overlay before publication in
  \<open>sandbox/workspace_delta.py\<close>.
\<close>

section \<open>Trees\<close>

text \<open>
  A node: its \<open>lstat\<close> result, the names of its extended attributes, its device number, and what opening it gives:
  \<open>None\<close> when the service may not open it, the entries in the order of the scan when it is a directory.
\<close>

datatype tree = Tree (tree_stat: stat) (tree_attrs: "string list") (tree_rdev: "int \<times> int") (tree_opened: "(string \<times> tree) list option")

type_synonym entries = "(string \<times> tree) list"

definition is_dir :: "tree \<Rightarrow> bool" where
  "is_dir t \<longleftrightarrow> st_type (tree_stat t) = Directory"

definition is_plain :: "tree \<Rightarrow> bool" where
  "is_plain t \<longleftrightarrow> st_type (tree_stat t) = Regular"

definition is_link :: "tree \<Rightarrow> bool" where
  "is_link t \<longleftrightarrow> st_type (tree_stat t) = Symlink"

lemma tree_smaller [termination_simp]: "tree_opened t = Some es \<Longrightarrow> size_list (\<lambda>p. size (snd p)) es < Suc (size t + n)"
proof -
  assume t: "tree_opened t = Some es"
  have "size_list (\<lambda>p. size (snd p)) es \<le> size_list (size_prod (\<lambda>_. 0) size) es"
    by (rule size_list_pointwise) (auto split: prod.splits)
  with t show ?thesis by (cases t) simp
qed

section \<open>The bounded listing\<close>

definition MAX_SCAN_ENTRIES :: nat where
  "MAX_SCAN_ENTRIES = 5000"

definition MAX_SCAN_DEPTH :: int where
  "MAX_SCAN_DEPTH = 16"

definition SKIPPED_DIRS :: "string list" where
  "SKIPPED_DIRS = [''__pycache__'', ''node_modules'', ''venv'', ''.venv'']"

definition child_path :: "string \<Rightarrow> string \<Rightarrow> string" where
  "child_path prefix name = pure_str (path_join prefix name)"

text \<open>\<open>scan\<close>: the counter of visited entries is threaded through; the files it yields are collected.\<close>

fun scan :: "(string \<Rightarrow> bool) \<Rightarrow> bool \<Rightarrow> nat \<Rightarrow> nat \<Rightarrow> string \<Rightarrow> entries \<Rightarrow> nat \<Rightarrow> (nat \<times> string list) result" where
  "scan valid skip_hidden depth level prefix [] visited = Inr (visited, [])"
| "scan valid skip_hidden depth level prefix ((name, t) # es) visited =
     (let relative = child_path prefix name in
      if MAX_SCAN_ENTRIES < visited + 1 then Inl ValueError
      else if is_link t \<or> (skip_hidden \<and> starts_with ''.'' name) then scan valid skip_hidden depth level prefix es (visited + 1)
      else if \<not> valid relative then scan valid skip_hidden depth level prefix es (visited + 1)
      else if is_dir t then
        (if level < depth \<and> name \<notin> set SKIPPED_DIRS then
           (case tree_opened t of
              None \<Rightarrow> scan valid skip_hidden depth level prefix es (visited + 1)
            | Some children \<Rightarrow>
                rbind (scan valid skip_hidden depth (level + 1) relative children (visited + 1)) (\<lambda>(n, files).
                rbind (scan valid skip_hidden depth level prefix es n) (\<lambda>(n', files'). Inr (n', files @ files'))))
         else scan valid skip_hidden depth level prefix es (visited + 1))
      else rbind (scan valid skip_hidden depth level prefix es (visited + 1)) (\<lambda>(n, files).
        Inr (n, if is_plain t then relative # files else files)))"

fun directory_at :: "entries \<Rightarrow> string list \<Rightarrow> entries result" where
  "directory_at es [] = Inr es"
| "directory_at es (part # parts) = (case map_of es part of
       None \<Rightarrow> Inl FileNotFoundError
     | Some t \<Rightarrow> if \<not> is_dir t then Inl OSError
         else (case tree_opened t of None \<Rightarrow> Inl PermissionError | Some children \<Rightarrow> directory_at children parts))"

text \<open>
  \<open>read_workspace_root\<close>: the root as opened, the root as named, and the two views of it: its own entries, and
  those of the read-only projection of a root of another user.
\<close>

record root_view =
  rv_opened :: stat
  rv_named :: stat
  rv_own :: entries
  rv_projection :: "entries result"

definition read_workspace_root :: "int \<Rightarrow> root_view \<Rightarrow> entries result" where
  "read_workspace_root me v =
     (if st_type (rv_opened v) \<noteq> Directory \<or> identity (rv_opened v) \<noteq> identity (rv_named v) then Inl PermissionError
      else if st_uid (rv_opened v) \<noteq> me then rv_projection v
      else Inr (rv_own v))"

definition walk_files :: "host_fs \<Rightarrow> int \<Rightarrow> root_view \<Rightarrow> string \<Rightarrow> string \<Rightarrow> int option \<Rightarrow> bool \<Rightarrow> string list result" where
  "walk_files fs me v root path depth skip_hidden =
     (let depth = (case depth of None \<Rightarrow> MAX_SCAN_DEPTH | Some d \<Rightarrow> d);
          start = normpath (if path = [] then ''.'' else path)
      in if \<not> (0 \<le> depth \<and> depth \<le> MAX_SCAN_DEPTH) then Inl ValueError
         else rbind (validate_workspace_path fs root path True) (\<lambda>_.
           rbind (read_workspace_root me v) (\<lambda>es.
           rbind (directory_at es (pure_parts start)) (\<lambda>es'.
           rbind (scan (\<lambda>p. \<not> isl (validate_workspace_path fs root p False)) skip_hidden (nat depth) 0
                    (let prefix = pure_str start in if prefix = ''.'' then [] else prefix) es' 0) (\<lambda>(_, files). Inr files)))))"

definition list_files :: "registry \<Rightarrow> host_fs \<Rightarrow> int \<Rightarrow> (string \<Rightarrow> root_view) \<Rightarrow> string \<Rightarrow> string \<Rightarrow> int option \<Rightarrow> string list result" where
  "list_files reg fs me view workspace_id path depth = rbind (get reg workspace_id) (\<lambda>ws.
     rbind (walk_files fs me (view (ws_path ws)) (ws_path ws) path depth True) (\<lambda>files. Inr (sort files)))"

section \<open>The check of an overlay\<close>

definition OVERLAY_HARMLESS :: "string list" where
  "OVERLAY_HARMLESS = [''user.overlay.origin'', ''trusted.overlay.origin'', ''user.overlay.uuid'', ''trusted.overlay.uuid'',
     ''user.overlay.impure'', ''trusted.overlay.impure'']"

definition overlay_name :: "string \<Rightarrow> bool" where
  "overlay_name n \<longleftrightarrow> starts_with ''user.overlay.'' n \<or> starts_with ''trusted.overlay.'' n"

definition overlay_metadata :: "string list \<Rightarrow> bool" where
  "overlay_metadata names \<longleftrightarrow> list_ex (\<lambda>n. n \<notin> set OVERLAY_HARMLESS \<and> overlay_name n) names"

definition require_public_path :: "string \<Rightarrow> unit result" where
  "require_public_path p = (if hd (path_parts p) = ''.venv'' then Inl UnsafeDelta
     else case check_sensitive_components p of Inl _ \<Rightarrow> Inl UnsafeDelta | Inr _ \<Rightarrow> Inr ())"

definition MAX_DELTA_FILE :: int where
  "MAX_DELTA_FILE = 64 * 1024 * 1024"

text \<open>Octal 7000: the set-user, set-group and sticky bits.\<close>

definition special_bits :: "stat \<Rightarrow> bool" where
  "special_bits s \<longleftrightarrow> st_mode s AND 3584 \<noteq> 0"

definition ordinary_file :: "stat \<Rightarrow> bool" where
  "ordinary_file s \<longleftrightarrow> st_type s = Regular \<and> st_nlink s = 1 \<and> \<not> special_bits s \<and> st_size s \<le> MAX_DELTA_FILE"

definition whiteout :: "tree \<Rightarrow> bool" where
  "whiteout t \<longleftrightarrow> st_type (tree_stat t) = CharDevice \<and> tree_rdev t = (0, 0)"

definition deletion_ok :: "(string \<times> stat) list \<Rightarrow> string \<Rightarrow> tree \<Rightarrow> bool" where
  "deletion_ok baseline relative t = (case map_of baseline relative of
       None \<Rightarrow> False
     | Some original \<Rightarrow> ordinary_file original \<and> 1 \<le> st_nlink (tree_stat t) \<and> st_mode (tree_stat t) = 0
         \<and> st_size (tree_stat t) = 0 \<and> \<not> list_ex overlay_name (tree_attrs t))"

definition MAX_DELTA_DEPTH :: nat where
  "MAX_DELTA_DEPTH = 128"

text \<open>\<open>inspect\<close>: the remaining budget and the deletions found are threaded through.\<close>

fun inspect :: "(string \<times> stat) list \<Rightarrow> string list \<Rightarrow> nat \<Rightarrow> string list \<Rightarrow> entries \<Rightarrow> nat \<times> string list \<Rightarrow> (nat \<times> string list) result" where
  "inspect baseline births depth parts [] s = Inr s"
| "inspect baseline births depth parts ((name, t) # es) (remaining, deletions) =
     (let here = parts @ [name]; relative = join_with sep here in
      if remaining = 0 then Inl UnsafeDelta
      else if relative \<in> set births then inspect baseline births depth parts es (remaining - 1, deletions)
      else rbind (require_public_path relative) (\<lambda>_.
        if whiteout t then
          (if deletion_ok baseline relative t then inspect baseline births depth parts es (remaining - 1, deletions @ [relative])
           else Inl UnsafeDelta)
        else if is_dir t then
          (case tree_opened t of
             None \<Rightarrow> Inl PermissionError
           | Some children \<Rightarrow>
               if MAX_DELTA_DEPTH < depth + 1 \<or> overlay_metadata (tree_attrs t) then Inl UnsafeDelta
               else rbind (inspect baseline births (depth + 1) here children (remaining - 1, deletions))
                 (\<lambda>s. inspect baseline births depth parts es s))
        else if \<not> ordinary_file (tree_stat t) then Inl UnsafeDelta
        else if tree_opened t = None then Inl PermissionError
        else if overlay_metadata (tree_attrs t) then Inl UnsafeDelta
        else inspect baseline births depth parts es (remaining - 1, deletions)))"

text \<open>
  \<open>births\<close> is the repository-birth capability, when one is given: whether it is the host's own object for this
  overlay, and what its validation returns.
\<close>

definition validate_workspace_delta :: "tree \<Rightarrow> int \<Rightarrow> (string \<times> stat) list option \<Rightarrow> (bool \<times> string list result) option \<Rightarrow> string list result" where
  "validate_workspace_delta root max_entries baseline births =
     (if max_entries \<le> 0 then Inl ValueError
      else rbind (case births of None \<Rightarrow> Inr [] | Some (genuine, r) \<Rightarrow> if genuine then r else Inl UnsafeDelta) (\<lambda>prefixes.
        if \<not> is_dir root then Inl OSError
        else (case tree_opened root of
            None \<Rightarrow> Inl PermissionError
          | Some es \<Rightarrow> if overlay_metadata (tree_attrs root) then Inl UnsafeDelta
              else rbind (inspect (case baseline of None \<Rightarrow> [] | Some b \<Rightarrow> b) prefixes 0 [] es (nat max_entries, []))
                (\<lambda>(_, deletions). Inr deletions))))"


section \<open>What the check of an overlay accepts\<close>

text \<open>Every entry the walk meets when nothing is refused: births, deletions and refused directories are not entered.\<close>

fun delta_entries :: "string list \<Rightarrow> string list \<Rightarrow> entries \<Rightarrow> (string list \<times> tree) list" where
  "delta_entries births parts [] = []"
| "delta_entries births parts ((name, t) # es) = (let here = parts @ [name] in
     (here, t) # (if join_with sep here \<in> set births \<or> whiteout t \<or> \<not> is_dir t then []
                  else (case tree_opened t of None \<Rightarrow> [] | Some children \<Rightarrow> delta_entries births here children))
       @ delta_entries births parts es)"

definition entry_ok :: "(string \<times> stat) list \<Rightarrow> string list \<Rightarrow> string list \<times> tree \<Rightarrow> bool" where
  "entry_ok baseline births = (\<lambda>(here, t). join_with sep here \<in> set births
     \<or> (require_public_path (join_with sep here) = Inr ()
        \<and> (if whiteout t then deletion_ok baseline (join_with sep here) t
           else tree_opened t \<noteq> None \<and> \<not> overlay_metadata (tree_attrs t)
             \<and> (if is_dir t then length here \<le> MAX_DELTA_DEPTH else ordinary_file (tree_stat t)))))"

definition deletion_paths :: "string list \<Rightarrow> (string list \<times> tree) list \<Rightarrow> string list" where
  "deletion_paths births es = map (\<lambda>p. join_with sep (fst p)) (filter (\<lambda>p. whiteout (snd p) \<and> join_with sep (fst p) \<notin> set births) es)"

lemma deletion_paths_simps [simp]:
  "deletion_paths births [] = []"
  "deletion_paths births (p # es) = (if whiteout (snd p) \<and> join_with sep (fst p) \<notin> set births then [join_with sep (fst p)] else []) @ deletion_paths births es"
  "deletion_paths births (es @ fs) = deletion_paths births es @ deletion_paths births fs"
  by (simp_all add: deletion_paths_def)


lemma inspect_exact:
  "depth = length parts \<Longrightarrow> inspect baseline births depth parts es rd = Inr s \<longleftrightarrow>
     (let ds = delta_entries births parts es in length ds \<le> fst rd \<and> list_all (entry_ok baseline births) ds
        \<and> s = (fst rd - length ds, snd rd @ deletion_paths births ds))"
proof (induction baseline births depth parts es rd arbitrary: s rule: inspect.induct)
  case (2 baseline births depth parts name t es remaining deletions)
  let ?r = "join_with sep (parts @ [name])"
  consider (none) "remaining = 0" | (born) "remaining \<noteq> 0" "?r \<in> set births"
    | (hidden) "remaining \<noteq> 0" "?r \<notin> set births" "require_public_path ?r \<noteq> Inr ()"
    | (white) "remaining \<noteq> 0" "?r \<notin> set births" "require_public_path ?r = Inr ()" "whiteout t"
    | (folder) "remaining \<noteq> 0" "?r \<notin> set births" "require_public_path ?r = Inr ()" "\<not> whiteout t" "is_dir t"
    | (plain) "remaining \<noteq> 0" "?r \<notin> set births" "require_public_path ?r = Inr ()" "\<not> whiteout t" "\<not> is_dir t" by blast
  then show ?case
  proof cases
    case born
    then show ?thesis using 2(1) [OF refl refl] 2(6) by (auto simp: Let_def entry_ok_def)
  next
    case white
    then show ?thesis using 2(2) [OF refl refl] 2(6) by (auto simp: Let_def entry_ok_def)
  next
    case folder
    then show ?thesis using 2(3,4) [OF refl refl] 2(6) by (cases "tree_opened t") (auto simp: Let_def entry_ok_def)
  next
    case plain
    then show ?thesis using 2(5) [OF refl refl] 2(6) by (auto simp: Let_def entry_ok_def)
  qed (auto simp: Let_def entry_ok_def)
qed (auto simp: Let_def)

text \<open>The node at the end of a list of names, through directories the service may open.\<close>

fun node_at :: "entries \<Rightarrow> string list \<Rightarrow> tree option" where
  "node_at es [] = None"
| "node_at es (n # ns) = (case map_of es n of
       None \<Rightarrow> None
     | Some t \<Rightarrow> if ns = [] then Some t
         else if is_dir t then (case tree_opened t of None \<Rightarrow> None | Some children \<Rightarrow> node_at children ns) else None)"

lemma whiteout_not_dir: "whiteout t \<Longrightarrow> \<not> is_dir t"
  by (simp add: whiteout_def is_dir_def)

lemma delta_entries_member:
  "(n, t) \<in> set es \<Longrightarrow> (parts @ [n], t) \<in> set (delta_entries births parts es)
     \<and> (is_dir t \<longrightarrow> tree_opened t = Some children \<longrightarrow> join_with sep (parts @ [n]) \<notin> set births
        \<longrightarrow> set (delta_entries births (parts @ [n]) children) \<subseteq> set (delta_entries births parts es))"
  by (induction es) (auto simp: Let_def whiteout_not_dir)

lemma node_at_entry:
  "node_at es names = Some t \<Longrightarrow> \<forall>k. 0 < k \<longrightarrow> k < length names \<longrightarrow> join_with sep (parts @ take k names) \<notin> set births
     \<Longrightarrow> (parts @ names, t) \<in> set (delta_entries births parts es)"
proof (induction es names arbitrary: parts rule: node_at.induct)
  case (2 es n ns)
  then obtain u where u: "map_of es n = Some u" by (auto split: option.splits)
  note m = delta_entries_member [OF map_of_SomeD [OF u], of parts births]
  show ?case
  proof (cases "ns = []")
    case True
    with 2(2) u m show ?thesis by simp
  next
    case False
    with 2(2) u obtain ch where c: "is_dir u" "tree_opened u = Some ch" "node_at ch ns = Some t"
      by (auto split: if_splits option.splits)
    have "join_with sep ((parts @ [n]) @ take k ns) \<notin> set births" if "k < length ns" for k
      using 2(3) [rule_format, of "Suc k"] that by simp
    with 2(1) [OF u False c(1,2,3), of "parts @ [n]"] have "((parts @ [n]) @ ns, t) \<in> set (delta_entries births (parts @ [n]) ch)" by blast
    moreover have "join_with sep (parts @ [n]) \<notin> set births" using 2(3) [rule_format, of 1] False by simp
    ultimately show ?thesis using m c by auto
  qed
qed simp

lemma require_public_path_ok:
  "require_public_path p = Inr () \<longleftrightarrow> hd (path_parts p) \<noteq> ''.venv'' \<and> check_sensitive_components p = Inr ()"
  by (auto simp: require_public_path_def split: sum.splits)

text \<open>What an entry may be; \<open>original\<close> is what the baseline captured under its path.\<close>

definition entry_safe :: "stat option \<Rightarrow> tree \<Rightarrow> bool" where
  "entry_safe original t \<longleftrightarrow>
     (st_type (tree_stat t) = Directory \<and> \<not> overlay_metadata (tree_attrs t))
     \<or> (ordinary_file (tree_stat t) \<and> \<not> overlay_metadata (tree_attrs t))
     \<or> (whiteout t \<and> (\<exists>s. original = Some s \<and> ordinary_file s))"

lemma delta_depth:
  "list_all (entry_ok baseline births) (delta_entries births parts es) \<Longrightarrow> length parts \<le> MAX_DELTA_DEPTH
     \<Longrightarrow> \<forall>p \<in> set (delta_entries births parts es). length (fst p) \<le> MAX_DELTA_DEPTH + 1"
proof (induction births parts es rule: delta_entries.induct)
  case (2 births parts name t es)
  let ?here = "parts @ [name]"
  show ?case
  proof (cases "join_with sep ?here \<in> set births \<or> whiteout t \<or> \<not> is_dir t \<or> tree_opened t = None")
    case True
    with 2(2,3,4) show ?thesis by (auto simp: Let_def)
  next
    case False
    then obtain ch where ch: "tree_opened t = Some ch" by blast
    with False 2(3) have "length ?here \<le> MAX_DELTA_DEPTH" by (auto simp: Let_def entry_ok_def)
    with False ch 2(1) [OF refl _ ch] 2(2,3,4) show ?thesis by (auto simp: Let_def)
  qed
qed simp

lemma entry_ok_safe:
  "entry_ok (case baseline of None \<Rightarrow> [] | Some b \<Rightarrow> b) births (names, t) \<Longrightarrow> join_with sep names \<notin> set births \<Longrightarrow>
     entry_safe (case baseline of None \<Rightarrow> None | Some b \<Rightarrow> map_of b (join_with sep names)) t"
  by (auto simp: entry_ok_def entry_safe_def deletion_ok_def is_dir_def split: if_splits option.splits)

text \<open>
  An overlay that passes the check is within the entry budget, and every entry of it outside the validated newborn
  repositories has a public path and is a directory or an ordinary single-link file of bounded size without special
  bits or overlay metadata, or a deletion of an ordinary file the baseline captured; the deletions returned are exactly
  these last.
\<close>
theorem overlay_delta_safe:
  assumes "validate_workspace_delta root max_entries baseline births = Inr deletions"
  shows "\<exists>born es. tree_opened root = Some es \<and> (births = None \<longrightarrow> born = []) \<and> (\<forall>r. births = Some r \<longrightarrow> r = (True, Inr born))
    \<and> int (length (delta_entries born [] es)) \<le> max_entries
    \<and> (\<forall>names t. node_at es names = Some t \<longrightarrow> (\<forall>k \<in> {1..length names}. join_with sep (take k names) \<notin> set born) \<longrightarrow>
        (let p = join_with sep names in
          length names \<le> MAX_DELTA_DEPTH + 1 \<and> hd (path_parts p) \<noteq> ''.venv'' \<and> (\<forall>c \<in> set (path_parts p). \<not> sensitive_component c)
          \<and> entry_safe (case baseline of None \<Rightarrow> None | Some b \<Rightarrow> map_of b p) t \<and> (whiteout t \<longrightarrow> p \<in> set deletions)))
    \<and> (\<forall>p \<in> set deletions. \<exists>b s. baseline = Some b \<and> map_of b p = Some s \<and> ordinary_file s)"
proof -
  let ?base = "case baseline of None \<Rightarrow> [] | Some b \<Rightarrow> b"
  from assms obtain born es n where born: "births = None \<longrightarrow> born = []" "\<forall>r. births = Some r \<longrightarrow> r = (True, Inr born)"
    and es: "tree_opened root = Some es" and max: "0 < max_entries"
    and run: "inspect ?base born 0 [] es (nat max_entries, []) = Inr (n, deletions)"
    by (auto simp: validate_workspace_delta_def split: option.splits if_splits prod.splits)
  define ds where "ds = delta_entries born [] es"
  from run have len: "length ds \<le> nat max_entries" and ok: "list_all (entry_ok ?base born) ds" and del: "deletions = deletion_paths born ds"
    by (auto simp: inspect_exact ds_def Let_def)
  have deep: "\<forall>p \<in> set ds. length (fst p) \<le> MAX_DELTA_DEPTH + 1"
    using delta_depth [of ?base born "[]" es] ok by (simp add: ds_def)
  have entries: "let p = join_with sep names in length names \<le> MAX_DELTA_DEPTH + 1 \<and> hd (path_parts p) \<noteq> ''.venv''
      \<and> (\<forall>c \<in> set (path_parts p). \<not> sensitive_component c)
      \<and> entry_safe (case baseline of None \<Rightarrow> None | Some b \<Rightarrow> map_of b p) t \<and> (whiteout t \<longrightarrow> p \<in> set deletions)"
    if at: "node_at es names = Some t" and free: "\<forall>k \<in> {1..length names}. join_with sep (take k names) \<notin> set born" for names t
  proof -
    have "names \<noteq> []" using at by auto
    then have "length names \<in> {1..length names}" by (simp add: Suc_leI)
    with free have nb: "join_with sep names \<notin> set born" by fastforce
    have mem: "(names, t) \<in> set ds" using node_at_entry [OF at, of "[]" born] free by (simp add: ds_def)
    then have e: "entry_ok ?base born (names, t)" using ok by (auto simp: list_all_iff)
    then have "require_public_path (join_with sep names) = Inr ()" using nb by (simp add: entry_ok_def)
    moreover have "whiteout t \<longrightarrow> join_with sep names \<in> set deletions"
      using mem nb by (force simp: del deletion_paths_def)
    moreover have "length names \<le> MAX_DELTA_DEPTH + 1" using deep mem by fastforce
    moreover note entry_ok_safe [OF e nb]
    moreover have "\<forall>c \<in> set (path_parts (join_with sep names)). \<not> sensitive_component c"
      using calculation(1) by (intro check_sensitive_ok_parts [of _ "()"]) (simp add: require_public_path_ok)
    ultimately show ?thesis by (simp add: Let_def require_public_path_ok)
  qed
  have captured: "\<exists>b s. baseline = Some b \<and> map_of b p = Some s \<and> ordinary_file s" if "p \<in> set deletions" for p
  proof -
    from that obtain names t where m: "(names, t) \<in> set ds" "whiteout t" "p = join_with sep names" "p \<notin> set born"
      by (auto simp: del deletion_paths_def)
    with ok have "entry_ok ?base born (names, t)" by (auto simp: list_all_iff)
    with m have "deletion_ok ?base p t" by (simp add: entry_ok_def)
    then show ?thesis by (auto simp: deletion_ok_def split: option.splits)
  qed
  have "int (length ds) \<le> max_entries" using len max by simp
  then show ?thesis unfolding ds_def using born es
    by (intro exI [of _ born] exI [of _ es] conjI allI impI ballI) (assumption | rule entries captured | simp)+
qed

section \<open>What the listing returns\<close>

definition path_of :: "string \<Rightarrow> string list \<Rightarrow> string" where
  "path_of prefix names = foldl child_path prefix names"

text \<open>Names are distinct in every directory.\<close>

fun well_named :: "entries \<Rightarrow> bool" where
  "well_named [] = True"
| "well_named ((n, t) # es) = (n \<notin> fst ` set es \<and> (case tree_opened t of None \<Rightarrow> True | Some children \<Rightarrow> well_named children) \<and> well_named es)"

fun listed :: "(string \<Rightarrow> bool) \<Rightarrow> bool \<Rightarrow> nat \<Rightarrow> string \<Rightarrow> entries \<Rightarrow> string list \<Rightarrow> string \<Rightarrow> bool" where
  "listed valid skip_hidden left prefix es [] p = False"
| "listed valid skip_hidden left prefix es (n # ns) p = (case map_of es n of
       None \<Rightarrow> False
     | Some t \<Rightarrow> let rel = child_path prefix n in
         \<not> is_link t \<and> \<not> (skip_hidden \<and> starts_with ''.'' n) \<and> valid rel
         \<and> (if ns = [] then is_plain t \<and> p = rel
            else is_dir t \<and> left \<noteq> 0 \<and> n \<notin> set SKIPPED_DIRS
              \<and> (case tree_opened t of None \<Rightarrow> False | Some children \<Rightarrow> listed valid skip_hidden (left - 1) rel children ns p)))"

lemma listed_Cons:
  assumes "n \<notin> fst ` set es"
  shows "(\<exists>ns. listed valid sh left prefix ((n, t) # es) ns p) \<longleftrightarrow>
     (\<exists>ns. listed valid sh left prefix [(n, t)] (n # ns) p) \<or> (\<exists>ns. listed valid sh left prefix es ns p)"
proof -
  have other: "listed valid sh left prefix ((n, t) # es) (m # ns) p = listed valid sh left prefix es (m # ns) p" if "m \<noteq> n" for m ns
    using that by simp
  have none: "\<not> listed valid sh left prefix es (n # ns) p" for ns
    using assms by (simp add: map_of_eq_None_iff [THEN iffD2])
  have this_one: "listed valid sh left prefix ((n, t) # es) (n # ns) p = listed valid sh left prefix [(n, t)] (n # ns) p" for ns
    by simp
  show ?thesis
    by (metis listed.simps(1) list.exhaust none other this_one)
qed

lemma scan_listed:
  "scan valid sh depth level prefix es visited = Inr (n, files) \<Longrightarrow> well_named es \<Longrightarrow>
     p \<in> set files \<longleftrightarrow> (\<exists>ns. listed valid sh (depth - level) prefix es ns p)"
proof (induction valid sh depth level prefix es visited arbitrary: n files rule: scan.induct)
  case (1 valid sh depth level prefix visited)
  have "\<not> listed valid sh (depth - level) prefix [] ns p" for ns by (cases ns) auto
  with 1 show ?case by simp
next
  case (2 valid sh depth level prefix name t es visited)
  let ?rel = "child_path prefix name" and ?left = "depth - level"
  let ?head = "\<exists>ns. listed valid sh ?left prefix [(name, t)] (name # ns) p"
  let ?rest = "\<exists>ns. listed valid sh ?left prefix es ns p"
  have split: "(\<exists>ns. listed valid sh ?left prefix ((name, t) # es) ns p) \<longleftrightarrow> ?head \<or> ?rest"
    using 2(9) by (intro listed_Cons) simp
  have wn: "well_named es" using 2(9) by simp
  have v: "\<not> MAX_SCAN_ENTRIES < visited + 1" using 2(8) by (auto simp: Let_def split: if_splits)
  consider (skip) "is_link t \<or> sh \<and> starts_with ''.'' name \<or> \<not> valid ?rel"
    | (enter) ch where "\<not> (is_link t \<or> sh \<and> starts_with ''.'' name)" "valid ?rel" "is_dir t" "level < depth \<and> name \<notin> set SKIPPED_DIRS" "tree_opened t = Some ch"
    | (shut) "\<not> (is_link t \<or> sh \<and> starts_with ''.'' name)" "valid ?rel" "is_dir t" "\<not> (level < depth \<and> name \<notin> set SKIPPED_DIRS) \<or> tree_opened t = None"
    | (leaf) "\<not> (is_link t \<or> sh \<and> starts_with ''.'' name)" "valid ?rel" "\<not> is_dir t" by blast
  then show ?case
  proof cases
    case skip
    then have h: "\<not> ?head" by (auto simp: Let_def)
    from skip 2(8) v have "scan valid sh depth level prefix es (visited + 1) = Inr (n, files)" by (auto simp: Let_def split: if_splits)
    then have "p \<in> set files \<longleftrightarrow> ?rest" using skip v 2(1,2) [OF refl] wn by (cases "is_link t \<or> sh \<and> starts_with ''.'' name") auto
    with split h show ?thesis by simp
  next
    case enter
    with 2(8) v obtain n1 f1 f2 where c: "scan valid sh depth (level + 1) ?rel ch (visited + 1) = Inr (n1, f1)"
      "scan valid sh depth level prefix es n1 = Inr (n, f2)" "files = f1 @ f2"
      by (auto simp: Let_def)
    have "well_named ch" using 2(9) enter(5) by simp
    with 2(4) [OF refl v enter(1) _ enter(3,4,5) c(1)] enter(2)
    have a: "p \<in> set f1 \<longleftrightarrow> (\<exists>ns. listed valid sh (depth - (level + 1)) ?rel ch ns p)" by simp
    have "?head \<longleftrightarrow> (\<exists>ns. listed valid sh (?left - 1) ?rel ch ns p)"
    proof
      assume "\<exists>ns. listed valid sh (?left - 1) ?rel ch ns p"
      then obtain ns where "listed valid sh (?left - 1) ?rel ch ns p" "ns \<noteq> []" by fastforce
      with enter show ?head by (intro exI [of _ ns]) (simp add: Let_def)
    next
      assume ?head
      with enter show "\<exists>ns. listed valid sh (?left - 1) ?rel ch ns p"
        by (auto simp: Let_def is_dir_def is_plain_def split: if_splits)
    qed
    moreover have "p \<in> set f2 \<longleftrightarrow> ?rest" using 2(5) [OF refl v enter(1) _ enter(3,4,5) c(2) wn] enter(2) by simp
    ultimately show ?thesis using split a c(3) by auto
  next
    case shut
    then have h: "\<not> ?head" by (auto simp: Let_def is_dir_def is_plain_def split: if_splits)
    from shut 2(8) v have "scan valid sh depth level prefix es (visited + 1) = Inr (n, files)"
      by (auto simp: Let_def split: if_splits)
    then have "p \<in> set files \<longleftrightarrow> ?rest" using shut v 2(3,6) [OF refl v shut(1) _ shut(3)] wn
      by (cases "level < depth \<and> name \<notin> set SKIPPED_DIRS") auto
    with split h show ?thesis by simp
  next
    case leaf
    with 2(8) v obtain f1 where f: "scan valid sh depth level prefix es (visited + 1) = Inr (n, f1)"
      "files = (if is_plain t then ?rel # f1 else f1)" by (auto simp: Let_def)
    have "?head \<longleftrightarrow> is_plain t \<and> p = ?rel" using leaf by (auto simp: Let_def intro: exI [of _ "[]"])
    moreover have "p \<in> set f1 \<longleftrightarrow> ?rest" using 2(7) [OF refl v leaf(1) _ leaf(3) f(1) wn] leaf(2) by simp
    ultimately show ?thesis using split f(2) by auto
  qed
qed

text \<open>The same without recursion: the names lead to an ordinary file, and each of them may be shown.\<close>

definition shown :: "(string \<Rightarrow> bool) \<Rightarrow> bool \<Rightarrow> nat \<Rightarrow> string \<Rightarrow> string list \<Rightarrow> bool" where
  "shown valid skip_hidden depth prefix names \<longleftrightarrow> length names \<le> Suc depth
     \<and> (\<forall>n \<in> set names. \<not> (skip_hidden \<and> starts_with ''.'' n)) \<and> (\<forall>n \<in> set (butlast names). n \<notin> set SKIPPED_DIRS)
     \<and> (\<forall>k. k < length names \<longrightarrow> valid (path_of prefix (take (Suc k) names)))"

lemma shown_Cons:
  "shown valid sh left prefix (n # ns) \<longleftrightarrow> \<not> (sh \<and> starts_with ''.'' n) \<and> valid (child_path prefix n)
     \<and> (ns = [] \<or> (left \<noteq> 0 \<and> n \<notin> set SKIPPED_DIRS \<and> shown valid sh (left - 1) (child_path prefix n) ns))"
proof (cases ns)
  case Nil
  then show ?thesis by (auto simp: shown_def path_of_def)
next
  case (Cons m ms)
  have "(\<forall>k. k < Suc (length ns) \<longrightarrow> valid (path_of prefix (take (Suc k) (n # ns))))
    \<longleftrightarrow> valid (child_path prefix n) \<and> (\<forall>k. k < length ns \<longrightarrow> valid (path_of (child_path prefix n) (take (Suc k) ns)))"
    by (auto simp: path_of_def All_less_Suc2)
  then show ?thesis using Cons by (auto simp: shown_def)
qed

lemma listed_node_at:
  "listed valid sh left prefix es ns p \<longleftrightarrow>
     (\<exists>t. node_at es ns = Some t \<and> is_plain t) \<and> p = path_of prefix ns \<and> shown valid sh left prefix ns"
proof (induction valid sh left prefix es ns p rule: listed.induct)
  case (2 valid sh left prefix es n ns p)
  show ?case
  proof (cases "map_of es n")
    case (Some t)
    show ?thesis
    proof (cases "ns = []")
      case True
      with Some show ?thesis by (auto simp: Let_def shown_Cons path_of_def is_plain_def is_link_def)
    next
      case False
      show ?thesis
      proof (cases "is_dir t \<and> tree_opened t \<noteq> None")
        case True
        then obtain ch where ch: "is_dir t" "tree_opened t = Some ch" by blast
        have link: "\<not> is_link t" using ch(1) by (simp add: is_link_def is_dir_def)
        have cond: "ns \<noteq> []" using False .
        show ?thesis using 2 [OF Some refl cond ch(2)] Some False ch link
          by (auto simp: Let_def shown_Cons path_of_def)
      next
        case False
        with Some \<open>ns \<noteq> []\<close> show ?thesis by (auto simp: Let_def split: option.splits)
      qed
    qed
  qed simp
qed simp

lemma scan_bounded:
  "scan valid sh depth level prefix es visited = Inr (n, files) \<Longrightarrow> visited + length files \<le> n \<and> (visited \<le> MAX_SCAN_ENTRIES \<longrightarrow> n \<le> MAX_SCAN_ENTRIES)"
proof (induction valid sh depth level prefix es visited arbitrary: n files rule: scan.induct)
  case (2 valid sh depth level prefix name t es visited)
  let ?rel = "child_path prefix name"
  have v: "\<not> MAX_SCAN_ENTRIES < visited + 1" using 2(8) by (auto simp: Let_def split: if_splits)
  show ?case
  proof (cases "is_link t \<or> sh \<and> starts_with ''.'' name")
    case True
    then show ?thesis using 2(1) [OF refl v True, of n files] 2(8) v by (auto simp: Let_def)
  next
    case plain: False
    show ?thesis
    proof (cases "valid ?rel")
      case False
      then show ?thesis using 2(2) [OF refl v plain False, of n files] 2(8) v plain by (auto simp: Let_def)
    next
      case True
      then have ok: "\<not> \<not> valid ?rel" by simp
      show ?thesis
      proof (cases "is_dir t")
        case dir: True
        show ?thesis
        proof (cases "level < depth \<and> name \<notin> set SKIPPED_DIRS")
          case enter: True
          show ?thesis
          proof (cases "tree_opened t")
            case None
            then show ?thesis using 2(3) [OF refl v plain ok dir enter None, of n files] 2(8) v plain ok dir enter by (auto simp: Let_def)
          next
            case (Some ch)
            with 2(8) v plain ok dir enter obtain n1 f1 f2 where c: "scan valid sh depth (level + 1) ?rel ch (visited + 1) = Inr (n1, f1)"
              "scan valid sh depth level prefix es n1 = Inr (n, f2)" "files = f1 @ f2" by (auto simp: Let_def)
            from 2(4) [OF refl v plain ok dir enter Some c(1)] 2(5) [OF refl v plain ok dir enter Some c(2)] c(3) v show ?thesis by auto
          qed
        next
          case False
          then show ?thesis using 2(6) [OF refl v plain ok dir False, of n files] 2(8) v plain ok dir by (auto simp: Let_def)
        qed
      next
        case False
        then show ?thesis using 2(7) [OF refl v plain ok False] 2(8) v plain ok by (fastforce simp: Let_def split: if_splits)
      qed
    qed
  qed
qed simp

text \<open>
  C40.  In a well-named tree - the entries of a directory have unique, nonempty names without slashes - a file listing
  returns exactly the ordinary files within the depth below the requested directory that are reached through real
  directories only, never through a symbolic link, a hidden name or a skipped directory, and whose path and every
  directory on it pass the workspace path check; it is sorted, and every path of it passes the check that reading a
  file makes.
\<close>
theorem listing_exact:
  assumes "list_files reg fs me view workspace_id path depth = Inr files"
  defines "start \<equiv> normpath (if path = [] then ''.'' else path)"
  shows "\<exists>ws all es d. get reg workspace_id = Inr ws \<and> read_workspace_root me (view (ws_path ws)) = Inr all
    \<and> directory_at all (pure_parts start) = Inr es \<and> 0 \<le> d \<and> d \<le> 16 \<and> (depth = None \<longrightarrow> d = 16) \<and> (\<forall>i. depth = Some i \<longrightarrow> d = i)
    \<and> sorted files \<and> length files \<le> 5000
    \<and> (well_named es \<longrightarrow> (\<forall>p. p \<in> set files \<longleftrightarrow> (\<exists>names t. node_at es names = Some t \<and> is_plain t
        \<and> p = path_of (if pure_str start = ''.'' then [] else pure_str start) names
        \<and> shown (\<lambda>p. \<exists>target. validate_workspace_path fs (ws_path ws) p False = Inr target) True (nat d)
            (if pure_str start = ''.'' then [] else pure_str start) names)))"
proof -
  from assms obtain ws listing where ws: "get reg workspace_id = Inr ws" and files: "files = sort listing"
    and walk: "walk_files fs me (view (ws_path ws)) (ws_path ws) path depth True = Inr listing"
    by (auto simp: list_files_def)
  define d where "d = (case depth of None \<Rightarrow> MAX_SCAN_DEPTH | Some d \<Rightarrow> d)"
  let ?prefix = "if pure_str start = ''.'' then [] else pure_str start"
  have valid: "(\<lambda>p. \<not> isl (validate_workspace_path fs (ws_path ws) p False)) = (\<lambda>p. \<exists>target. validate_workspace_path fs (ws_path ws) p False = Inr target)"
    by (intro ext) (auto simp: isl_def split: sum.splits, metis sum.exhaust)
  from walk obtain all es n where r: "read_workspace_root me (view (ws_path ws)) = Inr all" "directory_at all (pure_parts start) = Inr es"
    and d: "0 \<le> d" "d \<le> MAX_SCAN_DEPTH"
    and s: "scan (\<lambda>p. \<exists>target. validate_workspace_path fs (ws_path ws) p False = Inr target) True (nat d) 0 ?prefix es 0 = Inr (n, listing)"
    by (auto simp: walk_files_def Let_def valid d_def [symmetric] start_def [symmetric] split: if_splits prod.splits)
  have "p \<in> set files \<longleftrightarrow> (\<exists>names t. node_at es names = Some t \<and> is_plain t \<and> p = path_of ?prefix names
      \<and> shown (\<lambda>p. \<exists>target. validate_workspace_path fs (ws_path ws) p False = Inr target) True (nat d) ?prefix names)" if "well_named es" for p
    using scan_listed [OF s that, of p] by (simp add: files listed_node_at) blast
  moreover have "length files \<le> 5000" using scan_bounded [OF s] files by (simp add: MAX_SCAN_ENTRIES_def)
  ultimately show ?thesis using ws r d files by (intro exI [of _ ws] exI [of _ all] exI [of _ es] exI [of _ d]) (auto simp: d_def MAX_SCAN_DEPTH_def)
qed

section \<open>An instance\<close>

definition node_stat :: "file_type \<Rightarrow> int \<Rightarrow> stat" where
  "node_stat ty size' = \<lparr>st_type = ty, st_mode = 0, st_uid = 1000, st_gid = 1000, st_dev = 1, st_ino = 7, st_nlink = 1,
     st_size = size', st_mtime_ns = 0, st_ctime_ns = 0\<rparr>"

definition demo_tree :: entries where
  "demo_tree = [(''src'', Tree (node_stat Directory 0) [] (0, 0) (Some [(''a.py'', Tree (node_stat Regular 3) [] (0, 0) (Some []))])),
     (''id_rsa'', Tree (node_stat Regular 9) [] (0, 0) (Some [])), (''out'', Tree (node_stat Symlink 4) [] (0, 0) None),
     (''a'', Tree (node_stat Regular 2) [] (0, 0) (Some []))]"

definition demo_view :: root_view where
  "demo_view = \<lparr>rv_opened = node_stat Directory 0, rv_named = node_stat Directory 0, rv_own = demo_tree, rv_projection = Inl PermissionError\<rparr>"

definition demo_project :: workspace where
  "demo_project = \<lparr>ws_id = ''w'', ws_path = ''/srv/w'', writable = True, description = [], allow_execute = True, allow_git = True,
     allow_artifacts = True, allow_agent_dispatch = False, auto_discover = False, local_http_ports = []\<rparr>"

theorem listing_exact_witness:
  "list_files [(''w'', demo_project)] \<lparr>fs_links = [], fs_cwd = []\<rparr> 1000 (\<lambda>_. demo_view) ''w'' [] (Some 1) = Inr [''a'', ''src/a.py'']
    \<and> (\<exists>names t. node_at demo_tree names = Some t \<and> is_plain t \<and> ''src/a.py'' = path_of [] names)"
proof -
  let ?fs = "\<lparr>fs_links = [], fs_cwd = []\<rparr>"
  have run: "list_files [(''w'', demo_project)] ?fs 1000 (\<lambda>_. demo_view) ''w'' [] (Some 1) = Inr [''a'', ''src/a.py'']"
    by code_simp
  have n: "normpath ''.'' = ''.''" "pure_str ''.'' = ''.''" "pure_parts ''.'' = []" and w: "well_named demo_tree"
    and r: "read_workspace_root 1000 demo_view = Inr demo_tree" by code_simp+
  have s: "normpath (if ([] :: string) = [] then ''.'' else []) = ''.''" by (simp add: n)
  from listing_exact [OF run, unfolded s n r if_P [OF refl]] show ?thesis
  proof (elim exE conjE)
    fix ws all es d
    assume e: "Inr demo_tree = (Inr all :: entries result)" "directory_at all [] = Inr es"
      and iff: "well_named es \<longrightarrow> (\<forall>p. p \<in> set [''a'', ''src/a.py''] \<longleftrightarrow> (\<exists>names t. node_at es names = Some t \<and> is_plain t \<and> p = path_of [] names
         \<and> shown (\<lambda>p. \<exists>target. validate_workspace_path ?fs (ws_path ws) p False = Inr target) True (nat d) [] names))"
    have "es = demo_tree" using e by simp
    then have "\<exists>names t. node_at demo_tree names = Some t \<and> is_plain t \<and> ''src/a.py'' = path_of [] names"
      using iff [THEN mp, THEN spec, of "''src/a.py''"] w by (simp del: node_at.simps) blast
    with run show ?thesis by blast
  qed
qed

theorem overlay_delta_safe_witness:
  "\<exists>deletions. validate_workspace_delta
      (Tree (node_stat Directory 0) [] (0, 0) (Some [(''old.py'', Tree (node_stat CharDevice 0) [] (0, 0) (Some [])), (''a.py'', Tree (node_stat Regular 2) [''user.overlay.origin''] (0, 0) (Some []))]))
      10 (Some [(''old.py'', node_stat Regular 5)]) None = Inr deletions
    \<and> ''old.py'' \<in> set deletions \<and> (\<forall>p \<in> set deletions. p = ''old.py'')"
proof -
  let ?es = "[(''old.py'', Tree (node_stat CharDevice 0) [] (0, 0) (Some [])), (''a.py'', Tree (node_stat Regular 2) [''user.overlay.origin''] (0, 0) (Some []))]"
  let ?root = "Tree (node_stat Directory 0) [] (0, 0) (Some ?es)"
  have run: "validate_workspace_delta ?root 10 (Some [(''old.py'', node_stat Regular 5)]) None = Inr [''old.py'']" by code_simp
  have at: "node_at ?es [''old.py''] = Some (Tree (node_stat CharDevice 0) [] (0, 0) (Some []))" by simp
  have w: "whiteout (Tree (node_stat CharDevice 0) [] (0, 0) (Some []))" by (simp add: whiteout_def node_stat_def)
  have open': "tree_opened ?root = Some es \<longleftrightarrow> es = ?es" for es by auto
  from overlay_delta_safe [OF run] have "\<forall>p \<in> set [''old.py'']. \<exists>b s. Some [(''old.py'', node_stat Regular 5)] = Some b \<and> map_of b p = Some s \<and> ordinary_file s"
    by blast
  with run show ?thesis by (intro exI [of _ "[''old.py'']"]) simp
qed

end
