(* ===== verification/Work_Files.thy ===== *)
theory Work_Files
  imports Work_Tree Sockets Scoped_HTTPS
begin

text \<open>
  Reading a file: the bounded read of \<open>workspaces/bounded.py\<close>, which refuses a file that changes under it, and the
  \<open>read_file\<close> tool of \<open>tools/files.py\<close> with its line ranges.  A text is the list of its code points.  A file whose
  bytes are not UTF-8 is outside the model: the tool decodes it with replacement characters.
\<close>

section \<open>Bounded reads\<close>

definition MAX_FULL_READ_BYTES :: nat where
  "MAX_FULL_READ_BYTES = 1024 * 1024"

definition MAX_RANGE_LINES :: int where
  "MAX_RANGE_LINES = 5000"

definition MAX_HASH_READ_BYTES :: nat where
  "MAX_HASH_READ_BYTES = 8 * 1024 * 1024"

text \<open>The read loop: at most one byte more than the limit is asked for.\<close>

function read_loop :: "nat \<Rightarrow> string \<Rightarrow> io_event list \<Rightarrow> string result" where
  "read_loop limit data es =
     (if limit < length data then Inr data
      else (case recv (min 65536 (limit + 1 - length data)) es of
          (Inl e, _) \<Rightarrow> Inl e
        | (Inr chunk, es') \<Rightarrow> if chunk = [] then Inr data else read_loop limit (data @ chunk) es'))"
  by pat_completeness auto
termination
  by (relation "measure (\<lambda>(limit, data, es). limit + 1 - length data)") (auto intro!: diff_less_mono2)

declare read_loop.simps [simp del]

definition file_identity :: "stat \<Rightarrow> int \<times> int \<times> int \<times> int \<times> int" where
  "file_identity s = (st_dev s, st_ino s, st_size s, st_mtime_ns s, st_ctime_ns s)"

text \<open>Opening the last component without following a link.\<close>

definition open_file :: "entries \<Rightarrow> string \<Rightarrow> stat result" where
  "open_file es name = (case map_of es name of
       None \<Rightarrow> Inl FileNotFoundError
     | Some t \<Rightarrow> if is_link t then Inl OSError else if tree_opened t = None then Inl PermissionError else Inr (tree_stat t))"

text \<open>What happens to the opened file: the blocks its reads return and its state afterwards.\<close>

type_synonym file_run = "io_event list \<times> stat"

definition read_regular_at :: "entries \<Rightarrow> file_run \<Rightarrow> string \<Rightarrow> nat \<Rightarrow> string result" where
  "read_regular_at root reads path limit =
     (let parts = pure_parts (normpath path) in
      rbind (directory_at root (butlast parts)) (\<lambda>es.
      rbind (if parts = [] then Inl FileNotFoundError else open_file es (last parts)) (\<lambda>opened.
      if st_type opened \<noteq> Regular \<or> st_nlink opened \<noteq> 1 then Inl ValueError
      else if int limit < st_size opened then Inl ValueError
      else rbind (read_loop limit [] (fst reads)) (\<lambda>data.
        if limit < length data \<or> int (length data) \<noteq> st_size opened \<or> file_identity opened \<noteq> file_identity (snd reads) then Inl ValueError
        else Inr data))))"

definition read_regular :: "host_fs \<Rightarrow> int \<Rightarrow> root_view \<Rightarrow> file_run \<Rightarrow> string \<Rightarrow> string \<Rightarrow> nat \<Rightarrow> string result" where
  "read_regular fs me v reads root path limit = rbind (validate_workspace_path fs root path False) (\<lambda>_.
     rbind (read_workspace_root me v) (\<lambda>es. read_regular_at es reads path limit))"

section \<open>Lines\<close>

definition decode_text :: "string \<Rightarrow> nat list result" where
  "decode_text data = (case utf8_points (map char_code data) of None \<Rightarrow> Inl OutsideModel | Some ps \<Rightarrow> Inr ps)"

definition encoded_size :: "nat list \<Rightarrow> nat" where
  "encoded_size ps = sum_list (map (\<lambda>p. if p < 128 then 1 else if p < 2048 then 2 else if p < 65536 then 3 else 4) ps)"

definition line_break :: "nat \<Rightarrow> bool" where
  "line_break p \<longleftrightarrow> p \<in> set [10, 11, 12, 13, 28, 29, 30, 133, 8232, 8233]"

text \<open>\<open>str.splitlines(keepends=True)\<close>\<close>

fun lines_kept :: "nat list \<Rightarrow> nat list list" where
  "lines_kept [] = []"
| "lines_kept (p # ps) =
     (if p = 13 \<and> ps \<noteq> [] \<and> hd ps = 10 then [13, 10] # lines_kept (tl ps)
      else if line_break p then [p] # lines_kept ps
      else (case lines_kept ps of [] \<Rightarrow> [[p]] | l # ls \<Rightarrow> (p # l) # ls))"

record file_page =
  fp_path :: string
  fp_content :: "nat list"
  fp_sha256 :: string
  fp_size :: nat
  fp_total :: nat
  fp_start :: int
  fp_end :: int

definition selected :: "int \<Rightarrow> int \<Rightarrow> nat list list \<Rightarrow> nat list list" where
  "selected start stop ls = map snd (filter (\<lambda>(i, l). start \<le> i \<and> i \<le> stop) (zip [1..int (length ls)] ls))"

definition read_page :: "(string \<Rightarrow> string) \<Rightarrow> string \<Rightarrow> string \<Rightarrow> int option \<Rightarrow> int option \<Rightarrow> file_page result" where
  "read_page sha path data start_line end_line = rbind (decode_text data) (\<lambda>content.
     let ls = lines_kept content; total = length ls;
         page = (\<lambda>c a b. \<lparr>fp_path = path, fp_content = c, fp_sha256 = sha data, fp_size = length data, fp_total = total, fp_start = a, fp_end = b\<rparr>)
     in if start_line = None \<and> end_line = None then
          (if MAX_FULL_READ_BYTES < length data then Inl ValueError
           else if MAX_FULL_READ_BYTES < encoded_size content then Inl ValueError
           else Inr (page content 1 (int total)))
        else
          (let start = (case start_line of None \<Rightarrow> 1 | Some i \<Rightarrow> i);
               stop = (case end_line of None \<Rightarrow> start + MAX_RANGE_LINES - 1 | Some i \<Rightarrow> i)
           in if start < 1 \<or> stop < 1 then Inl ValueError
              else if stop < start then Inl ValueError
              else if MAX_RANGE_LINES < stop - start + 1 then Inl ValueError
              else (let sel = concat (selected start stop ls) in
                if MAX_FULL_READ_BYTES < encoded_size sel then Inl ValueError else Inr (page sel start stop))))"

definition read_file :: "(string \<Rightarrow> string) \<Rightarrow> registry \<Rightarrow> host_fs \<Rightarrow> int \<Rightarrow> (string \<Rightarrow> root_view) \<Rightarrow> file_run
    \<Rightarrow> string \<Rightarrow> string \<Rightarrow> int option \<Rightarrow> int option \<Rightarrow> file_page result" where
  "read_file sha reg fs me view reads workspace_id path start_line end_line = rbind (get reg workspace_id) (\<lambda>ws.
     rbind (validate_workspace_path fs (ws_path ws) path False) (\<lambda>_.
     rbind (read_regular fs me (view (ws_path ws)) reads (ws_path ws) path
              (if start_line \<noteq> None \<or> end_line \<noteq> None then MAX_HASH_READ_BYTES else MAX_FULL_READ_BYTES))
       (\<lambda>data. read_page sha path data start_line end_line)))"

section \<open>What a read returns\<close>

lemma read_loop_sound:
  "read_loop limit data es = Inr out \<Longrightarrow> \<exists>more. out = data @ more \<and> (\<exists>rest. carried es = more @ rest) \<and> length out \<le> max (length data) (limit + 1)"
proof (induction limit data es rule: read_loop.induct)
  case (1 limit data es)
  let ?r = "recv (min 65536 (limit + 1 - length data)) es"
  show ?case
  proof (cases "limit < length data")
    case True
    with 1(2) show ?thesis by (simp add: read_loop.simps [of limit data es])
  next
    case False
    with 1(2) obtain chunk es' where r: "?r = (Inr chunk, es')" "chunk = [] \<and> out = data \<or> chunk \<noteq> [] \<and> read_loop limit (data @ chunk) es' = Inr out"
      by (auto simp: read_loop.simps [of limit data es] split: prod.splits sum.splits if_splits)
    show ?thesis
    proof (cases "chunk = []")
      case True
      with r show ?thesis by simp
    next
      case chunk: False
      with r 1(1) [OF False r(1) [symmetric] refl chunk] obtain more where m: "out = (data @ chunk) @ more"
        "\<exists>rest. carried es' = more @ rest" "length out \<le> max (length (data @ chunk)) (limit + 1)" by blast
      have "length (data @ chunk) \<le> limit + 1" using recv_length [OF r(1)] False by auto
      moreover have "carried es = chunk @ carried es'" using recv_carried [OF r(1) chunk] .
      ultimately show ?thesis using m by (intro exI [of _ "chunk @ more"]) auto
    qed
  qed
qed

text \<open>
  A bounded read returns the content the file descriptor delivered, whole and within the limit: the file it opened
  is an ordinary single-link file inside the workspace, reached through real directories, its size is the number of
  bytes returned, and its identity, size and times are the same after the read as before it.
\<close>
theorem read_regular_stable:
  assumes "read_regular fs me v reads root path limit = Inr data"
  shows "\<exists>target es t. validate_workspace_path fs root path False = Inr target \<and> read_workspace_root me v = Inr es
    \<and> node_at es (pure_parts (normpath path)) = Some t \<and> is_plain t \<and> st_nlink (tree_stat t) = 1
    \<and> int (length data) = st_size (tree_stat t) \<and> length data \<le> limit
    \<and> file_identity (snd reads) = file_identity (tree_stat t) \<and> (\<exists>rest. carried (fst reads) = data @ rest)"
proof -
  let ?parts = "pure_parts (normpath path)"
  from assms obtain target es ds opened where v: "validate_workspace_path fs root path False = Inr target" "read_workspace_root me v = Inr es"
    and d: "directory_at es (butlast ?parts) = Inr ds" "?parts \<noteq> []" "open_file ds (last ?parts) = Inr opened"
    and b: "st_type opened = Regular" "st_nlink opened = 1" "read_loop limit [] (fst reads) = Inr data" "length data \<le> limit"
      "int (length data) = st_size opened" "file_identity opened = file_identity (snd reads)"
    by (auto simp: read_regular_def read_regular_at_def Let_def split: if_splits)
  from d(3) obtain t where t: "map_of ds (last ?parts) = Some t" "tree_stat t = opened" by (auto simp: open_file_def split: option.splits if_splits)
  have "directory_at es ds' = Inr ds \<Longrightarrow> map_of ds n = Some t \<Longrightarrow> node_at es (ds' @ [n]) = Some t" for ds' n
    by (induction es ds' rule: directory_at.induct) (auto split: option.splits if_splits)
  from this [OF d(1) t(1)] d(2) have "node_at es ?parts = Some t" by simp
  with v b t read_loop_sound [OF b(3)] show ?thesis by (auto simp: is_plain_def)
qed

section \<open>Line ranges\<close>

lemma concat_lines_kept: "concat (lines_kept ps) = ps"
proof (induction ps rule: lines_kept.induct)
  case (2 p ps)
  show ?case
  proof (cases "p = 13 \<and> ps \<noteq> [] \<and> hd ps = 10")
    case True
    with 2 show ?thesis by (cases ps) auto
  next
    case False
    with 2 show ?thesis by (cases "line_break p"; cases "lines_kept ps") auto
  qed
qed simp

lemma selected_take_drop: "1 \<le> start \<Longrightarrow> selected start stop ls = drop (nat (start - 1)) (take (nat stop) ls)"
proof (induction ls rule: rev_induct)
  case (snoc l ls)
  have z: "[1..1 + int (length ls)] = [1..int (length ls)] @ [1 + int (length ls)]"
    using upto_rec2 [of 1 "1 + int (length ls)"] by simp
  have "selected start stop (ls @ [l]) = selected start stop ls @ (if start \<le> int (length ls) + 1 \<and> int (length ls) + 1 \<le> stop then [l] else [])"
    by (simp add: selected_def z)
  also have "\<dots> = drop (nat (start - 1)) (take (nat stop) (ls @ [l]))"
    using snoc by auto
  finally show ?case .
qed (simp add: selected_def)

lemma read_page_range:
  assumes "read_page sha path data (Some start) (Some stop) = Inr page"
  shows "\<exists>content. decode_text data = Inr content \<and> 1 \<le> start \<and> start \<le> stop
    \<and> fp_content page = concat (drop (nat (start - 1)) (take (nat stop) (lines_kept content)))"
  using assms by (auto simp: read_page_def Let_def selected_take_drop split: if_splits)

lemma read_page_hash: "read_page sha path data a b = Inr page \<Longrightarrow> fp_sha256 page = sha data"
  by (auto simp: read_page_def Let_def split: if_splits)

lemma windows_concat: "concat (map (\<lambda>i. concat (drop (i * w) (take (Suc i * w) ls))) [0..<m]) = concat (take (m * w) ls)"
proof (induction m)
  case (Suc m)
  have "take (Suc m * w) ls = take (m * w) ls @ drop (m * w) (take (Suc m * w) ls)"
    using append_take_drop_id [of "m * w" "take (Suc m * w) ls"] by (simp add: min_def)
  then have "concat (take (Suc m * w) ls) = concat (take (m * w) ls) @ concat (drop (m * w) (take (Suc m * w) ls))"
    by (metis concat_append)
  with Suc show ?case by simp
qed simp

text \<open>
  Reading a file page by page gives its whole text: pages of any width that cover all its lines, each of them
  accepted and reporting the digest of the same content, concatenate to the decoded file.
\<close>
theorem pages_cover_file:
  assumes "\<And>i. i < m \<Longrightarrow> read_file sha reg fs me view (reads i) workspace_id path (Some (int (i * w) + 1)) (Some (int (Suc i * w))) = Inr (pages i)"
    and "\<And>i. i < m \<Longrightarrow> fp_sha256 (pages i) = sha data" and "\<And>d. sha d = sha data \<Longrightarrow> d = data"
    and "decode_text data = Inr content" and "length (lines_kept content) \<le> m * w"
  shows "concat (map (\<lambda>i. fp_content (pages i)) [0..<m]) = content"
proof -
  have page: "fp_content (pages i) = concat (drop (i * w) (take (Suc i * w) (lines_kept content)))" if "i < m" for i
  proof -
    from assms(1) [OF that] obtain d where p: "read_page sha path d (Some (int (i * w) + 1)) (Some (int (Suc i * w))) = Inr (pages i)"
      by (auto simp: read_file_def)
    with read_page_hash [OF p] assms(2) [OF that] assms(3) have "d = data" by metis
    have n: "nat (int (i * w) + 1 - 1) = i * w" "nat (int (Suc i * w)) = Suc i * w" by (simp_all only: nat_int add_diff_cancel_right')
    from read_page_range [OF p] \<open>d = data\<close> assms(4) show ?thesis unfolding n by auto
  qed
  have "concat (map (\<lambda>i. fp_content (pages i)) [0..<m]) = concat (map (\<lambda>i. concat (drop (i * w) (take (Suc i * w) (lines_kept content)))) [0..<m])"
    using page by (intro arg_cong [of _ _ concat] map_cong) auto
  also have "\<dots> = concat (take (m * w) (lines_kept content))" by (rule windows_concat)
  also have "\<dots> = content" using assms(5) by (simp add: concat_lines_kept)
  finally show ?thesis .
qed

section \<open>An instance\<close>

definition demo_reads :: file_run where
  "demo_reads = ([Data [CHR 0x0A], Data ''b''], node_stat Regular 2)"

definition demo_page :: "nat \<Rightarrow> file_page" where
  "demo_page i = \<lparr>fp_path = ''a'', fp_content = [if i = 0 then 10 else 98], fp_sha256 = [CHR 0x0A, CHR ''b''], fp_size = 2, fp_total = 2,
     fp_start = int i + 1, fp_end = int i + 1\<rparr>"

lemma demo_read:
  assumes "i < 2"
  shows "read_file (\<lambda>s. s) [(''w'', demo_project)] \<lparr>fs_links = [], fs_cwd = []\<rparr> 1000 (\<lambda>_. demo_view) demo_reads ''w'' ''a''
     (Some (int (i * 1) + 1)) (Some (int (Suc i * 1))) = Inr (demo_page i)"
proof -
  have "read_file (\<lambda>s. s) [(''w'', demo_project)] \<lparr>fs_links = [], fs_cwd = []\<rparr> 1000 (\<lambda>_. demo_view) demo_reads ''w'' ''a'' (Some 1) (Some 1) = Inr (demo_page 0)"
    and "read_file (\<lambda>s. s) [(''w'', demo_project)] \<lparr>fs_links = [], fs_cwd = []\<rparr> 1000 (\<lambda>_. demo_view) demo_reads ''w'' ''a'' (Some 2) (Some 2) = Inr (demo_page 1)"
    by code_simp+
  with assms show ?thesis by (auto simp: less_2_cases_iff)
qed

theorem read_regular_stable_witness:
  "read_regular \<lparr>fs_links = [], fs_cwd = []\<rparr> 1000 demo_view demo_reads ''/srv/w'' ''a'' 100 = Inr [CHR 0x0A, CHR ''b'']
    \<and> (\<exists>t. node_at demo_tree [''a''] = Some t \<and> st_size (tree_stat t) = 2)"
proof -
  let ?fs = "\<lparr>fs_links = [], fs_cwd = []\<rparr>"
  have run: "read_regular ?fs 1000 demo_view demo_reads ''/srv/w'' ''a'' 100 = Inr [CHR 0x0A, CHR ''b'']" by code_simp
  have r: "read_workspace_root 1000 demo_view = Inr demo_tree" "pure_parts (normpath ''a'') = [''a'']" by code_simp+
  from read_regular_stable [OF run, unfolded r] obtain es t where "es = demo_tree" "node_at es [''a''] = Some t" "st_size (tree_stat t) = 2"
    by (metis Inr_inject length_Cons list.size(3) numeral_2_eq_2 of_nat_numeral)
  with run show ?thesis by blast
qed

theorem pages_cover_file_witness:
  "read_file (\<lambda>s. s) [(''w'', demo_project)] \<lparr>fs_links = [], fs_cwd = []\<rparr> 1000 (\<lambda>_. demo_view) demo_reads ''w'' ''a'' (Some 2) (Some 2) = Inr (demo_page 1)
    \<and> concat (map (\<lambda>i. fp_content (demo_page i)) [0..<2]) = [10, 98]"
proof -
  have d: "decode_text [CHR 0x0A, CHR ''b''] = Inr [10, 98]" by code_simp
  have l: "length (lines_kept [10, 98]) \<le> 2 * 1" by code_simp
  have "concat (map (\<lambda>i. fp_content (demo_page i)) [0..<2]) = [10, 98]"
    by (rule pages_cover_file [where reads = "\<lambda>_. demo_reads", OF demo_read _ _ d l]) (auto simp: demo_page_def)
  moreover have "1 < (2::nat)" by simp
  from demo_read [OF this] have "read_file (\<lambda>s. s) [(''w'', demo_project)] \<lparr>fs_links = [], fs_cwd = []\<rparr> 1000 (\<lambda>_. demo_view) demo_reads ''w'' ''a'' (Some 2) (Some 2) = Inr (demo_page 1)"
    by simp
  ultimately show ?thesis by blast
qed

end
