(* ===== verification/Work_Writes.thy ===== *)
theory Work_Writes
  imports Shared_Access Work_Files
begin

unbundle bit_operations_syntax

text \<open>
  Writing into a workspace: the walk to the parent directory, the atomic write with its stale-file protection, moves and
  trash of \<open>workspaces/shared_access.py\<close>, and the tools of \<open>tools/files.py\<close> on top of them.  Other processes act
  on a directory between the system calls of a write: their actions are functions on the directory.
\<close>

section \<open>The parent directory\<close>

text \<open>One component of the way: whether \<open>mkdir\<close> made it, what opening it gives, its list, and the default list of its parent.\<close>

record dir_step =
  ds_made :: bool
  ds_open :: dir_open
  ds_acl :: "acl_row list"
  ds_default :: "acl_row list"

definition child_acl :: "int \<Rightarrow> int \<Rightarrow> bool \<Rightarrow> dir_step \<Rightarrow> stat \<Rightarrow> acl_row list result" where
  "child_acl me owner mapped step s =
     (if ds_made step \<and> \<not> mapped then shared_acl (ds_default step) owner (st_uid s) True None
      else if \<not> mapped \<and> st_uid s = me \<and> me \<noteq> owner then shared_acl (ds_acl step) owner (st_uid s) True None
      else Inr (ds_acl step))"

fun parent_walk :: "int \<Rightarrow> int \<Rightarrow> int list \<Rightarrow> bool \<Rightarrow> dir_step list \<Rightarrow> unit result" where
  "parent_walk me owner groups mapped [] = Inr ()"
| "parent_walk me owner groups mapped (step # steps) = (case ds_open step of
       Gone \<Rightarrow> Inl FileNotFoundError
     | Refused \<Rightarrow> Inl OSError
     | Opened s \<Rightarrow>
         rbind (child_acl me owner mapped step s) (\<lambda>rows.
         rbind (human_can_traverse rows (st_uid s) (st_gid s) groups owner) (\<lambda>ok.
           if \<not> ok then Inl ValueError else parent_walk me owner groups mapped steps)))"

text \<open>
  The root: as opened and as named, whether a mutation state was selected, the view writes go through (the projection of
  a root of another user), and its list.
\<close>

record write_root =
  wr_opened :: stat
  wr_named :: stat
  wr_selected :: bool
  wr_view :: "stat result"
  wr_acl :: "acl_row list"

definition write_workspace_root :: "int \<Rightarrow> write_root \<Rightarrow> (stat \<times> bool) result" where
  "write_workspace_root me w =
     (if st_type (wr_opened w) \<noteq> Directory then Inl OSError
      else if identity (wr_opened w) \<noteq> identity (wr_named w) then Inl PermissionError
      else let mapped = (st_uid (wr_opened w) \<noteq> me) in
        if mapped \<and> \<not> wr_selected w then Inl PermissionError
        else if mapped then rbind (wr_view w) (\<lambda>s. Inr (s, True))
        else Inr (wr_opened w, False))"

text \<open>The owner, whether the root is mapped, and the last component.\<close>

definition parent_directory :: "host_fs \<Rightarrow> int \<Rightarrow> int list \<Rightarrow> write_root \<Rightarrow> dir_step list \<Rightarrow> string \<Rightarrow> string \<Rightarrow> (int \<times> bool \<times> string) result" where
  "parent_directory fs me groups w steps root path =
     rbind (validate_workspace_path fs root path False) (\<lambda>_.
       let relative = split_on sep (normpath path) in
       rbind (write_workspace_root me w) (\<lambda>(view, mapped).
         let owner = st_uid view in
         rbind (human_can_traverse (wr_acl w) owner (st_gid view) groups owner) (\<lambda>ok.
           if \<not> ok then Inl ValueError
           else rbind (parent_walk me owner groups mapped (take (length relative - 1) steps)) (\<lambda>_.
             if length steps < length relative - 1 then Inl OutsideModel else Inr (owner, mapped, last relative)))))"

text \<open>\<open>workspace_mkdir\<close>, after the parent is open.\<close>

definition workspace_mkdir :: "int \<Rightarrow> int list \<Rightarrow> int \<times> bool \<Rightarrow> dir_step \<Rightarrow> unit result" where
  "workspace_mkdir me groups = (\<lambda>(owner, mapped) step. case ds_open step of
       Gone \<Rightarrow> Inl FileNotFoundError
     | Refused \<Rightarrow> Inl OSError
     | Opened s \<Rightarrow>
         rbind (if ds_made step \<and> \<not> mapped then shared_acl (ds_default step) owner (st_uid s) True None else Inr (ds_acl step)) (\<lambda>rows.
         rbind (human_can_traverse rows (st_uid s) (st_gid s) groups owner) (\<lambda>ok. require ok ValueError)))"

section \<open>The atomic write\<close>

record work_item =
  wi_stat :: stat
  wi_data :: string
  wi_acl :: "acl_row list"

type_synonym folder = "(string \<times> work_item) list"

text \<open>The writer: its user, what the host gives the new file, the random name, the default list, and the other processes.\<close>

record writer =
  wt_stat :: stat
  wt_temp :: string
  wt_default :: "acl_row list"
  wt_inherited :: "acl_row list"      \<comment> \<open>what the host gives a new file by itself\<close>
  wt_early :: "folder \<Rightarrow> folder"   \<comment> \<open>before the temporary file is created\<close>
  wt_staged :: "folder \<Rightarrow> folder"  \<comment> \<open>before the destination is looked at again\<close>
  wt_late :: "folder \<Rightarrow> folder"    \<comment> \<open>between the last look and the replacement\<close>

definition MAX_STALE_BYTES :: int where
  "MAX_STALE_BYTES = 5 * 1024 ^ 2"

definition given :: "string option \<Rightarrow> bool" where
  "given expected \<longleftrightarrow> expected \<noteq> None \<and> expected \<noteq> Some []"

definition check_original :: "(string \<Rightarrow> string) \<Rightarrow> string option \<Rightarrow> work_item \<Rightarrow> unit result" where
  "check_original sha expected it =
     (if st_type (wi_stat it) \<noteq> Regular \<or> st_nlink (wi_stat it) \<noteq> 1 then Inl ValueError
      else if given expected then
        (if MAX_STALE_BYTES < st_size (wi_stat it) then Inl ValueError
         else require (py_lower (sha (wi_data it)) = py_lower (the expected)) StaleFileError)
      else Inr ())"

definition staged_acl :: "writer \<Rightarrow> int \<Rightarrow> bool \<Rightarrow> work_item option \<Rightarrow> acl_row list result" where
  "staged_acl w owner mapped original =
     (let entries = (case original of None \<Rightarrow> wt_default w | Some it \<Rightarrow> wi_acl it) in
      if \<not> mapped then shared_acl entries owner (st_uid (wt_stat w)) False (map_option (\<lambda>it. st_uid (wi_stat it)) original)
      else if original \<noteq> None then Inr entries
      else Inr (wt_inherited w))"

definition check_target :: "(string \<Rightarrow> string) \<Rightarrow> string option \<Rightarrow> work_item option \<Rightarrow> unit result" where
  "check_target sha expected original = (case original of
       Some it \<Rightarrow> if st_type (wi_stat it) = Symlink then Inl OSError else check_original sha expected it
     | None \<Rightarrow> require (\<not> given expected) StaleFileError)"

text \<open>A new file is linked, which never overwrites; an old one is replaced if it is still the one that was opened.\<close>

definition create_new :: "string \<Rightarrow> string \<Rightarrow> folder \<Rightarrow> unit result \<times> folder" where
  "create_new temp name f = (case map_of f temp of
       None \<Rightarrow> (Inl FileNotFoundError, f)
     | Some t \<Rightarrow> if name \<in> fst ` set f then (Inl OSError, dict_pop temp f) else (Inr (), dict_pop temp (dict_set name t f)))"

definition replace_old :: "(folder \<Rightarrow> folder) \<Rightarrow> string \<Rightarrow> string \<Rightarrow> work_item \<Rightarrow> folder \<Rightarrow> unit result \<times> folder" where
  "replace_old late temp name it f = (case map_of f name of
       None \<Rightarrow> (Inl FileNotFoundError, dict_pop temp f)
     | Some now \<Rightarrow>
         if file_identity (wi_stat now) \<noteq> file_identity (wi_stat it) then (Inl StaleFileError, dict_pop temp f)
         else (let g = late f in case map_of g temp of
             None \<Rightarrow> (Inl FileNotFoundError, g)
           | Some t \<Rightarrow> if map_option (\<lambda>u. st_type (wi_stat u)) (map_of g name) = Some Directory then (Inl OSError, dict_pop temp g)
               else (Inr (), dict_set name t (dict_pop temp g))))"

definition atomic_write :: "(string \<Rightarrow> string) \<Rightarrow> writer \<Rightarrow> int \<Rightarrow> bool \<Rightarrow> string \<Rightarrow> string \<Rightarrow> string option \<Rightarrow> folder \<Rightarrow> unit result \<times> folder" where
  "atomic_write sha w owner mapped name content expected f =
     (let original = map_of f name; temp = wt_temp w in
      case check_target sha expected original of
        Inl e \<Rightarrow> (Inl e, f)
      | Inr _ \<Rightarrow>
         (let f1 = wt_early w f in
          if temp \<in> fst ` set f1 then (Inl OSError, f1)
          else case staged_acl w owner mapped original of
              Inl e \<Rightarrow> (Inl e, f1)
            | Inr rows \<Rightarrow>
               (let f2 = wt_staged w (dict_set temp \<lparr>wi_stat = wt_stat w, wi_data = content, wi_acl = rows\<rparr> f1)
                in case original of None \<Rightarrow> create_new temp name f2 | Some it \<Rightarrow> replace_old (wt_late w) temp name it f2)))"

section \<open>Moves\<close>

text \<open>
  Directories by inode number on one device.  \<open>inside\<close> says that a directory lies below another, which a rename
  refuses.
\<close>

type_synonym disk = "(int \<times> folder) list"

definition entry_at :: "disk \<Rightarrow> int \<Rightarrow> string \<Rightarrow> work_item option" where
  "entry_at d i n = (case map_of d i of None \<Rightarrow> None | Some f \<Rightarrow> map_of f n)"

definition is_folder :: "work_item \<Rightarrow> bool" where
  "is_folder it \<longleftrightarrow> st_type (wi_stat it) = Directory"

definition set_entry :: "int \<Rightarrow> string \<Rightarrow> work_item \<Rightarrow> disk \<Rightarrow> disk" where
  "set_entry i n it d = dict_set i (dict_set n it (case map_of d i of None \<Rightarrow> [] | Some f \<Rightarrow> f)) d"

definition drop_entry :: "int \<Rightarrow> string \<Rightarrow> disk \<Rightarrow> disk" where
  "drop_entry i n d = dict_set i (dict_pop n (case map_of d i of None \<Rightarrow> [] | Some f \<Rightarrow> f)) d"

text \<open>\<open>rename(2)\<close>\<close>

definition rename :: "(int \<Rightarrow> int \<Rightarrow> bool) \<Rightarrow> int \<Rightarrow> string \<Rightarrow> int \<Rightarrow> string \<Rightarrow> disk \<Rightarrow> disk result" where
  "rename inside src sname dst dname d = (case entry_at d src sname of
       None \<Rightarrow> Inl FileNotFoundError
     | Some it \<Rightarrow>
         if is_folder it \<and> (dst = st_ino (wi_stat it) \<or> inside dst (st_ino (wi_stat it))) then Inl OSError
         else (case entry_at d dst dname of
             None \<Rightarrow> Inr (set_entry dst dname it (drop_entry src sname d))
           | Some u \<Rightarrow>
               if identity (wi_stat u) = identity (wi_stat it) then Inr d
               else if is_folder it \<noteq> is_folder u \<or> (is_folder u \<and> map_of d (st_ino (wi_stat u)) \<noteq> Some []) then Inl OSError
               else Inr (set_entry dst dname it (drop_entry src sname d))))"

definition movable :: "work_item \<Rightarrow> bool" where
  "movable it \<longleftrightarrow> st_type (wi_stat it) = Directory \<or> (st_type (wi_stat it) = Regular \<and> st_nlink (wi_stat it) = 1)"

definition move_identity :: "stat \<Rightarrow> int \<times> int \<times> file_type \<times> int \<times> int" where
  "move_identity s = (st_dev s, st_ino s, st_type s, st_mode s, st_nlink s)"

text \<open>Where the source ends up: below an existing directory, under its own name.\<close>

definition move_target :: "bool \<Rightarrow> string \<Rightarrow> int \<Rightarrow> string \<Rightarrow> disk \<Rightarrow> (int \<times> string) result" where
  "move_target trash sname dst dname d = (case entry_at d dst dname of
       None \<Rightarrow> Inr (dst, dname)
     | Some t \<Rightarrow>
         if \<not> movable t then Inl ValueError
         else if trash then Inl OSError
         else if is_folder t then
           (case entry_at d (st_ino (wi_stat t)) sname of
              None \<Rightarrow> Inr (st_ino (wi_stat t), sname)
            | Some u \<Rightarrow> if movable u then Inr (st_ino (wi_stat t), sname) else Inl ValueError)
         else Inr (dst, dname))"

definition workspace_move :: "(int \<Rightarrow> int \<Rightarrow> bool) \<Rightarrow> (disk \<Rightarrow> disk) \<Rightarrow> bool \<Rightarrow> int \<Rightarrow> string \<Rightarrow> int \<Rightarrow> string \<Rightarrow> disk \<Rightarrow> unit result \<times> disk" where
  "workspace_move inside others trash src sname dst dname d = (case entry_at d src sname of
       None \<Rightarrow> (Inl FileNotFoundError, d)
     | Some source \<Rightarrow>
         if \<not> movable source then (Inl ValueError, d)
         else (case move_target trash sname dst dname d of
             Inl e \<Rightarrow> (Inl e, d)
           | Inr (i, n) \<Rightarrow> (let d' = others d in case entry_at d' src sname of
                 None \<Rightarrow> (Inl FileNotFoundError, d')
               | Some now \<Rightarrow>
                   if move_identity (wi_stat now) \<noteq> move_identity (wi_stat source) then (Inl ValueError, d')
                   else (case rename inside src sname i n d' of Inl e \<Rightarrow> (Inl e, d') | Inr d'' \<Rightarrow> (Inr (), d'')))))"

section \<open>The tools\<close>

definition MAX_WRITE_BYTES :: nat where
  "MAX_WRITE_BYTES = 5 * 1024 * 1024"

record written =
  wr_path :: string
  wr_bytes :: nat
  wr_sha256 :: string

definition write_file :: "(string \<Rightarrow> string) \<Rightarrow> registry \<Rightarrow> (workspace \<Rightarrow> (int \<times> bool \<times> string) result) \<Rightarrow> writer
    \<Rightarrow> string \<Rightarrow> string \<Rightarrow> string \<Rightarrow> string option \<Rightarrow> folder \<Rightarrow> written result \<times> folder" where
  "write_file sha reg parent w workspace_id path content expected f = (case get reg workspace_id of
       Inl e \<Rightarrow> (Inl e, f)
     | Inr ws \<Rightarrow>
         if \<not> writable ws then (Inl PermissionError, f)
         else (let bytes = utf8_text content in
           if MAX_WRITE_BYTES < length bytes then (Inl ValueError, f)
           else (case parent ws of
               Inl e \<Rightarrow> (Inl e, f)
             | Inr (owner, mapped, name) \<Rightarrow> (case atomic_write sha w owner mapped name bytes expected f of
                   (Inl e, f') \<Rightarrow> (Inl e, f')
                 | (Inr _, f') \<Rightarrow> (Inr \<lparr>wr_path = path, wr_bytes = length bytes, wr_sha256 = sha bytes\<rparr>, f')))))"

text \<open>\<open>move_path\<close> and \<open>trash_path\<close>; the parents of the source and of the destination, in this order.\<close>

definition move_path :: "registry \<Rightarrow> (workspace \<Rightarrow> string \<Rightarrow> (int \<times> string) result) \<Rightarrow> (int \<Rightarrow> int \<Rightarrow> bool) \<Rightarrow> (disk \<Rightarrow> disk) \<Rightarrow> bool
    \<Rightarrow> string \<Rightarrow> string \<Rightarrow> string \<Rightarrow> disk \<Rightarrow> unit result \<times> disk" where
  "move_path reg parent inside others trash workspace_id source destination d = (case get reg workspace_id of
       Inl e \<Rightarrow> (Inl e, d)
     | Inr ws \<Rightarrow>
         if \<not> writable ws then (Inl PermissionError, d)
         else (case parent ws source of
             Inl e \<Rightarrow> (Inl e, d)
           | Inr (src, sname) \<Rightarrow>
               (case entry_at d src sname of
                  None \<Rightarrow> (Inl FileNotFoundError, d)
                | Some it \<Rightarrow> if \<not> movable it then (Inl ValueError, d)
                    else (case parent ws destination of
                        Inl e \<Rightarrow> (Inl e, d)
                      | Inr (dst, dname) \<Rightarrow> workspace_move inside others trash src sname dst dname d))))"

definition trash_name :: "int \<Rightarrow> string \<Rightarrow> string" where
  "trash_name now path = path_join ''.trash'' (show_int now @ ''_'' @ last (split_on sep (normpath path)))"

definition trash_path :: "registry \<Rightarrow> host_fs \<Rightarrow> (workspace \<Rightarrow> string \<Rightarrow> (int \<times> string) result) \<Rightarrow> (int \<Rightarrow> int \<Rightarrow> bool) \<Rightarrow> (disk \<Rightarrow> disk) \<Rightarrow> int
    \<Rightarrow> string \<Rightarrow> string \<Rightarrow> disk \<Rightarrow> string result \<times> disk" where
  "trash_path reg fs parent inside others now workspace_id path d = (case get reg workspace_id of
       Inl e \<Rightarrow> (Inl e, d)
     | Inr ws \<Rightarrow>
         if \<not> writable ws then (Inl PermissionError, d)
         else (case validate_workspace_path fs (ws_path ws) path False of
             Inl e \<Rightarrow> (Inl e, d)
           | Inr _ \<Rightarrow> (case move_path reg parent inside others True workspace_id path (trash_name now path) d of
                 (Inl e, d') \<Rightarrow> (Inl e, d')
               | (Inr _, d') \<Rightarrow> (Inr (trash_name now path), d'))))"

section \<open>What a write does\<close>

text \<open>The other processes do not touch the randomly named temporary file.\<close>

definition leaves :: "string \<Rightarrow> (folder \<Rightarrow> folder) \<Rightarrow> bool" where
  "leaves temp g \<longleftrightarrow> (\<forall>f. map_of (g f) temp = map_of f temp)"

text \<open>What of a directory is there besides the temporary file.\<close>

definition visible :: "string \<Rightarrow> folder \<Rightarrow> string \<Rightarrow> work_item option" where
  "visible temp f = (map_of f)(temp := None)"

lemma visible_simps [simp]:
  "visible temp (dict_pop temp f) = visible temp f"
  "visible temp (dict_set temp x f) = visible temp f"
  "n \<noteq> temp \<Longrightarrow> visible temp (dict_set n x f) = (visible temp f)(n \<mapsto> x)"
  by (auto simp: visible_def map_of_dict_pop map_of_dict_set fun_eq_iff)

text \<open>The directory as the other processes left it at the four points of a write.\<close>

definition moments :: "writer \<Rightarrow> work_item \<Rightarrow> folder \<Rightarrow> folder list" where
  "moments w item f = (let f1 = wt_early w f; f2 = wt_staged w (dict_set (wt_temp w) item f1) in [f, f1, f2, wt_late w f2])"

definition quiet_temp :: "writer \<Rightarrow> bool" where
  "quiet_temp w \<longleftrightarrow> leaves (wt_temp w) (wt_early w) \<and> leaves (wt_temp w) (wt_staged w) \<and> leaves (wt_temp w) (wt_late w)"

lemma key_iff: "n \<in> fst ` set f \<longleftrightarrow> map_of f n \<noteq> None"
  by (simp add: map_of_eq_None_iff)

lemma create_new_outcome:
  assumes "create_new temp name f = (r, f')" and "map_of f temp = Some t" and "name \<noteq> temp"
  shows "map_of f' temp = None \<and> (r = Inr () \<and> visible temp f' = (visible temp f)(name \<mapsto> t) \<and> map_of f name = None
    \<or> (\<exists>e. r = Inl e) \<and> visible temp f' = visible temp f)"
  using assms by (auto simp: create_new_def key_iff map_of_dict_pop split: if_splits)

lemma replace_old_outcome:
  assumes "replace_old late temp name it f = (r, f')" and "map_of f temp = Some t" and "leaves temp late" and "name \<noteq> temp"
  shows "map_of f' temp = None \<and> (r = Inr () \<and> visible temp f' = (visible temp (late f))(name \<mapsto> t)
       \<and> (\<exists>now. map_of f name = Some now \<and> file_identity (wi_stat now) = file_identity (wi_stat it))
    \<or> (\<exists>e. r = Inl e) \<and> (visible temp f' = visible temp f \<or> visible temp f' = visible temp (late f)))"
  using assms
  by (auto simp: replace_old_def leaves_def Let_def map_of_dict_pop map_of_dict_set split: if_splits option.splits)

text \<open>The entry a write leaves.\<close>

lemma written_item:
  assumes "atomic_write sha w owner mapped name content expected f = (Inr u, f')"
    and "quiet_temp w" and "wt_temp w \<notin> fst ` set f" and "name \<noteq> wt_temp w"
  shows "\<exists>it. map_of f' name = Some it \<and> wi_stat it = wt_stat w \<and> wi_data it = content"
proof -
  let ?t = "wt_temp w" and ?f1 = "wt_early w f"
  from assms(1) obtain rows where s: "check_target sha expected (map_of f name) = Inr ()" "?t \<notin> fst ` set ?f1"
    "staged_acl w owner mapped (map_of f name) = Inr rows"
    by (auto simp: atomic_write_def Let_def split: sum.splits if_splits)
  define item where "item = \<lparr>wi_stat = wt_stat w, wi_data = content, wi_acl = rows\<rparr>"
  define f2 where "f2 = wt_staged w (dict_set ?t item ?f1)"
  have t2: "map_of f2 ?t = Some item" using assms(2) by (simp add: f2_def quiet_temp_def leaves_def map_of_dict_set)
  have run: "(Inr u, f') = (case map_of f name of None \<Rightarrow> create_new ?t name f2 | Some it \<Rightarrow> replace_old (wt_late w) ?t name it f2)"
    using assms(1) s unfolding item_def f2_def by (simp add: atomic_write_def Let_def)
  have "visible ?t f' name = Some item"
  proof (cases "map_of f name")
    case None
    with run create_new_outcome [OF _ t2 assms(4), of "Inr u" f'] show ?thesis by auto
  next
    case (Some it)
    with run replace_old_outcome [OF _ t2 _ assms(4), of "wt_late w" it "Inr u" f'] assms(2) show ?thesis by (auto simp: quiet_temp_def)
  qed
  then show ?thesis using assms(4) by (auto simp: visible_def item_def)
qed

text \<open>
  C39.  Whatever other processes do to the directory between its steps, as long as they leave the temporary name alone,
  an atomic write leaves no temporary file and changes at most the named entry, which it sets, in one step, to a file
  with exactly the new content and the shared access list; a refused write changes nothing.  A new file never replaces an entry; a replaced entry was an ordinary
  single-link file that still had its identity at the last look, with the expected digest if one was given.
\<close>
theorem atomic_write_outcome:
  assumes "atomic_write sha w owner mapped name content expected f = (r, f')"
    and "quiet_temp w" and "wt_temp w \<notin> fst ` set f" and "name \<noteq> wt_temp w"
  shows "wt_temp w \<notin> fst ` set f' \<and> (\<exists>item. \<exists>g \<in> set (moments w item f). wi_data item = content \<and>
     (case r of
        Inl _ \<Rightarrow> visible (wt_temp w) f' = visible (wt_temp w) g
      | Inr _ \<Rightarrow> visible (wt_temp w) f' = (visible (wt_temp w) g)(name \<mapsto> item) \<and> staged_acl w owner mapped (map_of f name) = Inr (wi_acl item)
          \<and> (case map_of f name of
               None \<Rightarrow> visible (wt_temp w) g name = None \<and> \<not> given expected
             | Some it \<Rightarrow> st_type (wi_stat it) = Regular \<and> st_nlink (wi_stat it) = 1
                 \<and> (\<forall>h. expected = Some h \<longrightarrow> h \<noteq> [] \<longrightarrow> py_lower (sha (wi_data it)) = py_lower h)
                 \<and> (\<exists>now. map_of (moments w item f ! 2) name = Some now \<and> file_identity (wi_stat now) = file_identity (wi_stat it)))))"
proof -
  let ?t = "wt_temp w" and ?f1 = "wt_early w f"
  have free: "map_of f ?t = None" "map_of ?f1 ?t = None" using assms(2,3) by (auto simp: key_iff quiet_temp_def leaves_def)
  show ?thesis
  proof (cases "check_target sha expected (map_of f name)")
    case (Inl e)
    then have "r = Inl e" "f' = f" using assms(1) by (auto simp: atomic_write_def Let_def)
    with free show ?thesis
      by (intro conjI exI [of _ "\<lparr>wi_stat = wt_stat w, wi_data = content, wi_acl = []\<rparr>"]) (auto simp: key_iff moments_def Let_def)
  next
    case ok: (Inr u)
    show ?thesis
    proof (cases "staged_acl w owner mapped (map_of f name)")
      case (Inl e)
      then have "r = Inl e" "f' = ?f1" using assms(1) ok free by (auto simp: atomic_write_def Let_def key_iff)
      with free show ?thesis
        by (intro conjI exI [of _ "\<lparr>wi_stat = wt_stat w, wi_data = content, wi_acl = []\<rparr>"]) (auto simp: key_iff moments_def Let_def)
    next
      case (Inr rows)
      define item where "item = \<lparr>wi_stat = wt_stat w, wi_data = content, wi_acl = rows\<rparr>"
      define f2 where "f2 = wt_staged w (dict_set ?t item ?f1)"
      have t2: "map_of f2 ?t = Some item" using assms(2) by (simp add: f2_def quiet_temp_def leaves_def map_of_dict_set)
      have m: "moments w item f = [f, ?f1, f2, wt_late w f2]" by (simp add: moments_def f2_def Let_def)
      have run: "(r, f') = (case map_of f name of None \<Rightarrow> create_new ?t name f2 | Some it \<Rightarrow> replace_old (wt_late w) ?t name it f2)"
        using assms(1) ok free Inr unfolding item_def f2_def by (simp add: atomic_write_def Let_def key_iff)
      have data: "wi_data item = content" "wi_acl item = rows" by (simp_all add: item_def)
      show ?thesis
      proof (cases "map_of f name")
        case None
        from create_new_outcome [OF _ t2 assms(4), of r f'] run None
        have c: "map_of f' ?t = None" "r = Inr () \<and> visible ?t f' = (visible ?t f2)(name \<mapsto> item) \<and> map_of f2 name = None
            \<or> (\<exists>e. r = Inl e) \<and> visible ?t f' = visible ?t f2" by auto
        have "\<not> given expected" using ok None by (simp add: check_target_def)
        with c None data Inr assms(4) show ?thesis
          by (intro conjI exI [of _ item] bexI [of _ f2]) (auto simp: m key_iff visible_def)
      next
        case (Some it)
        from replace_old_outcome [OF _ t2 _ assms(4), of "wt_late w" it r f'] run Some assms(2)
        have c: "map_of f' ?t = None" "r = Inr () \<and> visible ?t f' = (visible ?t (wt_late w f2))(name \<mapsto> item)
             \<and> (\<exists>now. map_of f2 name = Some now \<and> file_identity (wi_stat now) = file_identity (wi_stat it))
            \<or> (\<exists>e. r = Inl e) \<and> (visible ?t f' = visible ?t f2 \<or> visible ?t f' = visible ?t (wt_late w f2))"
          by (auto simp: quiet_temp_def)
        have k: "st_type (wi_stat it) = Regular" "st_nlink (wi_stat it) = 1"
          "\<forall>h. expected = Some h \<longrightarrow> h \<noteq> [] \<longrightarrow> py_lower (sha (wi_data it)) = py_lower h"
          using ok Some by (auto simp: check_target_def check_original_def given_def split: if_splits)
        from c(2) show ?thesis
        proof (elim disjE conjE exE)
          fix e assume "r = Inl e" "visible ?t f' = visible ?t f2"
          with c(1) data show ?thesis by (intro conjI exI [of _ item] bexI [of _ f2]) (auto simp: m key_iff)
        next
          fix e assume "r = Inl e" "visible ?t f' = visible ?t (wt_late w f2)"
          with c(1) data show ?thesis by (intro conjI exI [of _ item] bexI [of _ "wt_late w f2"]) (auto simp: m key_iff)
        next
          fix now assume "r = Inr ()" "visible ?t f' = (visible ?t (wt_late w f2))(name \<mapsto> item)"
            "map_of f2 name = Some now" "file_identity (wi_stat now) = file_identity (wi_stat it)"
          with c(1) data k Inr Some show ?thesis
            by (intro conjI exI [of _ item] bexI [of _ "wt_late w f2"]) (simp_all add: m key_iff)
        qed
      qed
    qed
  qed
qed

section \<open>Directories stay searchable\<close>

lemma shared_acl_total: "\<exists>rows'. shared_acl rows owner uid directory None = Inr rows'"
  by (simp add: shared_acl_def keep_previous_def Let_def)

text \<open>
  The walk to a parent directory never fails on a directory the service made or owns for another owner: whatever the
  lists on it were, after sharing the workspace owner can search it, so a file written below is reachable for its owner.
\<close>
theorem service_parents_searchable:
  assumes "\<And>step. step \<in> set steps \<Longrightarrow> \<exists>s. ds_open step = Opened s \<and> (ds_made step \<or> st_uid s = me)
      \<and> distinct (map row_key (ds_acl step)) \<and> distinct (map row_key (ds_default step))"
    and "me \<noteq> owner"
  shows "parent_walk me owner groups False steps = Inr ()"
  using assms(1)
proof (induction steps)
  case (Cons step steps)
  then obtain s where s: "ds_open step = Opened s" "ds_made step \<or> st_uid s = me"
    "distinct (map row_key (ds_acl step))" "distinct (map row_key (ds_default step))" by auto
  obtain rows where rows: "child_acl me owner False step s = Inr rows"
    using shared_acl_total by (cases "ds_made step") (metis child_acl_def s(2) assms(2))+
  then have "human_can_traverse rows (st_uid s) (st_gid s) groups owner = Inr True"
    using s(2-4) assms(2) shared_directory_total by (auto simp: child_acl_def split: if_splits)
  with Cons s rows show ?case by simp
qed simp

section \<open>What a move does\<close>

lemma entry_at_set [simp]: "entry_at (set_entry i n it d) j m = (if j = i \<and> m = n then Some it else entry_at d j m)"
  by (auto simp: entry_at_def set_entry_def map_of_dict_set split: option.splits)

lemma entry_at_drop [simp]: "entry_at (drop_entry i n d) j m = (if j = i \<and> m = n then None else entry_at d j m)"
  by (auto simp: entry_at_def drop_entry_def map_of_dict_set map_of_dict_pop split: option.splits)

lemma rename_exact:
  "rename inside src sname i n d = Inr d' \<Longrightarrow> \<exists>it. entry_at d src sname = Some it
     \<and> (d' = d \<and> (\<exists>u. entry_at d i n = Some u \<and> identity (wi_stat u) = identity (wi_stat it))
        \<or> (\<forall>j m. entry_at d' j m = (if j = i \<and> m = n then Some it else if j = src \<and> m = sname then None else entry_at d j m)))"
  by (auto simp: rename_def split: option.splits if_splits)

text \<open>
  A successful move takes the source, unchanged since it was first looked at, to the destination, or into it under
  its own name when the destination is a directory, and changes no other entry; a move to the trash never lands on an
  entry that was there; a refused move changes nothing.
\<close>
theorem move_exact:
  assumes "workspace_move inside others trash src sname dst dname d = (r, d')"
  shows "case r of Inl _ \<Rightarrow> d' = d \<or> d' = others d
    | Inr _ \<Rightarrow> \<exists>source it i n. entry_at d src sname = Some source \<and> movable source \<and> entry_at (others d) src sname = Some it
        \<and> move_identity (wi_stat it) = move_identity (wi_stat source)
        \<and> ((i, n) = (dst, dname) \<or> (\<exists>t. entry_at d dst dname = Some t \<and> is_folder t \<and> (i, n) = (st_ino (wi_stat t), sname)))
        \<and> (trash \<longrightarrow> entry_at d i n = None)
        \<and> (d' = others d \<and> (\<exists>u. entry_at (others d) i n = Some u \<and> identity (wi_stat u) = identity (wi_stat it))
           \<or> (\<forall>j m. entry_at d' j m = (if j = i \<and> m = n then Some it else if j = src \<and> m = sname then None else entry_at (others d) j m)))"
proof (cases r)
  case (Inl e)
  with assms show ?thesis by (auto simp: workspace_move_def Let_def split: option.splits if_splits sum.splits)
next
  case (Inr u)
  with assms obtain source i n it where s: "entry_at d src sname = Some source" "movable source"
    "move_target trash sname dst dname d = Inr (i, n)" "entry_at (others d) src sname = Some it"
    "move_identity (wi_stat it) = move_identity (wi_stat source)" "rename inside src sname i n (others d) = Inr d'"
    by (auto simp: workspace_move_def Let_def split: option.splits if_splits sum.splits)
  from s(3) have t: "(i, n) = (dst, dname) \<or> (\<exists>t. entry_at d dst dname = Some t \<and> is_folder t \<and> (i, n) = (st_ino (wi_stat t), sname))"
    "trash \<longrightarrow> entry_at d i n = None"
    by (auto simp: move_target_def split: option.splits if_splits)
  from rename_exact [OF s(6)] s(4) have "d' = others d \<and> (\<exists>u. entry_at (others d) i n = Some u \<and> identity (wi_stat u) = identity (wi_stat it))
           \<or> (\<forall>j m. entry_at d' j m = (if j = i \<and> m = n then Some it else if j = src \<and> m = sname then None else entry_at (others d) j m))"
    by simp
  with s t Inr show ?thesis
    by (simp only: sum.case) (intro exI [of _ source] exI [of _ it] exI [of _ i] exI [of _ n] conjI; simp)
qed

section \<open>Chained writes\<close>

text \<open>
  The digest a write reports is accepted by the next one: as long as nobody else changed the file, a write with the
  digest of the previous answer passes the stale-file check, and one with any other digest is refused without effect.
\<close>
theorem writes_chain:
  assumes "write_file sha reg parent w workspace_id path content expected f = (Inr answer, f')"
    and "parent ws = Inr (owner, mapped, name)" and "get reg workspace_id = Inr ws"
    and "quiet_temp w" and "wt_temp w \<notin> fst ` set f" and "name \<noteq> wt_temp w"
    and "st_type (wt_stat w) = Regular" and "st_nlink (wt_stat w) = 1" and "st_size (wt_stat w) = int (wr_bytes answer)"
    and "wr_sha256 answer \<noteq> []"
  shows "check_target sha (Some (wr_sha256 answer)) (map_of f' name) = Inr ()
    \<and> (\<forall>h w' content'. h \<noteq> [] \<longrightarrow> py_lower h \<noteq> py_lower (wr_sha256 answer) \<longrightarrow>
          atomic_write sha w' owner mapped name content' (Some h) f' = (Inl StaleFileError, f'))"
proof -
  from assms(1-3) have run: "atomic_write sha w owner mapped name (utf8_text content) expected f = (Inr (), f')"
    and answer: "wr_sha256 answer = sha (utf8_text content)" "wr_bytes answer = length (utf8_text content)" "length (utf8_text content) \<le> MAX_WRITE_BYTES"
    by (auto simp: write_file_def Let_def split: sum.splits if_splits prod.splits)
  have "\<exists>it. map_of f' name = Some it \<and> wi_stat it = wt_stat w \<and> wi_data it = utf8_text content"
    using written_item [OF run assms(4-6)] .
  then obtain it where it: "map_of f' name = Some it" "wi_stat it = wt_stat w" "wi_data it = utf8_text content" by blast
  have sz: "\<not> MAX_STALE_BYTES < st_size (wi_stat it)" using assms(9) answer it(2) by (simp add: MAX_STALE_BYTES_def MAX_WRITE_BYTES_def)
  have "check_target sha (Some (wr_sha256 answer)) (map_of f' name) = Inr ()"
    using it assms(7,8) sz answer by (simp add: check_target_def check_original_def)
  moreover have "check_target sha (Some h) (map_of f' name) = Inl StaleFileError" if "h \<noteq> []" "py_lower h \<noteq> py_lower (wr_sha256 answer)" for h
    using it assms(7,8) sz answer that by (simp add: check_target_def check_original_def given_def)
  ultimately show ?thesis by (simp add: atomic_write_def Let_def)
qed

section \<open>An instance\<close>

definition demo_item :: "file_type \<Rightarrow> int \<Rightarrow> string \<Rightarrow> work_item" where
  "demo_item ty ino data = \<lparr>wi_stat = (node_stat ty (int (length data)))\<lparr>st_ino := ino\<rparr>, wi_data = data,
     wi_acl = [(''user'', [], ''rw-''), (''group'', [], ''r--''), (''other'', [], ''---'')]\<rparr>"

definition demo_writer :: writer where
  "demo_writer = \<lparr>wt_stat = (node_stat Regular 2)\<lparr>st_ino := 77\<rparr>, wt_temp = ''.t'', wt_default = [], wt_inherited = [],
     wt_early = (\<lambda>f. f), wt_staged = (\<lambda>f. f), wt_late = dict_set ''late'' (demo_item Regular 78 ''z'')\<rparr>"

definition demo_folder :: folder where
  "demo_folder = [(''a.py'', demo_item Regular 7 ''old'')]"

lemma quiet_demo: "quiet_temp demo_writer"
  by (simp add: quiet_temp_def leaves_def demo_writer_def map_of_dict_set)

theorem atomic_write_outcome_witness:
  "\<exists>f'. atomic_write (\<lambda>x. x) demo_writer 1000 False ''a.py'' ''hi'' (Some ''OLD'') demo_folder = (Inr (), f')
    \<and> map_option wi_data (map_of f' ''a.py'') = Some ''hi'' \<and> ''.t'' \<notin> fst ` set f'"
proof -
  let ?run = "atomic_write (\<lambda>x. x) demo_writer 1000 False ''a.py'' ''hi'' (Some ''OLD'') demo_folder"
  obtain r f' where run: "?run = (r, f')" by (cases ?run)
  have r: "fst ?run = Inr ()" by code_simp
  have t: "wt_temp demo_writer \<notin> fst ` set demo_folder" "''a.py'' \<noteq> wt_temp demo_writer" "wt_temp demo_writer = ''.t''"
    by (simp_all add: demo_writer_def demo_folder_def)
  from atomic_write_outcome [OF run quiet_demo t(1,2)] obtain item g where i: "wt_temp demo_writer \<notin> fst ` set f'" "wi_data item = ''hi''"
    "visible (wt_temp demo_writer) f' = (visible (wt_temp demo_writer) g)(''a.py'' \<mapsto> item)"
    using run r by auto
  then have "map_of f' ''a.py'' = Some item" using t(3) by (metis fun_upd_apply fun_upd_same t(2) visible_def)
  with i run r t(3) show ?thesis by auto
qed

theorem writes_chain_witness:
  "\<exists>answer f'. write_file (\<lambda>x. x) [(''w'', demo_project)] (\<lambda>_. Inr (1000, False, ''a.py'')) demo_writer ''w'' ''a.py'' ''hi'' None demo_folder = (Inr answer, f')
    \<and> atomic_write (\<lambda>x. x) demo_writer 1000 False ''a.py'' ''new'' (Some ''old'') f' = (Inl StaleFileError, f')"
proof -
  let ?run = "write_file (\<lambda>x. x) [(''w'', demo_project)] (\<lambda>_. Inr (1000, False, ''a.py'')) demo_writer ''w'' ''a.py'' ''hi'' None demo_folder"
  define answer where "answer = \<lparr>wr_path = ''a.py'', wr_bytes = 2, wr_sha256 = ''hi''\<rparr>"
  obtain f' where run: "?run = (Inr answer, f')"
  proof -
    have "fst ?run = Inr \<lparr>wr_path = ''a.py'', wr_bytes = 2, wr_sha256 = ''hi''\<rparr>" by code_simp
    then show thesis using that by (cases ?run) (simp add: answer_def)
  qed
  have t: "wt_temp demo_writer \<notin> fst ` set demo_folder" "''a.py'' \<noteq> wt_temp demo_writer"
    "st_type (wt_stat demo_writer) = Regular" "st_nlink (wt_stat demo_writer) = 1" "st_size (wt_stat demo_writer) = int (wr_bytes answer)"
    "wr_sha256 answer \<noteq> []" "get [(''w'', demo_project)] ''w'' = Inr demo_project"
    by (simp_all add: demo_writer_def demo_folder_def node_stat_def answer_def get_def)
  have n: "(''old'' :: string) \<noteq> []" "py_lower ''old'' \<noteq> py_lower (wr_sha256 answer)" by (simp, simp add: answer_def, code_simp)
  from writes_chain [OF run refl t(7) quiet_demo t(1-6)] n
  have "atomic_write (\<lambda>x. x) demo_writer 1000 False ''a.py'' ''new'' (Some ''old'') f' = (Inl StaleFileError, f')" by blast
  with run show ?thesis by blast
qed

definition demo_step :: dir_step where
  "demo_step = \<lparr>ds_made = False, ds_open = Opened ((node_stat Directory 0)\<lparr>st_uid := 998\<rparr>),
     ds_acl = [(''user'', [], ''rwx''), (''group'', [], ''---''), (''other'', [], ''---'')], ds_default = []\<rparr>"

theorem service_parents_searchable_witness:
  "human_can_traverse (ds_acl demo_step) 998 1000 [] 1000 = Inr False \<and> parent_walk 998 1000 [] False [demo_step] = Inr ()"
proof -
  have "human_can_traverse (ds_acl demo_step) 998 1000 [] 1000 = Inr False" by code_simp
  moreover have d: "distinct (map row_key (ds_acl demo_step))" "distinct (map row_key (ds_default demo_step))" by code_simp+
  have "parent_walk 998 1000 [] False [demo_step] = Inr ()"
    by (rule service_parents_searchable) (use d in \<open>auto simp: demo_step_def\<close>)
  ultimately show ?thesis by blast
qed

theorem move_exact_witness:
  "\<exists>d'. workspace_move (\<lambda>_ _. False) (\<lambda>d. d) False 1 ''a.py'' 1 ''lib'' [(1, [(''a.py'', demo_item Regular 7 ''old''), (''lib'', demo_item Directory 2 [])]), (2, [])] = (Inr (), d')
    \<and> entry_at d' 2 ''a.py'' = Some (demo_item Regular 7 ''old'') \<and> entry_at d' 1 ''a.py'' = None"
proof -
  let ?d = "[(1, [(''a.py'', demo_item Regular 7 ''old''), (''lib'', demo_item Directory 2 [])]), (2, [])]"
  let ?run = "workspace_move (\<lambda>_ _. False) (\<lambda>d. d) False 1 ''a.py'' 1 ''lib'' ?d"
  obtain r d' where run: "?run = (r, d')" by (cases ?run)
  have r: "fst ?run = Inr ()" by code_simp
  have e: "entry_at ?d 1 ''a.py'' = Some (demo_item Regular 7 ''old'')" "entry_at ?d 1 ''lib'' = Some (demo_item Directory 2 [])"
    "entry_at ?d 2 ''a.py'' = None" by (simp_all add: entry_at_def)
  have t: "move_target False ''a.py'' 1 ''lib'' ?d = Inr (2, ''a.py'')" by code_simp
  have "snd ?run = set_entry 2 ''a.py'' (demo_item Regular 7 ''old'') (drop_entry 1 ''a.py'' ?d)" by code_simp
  then have d': "d' = set_entry 2 ''a.py'' (demo_item Regular 7 ''old'') (drop_entry 1 ''a.py'' ?d)" using run by simp
  have "r = Inr ()" using run r by simp
  with move_exact [OF run] e have "\<exists>source. entry_at ?d 1 ''a.py'' = Some source \<and> movable source" by auto
  with run r d' show ?thesis by auto
qed

end
