(* ===== verification/Leases.thy ===== *)
theory Leases
  imports Work_Writes
begin

text \<open>
  \<open>workspaces/leases.py\<close>: the one lock per workspace identity that job publication and every mutating tool take.  The
  lock files of the state directory are the list of held keys with their holders; the durable guards of an unfinished
  publication are the keys of pending files and the answer of the recovery-guard search.
\<close>

section \<open>Requests\<close>

text \<open>The SHA-256 of \<open>device:inode\<close>.\<close>

definition workspace_key :: "(string \<Rightarrow> string) \<Rightarrow> int \<times> int \<Rightarrow> string" where
  "workspace_key sha i = sha (show_int (fst i) @ '':'' @ show_int (snd i))"

text \<open>
  One call: the workspace as it resolves, or as it is spelled when a pinned descriptor comes with it, the answers of the
  descriptor's revalidation (\<open>None\<close> when no callable was given), the resolved state directory, the identity at the start
  and after the lock was taken, and what the search for unfinished guards says.
\<close>

record lease_request =
  lq_pinned :: bool
  lq_workspace :: "string list result"
  lq_canonical :: bool
  lq_revalidate :: "(unit result \<times> unit result) option"
  lq_state :: "string list"
  lq_allow_pending :: bool
  lq_identity :: "int \<times> int"
  lq_current :: "int \<times> int"
  lq_unfinished :: "bool result"

record lease_state =
  ls_held :: "(string \<times> nat) list"
  ls_pending :: "string list"
  ls_git_pending :: "string list"

text \<open>The workspace of the request, and that the state directory is not inside it.\<close>

definition lease_scope :: "lease_request \<Rightarrow> string list result" where
  "lease_scope q =
     (if \<not> lq_pinned q then (if lq_revalidate q \<noteq> None then Inl PermissionError else lq_workspace q)
      else (case lq_revalidate q of
          None \<Rightarrow> Inl PermissionError
        | Some (first, _) \<Rightarrow> if \<not> lq_canonical q then Inl PermissionError else rbind first (\<lambda>_. lq_workspace q)))"

definition is_below :: "string list \<Rightarrow> string list \<Rightarrow> bool" where
  "is_below d p \<longleftrightarrow> starts_with d p"

text \<open>Entering the context; every error leaves the lock free, since its descriptor is closed.\<close>

definition mutation_lease :: "(string \<Rightarrow> string) \<Rightarrow> nat \<Rightarrow> lease_request \<Rightarrow> lease_state \<Rightarrow> lease_state result" where
  "mutation_lease sha who q s =
     rbind (lease_scope q) (\<lambda>workspace.
       if is_below workspace (lq_state q) then Inl PermissionError
       else let key = workspace_key sha (lq_identity q) in
         if key \<in> field_names (ls_held s) then Inl PermissionError
         else if \<not> lq_allow_pending q \<and> key \<in> set (ls_pending s @ ls_git_pending s) then Inl ResourceCleanupError
         else rbind (if lq_allow_pending q then Inr False else lq_unfinished q) (\<lambda>unfinished.
           if unfinished then Inl ResourceCleanupError
           else rbind (case lq_revalidate q of None \<Rightarrow> Inr () | Some (_, again) \<Rightarrow> again) (\<lambda>_.
             if lq_current q \<noteq> lq_identity q then Inl PermissionError
             else Inr (s\<lparr>ls_held := (key, who) # ls_held s\<rparr>))))"

definition release :: "nat \<Rightarrow> lease_state \<Rightarrow> lease_state" where
  "release who s = s\<lparr>ls_held := filter (\<lambda>p. snd p \<noteq> who) (ls_held s)\<rparr>"

text \<open>
  The wrapper of the mutating tools: without a state directory the function itself; otherwise the workspace is looked up
  and the function runs while the lease is held, on a world of which the lock table is one part.
\<close>

definition serialized_mutation :: "(string \<Rightarrow> string) \<Rightarrow> bool \<Rightarrow> ('i \<Rightarrow> lease_request result) \<Rightarrow> ('a \<Rightarrow> 'i)
    \<Rightarrow> ('a \<Rightarrow> lease_state \<times> 'w \<Rightarrow> 'r result \<times> lease_state \<times> 'w) \<Rightarrow> nat \<Rightarrow> 'a \<Rightarrow> lease_state \<times> 'w \<Rightarrow> 'r result \<times> lease_state \<times> 'w" where
  "serialized_mutation sha has_state find_workspace workspace_id function who args w =
     (if \<not> has_state then function args w
      else case find_workspace (workspace_id args) of
          Inl e \<Rightarrow> (Inl e, w)
        | Inr q \<Rightarrow> (case mutation_lease sha who q (fst w) of
              Inl e \<Rightarrow> (Inl e, w)
            | Inr held \<Rightarrow> (case function args (held, snd w) of (r, locks, w') \<Rightarrow> (r, release who locks, w'))))"

section \<open>Exclusion\<close>

text \<open>
  What processes do to the lock table: leases are entered and left, and a holder records or removes a pending
  publication of the workspace it holds.
\<close>

datatype lease_event = Enter nat lease_request | Leave nat | Mark nat string bool | Unmark nat string bool

inductive lease_step :: "(string \<Rightarrow> string) \<Rightarrow> lease_state \<Rightarrow> lease_event \<Rightarrow> lease_state \<Rightarrow> bool" for sha where
  enter: "mutation_lease sha who q s = Inr s' \<Longrightarrow> lease_step sha s (Enter who q) s'"
| leave: "lease_step sha s (Leave who) (release who s)"
| mark: "(key, who) \<in> set (ls_held s) \<Longrightarrow> lease_step sha s (Mark who key git)
    (if git then s\<lparr>ls_git_pending := key # ls_git_pending s\<rparr> else s\<lparr>ls_pending := key # ls_pending s\<rparr>)"
| unmark: "(key, who) \<in> set (ls_held s) \<Longrightarrow> lease_step sha s (Unmark who key git)
    (if git then s\<lparr>ls_git_pending := filter (\<lambda>k. k \<noteq> key) (ls_git_pending s)\<rparr> else s\<lparr>ls_pending := filter (\<lambda>k. k \<noteq> key) (ls_pending s)\<rparr>)"

inductive_cases lease_stepE: "lease_step sha s e s'"

inductive lease_trace :: "(string \<Rightarrow> string) \<Rightarrow> lease_state \<Rightarrow> lease_event list \<Rightarrow> lease_state \<Rightarrow> bool" for sha where
  trace_done: "lease_trace sha s [] s"
| trace_more: "lease_step sha s e s1 \<Longrightarrow> lease_trace sha s1 es s' \<Longrightarrow> lease_trace sha s (e # es) s'"

lemma mutation_lease_Inr:
  "mutation_lease sha who q s = Inr s' \<Longrightarrow>
     s' = s\<lparr>ls_held := (workspace_key sha (lq_identity q), who) # ls_held s\<rparr>
     \<and> workspace_key sha (lq_identity q) \<notin> field_names (ls_held s) \<and> lq_current q = lq_identity q
     \<and> (\<exists>ws. lease_scope q = Inr ws \<and> \<not> is_below ws (lq_state q))
     \<and> (lq_allow_pending q \<or> (workspace_key sha (lq_identity q) \<notin> set (ls_pending s @ ls_git_pending s) \<and> lq_unfinished q = Inr False))"
  by (auto simp: mutation_lease_def Let_def split: if_splits)

lemma held_distinct_step:
  assumes "lease_step sha s e s'" and "distinct (map fst (ls_held s))"
  shows "distinct (map fst (ls_held s'))"
  using assms by (cases rule: lease_step.cases)
    (auto simp: release_def distinct_map_filter field_names_def dest!: mutation_lease_Inr)

lemma held_distinct_trace: "lease_trace sha s es s' \<Longrightarrow> distinct (map fst (ls_held s)) \<Longrightarrow> distinct (map fst (ls_held s'))"
  by (induction rule: lease_trace.induct) (simp_all add: held_distinct_step)

lemma kept_step:
  assumes "lease_step sha s e s'" and "(key, who) \<in> set (ls_held s)" and "e \<noteq> Leave who"
  shows "(key, who) \<in> set (ls_held s')"
  using assms by (cases rule: lease_step.cases) (auto simp: release_def dest!: mutation_lease_Inr)

lemma kept_trace:
  "lease_trace sha s es s' \<Longrightarrow> (key, who) \<in> set (ls_held s) \<Longrightarrow> Leave who \<notin> set es \<Longrightarrow> (key, who) \<in> set (ls_held s')"
  by (induction rule: lease_trace.induct) (auto dest: kept_step)

text \<open>
  Two mutations of one workspace never overlap: between the entry of a lease and the moment its holder leaves, no
  other lease for a directory with the same identity is entered, whatever paths name it; and one that is entered without
  the recovery permission meets no pending publication of that workspace.
\<close>
theorem leases_exclude:
  assumes "mutation_lease sha who q s = Inr s1" and "lease_trace sha s1 es s2" and "Leave who \<notin> set es"
    and "lq_identity q' = lq_identity q"
  shows "(\<exists>e. mutation_lease sha other q' s2 = Inl e)
    \<and> (\<not> lq_allow_pending q \<longrightarrow> workspace_key sha (lq_identity q) \<notin> set (ls_pending s) \<union> set (ls_git_pending s) \<and> lq_unfinished q = Inr False)"
proof -
  note entered = mutation_lease_Inr [OF assms(1)]
  then have "(workspace_key sha (lq_identity q), who) \<in> set (ls_held s1)" by auto
  from kept_trace [OF assms(2) this assms(3)] have "workspace_key sha (lq_identity q') \<in> field_names (ls_held s2)"
    unfolding assms(4) field_names_def by force
  then have "mutation_lease sha other q' s2 \<noteq> Inr s3" for s3 using mutation_lease_Inr [of sha other q' s2 s3] by blast
  then have "\<exists>e. mutation_lease sha other q' s2 = Inl e" by (cases "mutation_lease sha other q' s2") auto
  with entered show ?thesis by auto
qed

text \<open>A wrapped tool that changes its world did so inside a lease it entered, and leaves no lock behind.\<close>

lemma serialized_runs_inside:
  assumes "serialized_mutation sha True find_workspace workspace_id function who args w = (r, w')" and "snd w' \<noteq> snd w"
  shows "\<exists>q held. find_workspace (workspace_id args) = Inr q \<and> mutation_lease sha who q (fst w) = Inr held
    \<and> (case function args (held, snd w) of (r', locks, x) \<Rightarrow> r' = r \<and> w' = (release who locks, x))"
  using assms by (auto simp: serialized_mutation_def split: sum.splits prod.splits)

definition demo_lease :: lease_request where
  "demo_lease = \<lparr>lq_pinned = False, lq_workspace = Inr [''srv'', ''w''], lq_canonical = True, lq_revalidate = None, lq_state = [''var'', ''s''],
     lq_allow_pending = False, lq_identity = (1, 2), lq_current = (1, 2), lq_unfinished = Inr False\<rparr>"

theorem leases_exclude_witness:
  "\<exists>s1 s2. mutation_lease id 1 demo_lease \<lparr>ls_held = [], ls_pending = [''9:9''], ls_git_pending = []\<rparr> = Inr s1
    \<and> lease_trace id s1 [Mark 1 ''1:2'' False] s2 \<and> (\<exists>e. mutation_lease id 2 (demo_lease\<lparr>lq_allow_pending := True\<rparr>) s2 = Inl e)"
proof -
  let ?s = "\<lparr>ls_held = [], ls_pending = [''9:9''], ls_git_pending = []\<rparr>"
  let ?s1 = "?s\<lparr>ls_held := [(''1:2'', 1)]\<rparr>"
  have k: "workspace_key id (1, 2) = ''1:2''" by code_simp
  have a: "mutation_lease id 1 demo_lease ?s = Inr ?s1"
    by (simp add: mutation_lease_def demo_lease_def lease_scope_def is_below_def k field_names_def)
  have b: "lease_trace id ?s1 [Mark 1 ''1:2'' False] (?s1\<lparr>ls_pending := [''1:2'', ''9:9'']\<rparr>)"
    using lease_step.mark [of "''1:2''" 1 ?s1 id False] by (intro trace_more [OF _ trace_done]) simp
  from leases_exclude [OF a b, of "demo_lease\<lparr>lq_allow_pending := True\<rparr>" 2] a b show ?thesis
    by (auto simp: demo_lease_def)
qed

end
