(* ===== verification/Patches.thy ===== *)
theory Patches
  imports Work_Writes
begin

text \<open>
  Unified patches, \<open>workspaces/patching.py\<close>: the parser that finds the files a patch names before it runs, and the
  application, which works on a private copy of these files and publishes the results one by one.
\<close>

section \<open>Lines and hunks\<close>

definition split_lines :: "string \<Rightarrow> string list" where
  "split_lines s = map (\<lambda>l. map char_of (takeWhile (\<lambda>p. \<not> line_break p) l)) (lines_kept (map char_code s))"

definition NO_NEWLINE :: string where
  "NO_NEWLINE = CHR 0x5C # '' No newline at end of file''"

text \<open>The regular expression of a hunk header: the two line counts, 1 where they are left out.\<close>

definition count_part :: "string \<Rightarrow> (nat \<times> string) option" where
  "count_part s = (let ds = takeWhile is_digit s; r = dropWhile is_digit s in
     if ds = [] then None
     else if r \<noteq> [] \<and> hd r = CHR '','' then
       (let cs = takeWhile is_digit (tl r) in if cs = [] then None else Some (nat (decimal_value cs), dropWhile is_digit (tl r)))
     else Some (1, r))"

definition hunk_header :: "string \<Rightarrow> (nat \<times> nat) option" where
  "hunk_header l = (if \<not> starts_with ''@@ -'' l then None else case count_part (drop 4 l) of
       None \<Rightarrow> None
     | Some (a, r) \<Rightarrow> if \<not> starts_with '' +'' r then None else case count_part (drop 2 r) of
           None \<Rightarrow> None
         | Some (b, r') \<Rightarrow> if starts_with '' @@'' r' then Some (a, b) else None)"

fun hunk_body :: "nat \<Rightarrow> nat \<Rightarrow> string list \<Rightarrow> string list result" where
  "hunk_body a b [] = (if a = 0 \<and> b = 0 then Inr [] else Inl ValueError)"
| "hunk_body a b (l # ls) =
     (if a = 0 \<and> b = 0 then Inr (l # ls)
      else if l = [] then Inl ValueError
      else if hd l = CHR 0x5C then (if l = NO_NEWLINE then hunk_body a b ls else Inl ValueError)
      else if hd l \<notin> set '' +-'' then Inl ValueError
      else if (hd l \<noteq> CHR ''+'' \<and> a = 0) \<or> (hd l \<noteq> CHR ''-'' \<and> b = 0) then Inl ValueError
      else hunk_body (if hd l = CHR ''+'' then a else a - 1) (if hd l = CHR ''-'' then b else b - 1) ls)"

definition hunk :: "string \<Rightarrow> string list \<Rightarrow> string list result" where
  "hunk l ls = (case hunk_header l of
       None \<Rightarrow> Inl ValueError
     | Some (a, b) \<Rightarrow> rbind (hunk_body a b ls) (\<lambda>rest. Inr (if rest \<noteq> [] \<and> hd rest = NO_NEWLINE then tl rest else rest)))"

lemma hunk_body_shorter: "hunk_body a b ls = Inr rest \<Longrightarrow> length rest \<le> length ls"
  by (induction a b ls rule: hunk_body.induct) (auto split: if_splits)

lemma hunk_shorter: "hunk l ls = Inr rest \<Longrightarrow> length rest \<le> length ls"
  by (auto simp: hunk_def split: option.splits if_splits dest!: hunk_body_shorter)

function hunks :: "nat \<Rightarrow> string list \<Rightarrow> (nat \<times> string list) result" where
  "hunks n [] = Inr (n, [])"
| "hunks n (l # ls) = (if starts_with ''@@ '' l then (case hunk l ls of Inl e \<Rightarrow> Inl e | Inr rest \<Rightarrow> hunks (n + 1) rest) else Inr (n, l # ls))"
  by pat_completeness auto
termination
  by (relation "measure (\<lambda>(n, ls). length ls)") (auto dest: hunk_shorter)

lemma hunks_shorter: "hunks n ls = Inr (m, rest) \<Longrightarrow> length rest \<le> length ls"
  by (induction n ls rule: hunks.induct) (auto split: if_splits sum.splits dest!: hunk_shorter)

section \<open>Targets\<close>

type_synonym target = "string \<times> bool \<times> bool"   \<comment> \<open>path, created, deleted\<close>

definition header_name :: "string \<Rightarrow> string" where
  "header_name l = takeWhile (\<lambda>c. c \<noteq> CHR 0x09) (drop 4 l)"

definition clean_name :: "bool option \<Rightarrow> string \<Rightarrow> (bool option \<times> string option) result" where
  "clean_name strip name =
     (if name = ''/dev/null'' then Inr (strip, None)
      else let prefixed = starts_with ''a/'' name \<or> starts_with ''b/'' name in
        if strip \<noteq> None \<and> strip \<noteq> Some prefixed then Inl ValueError
        else Inr (Some prefixed, Some (if prefixed then drop 2 name else name)))"

definition nonempty :: "string option \<Rightarrow> bool" where
  "nonempty x \<longleftrightarrow> x \<noteq> None \<and> x \<noteq> Some []"

definition MAX_TARGETS :: nat where
  "MAX_TARGETS = 256"

definition add_target :: "bool option \<Rightarrow> target list \<Rightarrow> string \<Rightarrow> string \<Rightarrow> (bool option \<times> target list) result" where
  "add_target strip paths old_line new_line =
     rbind (clean_name strip (header_name old_line)) (\<lambda>(strip1, old).
     rbind (clean_name strip1 (header_name new_line)) (\<lambda>(strip2, new).
       if \<not> (nonempty old \<or> nonempty new) \<or> (nonempty old \<and> nonempty new \<and> old \<noteq> new) then Inl ValueError
       else let path = the (if nonempty old then old else new) in
         if path \<in> fst ` set paths \<or> MAX_TARGETS \<le> length paths then Inl ValueError
         else Inr (strip2, paths @ [(path, old = None, new = None)])))"

function targets_loop :: "bool option \<Rightarrow> target list \<Rightarrow> string list \<Rightarrow> (target list \<times> bool) result" where
  "targets_loop strip paths [] = (if paths = [] then Inl ValueError else Inr (paths, strip = Some True))"
| "targets_loop strip paths (l # ls) =
     (if starts_with ''diff --git '' l \<or> starts_with ''index '' l \<or> l = [] then targets_loop strip paths ls
      else if \<not> starts_with ''--- '' l \<or> ls = [] \<or> \<not> starts_with ''+++ '' (hd ls) then Inl ValueError
      else (case add_target strip paths l (hd ls) of
          Inl e \<Rightarrow> Inl e
        | Inr (strip', paths') \<Rightarrow> (case hunks 0 (tl ls) of
            Inl e \<Rightarrow> Inl e
          | Inr (n, rest) \<Rightarrow> if n = 0 then Inl ValueError else targets_loop strip' paths' rest)))"
  by pat_completeness auto
termination
  by (relation "measure (\<lambda>(strip, paths, ls). length ls)") (auto dest!: hunks_shorter)

definition targets :: "string \<Rightarrow> (target list \<times> bool) result" where
  "targets patch = targets_loop None [] (split_lines patch)"

section \<open>Application\<close>

text \<open>
  The files of the workspace by path, and what the publication does with one of them: \<open>put_file\<close> is the atomic write
  without interference, which \<open>atomic_write_put\<close> below shows.
\<close>

type_synonym file_table = "(string \<times> string) list"

definition put_file :: "(string \<Rightarrow> string) \<Rightarrow> string \<Rightarrow> string \<Rightarrow> string option \<Rightarrow> file_table \<Rightarrow> unit result \<times> file_table" where
  "put_file sha path content expected t = (case (expected, map_of t path) of
       (None, None) \<Rightarrow> (Inr (), dict_set path content t)
     | (None, Some _) \<Rightarrow> (Inr (), dict_set path content t)
     | (Some h, None) \<Rightarrow> (Inl StaleFileError, t)
     | (Some h, Some old) \<Rightarrow> if py_lower (sha old) = py_lower h then (Inr (), dict_set path content t) else (Inl StaleFileError, t))"

text \<open>
  The host: the check of a path, the bounded read, the patch program on the staged files (its exit status and the files
  it leaves), and what other processes do while it runs.
\<close>

record patch_host =
  ph_valid :: "string \<Rightarrow> unit result"
  ph_limit :: nat
  ph_patch :: "bool \<Rightarrow> string \<Rightarrow> file_table \<Rightarrow> int \<times> file_table"
  ph_others :: "file_table \<Rightarrow> file_table"

definition read_limited :: "patch_host \<Rightarrow> file_table \<Rightarrow> string \<Rightarrow> string result" where
  "read_limited h t path = rbind (ph_valid h path) (\<lambda>_. case map_of t path of
       None \<Rightarrow> Inl FileNotFoundError
     | Some data \<Rightarrow> if ph_limit h < length data then Inl ValueError else Inr data)"

fun stage :: "patch_host \<Rightarrow> file_table \<Rightarrow> target list \<Rightarrow> ((string \<times> string option) list \<times> file_table) result" where
  "stage h t [] = Inr ([], [])"
| "stage h t ((path, create, delete) # ts) = rbind (ph_valid h path) (\<lambda>_.
     if create then
       (if map_of t path \<noteq> None then Inl ValueError
        else rbind (stage h t ts) (\<lambda>(bs, staged). Inr ((path, None) # bs, staged)))
     else rbind (read_limited h t path) (\<lambda>data. rbind (stage h t ts) (\<lambda>(bs, staged). Inr ((path, Some data) # bs, (path, data) # staged))))"

definition unchanged :: "(string \<Rightarrow> string) \<Rightarrow> patch_host \<Rightarrow> file_table \<Rightarrow> string \<times> string option \<Rightarrow> unit result" where
  "unchanged sha h t = (\<lambda>(path, before). case before of
       Some data \<Rightarrow> rbind (read_limited h t path) (\<lambda>now. require (sha now = sha data) ValueError)
     | None \<Rightarrow> require (map_of t path = None) ValueError)"

definition read_output :: "patch_host \<Rightarrow> file_table \<Rightarrow> target \<Rightarrow> (string \<times> string) result" where
  "read_output h results x = rbind (read_limited h results (fst x)) (\<lambda>d. Inr (fst x, d))"

fun publish_all :: "(string \<Rightarrow> string) \<Rightarrow> (string \<times> string option) list \<Rightarrow> (string \<times> string) list \<Rightarrow> target list \<Rightarrow> file_table \<Rightarrow> unit result \<times> file_table" where
  "publish_all sha before outputs [] t = (Inr (), t)"
| "publish_all sha before outputs ((path, create, delete) # ts) t =
     (if delete then
        (if map_of t path = None then (Inl FileNotFoundError, t) else publish_all sha before outputs ts (dict_pop path t))
      else (case put_file sha path (the (map_of outputs path)) (map_option sha (the (map_of before path))) t of
          (Inl e, t') \<Rightarrow> (Inl e, t')
        | (Inr _, t') \<Rightarrow> publish_all sha before outputs ts t'))"

definition apply_workspace_patch :: "(string \<Rightarrow> string) \<Rightarrow> patch_host \<Rightarrow> string \<Rightarrow> file_table \<Rightarrow> int result \<times> file_table" where
  "apply_workspace_patch sha h patch t =
     (case targets patch of
        Inl e \<Rightarrow> (Inl e, t)
      | Inr (ts, strip) \<Rightarrow> (case stage h t ts of
          Inl e \<Rightarrow> (Inl e, t)
        | Inr (before, staged) \<Rightarrow>
            (let (code, results) = ph_patch h strip patch staged; t1 = ph_others h t in
             if code \<noteq> 0 then (Inr code, t1)
             else (case rmap_list (read_output h results) (filter (\<lambda>(p, c, d). \<not> d) ts) of
                 Inl e \<Rightarrow> (Inl e, t1)
               | Inr outputs \<Rightarrow> (case rcheck_list (unchanged sha h t1) before of
                     Inl e \<Rightarrow> (Inl e, t1)
                   | Inr _ \<Rightarrow> (case publish_all sha before outputs ts t1 of
                         (Inl e, t') \<Rightarrow> (Inl e, t')
                       | (Inr _, t') \<Rightarrow> (Inr code, t')))))))"

section \<open>What the parser accepts\<close>

definition good_targets :: "target list \<Rightarrow> bool" where
  "good_targets ts \<longleftrightarrow> distinct (map fst ts) \<and> length ts \<le> MAX_TARGETS \<and> (\<forall>(p, c, d) \<in> set ts. p \<noteq> [] \<and> \<not> (c \<and> d))"

lemma add_target_good: "add_target strip ts o1 n1 = Inr (strip', ts') \<Longrightarrow> good_targets ts \<Longrightarrow> good_targets ts' \<and> ts' \<noteq> []"
  by (auto simp: add_target_def good_targets_def nonempty_def Let_def split: if_splits)

lemma targets_loop_good: "targets_loop strip ts ls = Inr (out, b) \<Longrightarrow> good_targets ts \<Longrightarrow> good_targets out \<and> out \<noteq> []"
proof (induction strip ts ls rule: targets_loop.induct)
  case (2 strip paths l ls)
  show ?case
  proof (cases "starts_with ''diff --git '' l \<or> starts_with ''index '' l \<or> l = []")
    case True
    with 2 show ?thesis by simp
  next
    case plain: False
    with 2(3) obtain strip' paths' n rest where a: "starts_with ''--- '' l" "ls \<noteq> []" "starts_with ''+++ '' (hd ls)"
      "add_target strip paths l (hd ls) = Inr (strip', paths')" "hunks 0 (tl ls) = Inr (n, rest)" "n \<noteq> 0"
      "targets_loop strip' paths' rest = Inr (out, b)" by (auto split: if_splits sum.splits)
    have "\<not> (\<not> starts_with ''--- '' l \<or> ls = [] \<or> \<not> starts_with ''+++ '' (hd ls))" using a(1-3) by simp
    from 2(2) [OF plain this a(4) refl a(5) refl a(6,7)] add_target_good [OF a(4) 2(4)] show ?thesis by blast
  qed
qed (auto split: if_splits)

lemma targets_good: "targets patch = Inr (ts, b) \<Longrightarrow> good_targets ts \<and> ts \<noteq> []"
  unfolding targets_def by (rule targets_loop_good) (auto simp: good_targets_def)

section \<open>Printed patches\<close>

type_synonym file_change = "string \<times> bool \<times> bool \<times> (char \<times> string) list list"

definition old_count :: "(char \<times> string) list \<Rightarrow> nat" where
  "old_count h = length (filter (\<lambda>l. fst l \<noteq> CHR ''+'') h)"

definition new_count :: "(char \<times> string) list \<Rightarrow> nat" where
  "new_count h = length (filter (\<lambda>l. fst l \<noteq> CHR ''-'') h)"

definition print_hunk :: "(char \<times> string) list \<Rightarrow> string list" where
  "print_hunk h = (''@@ -1,'' @ decimal (old_count h) @ '' +1,'' @ decimal (new_count h) @ '' @@'') # map (\<lambda>(c, t). c # t) h"

definition print_change :: "file_change \<Rightarrow> string list" where
  "print_change = (\<lambda>(p, c, d, hs). (''--- '' @ (if c then ''/dev/null'' else ''a/'' @ p)) # (''+++ '' @ (if d then ''/dev/null'' else ''b/'' @ p))
     # concat (map print_hunk hs))"

definition good_change :: "file_change \<Rightarrow> bool" where
  "good_change = (\<lambda>(p, c, d, hs). p \<noteq> [] \<and> CHR 0x09 \<notin> set p \<and> \<not> (c \<and> d) \<and> hs \<noteq> [] \<and> (\<forall>h \<in> set hs. \<forall>l \<in> set h. fst l \<in> set '' +-''))"

lemma hunk_body_printed:
  "\<forall>l \<in> set h. fst l \<in> set '' +-'' \<Longrightarrow> hunk_body (old_count h) (new_count h) (map (\<lambda>(c, t). c # t) h @ rest) = Inr rest"
proof (induction h)
  case Nil
  then show ?case by (cases rest) (auto simp: old_count_def new_count_def)
next
  case (Cons l h)
  obtain c t where l: "l = (c, t)" by (cases l)
  with Cons.prems have "c = CHR '' '' \<or> c = CHR ''+'' \<or> c = CHR ''-''" by auto
  with Cons l show ?case by (auto simp: old_count_def new_count_def)
qed

lemma count_part_printed: "r = [] \<or> \<not> is_digit (hd r) \<Longrightarrow> count_part (''1,'' @ decimal n @ r) = Some (n, r)"
proof -
  assume r: "r = [] \<or> \<not> is_digit (hd r)"
  have d: "\<forall>c \<in> set (decimal n). is_digit c" "decimal n \<noteq> []" "decimal_value (decimal n) = int n"
    using decimal_text by (auto simp: list_all_iff)
  have t: "takeWhile is_digit (decimal n @ r) = decimal n" "dropWhile is_digit (decimal n @ r) = r"
    using d(1) r by (cases r; simp add: takeWhile_append2 dropWhile_append2)+
  have c: "is_digit (CHR ''1'')" "\<not> is_digit (CHR '','')" by code_simp+
  show "count_part (''1,'' @ decimal n @ r) = Some (n, r)" using t d c by (simp add: count_part_def Let_def)
qed

lemma hunk_header_printed: "hunk_header (hd (print_hunk h)) = Some (old_count h, new_count h)"
proof -
  have nd: "\<not> is_digit (CHR '' '')" by code_simp
  have "count_part (''1,'' @ decimal (new_count h) @ '' @@'') = Some (new_count h, '' @@'')"
    using nd by (intro count_part_printed) simp
  moreover have "count_part (''1,'' @ decimal (old_count h) @ '' +1,'' @ decimal (new_count h) @ '' @@'')
      = Some (old_count h, '' +1,'' @ decimal (new_count h) @ '' @@'')"
    using nd by (intro count_part_printed) simp
  ultimately show ?thesis by (simp add: hunk_header_def print_hunk_def)
qed

lemma hunk_printed:
  assumes "\<forall>l \<in> set h. fst l \<in> set '' +-''" and "rest = [] \<or> hd rest \<noteq> NO_NEWLINE"
  shows "hunk (hd (print_hunk h)) (tl (print_hunk h) @ rest) = Inr rest"
  using assms hunk_body_printed [OF assms(1), of rest] hunk_header_printed [of h]
  by (auto simp: hunk_def print_hunk_def)

lemma hunks_printed:
  assumes "\<forall>h \<in> set hs. \<forall>l \<in> set h. fst l \<in> set '' +-''" and "rest = [] \<or> \<not> starts_with ''@@ '' (hd rest) \<and> hd rest \<noteq> NO_NEWLINE"
  shows "hunks n (concat (map print_hunk hs) @ rest) = Inr (n + length hs, rest)"
  using assms(1)
proof (induction hs arbitrary: n)
  case Nil
  with assms(2) show ?case by (cases rest) auto
next
  case (Cons h hs)
  let ?more = "concat (map print_hunk hs) @ rest"
  have "?more = [] \<or> hd ?more \<noteq> NO_NEWLINE"
    using assms(2) by (cases hs) (auto simp: print_hunk_def NO_NEWLINE_def)
  from hunk_printed [OF _ this, of h] Cons.prems have "hunk (hd (print_hunk h)) (tl (print_hunk h) @ ?more) = Inr ?more" by simp
  moreover have "starts_with ''@@ '' (hd (print_hunk h))" by (simp add: print_hunk_def)
  moreover have "print_hunk h @ ?more = hd (print_hunk h) # tl (print_hunk h) @ ?more" by (simp add: print_hunk_def)
  ultimately have "hunks n (print_hunk h @ ?more) = hunks (n + 1) ?more" by (simp only: hunks.simps if_True sum.case)
  with Cons show ?case by simp
qed

lemma header_printed:
  "CHR 0x09 \<notin> set p \<Longrightarrow> header_name (''--- a/'' @ p) = ''a/'' @ p \<and> header_name (''+++ b/'' @ p) = ''b/'' @ p
     \<and> header_name (''--- /dev/null'') = ''/dev/null'' \<and> header_name (''+++ /dev/null'') = ''/dev/null''"
  by (auto simp: header_name_def takeWhile_eq_all_conv)

lemma add_target_printed:
  assumes "good_change (p, c, d, hs)" and "strip = None \<or> strip = Some True" and "p \<notin> fst ` set ts" and "length ts < MAX_TARGETS"
  shows "add_target strip ts (hd (print_change (p, c, d, hs))) (hd (tl (print_change (p, c, d, hs)))) = Inr (Some True, ts @ [(p, c, d)])"
  using assms header_printed [of p]
  by (auto simp: add_target_def print_change_def clean_name_def good_change_def nonempty_def Let_def)

lemma targets_loop_printed:
  "\<forall>f \<in> set fs. good_change f \<Longrightarrow> distinct (map fst fs) \<Longrightarrow> fst ` set ts \<inter> fst ` set fs = {} \<Longrightarrow> length ts + length fs \<le> MAX_TARGETS
     \<Longrightarrow> strip = None \<or> strip = Some True \<Longrightarrow> ts \<noteq> [] \<longrightarrow> strip = Some True \<Longrightarrow> ts \<noteq> [] \<or> fs \<noteq> []
     \<Longrightarrow> targets_loop strip ts (concat (map print_change fs)) = Inr (ts @ map (\<lambda>(p, c, d, hs). (p, c, d)) fs, True)"
proof (induction fs arbitrary: strip ts)
  case (Cons f fs)
  obtain p c d hs where f: "f = (p, c, d, hs)" by (cases f)
  let ?rest = "concat (map print_change fs)"
  have good: "good_change (p, c, d, hs)" using Cons.prems f by simp
  have body: "print_change f @ ?rest = hd (print_change f) # hd (tl (print_change f)) # concat (map print_hunk hs) @ ?rest"
    by (simp add: f print_change_def)
  have "?rest = [] \<or> \<not> starts_with ''@@ '' (hd ?rest) \<and> hd ?rest \<noteq> NO_NEWLINE"
    by (cases fs) (auto simp: print_change_def NO_NEWLINE_def)
  then have h: "hunks 0 (concat (map print_hunk hs) @ ?rest) = Inr (length hs, ?rest)"
    using hunks_printed [of hs ?rest 0] good by (auto simp: good_change_def)
  have a: "add_target strip ts (hd (print_change f)) (hd (tl (print_change f))) = Inr (Some True, ts @ [(p, c, d)])"
    using add_target_printed [OF good] Cons.prems f by auto
  have "targets_loop (Some True) (ts @ [(p, c, d)]) ?rest = Inr ((ts @ [(p, c, d)]) @ map (\<lambda>(p, c, d, hs). (p, c, d)) fs, True)"
    using Cons.prems f by (intro Cons.IH) auto
  moreover have "hs \<noteq> []" using good by (simp add: good_change_def)
  moreover have "starts_with ''--- '' (hd (print_change f))" "starts_with ''+++ '' (hd (tl (print_change f)))"
    by (simp_all add: f print_change_def)
  moreover have "\<not> starts_with ''diff --git '' (hd (print_change f))" "\<not> starts_with ''index '' (hd (print_change f))" "hd (print_change f) \<noteq> []"
    by (simp_all add: f print_change_def)
  ultimately have "targets_loop strip ts (print_change f @ ?rest) = Inr ((ts @ [(p, c, d)]) @ map (\<lambda>(p, c, d, hs). (p, c, d)) fs, True)"
    unfolding body using h a by simp
  then show ?case by (simp add: f)
qed auto

lemma lines_kept_line: "\<forall>p \<in> set l. \<not> line_break p \<Longrightarrow> lines_kept (l @ 10 # ps) = (l @ [10]) # lines_kept ps"
  by (induction l) (auto simp: line_break_def)

lemma split_lines_unlines: "\<forall>l \<in> set ls. \<forall>c \<in> set l. \<not> line_break (char_code c) \<Longrightarrow> split_lines (concat (map (\<lambda>l. l @ [CHR 0x0A]) ls)) = ls"
proof (induction ls)
  case (Cons l ls)
  have b: "line_break 10" by (simp add: line_break_def)
  have l: "\<forall>p \<in> set (map char_code l). \<not> line_break p" using Cons.prems by auto
  have "takeWhile (\<lambda>p. \<not> line_break p) (map char_code l @ [10]) = map char_code l"
    using l b by (subst takeWhile_append2) auto
  moreover have "map char_of (map char_code l) = l" by (simp add: char_code_def comp_def)
  moreover have "char_code (CHR 0x0A) = 10" by code_simp
  ultimately show ?case using Cons lines_kept_line [OF l] by (simp add: split_lines_def)
qed (simp add: split_lines_def)

text \<open>
  Printing and finding the targets: for every well-formed change of at most 256 distinct files the parser returns
  exactly these files in order, each with its creation or deletion flag, whatever lines the hunks hold; and whatever a
  patch text is, the targets the parser returns are at most 256 distinct nonempty paths, none created and deleted.
\<close>
theorem patch_targets_roundtrip:
  "(\<forall>fs. fs \<noteq> [] \<longrightarrow> (\<forall>f \<in> set fs. good_change f) \<longrightarrow> distinct (map fst fs) \<longrightarrow> length fs \<le> MAX_TARGETS
      \<longrightarrow> (\<forall>l \<in> set (concat (map print_change fs)). \<forall>c \<in> set l. \<not> line_break (char_code c))
      \<longrightarrow> targets (concat (map (\<lambda>l. l @ [CHR 0x0A]) (concat (map print_change fs)))) = Inr (map (\<lambda>(p, c, d, hs). (p, c, d)) fs, True))
   \<and> (\<forall>patch ts strip. targets patch = Inr (ts, strip) \<longrightarrow> ts \<noteq> [] \<and> distinct (map fst ts) \<and> length ts \<le> 256
        \<and> (\<forall>(p, c, d) \<in> set ts. p \<noteq> [] \<and> \<not> (c \<and> d)))"
proof (intro conjI allI impI)
  fix fs
  assume "fs \<noteq> []" "\<forall>f \<in> set fs. good_change f" "distinct (map fst fs)" "length fs \<le> MAX_TARGETS"
    and "\<forall>l \<in> set (concat (map print_change fs)). \<forall>c \<in> set l. \<not> line_break (char_code c)"
  then show "targets (concat (map (\<lambda>l. l @ [CHR 0x0A]) (concat (map print_change fs)))) = Inr (map (\<lambda>(p, c, d, hs). (p, c, d)) fs, True)"
    unfolding targets_def using targets_loop_printed [of fs "[]" None] by (simp add: split_lines_unlines)
next
  fix patch ts strip
  assume "targets patch = Inr (ts, strip)"
  from targets_good [OF this] show "ts \<noteq> []" "distinct (map fst ts)" "length ts \<le> 256" "\<forall>(p, c, d) \<in> set ts. p \<noteq> [] \<and> \<not> (c \<and> d)"
    by (auto simp: good_targets_def MAX_TARGETS_def)
qed

section \<open>All or nothing\<close>

lemma stage_keys: "stage h t ts = Inr (bs, staged) \<Longrightarrow> map fst bs = map fst ts"
  by (induction h t ts arbitrary: bs staged rule: stage.induct) (auto split: if_splits prod.splits)

lemma stage_facts:
  "stage h t ts = Inr (bs, staged) \<Longrightarrow> (p, c, d) \<in> set ts \<Longrightarrow> ph_valid h p = Inr ()
     \<and> (if c then map_of t p = None \<and> (p, None) \<in> set bs else \<exists>data. map_of t p = Some data \<and> (p, Some data) \<in> set bs)"
proof (induction ts arbitrary: bs staged)
  case (Cons x ts)
  obtain q e f where x: "x = (q, e, f)" by (cases x)
  from Cons.prems(1) x have v: "ph_valid h q = Inr ()" by auto
  obtain o' bs' staged' where b: "bs = (q, o') # bs'" "stage h t ts = Inr (bs', staged')"
    "o' = None \<and> e \<and> map_of t q = None \<or> (\<exists>data. o' = Some data \<and> \<not> e \<and> map_of t q = Some data)"
    using Cons.prems(1) x by (auto simp: read_limited_def split: if_splits option.splits)
  show ?case
  proof (cases "(p, c, d) = x")
    case True
    with b v x show ?thesis by auto
  next
    case False
    with Cons.prems(2) have "(p, c, d) \<in> set ts" by simp
    from Cons.IH [OF b(2) this] b(1) show ?thesis by (cases c) auto
  qed
qed simp

definition ready :: "(string \<Rightarrow> string) \<Rightarrow> (string \<times> string option) list \<Rightarrow> file_table \<Rightarrow> target \<Rightarrow> bool" where
  "ready sha bs t = (\<lambda>(p, c, d). \<not> (c \<and> d) \<and> (if c then map_of bs p = Some None \<and> map_of t p = None
     else \<exists>data now. map_of bs p = Some (Some data) \<and> map_of t p = Some now \<and> sha now = sha data))"

lemma publish_all_ready:
  "\<forall>x \<in> set ts. ready sha bs t x \<Longrightarrow> distinct (map fst ts) \<Longrightarrow> \<exists>t'. publish_all sha bs outputs ts t = (Inr (), t')
     \<and> (\<forall>q. q \<notin> fst ` set ts \<longrightarrow> map_of t' q = map_of t q)
     \<and> (\<forall>(p, c, d) \<in> set ts. map_of t' p = (if d then None else Some (the (map_of outputs p))))"
proof (induction ts arbitrary: t)
  case (Cons x ts)
  obtain p c d where x: "x = (p, c, d)" by (cases x)
  define t1 where "t1 = (if d then dict_pop p t else dict_set p (the (map_of outputs p)) t)"
  have other: "q \<noteq> p \<Longrightarrow> map_of t1 q = map_of t q" for q by (simp add: t1_def map_of_dict_pop map_of_dict_set)
  have run: "publish_all sha bs outputs (x # ts) t = publish_all sha bs outputs ts t1"
  proof -
    have r: "ready sha bs t (p, c, d)" using Cons.prems(1) x by simp
    show ?thesis
    proof (cases d)
      case True
      then have "map_of t p \<noteq> None" using r by (auto simp: ready_def)
      then have "publish_all sha bs outputs (x # ts) t = publish_all sha bs outputs ts (dict_pop p t)" using True by (simp only: x publish_all.simps if_True if_False)
      with True show ?thesis by (simp add: t1_def)
    next
      case False
      have "put_file sha p (the (map_of outputs p)) (map_option sha (the (map_of bs p))) t = (Inr (), t1)"
        using r False by (cases c) (auto simp: ready_def put_file_def t1_def)
      with False show ?thesis by (simp add: x)
    qed
  qed
  have rdy: "\<forall>y \<in> set ts. ready sha bs t1 y"
  proof
    fix y assume y: "y \<in> set ts"
    then have "fst y \<noteq> p" using Cons.prems(2) x by force
    with y Cons.prems(1) other show "ready sha bs t1 y" by (auto simp: ready_def split: prod.splits)
  qed
  have "distinct (map fst ts)" using Cons.prems(2) by simp
  from Cons.IH [OF rdy this] obtain t' where t': "publish_all sha bs outputs ts t1 = (Inr (), t')" "\<forall>q. q \<notin> fst ` set ts \<longrightarrow> map_of t' q = map_of t1 q"
    "\<forall>(p, c, d) \<in> set ts. map_of t' p = (if d then None else Some (the (map_of outputs p)))" by blast
  have "p \<notin> fst ` set ts" using Cons.prems(2) x by simp
  with t'(2) have "map_of t' p = (if d then None else Some (the (map_of outputs p)))"
    by (simp add: t1_def map_of_dict_pop map_of_dict_set)
  with t' run other x show ?case by (intro exI [of _ t']) auto
qed simp

lemma outputs_facts:
  "rmap_list (read_output h results) ts = Inr outputs \<Longrightarrow> distinct (map fst ts)
     \<Longrightarrow> (p, c, d) \<in> set ts \<Longrightarrow> \<exists>data. map_of outputs p = Some data \<and> map_of results p = Some data \<and> length data \<le> ph_limit h"
proof (induction ts arbitrary: outputs)
  case (Cons x ts)
  obtain q c' d' where x: "x = (q, c', d')" by (cases x)
  from Cons.prems(1) obtain y os where y: "read_output h results x = Inr y" "outputs = y # os" "rmap_list (read_output h results) ts = Inr os"
    by auto
  from y(1) x obtain data where "read_limited h results q = Inr data" "y = (q, data)" by (auto simp: read_output_def)
  with y have o: "read_limited h results q = Inr data" "outputs = (q, data) # os" "rmap_list (read_output h results) ts = Inr os" by simp_all
  show ?case
  proof (cases "p = q")
    case True
    with o show ?thesis by (auto simp: read_limited_def split: option.splits if_splits)
  next
    case False
    with Cons x o show ?thesis by auto
  qed
qed simp

text \<open>
  A patch is applied to all of its files or to none: the result is success, and then exactly the targets are changed,
  each deleted or set to the staged output within the size limit, from the content that was staged (or from absence for
  a created file); or the workspace is as the other processes left it.
\<close>
theorem patch_all_or_nothing:
  assumes "apply_workspace_patch sha h patch t = (r, t')"
  shows "(r \<noteq> Inr 0 \<and> (t' = t \<or> t' = ph_others h t))
    \<or> (\<exists>ts strip staged results. r = Inr 0 \<and> targets patch = Inr (ts, strip) \<and> ph_patch h strip patch staged = (0, results)
        \<and> (\<forall>q. q \<notin> fst ` set ts \<longrightarrow> map_of t' q = map_of (ph_others h t) q)
        \<and> (\<forall>(p, c, d) \<in> set ts. ph_valid h p = Inr ()
            \<and> (if d then map_of t' p = None else \<exists>data. map_of t' p = Some data \<and> map_of results p = Some data \<and> length data \<le> ph_limit h)
            \<and> (if c then map_of t p = None \<and> map_of (ph_others h t) p = None
               else \<exists>data now. map_of t p = Some data \<and> map_of (ph_others h t) p = Some now \<and> sha now = sha data)))"
proof -
  let ?t1 = "ph_others h t"
  consider (early) "r \<noteq> Inr 0" "t' = t \<or> t' = ?t1"
    | (go) ts strip bs staged results outputs where "targets patch = Inr (ts, strip)" "stage h t ts = Inr (bs, staged)"
      "ph_patch h strip patch staged = (0, results)"
      "rmap_list (read_output h results) (filter (\<lambda>(p, c, d). \<not> d) ts) = Inr outputs"
      "rcheck_list (unchanged sha h ?t1) bs = Inr ()"
      "(r, t') = (case publish_all sha bs outputs ts ?t1 of (Inl e, t') \<Rightarrow> (Inl e, t') | (Inr _, t') \<Rightarrow> (Inr 0, t'))"
    using assms unfolding apply_workspace_patch_def Let_def
    by (auto split: sum.splits prod.splits if_splits)
  then show ?thesis
  proof cases
    case go
    from targets_good [OF go(1)] have good: "distinct (map fst ts)" "\<forall>(p, c, d) \<in> set ts. \<not> (c \<and> d)" by (auto simp: good_targets_def)
    note st = stage_facts [OF go(2)]
    have db: "distinct (map fst bs)" using stage_keys [OF go(2)] good(1) by simp
    have un: "unchanged sha h ?t1 b = Inr ()" if "b \<in> set bs" for b using go(5) that by simp
    have ready: "ready sha bs ?t1 (p, c, d) \<and> (if c then map_of t p = None \<and> map_of ?t1 p = None
        else \<exists>data now. map_of t p = Some data \<and> map_of ?t1 p = Some now \<and> sha now = sha data)" if "(p, c, d) \<in> set ts" for p c d
    proof (cases c)
      case True
      with st [OF that] have b: "(p, None) \<in> set bs" "map_of t p = None" by auto
      then have "map_of bs p = Some None" "map_of ?t1 p = None" using db un [OF b(1)] by (auto simp: unchanged_def)
      moreover have "\<not> d" using True good(2) that by blast
      ultimately show ?thesis using b(2) True by (simp add: ready_def)
    next
      case False
      with st [OF that] obtain data where b: "(p, Some data) \<in> set bs" "map_of t p = Some data" by auto
      from un [OF b(1)] obtain now where "map_of ?t1 p = Some now" "sha now = sha data"
        by (auto simp: unchanged_def read_limited_def split: option.splits if_splits)
      moreover have "map_of bs p = Some (Some data)" using b(1) db by simp
      ultimately show ?thesis using b(2) False by (auto simp: ready_def)
    qed
    then have "\<forall>x \<in> set ts. ready sha bs ?t1 x" by auto
    from publish_all_ready [OF this good(1), of outputs] obtain t2 where t2: "publish_all sha bs outputs ts ?t1 = (Inr (), t2)"
      "\<forall>q. q \<notin> fst ` set ts \<longrightarrow> map_of t2 q = map_of ?t1 q"
      "\<forall>(p, c, d) \<in> set ts. map_of t2 p = (if d then None else Some (the (map_of outputs p)))" by blast
    have rt: "r = Inr 0" "t' = t2" using go(6) t2(1) by auto
    have out: "map_of t2 p = None" if "(p, c, True) \<in> set ts" for p c using t2(3) that by auto
    have put: "\<exists>data. map_of t2 p = Some data \<and> map_of results p = Some data \<and> length data \<le> ph_limit h" if "(p, c, False) \<in> set ts" for p c
    proof -
      have "distinct (map fst (filter (\<lambda>(p, c, d). \<not> d) ts))" using good(1) by (rule distinct_map_filter)
      from outputs_facts [OF go(4) this, of p c False] that t2(3) show ?thesis by fastforce
    qed
    have "(if d then map_of t2 p = None else \<exists>data. map_of t2 p = Some data \<and> map_of results p = Some data \<and> length data \<le> ph_limit h)"
      if "(p, c, d) \<in> set ts" for p c d using out put that by (cases d) auto
    with ready st have "\<forall>(p, c, d) \<in> set ts. ph_valid h p = Inr ()
            \<and> (if d then map_of t2 p = None else \<exists>data. map_of t2 p = Some data \<and> map_of results p = Some data \<and> length data \<le> ph_limit h)
            \<and> (if c then map_of t p = None \<and> map_of ?t1 p = None
               else \<exists>data now. map_of t p = Some data \<and> map_of ?t1 p = Some now \<and> sha now = sha data)"
      by blast
    with t2(2) go(1,3) rt show ?thesis by blast
  qed simp
qed

section \<open>The tool\<close>

definition MAX_PATCH_BYTES :: nat where
  "MAX_PATCH_BYTES = 2 * 1024 * 1024"

text \<open>Whether it was applied, and the exit status.\<close>

definition apply_patch :: "(string \<Rightarrow> string) \<Rightarrow> registry \<Rightarrow> (workspace \<Rightarrow> patch_host) \<Rightarrow> string \<Rightarrow> string \<Rightarrow> file_table \<Rightarrow> (bool \<times> int) result \<times> file_table" where
  "apply_patch sha reg host workspace_id patch t = (case get reg workspace_id of
       Inl e \<Rightarrow> (Inl e, t)
     | Inr ws \<Rightarrow>
         if \<not> writable ws then (Inl PermissionError, t)
         else if MAX_PATCH_BYTES < utf8_len patch then (Inl ValueError, t)
         else (case apply_workspace_patch sha ((host ws)\<lparr>ph_limit := MAX_WRITE_BYTES\<rparr>) patch t of
             (Inl e, t') \<Rightarrow> (Inl e, t')
           | (Inr code, t') \<Rightarrow> (Inr (code = 0, code), t')))"

section \<open>The published file is the atomic write\<close>

text \<open>
  \<open>put_file\<close> is what \<open>atomic_write\<close> does to the contents of a directory of ordinary files that nobody else touches.
\<close>

definition contents :: "folder \<Rightarrow> string \<Rightarrow> string option" where
  "contents f n = map_option wi_data (map_of f n)"

lemma atomic_write_put:
  assumes "wt_early w = (\<lambda>f. f)" and "wt_staged w = (\<lambda>f. f)" and "wt_late w = (\<lambda>f. f)" and "wt_temp w \<notin> fst ` set f" and "name \<noteq> wt_temp w"
    and "staged_acl w owner mapped (map_of f name) = Inr rows"
    and "\<And>it. map_of f name = Some it \<Longrightarrow> st_type (wi_stat it) = Regular \<and> st_nlink (wi_stat it) = 1 \<and> st_size (wi_stat it) \<le> MAX_STALE_BYTES"
    and "expected \<noteq> Some []" and "\<And>n. map_of t n = contents f n" and "expected = None \<longrightarrow> map_of f name = None"
  shows "fst (atomic_write sha w owner mapped name content expected f) = fst (put_file sha name content expected t)
    \<and> contents (snd (atomic_write sha w owner mapped name content expected f)) = map_of (snd (put_file sha name content expected t))"
proof -
  have tn: "map_of t name = map_option wi_data (map_of f name)" using assms(9) by (simp add: contents_def)
  have other: "contents f = map_of t" using assms(9) by (simp add: fun_eq_iff)
  have temp: "map_of f (wt_temp w) = None" using assms(4) key_iff by metis
  have t0: "map_of t (wt_temp w) = None" using temp assms(9) by (simp add: contents_def)
  show ?thesis
  proof (cases "map_of f name")
    case None
    with assms(1-6,8) tn other temp t0 show ?thesis
      by (auto simp: atomic_write_def check_target_def given_def put_file_def create_new_def key_iff map_of_dict_set map_of_dict_pop contents_def fun_eq_iff Let_def split: option.splits)
  next
    case (Some it)
    note it = assms(7) [OF Some]
    from Some assms(10) obtain h where h: "expected = Some h" by auto
    have big: "\<not> MAX_STALE_BYTES < st_size (wi_stat it)" using it by simp
    show ?thesis
    proof (cases "py_lower (sha (wi_data it)) = py_lower h")
      case False
      with Some it h assms(8) big tn other show ?thesis
        by (simp add: atomic_write_def check_target_def check_original_def given_def put_file_def Let_def)
    next
      case True
      with Some it h assms(1-6,8) big tn other temp t0 show ?thesis
        by (auto simp: atomic_write_def check_target_def check_original_def given_def put_file_def replace_old_def key_iff map_of_dict_set map_of_dict_pop contents_def fun_eq_iff Let_def)
    qed
  qed
qed

section \<open>An instance\<close>

definition demo_change :: file_change where
  "demo_change = (''a.py'', False, False, [[(CHR ''-'', ''old''), (CHR ''+'', ''new'')]])"

definition demo_patch :: string where
  "demo_patch = concat (map (\<lambda>l. l @ [CHR 0x0A]) (print_change demo_change))"

definition demo_patch_host :: patch_host where
  "demo_patch_host = \<lparr>ph_valid = (\<lambda>_. Inr ()), ph_limit = 100, ph_patch = (\<lambda>_ _ t. (0, [(''a.py'', ''new'')])), ph_others = dict_set ''b.py'' ''x''\<rparr>"

theorem patch_targets_roundtrip_witness:
  "targets demo_patch = Inr ([(''a.py'', False, False)], True)"
proof -
  have "\<forall>f \<in> set [demo_change]. good_change f" "distinct (map fst [demo_change])" "length [demo_change] \<le> MAX_TARGETS"
    by (auto simp: demo_change_def good_change_def MAX_TARGETS_def)
  moreover have "list_all (\<lambda>l. list_all (\<lambda>c. \<not> line_break (char_code c)) l) (concat (map print_change [demo_change]))" by code_simp
  moreover have "map (\<lambda>(p, c, d, hs). (p, c, d)) [demo_change] = [(''a.py'', False, False)]" by (simp add: demo_change_def)
  ultimately show ?thesis using conjunct1 [OF patch_targets_roundtrip, rule_format, of "[demo_change]"]
    by (simp add: demo_patch_def list_all_iff)
qed

theorem patch_all_or_nothing_witness:
  "\<exists>t'. apply_workspace_patch (\<lambda>x. x) demo_patch_host demo_patch [(''a.py'', ''old'')] = (Inr 0, t') \<and> map_of t' ''a.py'' = Some ''new'' \<and> map_of t' ''b.py'' = Some ''x''"
proof -
  let ?run = "apply_workspace_patch (\<lambda>x. x) demo_patch_host demo_patch [(''a.py'', ''old'')]"
  obtain t' where run: "?run = (Inr 0, t')"
  proof -
    have "fst ?run = Inr 0" by code_simp
    then show thesis using that by (cases ?run) simp
  qed
  have ts: "targets demo_patch = Inr ([(''a.py'', False, False)], True)" by code_simp
  have o': "ph_others demo_patch_host [(''a.py'', ''old'')] = [(''a.py'', ''old''), (''b.py'', ''x'')]" by code_simp
  from patch_all_or_nothing [OF run] ts o' show ?thesis using run
    by (auto simp: demo_patch_host_def)
qed

end
