(* ===== verification/Custody.thy ===== *)
theory Custody
  imports Work_Tree Json
begin

unbundle bit_operations_syntax

text \<open>
  Protected custody, \<open>sandbox/workspace_custody.py\<close>: before a publication replaces or deletes a workspace entry the
  entry is renamed, without ever overwriting, into a private directory, with an intent record before and a phase record
  after, so that a process that dies between any two system calls can be resumed and nothing of the owner is lost.

  A script gives what happens at each system call: the owner's change to the source entry before it, and how far the
  clock moves; where the script ends the process dies.
\<close>

section \<open>Entries and records\<close>

text \<open>
  A workspace entry as custody compares it: \<open>_file_signature\<close> (the seven numbers of \<open>fstat\<close>, of which the last is the
  change time), content, owner, permission bits, modification time and attributes.
\<close>

record custody_item =
  ci_type :: file_type
  ci_dev :: int
  ci_ino :: int
  ci_mode :: int
  ci_nlink :: int
  ci_size :: int
  ci_mtime :: int
  ci_ctime :: int
  ci_data :: string
  ci_uid :: int
  ci_gid :: int
  ci_xattrs :: "(string \<times> string) list"

text \<open>What is expected: the same, with the digest of the content.\<close>

record expected_item =
  xi_type :: file_type
  xi_dev :: int
  xi_ino :: int
  xi_mode :: int
  xi_nlink :: int
  xi_size :: int
  xi_mtime :: int
  xi_ctime :: int
  xi_sha :: string
  xi_uid :: int
  xi_gid :: int
  xi_perm :: int
  xi_mtime_ns :: int
  xi_xattrs :: "(string \<times> string) list"

definition item_identity :: "custody_item \<Rightarrow> int \<times> int" where
  "item_identity i = (ci_dev i, ci_ino i)"

text \<open>\<open>_expected_record\<close>, once the fields are there: an ordinary single-link file with sane metadata.\<close>

definition lower_hex :: "string \<Rightarrow> bool" where
  "lower_hex s \<longleftrightarrow> length s = 64 \<and> list_all is_hex s"

definition base64_char :: "char \<Rightarrow> bool" where
  "base64_char c \<longleftrightarrow> is_alnum c \<or> c = CHR ''+'' \<or> c = CHR ''/''"

definition base64_ok :: "string \<Rightarrow> bool" where
  "base64_ok s \<longleftrightarrow> (let body = takeWhile base64_char s; pad = dropWhile base64_char s in
     length s mod 4 = 0 \<and> length pad \<le> 2 \<and> list_all (\<lambda>c. c = CHR ''='') pad \<and> (body = [] \<longrightarrow> pad = []))"

definition expected_record :: "expected_item \<Rightarrow> expected_item result" where
  "expected_record x =
     (if list_ex (\<lambda>v. v < 0) [xi_dev x, xi_ino x, xi_mode x, xi_nlink x, xi_size x, xi_mtime x, xi_ctime x] \<or> xi_type x \<noteq> Regular \<or> xi_nlink x \<noteq> 1
         \<or> \<not> lower_hex (xi_sha x) \<or> list_ex (\<lambda>v. v < 0) [xi_uid x, xi_gid x, xi_perm x, xi_mtime_ns x] \<or> 511 < xi_perm x
      then Inl PermissionError
      else if list_ex (\<lambda>p. \<not> base64_ok (snd p)) (xi_xattrs x) then Inl ValueError
      else Inr x)"

text \<open>\<open>_matches_expected\<close>: a rename may advance the change time. Octal 7777 are the permission bits of the mode.\<close>

definition matches_expected :: "(string \<Rightarrow> string) \<Rightarrow> expected_item \<Rightarrow> bool \<Rightarrow> custody_item \<Rightarrow> bool" where
  "matches_expected sha x renamed i \<longleftrightarrow>
     (ci_type i, ci_dev i, ci_ino i, ci_mode i, ci_nlink i, ci_size i, ci_mtime i) = (xi_type x, xi_dev x, xi_ino x, xi_mode x, xi_nlink x, xi_size x, xi_mtime x)
     \<and> (if renamed then xi_ctime x \<le> ci_ctime i else ci_ctime i = xi_ctime x)
     \<and> ci_type i = Regular \<and> ci_nlink i = 1 \<and> ci_mode i AND 3584 = 0 \<and> ci_size i \<le> 64 * 1024 * 1024 \<and> sha (ci_data i) = xi_sha x
     \<and> (ci_uid i, ci_gid i, ci_mode i AND 4095, ci_mtime i) = (xi_uid x, xi_gid x, xi_perm x, xi_mtime_ns x)
     \<and> ci_xattrs i = xi_xattrs x"

text \<open>The directories of an operation by identity, and the intent and phase records.\<close>

record support =
  su_workspace :: "int \<times> int"
  su_parent :: "int \<times> int"
  su_custody :: "int \<times> int"
  su_mount :: int

record intent =
  in_support :: support
  in_path :: string
  in_expected :: expected_item

record phase =
  ph_intent :: string
  ph_identity :: "int \<times> int"
  ph_expected :: bool

text \<open>What is on disk: the source entry and the private directory.\<close>

record custody_state =
  cs_source :: "custody_item option"
  cs_held :: "custody_item option"
  cs_intent :: "intent option"
  cs_captured :: "phase option"
  cs_restored :: "phase option"

section \<open>Interrupted effects\<close>

datatype 'a outcome = Died | Raised py_error | Returned 'a

type_synonym script = "((custody_item option \<Rightarrow> custody_item option) \<times> nat) list"

type_synonym 'a run = "script \<Rightarrow> custody_state \<Rightarrow> 'a outcome \<times> script \<times> custody_state"

text \<open>One system call: the owner acts, then the call happens at the advanced clock.\<close>

definition call :: "(nat \<Rightarrow> custody_state \<Rightarrow> 'a result \<times> custody_state) \<Rightarrow> 'a run" where
  "call f script s = (case script of
       [] \<Rightarrow> (Died, [], s)
     | (owner, clock) # left \<Rightarrow> (case f clock (s\<lparr>cs_source := owner (cs_source s)\<rparr>) of
           (Inl e, s') \<Rightarrow> (Raised e, left, s')
         | (Inr x, s') \<Rightarrow> (Returned x, left, s')))"

definition andThen :: "'a run \<Rightarrow> ('a \<Rightarrow> 'b run) \<Rightarrow> 'b run" where
  "andThen m f script s = (case m script s of
       (Died, r, s') \<Rightarrow> (Died, r, s')
     | (Raised e, r, s') \<Rightarrow> (Raised e, r, s')
     | (Returned x, r, s') \<Rightarrow> f x r s')"

definition give :: "'a \<Rightarrow> 'a run" where
  "give x script s = (Returned x, script, s)"

definition raise :: "py_error \<Rightarrow> 'a run" where
  "raise e script s = (Raised e, script, s)"

section \<open>Inspection\<close>

datatype custody_phase = Captured_Conflict | Captured_Expected | Captured_Owner | Restored | Restored_Owner | Conflict | Uncaptured | Uncaptured_Owner | Missing_Entry

record inspection =
  is_phase :: custody_phase
  is_identity :: "(int \<times> int) option"
  is_expected :: bool

definition inspect_now :: "(string \<Rightarrow> string) \<Rightarrow> (intent \<Rightarrow> string) \<Rightarrow> support \<Rightarrow> intent \<Rightarrow> custody_state \<Rightarrow> inspection result" where
  "inspect_now sha digest su it s =
     (let bad = (\<lambda>p. case p of None \<Rightarrow> False | Some r \<Rightarrow> ph_intent r \<noteq> digest it \<or> fst (ph_identity r) < 0 \<or> snd (ph_identity r) < 0);
          x = in_expected it
      in rbind (expected_record x) (\<lambda>_.
         if in_support it \<noteq> su then Inl PermissionError
         else if bad (cs_captured s) \<or> bad (cs_restored s) then Inl PermissionError
         else (case cs_held s of
            Some h \<Rightarrow>
              if cs_restored s \<noteq> None then Inl PermissionError
              else if (case cs_captured s of None \<Rightarrow> False | Some r \<Rightarrow> item_identity h \<noteq> ph_identity r) then Inl PermissionError
              else let ok = matches_expected sha x True h in
                Inr \<lparr>is_phase = (if cs_source s \<noteq> None then Captured_Conflict else if ok then Captured_Expected else Captured_Owner),
                     is_identity = Some (item_identity h), is_expected = ok\<rparr>
          | None \<Rightarrow>
              (case (case cs_restored s of Some r \<Rightarrow> Some r | None \<Rightarrow> cs_captured s) of
                 Some r \<Rightarrow> (case cs_source s of
                     Some e \<Rightarrow> if item_identity e = ph_identity r
                       then (let ok = matches_expected sha x True e in
                         Inr \<lparr>is_phase = (if ok then Restored else Restored_Owner), is_identity = Some (item_identity e), is_expected = ok\<rparr>)
                       else Inr \<lparr>is_phase = Conflict, is_identity = None, is_expected = False\<rparr>
                   | None \<Rightarrow> Inr \<lparr>is_phase = Conflict, is_identity = None, is_expected = False\<rparr>)
               | None \<Rightarrow> (case cs_source s of
                     Some e \<Rightarrow> (let ok = matches_expected sha x False e in
                       Inr \<lparr>is_phase = (if ok then Uncaptured else Uncaptured_Owner), is_identity = Some (item_identity e), is_expected = ok\<rparr>)
                   | None \<Rightarrow> Inr \<lparr>is_phase = Missing_Entry, is_identity = None, is_expected = False\<rparr>)))))"

definition inspect_custody :: "(string \<Rightarrow> string) \<Rightarrow> (intent \<Rightarrow> string) \<Rightarrow> support \<Rightarrow> intent \<Rightarrow> inspection run" where
  "inspect_custody sha digest su it = call (\<lambda>_ s. (inspect_now sha digest su it s, s))"

definition phase_of :: "(intent \<Rightarrow> string) \<Rightarrow> intent \<Rightarrow> inspection \<Rightarrow> phase" where
  "phase_of digest it i = \<lparr>ph_intent = digest it, ph_identity = the (is_identity i), ph_expected = is_expected i\<rparr>"

section \<open>Records, capture and restoration\<close>

text \<open>\<open>_write_record\<close>: create-only; a record that is there must be the same.\<close>

definition write_once :: "'r option \<Rightarrow> 'r \<Rightarrow> 'r option result" where
  "write_once old new = (case old of None \<Rightarrow> Inr (Some new) | Some r \<Rightarrow> if r = new then Inr old else Inl PermissionError)"

definition write_intent :: "intent \<Rightarrow> unit run" where
  "write_intent it = call (\<lambda>_ s. case write_once (cs_intent s) it of Inl e \<Rightarrow> (Inl e, s) | Inr r \<Rightarrow> (Inr (), s\<lparr>cs_intent := r\<rparr>))"

definition write_captured :: "phase \<Rightarrow> unit run" where
  "write_captured p = call (\<lambda>_ s. case write_once (cs_captured s) p of Inl e \<Rightarrow> (Inl e, s) | Inr r \<Rightarrow> (Inr (), s\<lparr>cs_captured := r\<rparr>))"

definition write_restored :: "phase \<Rightarrow> unit run" where
  "write_restored p = call (\<lambda>_ s. case write_once (cs_restored s) p of Inl e \<Rightarrow> (Inl e, s) | Inr r \<Rightarrow> (Inr (), s\<lparr>cs_restored := r\<rparr>))"

text \<open>\<open>renameat2\<close> with \<open>RENAME_NOREPLACE\<close>, which advances the change time of the entry.\<close>

definition retimed :: "nat \<Rightarrow> custody_item \<Rightarrow> custody_item" where
  "retimed clock i = i\<lparr>ci_ctime := ci_ctime i + int clock\<rparr>"

definition take_source :: "unit run" where
  "take_source = call (\<lambda>clock s. case (cs_source s, cs_held s) of
       (Some i, None) \<Rightarrow> (Inr (), s\<lparr>cs_source := None, cs_held := Some (retimed clock i)\<rparr>)
     | (None, _) \<Rightarrow> (Inl FileNotFoundError, s)
     | (Some i, Some h) \<Rightarrow> (Inl OSError, s))"

definition return_held :: "unit run" where
  "return_held = call (\<lambda>clock s. case (cs_held s, cs_source s) of
       (Some h, None) \<Rightarrow> (Inr (), s\<lparr>cs_source := Some (retimed clock h), cs_held := None\<rparr>)
     | (None, _) \<Rightarrow> (Inl FileNotFoundError, s)
     | (Some h, Some i) \<Rightarrow> (Inl PermissionError, s))"

definition restore_custody :: "(string \<Rightarrow> string) \<Rightarrow> (intent \<Rightarrow> string) \<Rightarrow> support \<Rightarrow> inspection run" where
  "restore_custody sha digest su =
     andThen (call (\<lambda>_ s. (case cs_intent s of None \<Rightarrow> Inl FileNotFoundError | Some it \<Rightarrow> Inr it, s))) (\<lambda>it.
     andThen (inspect_custody sha digest su it) (\<lambda>now.
       let finish = (\<lambda>p. andThen (write_restored p) (\<lambda>_. andThen (inspect_custody sha digest su it) (\<lambda>result.
             if is_phase result \<in> {Restored, Restored_Owner} then give result else raise PermissionError)))
       in if is_phase now \<in> {Restored, Restored_Owner} then finish (phase_of digest it now)
          else if is_phase now = Uncaptured then give now
          else if is_phase now \<notin> {Captured_Expected, Captured_Owner} then raise PermissionError
          else andThen (write_captured (phase_of digest it now)) (\<lambda>_.
               andThen return_held (\<lambda>_. finish (phase_of digest it now)))))"

definition capture_entry :: "(string \<Rightarrow> string) \<Rightarrow> (intent \<Rightarrow> string) \<Rightarrow> support \<Rightarrow> support option \<Rightarrow> string \<Rightarrow> expected_item \<Rightarrow> inspection run" where
  "capture_entry sha digest su preflight path x =
     (case expected_record x of
        Inl e \<Rightarrow> raise e
      | Inr _ \<Rightarrow>
         (let it = \<lparr>in_support = su, in_path = path, in_expected = x\<rparr> in
          if preflight \<noteq> None \<and> preflight \<noteq> Some su then raise PermissionError
          else andThen (write_intent it) (\<lambda>_.
            andThen (inspect_custody sha digest su it) (\<lambda>first.
            andThen (if is_phase first = Uncaptured then andThen take_source (\<lambda>_. inspect_custody sha digest su it) else give first) (\<lambda>now.
            andThen (if is_phase now \<in> {Captured_Expected, Captured_Owner, Captured_Conflict}
                     then andThen (write_captured (phase_of digest it now)) (\<lambda>_. inspect_custody sha digest su it) else give now) (\<lambda>final.
              if is_phase final = Captured_Expected then give final
              else if is_phase final = Captured_Owner then andThen (restore_custody sha digest su) (\<lambda>_. raise PermissionError)
              else raise PermissionError))))))"

section \<open>Nothing is lost\<close>

text \<open>An entry up to its change time, and its being somewhere: at its place or in custody.\<close>

definition core :: "custody_item \<Rightarrow> custody_item" where
  "core i = i\<lparr>ci_ctime := 0\<rparr>"

definition present :: "custody_item \<Rightarrow> custody_state \<Rightarrow> bool" where
  "present p s \<longleftrightarrow> map_option core (cs_source s) = Some p \<or> map_option core (cs_held s) = Some p"

text \<open>An owner who leaves this entry where it is, and may do anything else.\<close>

definition careful :: "custody_item \<Rightarrow> (custody_item option \<Rightarrow> custody_item option) \<Rightarrow> bool" where
  "careful p f \<longleftrightarrow> (\<forall>v. map_option core v = Some p \<longrightarrow> map_option core (f v) = Some p)"

definition keeps :: "custody_item \<Rightarrow> 'a run \<Rightarrow> bool" where
  "keeps p m \<longleftrightarrow> (\<forall>script s r left s'. m script s = (r, left, s') \<longrightarrow> (\<forall>x \<in> set script. careful p (fst x)) \<longrightarrow> present p s
     \<longrightarrow> present p s' \<and> set left \<subseteq> set script)"

lemma core_retimed [simp]: "core (retimed n i) = core i"
  by (simp add: core_def retimed_def)

named_theorems custody_keeps

lemma keeps_give [custody_keeps]: "keeps p (give x)" and keeps_raise [custody_keeps]: "keeps p (raise e)"
  by (auto simp: keeps_def give_def raise_def)

lemma keeps_if [custody_keeps]: "keeps p m \<Longrightarrow> keeps p n \<Longrightarrow> keeps p (if b then m else n)"
  by simp

lemma keeps_andThen [custody_keeps]:
  assumes "keeps p m" and "\<And>x. keeps p (f x)"
  shows "keeps p (andThen m f)"
  unfolding keeps_def
proof (intro allI impI)
  fix script s r left s'
  assume run: "andThen m f script s = (r, left, s')" and c: "\<forall>x \<in> set script. careful p (fst x)" and pr: "present p s"
  obtain r1 left1 s1 where m: "m script s = (r1, left1, s1)" by (cases "m script s")
  with assms(1) c pr have one: "present p s1" "set left1 \<subseteq> set script" by (auto simp: keeps_def)
  show "present p s' \<and> set left \<subseteq> set script"
  proof (cases r1)
    case (Returned x)
    with run m have "f x left1 s1 = (r, left, s')" by (simp add: andThen_def)
    with assms(2) [of x] one c show ?thesis unfolding keeps_def by blast
  qed (use run m one in \<open>auto simp: andThen_def\<close>)
qed

lemma keeps_call:
  assumes "\<And>clock s r s'. f clock s = (r, s') \<Longrightarrow> present p s \<Longrightarrow> present p s'"
  shows "keeps p (call f)"
  unfolding keeps_def
proof (intro allI impI)
  fix script s r left s'
  assume run: "call f script s = (r, left, s')" and c: "\<forall>x \<in> set script. careful p (fst x)" and pr: "present p s"
  show "present p s' \<and> set left \<subseteq> set script"
  proof (cases script)
    case Nil
    with run pr show ?thesis by (simp add: call_def)
  next
    case (Cons x more)
    obtain g n where x: "x = (g, n)" by (cases x)
    have "present p (s\<lparr>cs_source := g (cs_source s)\<rparr>)" using c pr Cons x by (auto simp: careful_def present_def)
    then show ?thesis using run Cons x assms by (auto simp: call_def split: prod.splits sum.splits)
  qed
qed

lemma keeps_records [custody_keeps]:
  "keeps p (write_intent it)" "keeps p (write_captured ph)" "keeps p (write_restored ph)" "keeps p (inspect_custody sha digest su it)"
  "keeps p (call (\<lambda>_ s. (case cs_intent s of None \<Rightarrow> Inl e | Some it \<Rightarrow> Inr it, s)))"
  by (auto simp: write_intent_def write_captured_def write_restored_def inspect_custody_def present_def split: sum.splits intro!: keeps_call)

lemma keeps_moves [custody_keeps]: "keeps p take_source" "keeps p return_held"
  by (auto simp: take_source_def return_held_def present_def split: option.splits intro!: keeps_call)

lemma keeps_restore: "keeps p (restore_custody sha digest su)"
  unfolding restore_custody_def Let_def by (intro custody_keeps)

lemma keeps_capture: "keeps p (capture_entry sha digest su preflight path x)"
proof (cases "expected_record x")
  case (Inl e)
  then show ?thesis by (simp add: capture_entry_def custody_keeps)
next
  case (Inr y)
  then show ?thesis unfolding capture_entry_def Let_def
    by (simp only: sum.case) (intro custody_keeps keeps_restore)
qed

text \<open>A history: captures and restorations, each with its script, one after the other.\<close>

definition history :: "(inspection run \<times> script) list \<Rightarrow> custody_state \<Rightarrow> custody_state" where
  "history ops s = foldl (\<lambda>s (m, script). snd (snd (m script s))) s ops"

text \<open>
  C37.  Nothing is ever lost in custody: whatever captures and restorations run, wherever each of them dies and whatever
  else the owner does meanwhile, every entry that was at the source or in custody and that the owner leaves alone while
  it is at the source is still at one of these two places, with the same identity, content and metadata.
\<close>
theorem custody_loses_nothing:
  assumes "present p s"
    and "\<And>m script. (m, script) \<in> set ops \<Longrightarrow> (\<forall>x \<in> set script. careful p (fst x))
      \<and> ((\<exists>sha digest su preflight path x. m = capture_entry sha digest su preflight path x) \<or> (\<exists>sha digest su. m = restore_custody sha digest su))"
  shows "present p (history ops s)"
  using assms
proof (induction ops arbitrary: s)
  case (Cons o' ops)
  obtain m script where o': "o' = (m, script)" by (cases o')
  have "keeps p m" using Cons.prems(2) [of m script] o' keeps_capture keeps_restore by auto
  moreover obtain r left s1 where run: "m script s = (r, left, s1)" by (cases "m script s")
  ultimately have "present p s1" using Cons.prems o' unfolding keeps_def by (metis list.set_intros(1))
  from Cons.IH [OF this] Cons.prems(2) have "present p (history ops s1)" by (meson list.set_intros(2))
  then show ?case using o' run by (simp add: history_def)
qed (simp add: history_def)

section \<open>What a capture returns\<close>

lemma andThen_Returned: "andThen m f script s = (Returned y, l, s') \<longleftrightarrow> (\<exists>x l1 s1. m script s = (Returned x, l1, s1) \<and> f x l1 s1 = (Returned y, l, s'))"
  by (auto simp: andThen_def split: prod.splits outcome.splits)

lemma call_Returned: "call f script s = (Returned x, l, s') \<longleftrightarrow> (\<exists>g n. script = (g, n) # l \<and> f n (s\<lparr>cs_source := g (cs_source s)\<rparr>) = (Inr x, s'))"
  by (auto simp: call_def split: list.splits prod.splits sum.splits)

lemma give_Returned: "give x script s = (Returned y, l, s') \<longleftrightarrow> y = x \<and> l = script \<and> s' = s"
  by (auto simp: give_def)

lemma raise_Returned: "\<not> raise e script s = (Returned y, l, s')"
  by (simp add: raise_def)

lemmas returned = andThen_Returned call_Returned give_Returned raise_Returned

lemma inspected:
  "inspect_custody sha digest su it script s = (Returned i, l, s') \<Longrightarrow> inspect_now sha digest su it s' = Inr i
     \<and> cs_captured s' = cs_captured s \<and> cs_restored s' = cs_restored s \<and> cs_intent s' = cs_intent s \<and> cs_held s' = cs_held s"
  by (auto simp: inspect_custody_def call_Returned)

lemma written_intent: "write_intent it script s = (Returned u, l, s') \<Longrightarrow> cs_intent s' = Some it"
  by (auto simp: write_intent_def write_once_def call_Returned split: option.splits if_splits)

lemma written_captured: "write_captured p script s = (Returned u, l, s') \<Longrightarrow> cs_intent s' = cs_intent s \<and> (\<exists>r. cs_captured s' = Some r)"
  by (auto simp: write_captured_def write_once_def call_Returned split: option.splits if_splits)

lemma taken_source: "take_source script s = (Returned u, l, s') \<Longrightarrow> cs_intent s' = cs_intent s"
  by (auto simp: take_source_def call_Returned split: option.splits)

lemma captured_expected_facts:
  "inspect_now sha digest su it s = Inr i \<Longrightarrow> is_phase i = Captured_Expected \<Longrightarrow>
     \<exists>h. cs_held s = Some h \<and> cs_source s = None \<and> matches_expected sha (in_expected it) True h \<and> is_identity i = Some (item_identity h) \<and> is_expected i
       \<and> (\<forall>r. cs_captured s = Some r \<longrightarrow> ph_identity r = item_identity h) \<and> cs_restored s = None"
  by (auto simp: inspect_now_def Let_def split: option.splits if_splits)

lemma capture_returns:
  assumes "capture_entry sha digest su preflight path x script s = (Returned i, left, s')"
  shows "\<exists>h r. cs_held s' = Some h \<and> matches_expected sha x True h \<and> cs_source s' = None \<and> cs_restored s' = None
    \<and> cs_intent s' = Some \<lparr>in_support = su, in_path = path, in_expected = x\<rparr>
    \<and> cs_captured s' = Some r \<and> ph_identity r = item_identity h \<and> is_identity i = Some (item_identity h)
    \<and> (preflight = None \<or> preflight = Some su)"
proof -
  let ?it = "\<lparr>in_support = su, in_path = path, in_expected = x\<rparr>"
  let ?C = "{Captured_Expected, Captured_Owner, Captured_Conflict}"
  obtain y where y: "expected_record x = Inr y" using assms by (cases "expected_record x") (auto simp: capture_entry_def raise_Returned)
  from assms y obtain l1 s1 l2 s2 l3 s3 l4 first now where
    w: "write_intent ?it script s = (Returned (), l1, s1)" and pf: "preflight = None \<or> preflight = Some su"
    and a: "inspect_custody sha digest su ?it l1 s1 = (Returned first, l2, s2)"
    and b: "(if is_phase first = Uncaptured then andThen take_source (\<lambda>_. inspect_custody sha digest su ?it) else give first) l2 s2 = (Returned now, l3, s3)"
    and c: "(if is_phase now \<in> ?C then andThen (write_captured (phase_of digest ?it now)) (\<lambda>_. inspect_custody sha digest su ?it) else give now) l3 s3 = (Returned i, l4, s')"
    and i: "is_phase i = Captured_Expected"
    by (auto simp: capture_entry_def Let_def returned split: if_splits)
  have i1: "cs_intent s1 = Some ?it" by (rule written_intent [OF w])
  have i2: "cs_intent s2 = Some ?it" using inspected [OF a] i1 by simp
  have i3: "cs_intent s3 = Some ?it" using b i2 by (auto simp: andThen_Returned give_Returned split: if_splits dest!: taken_source inspected)
  have "is_phase now \<in> ?C" using c i by (auto simp: returned split: if_splits)
  with c obtain l5 s5 where d: "write_captured (phase_of digest ?it now) l3 s3 = (Returned (), l5, s5)" "inspect_custody sha digest su ?it l5 s5 = (Returned i, l4, s')"
    by (auto simp: returned)
  have i5: "cs_intent s5 = Some ?it" "\<exists>r. cs_captured s5 = Some r"
    using written_captured [OF d(1)] i3 by simp_all
  from captured_expected_facts [OF conjunct1 [OF inspected [OF d(2)]] i] inspected [OF d(2)] i5 pf show ?thesis by auto
qed

text \<open>
  A capture that returns holds the expected entry: it is in custody with the expected identity, content, owner and
  attributes, its place in the workspace is empty, and intent and capture records name this operation and this entry.
\<close>
theorem capture_returns_expected:
  assumes "capture_entry sha digest su preflight path x script s = (Returned i, left, s')"
  shows "\<exists>h r. cs_held s' = Some h \<and> matches_expected sha x True h \<and> cs_source s' = None \<and> cs_restored s' = None
    \<and> cs_intent s' = Some \<lparr>in_support = su, in_path = path, in_expected = x\<rparr>
    \<and> cs_captured s' = Some r \<and> ph_identity r = item_identity h \<and> is_identity i = Some (item_identity h)
    \<and> (preflight = None \<or> preflight = Some su)"
  using assms by (rule capture_returns)

section \<open>Resuming\<close>

definition idle :: "nat list \<Rightarrow> script" where
  "idle ns = map (\<lambda>n. (\<lambda>v. v, n)) ns"

definition fresh :: "custody_item \<Rightarrow> custody_state" where
  "fresh i = \<lparr>cs_source = Some i, cs_held = None, cs_intent = None, cs_captured = None, cs_restored = None\<rparr>"

definition good_phase :: "(intent \<Rightarrow> string) \<Rightarrow> intent \<Rightarrow> custody_item \<Rightarrow> phase" where
  "good_phase digest it h = \<lparr>ph_intent = digest it, ph_identity = item_identity h, ph_expected = True\<rparr>"

lemma matches_later: "matches_expected sha x b i \<Longrightarrow> matches_expected sha x True (retimed n i)"
  by (auto simp: matches_expected_def retimed_def split: if_splits)

lemma item_identity_retimed [simp]: "item_identity (retimed n i) = item_identity i"
  by (simp add: item_identity_def retimed_def)

lemma matches_identity: "matches_expected sha x b i \<Longrightarrow> expected_record x = Inr y \<Longrightarrow> 0 \<le> fst (item_identity i) \<and> 0 \<le> snd (item_identity i)"
  by (auto simp: matches_expected_def expected_record_def item_identity_def split: if_splits)

lemma good_phase_retimed [simp]: "good_phase digest it (retimed n h) = good_phase digest it h"
  by (simp add: good_phase_def)

text \<open>The states between the calls of an undisturbed capture and of an undisturbed restoration.\<close>

inductive capturing :: "(string \<Rightarrow> string) \<Rightarrow> (intent \<Rightarrow> string) \<Rightarrow> intent \<Rightarrow> custody_item \<Rightarrow> custody_state \<Rightarrow> bool" for sha digest it i where
  at_source: "j = None \<or> j = Some it \<Longrightarrow>
     capturing sha digest it i \<lparr>cs_source = Some i, cs_held = None, cs_intent = j, cs_captured = None, cs_restored = None\<rparr>"
| in_custody: "core h = core i \<Longrightarrow> matches_expected sha (in_expected it) True h \<Longrightarrow> c = None \<or> c = Some (good_phase digest it h) \<Longrightarrow>
     capturing sha digest it i \<lparr>cs_source = None, cs_held = Some h, cs_intent = Some it, cs_captured = c, cs_restored = None\<rparr>"

inductive restoring :: "(string \<Rightarrow> string) \<Rightarrow> (intent \<Rightarrow> string) \<Rightarrow> intent \<Rightarrow> custody_item \<Rightarrow> custody_state \<Rightarrow> bool" for sha digest it i where
  in_custody': "core h = core i \<Longrightarrow> matches_expected sha (in_expected it) True h \<Longrightarrow>
     restoring sha digest it i \<lparr>cs_source = None, cs_held = Some h, cs_intent = Some it, cs_captured = Some (good_phase digest it h), cs_restored = None\<rparr>"
| at_home: "core h = core i \<Longrightarrow> matches_expected sha (in_expected it) True h \<Longrightarrow> c = None \<or> c = Some (good_phase digest it h) \<Longrightarrow>
     restoring sha digest it i \<lparr>cs_source = Some h, cs_held = None, cs_intent = Some it, cs_captured = Some (good_phase digest it h), cs_restored = c\<rparr>"

lemma inspect_source:
  assumes "matches_expected sha x False i" and "expected_record x = Inr y"
  shows "inspect_now sha digest su \<lparr>in_support = su, in_path = path, in_expected = x\<rparr>
      \<lparr>cs_source = Some i, cs_held = None, cs_intent = j, cs_captured = None, cs_restored = None\<rparr>
    = Inr \<lparr>is_phase = Uncaptured, is_identity = Some (item_identity i), is_expected = True\<rparr>"
  using assms by (simp add: inspect_now_def Let_def)

lemma inspect_held:
  assumes "matches_expected sha x True h" and "expected_record x = Inr y" and "c = None \<or> c = Some (good_phase digest \<lparr>in_support = su, in_path = path, in_expected = x\<rparr> h)"
  shows "inspect_now sha digest su \<lparr>in_support = su, in_path = path, in_expected = x\<rparr>
      \<lparr>cs_source = None, cs_held = Some h, cs_intent = j, cs_captured = c, cs_restored = None\<rparr>
    = Inr \<lparr>is_phase = Captured_Expected, is_identity = Some (item_identity h), is_expected = True\<rparr>"
  using assms matches_identity [OF assms(1,2)] by (auto simp: inspect_now_def Let_def good_phase_def)

lemma inspect_back:
  assumes "matches_expected sha x True h" and "expected_record x = Inr y" and "c = None \<or> c = Some (good_phase digest \<lparr>in_support = su, in_path = path, in_expected = x\<rparr> h)"
  shows "inspect_now sha digest su \<lparr>in_support = su, in_path = path, in_expected = x\<rparr>
      \<lparr>cs_source = Some h, cs_held = None, cs_intent = j, cs_captured = Some (good_phase digest \<lparr>in_support = su, in_path = path, in_expected = x\<rparr> h), cs_restored = c\<rparr>
    = Inr \<lparr>is_phase = Restored, is_identity = Some (item_identity h), is_expected = True\<rparr>"
  using assms matches_identity [OF assms(1,2)] by (auto simp: inspect_now_def Let_def good_phase_def)

lemma call_idle:
  "call f (idle []) s = (Died, [], s)"
  "call f (idle (n # ns)) s = (case f n s of (Inl e, s') \<Rightarrow> (Raised e, idle ns, s') | (Inr x, s') \<Rightarrow> (Returned x, idle ns, s'))"
  by (simp_all add: call_def idle_def split: prod.split sum.split)

lemma phase_of_good: "phase_of digest it \<lparr>is_phase = p, is_identity = Some (item_identity h), is_expected = True\<rparr> = good_phase digest it h"
  by (simp add: phase_of_def good_phase_def)

lemma short_or_long: "(\<exists>a b c d ms. ns = a # b # c # d # ms) \<or> ns = [] \<or> (\<exists>a. ns = [a]) \<or> (\<exists>a b. ns = [a, b]) \<or> (\<exists>a b c. ns = [a, b, c])"
  by (metis list.exhaust)

lemma capture_held:
  assumes "matches_expected sha x True h" and "expected_record x = Inr y" and "core h = core i"
    and "it = \<lparr>in_support = su, in_path = path, in_expected = x\<rparr>" and "c = None \<or> c = Some (good_phase digest it h)"
    and "preflight = None \<or> preflight = Some su"
  shows "\<exists>r left s'. capture_entry sha digest su preflight path x (idle ns)
      \<lparr>cs_source = None, cs_held = Some h, cs_intent = Some it, cs_captured = c, cs_restored = None\<rparr> = (r, left, s')
    \<and> capturing sha digest it i s' \<and> (4 \<le> length ns \<longrightarrow> (\<exists>j. r = Returned j) \<and> restoring sha digest it i s')"
proof -
  note look = inspect_held [OF assms(1,2), of _ digest su path]
  have inv: "capturing sha digest it i \<lparr>cs_source = None, cs_held = Some h, cs_intent = Some it, cs_captured = c', cs_restored = None\<rparr>"
    if "c' = None \<or> c' = Some (good_phase digest it h)" for c'
    using that assms(1,3,4) by (intro in_custody) simp_all
  have res: "restoring sha digest it i \<lparr>cs_source = None, cs_held = Some h, cs_intent = Some it, cs_captured = Some (good_phase digest it h), cs_restored = None\<rparr>"
    using assms(1,3,4) by (intro in_custody') simp_all
  note steps = capture_entry_def Let_def write_intent_def inspect_custody_def write_captured_def write_once_def andThen_def call_idle give_def phase_of_good
  from short_or_long [of ns] show ?thesis
    using assms(2,4,5,6) inv [OF assms(5)] inv [of "Some (good_phase digest it h)"] res look
    by (elim disjE exE) (auto simp: steps)
qed

lemma short_or_longer: "(\<exists>a b c d e f ms. ns = a # b # c # d # e # f # ms) \<or> ns = [] \<or> (\<exists>a. ns = [a]) \<or> (\<exists>a b. ns = [a, b]) \<or> (\<exists>a b c. ns = [a, b, c])
    \<or> (\<exists>a b c d. ns = [a, b, c, d]) \<or> (\<exists>a b c d e. ns = [a, b, c, d, e])"
  by (metis list.exhaust)

lemma capture_source:
  assumes "matches_expected sha x False i" and "expected_record x = Inr y"
    and "it = \<lparr>in_support = su, in_path = path, in_expected = x\<rparr>" and "j = None \<or> j = Some it"
    and "preflight = None \<or> preflight = Some su"
  shows "\<exists>r left s'. capture_entry sha digest su preflight path x (idle ns)
      \<lparr>cs_source = Some i, cs_held = None, cs_intent = j, cs_captured = None, cs_restored = None\<rparr> = (r, left, s')
    \<and> capturing sha digest it i s' \<and> (6 \<le> length ns \<longrightarrow> (\<exists>k. r = Returned k) \<and> restoring sha digest it i s')"
proof -
  note later = matches_later [OF assms(1)]
  note look = inspect_source [OF assms(1,2), of digest su path] inspect_held [OF later assms(2), of _ digest su path]
  have src: "capturing sha digest it i \<lparr>cs_source = Some i, cs_held = None, cs_intent = j', cs_captured = None, cs_restored = None\<rparr>"
    if "j' = None \<or> j' = Some it" for j'
    using that by (rule at_source)
  have inv: "capturing sha digest it i \<lparr>cs_source = None, cs_held = Some (retimed n i), cs_intent = Some it, cs_captured = c', cs_restored = None\<rparr>"
    if "c' = None \<or> c' = Some (good_phase digest it i)" for c' n
    using that later assms(3) by (intro in_custody) simp_all
  have res: "restoring sha digest it i \<lparr>cs_source = None, cs_held = Some (retimed n i), cs_intent = Some it, cs_captured = Some (good_phase digest it i), cs_restored = None\<rparr>" for n
    using later assms(3) in_custody' [of "retimed n i" i sha it digest] by simp
  have ph: "phase_of digest it \<lparr>is_phase = p, is_identity = Some (item_identity i), is_expected = True\<rparr> = good_phase digest it i" for p
    by (rule phase_of_good)
  note steps = capture_entry_def Let_def write_intent_def inspect_custody_def write_captured_def write_once_def take_source_def andThen_def call_idle give_def ph
  have pre: "\<not> (preflight \<noteq> None \<and> preflight \<noteq> Some su)" using assms(5) by auto
  have wr: "write_intent it (idle []) s = (Died, [], s)"
    "write_intent it (idle (n # ms)) \<lparr>cs_source = Some i, cs_held = None, cs_intent = j, cs_captured = None, cs_restored = None\<rparr>
      = (Returned (), idle ms, \<lparr>cs_source = Some i, cs_held = None, cs_intent = Some it, cs_captured = None, cs_restored = None\<rparr>)" for n ms s
    using assms(4) by (auto simp: write_intent_def write_once_def call_idle)
  have same: "\<lparr>in_support = su, in_path = path, in_expected = x\<rparr> = it" using assms(3) by simp
  have eval: "capture_entry sha digest su preflight path x (idle ns) \<lparr>cs_source = Some i, cs_held = None, cs_intent = j, cs_captured = None, cs_restored = None\<rparr>
      = andThen (write_intent it) (\<lambda>_. andThen (inspect_custody sha digest su it) (\<lambda>first.
            andThen (if is_phase first = Uncaptured then andThen take_source (\<lambda>_. inspect_custody sha digest su it) else give first) (\<lambda>now.
            andThen (if is_phase now \<in> {Captured_Expected, Captured_Owner, Captured_Conflict}
                     then andThen (write_captured (phase_of digest it now)) (\<lambda>_. inspect_custody sha digest su it) else give now) (\<lambda>final.
              if is_phase final = Captured_Expected then give final
              else if is_phase final = Captured_Owner then andThen (restore_custody sha digest su) (\<lambda>_. raise PermissionError)
              else raise PermissionError)))) (idle ns) \<lparr>cs_source = Some i, cs_held = None, cs_intent = j, cs_captured = None, cs_restored = None\<rparr>"
    unfolding capture_entry_def Let_def same assms(2) using pre by (simp only: sum.case if_False)
  note look' = look [unfolded same]
  note run = inspect_custody_def write_captured_def write_once_def take_source_def andThen_def call_idle give_def ph
  from short_or_longer [of ns] show ?thesis
  proof (elim disjE exE)
    assume "ns = []" then show ?thesis using src [OF assms(4)] unfolding eval by (simp add: run wr)
  next
    fix a assume "ns = [a]" then show ?thesis using src [of "Some it"] unfolding eval by (simp add: run wr)
  next
    fix a b assume "ns = [a, b]" then show ?thesis using src [of "Some it"] unfolding eval by (simp add: run wr look')
  next
    fix a b c assume "ns = [a, b, c]" then show ?thesis using inv [of None c] unfolding eval by (simp add: run wr look')
  next
    fix a b c d assume "ns = [a, b, c, d]" then show ?thesis using inv [of None c] unfolding eval by (simp add: run wr look')
  next
    fix a b c d e assume "ns = [a, b, c, d, e]" then show ?thesis using inv [of "Some (good_phase digest it i)" c] unfolding eval by (simp add: run wr look')
  next
    fix a b c d e f ms assume "ns = a # b # c # d # e # f # ms"
    then show ?thesis using inv [of "Some (good_phase digest it i)" c] res [of c] unfolding eval by (simp add: run wr look')
  qed
qed

lemma restore_held:
  assumes "restoring sha digest it i s" and "expected_record x = Inr y" and "it = \<lparr>in_support = su, in_path = path, in_expected = x\<rparr>"
  shows "\<exists>r left s'. restore_custody sha digest su (idle ns) s = (r, left, s') \<and> restoring sha digest it i s'
    \<and> (6 \<le> length ns \<longrightarrow> (\<exists>j. r = Returned j \<and> is_phase j = Restored) \<and> cs_held s' = None \<and> map_option core (cs_source s') = Some (core i))"
  using assms(1)
proof cases
  case (in_custody' h)
  have x: "in_expected it = x" using assms(3) by simp
  note later = matches_later [OF in_custody'(3)] item_identity_retimed
  have m: "matches_expected sha x True h" using in_custody'(3) x by simp
  note look = inspect_held [OF m assms(2), of _ digest su path] inspect_back [OF matches_later [OF m] assms(2), of _ digest su path]
  have held: "restoring sha digest it i \<lparr>cs_source = None, cs_held = Some h, cs_intent = Some it, cs_captured = Some (good_phase digest it h), cs_restored = None\<rparr>"
    using in_custody' assms(1) by simp
  have home: "restoring sha digest it i \<lparr>cs_source = Some (retimed n h), cs_held = None, cs_intent = Some it, cs_captured = Some (good_phase digest it h), cs_restored = c\<rparr>"
    if "c = None \<or> c = Some (good_phase digest it h)" for n c
    using at_home [of "retimed n h" i sha it c digest] in_custody'(2) later(1) that by simp
  note steps = restore_custody_def Let_def write_restored_def inspect_custody_def write_captured_def write_once_def return_held_def andThen_def call_idle give_def phase_of_good
  from short_or_longer [of ns] show ?thesis
    using assms(2,3) held home [of None] home [of "Some (good_phase digest it h)"] look in_custody'(1,2)
    by (elim disjE exE) (auto simp: steps)
next
  case (at_home h c)
  have x: "in_expected it = x" using assms(3) by simp
  have m: "matches_expected sha x True h" using at_home(3) x by simp
  note look = inspect_back [OF m assms(2), of _ digest su path]
  have home: "restoring sha digest it i \<lparr>cs_source = Some h, cs_held = None, cs_intent = Some it, cs_captured = Some (good_phase digest it h), cs_restored = c'\<rparr>"
    if "c' = None \<or> c' = Some (good_phase digest it h)" for c'
    using restoring.at_home [of h i sha it c' digest] at_home(2,3) that by simp
  note steps = restore_custody_def Let_def write_restored_def inspect_custody_def write_captured_def write_once_def return_held_def andThen_def call_idle give_def phase_of_good
  from short_or_long [of ns] show ?thesis
    using assms(2,3) home [of c] home [of "Some (good_phase digest it h)"] look at_home
    by (elim disjE exE) (auto simp: steps)
qed

lemma capture_idle:
  assumes "capturing sha digest it i s" and "matches_expected sha x False i" and "expected_record x = Inr y"
    and "it = \<lparr>in_support = su, in_path = path, in_expected = x\<rparr>" and "preflight = None \<or> preflight = Some su"
  shows "\<exists>r left s'. capture_entry sha digest su preflight path x (idle ns) s = (r, left, s')
    \<and> capturing sha digest it i s' \<and> (6 \<le> length ns \<longrightarrow> (\<exists>k. r = Returned k) \<and> restoring sha digest it i s')"
  using assms(1)
proof cases
  case (at_source j)
  with capture_source [OF assms(2-4) _ assms(5)] show ?thesis by blast
next
  case (in_custody h c)
  moreover have "in_expected it = x" using assms(4) by simp
  ultimately have "matches_expected sha x True h" by simp
  from capture_held [OF this assms(3) in_custody(2) assms(4) in_custody(4) assms(5), of ns] in_custody(1) obtain r left s' where
    "capture_entry sha digest su preflight path x (idle ns) s = (r, left, s')" "capturing sha digest it i s'"
    "4 \<le> length ns \<longrightarrow> (\<exists>j. r = Returned j) \<and> restoring sha digest it i s'" by blast
  moreover from this(3) have "6 \<le> length ns \<longrightarrow> (\<exists>j. r = Returned j) \<and> restoring sha digest it i s'" by simp
  ultimately show ?thesis by blast
qed

text \<open>
  C38.  Custody resumes after any interruptions: when nobody else touches the entry, then however often and wherever a
  capture died before, the next one that is given six system calls returns with the entry in custody; and from there,
  however often a restoration died, the next one given six calls puts exactly this entry back in its place.
\<close>
theorem custody_resumes:
  fixes digest :: "intent \<Rightarrow> string" and path :: string
  assumes "matches_expected sha x False i" and "expected_record x = Inr y" and "preflight = None \<or> preflight = Some su"
    and "6 \<le> length ns" and "6 \<le> length ms"
  defines "captures \<equiv> \<lambda>nss s. history (map (\<lambda>ns. (capture_entry sha digest su preflight path x, idle ns)) nss) s"
    and "restorations \<equiv> \<lambda>nss s. history (map (\<lambda>ns. (restore_custody sha digest su, idle ns)) nss) s"
  shows "\<exists>k left s1. capture_entry sha digest su preflight path x (idle ns) (captures nss (fresh i)) = (Returned k, left, s1)
    \<and> cs_source s1 = None \<and> map_option core (cs_held s1) = Some (core i)
    \<and> (\<exists>k' left' s2. restore_custody sha digest su (idle ms) (restorations mss s1) = (Returned k', left', s2)
        \<and> is_phase k' = Restored \<and> cs_held s2 = None \<and> map_option core (cs_source s2) = Some (core i))"
proof -
  define it where "it = \<lparr>in_support = su, in_path = path, in_expected = x\<rparr>"
  have cap: "capturing sha digest it i s \<Longrightarrow> capturing sha digest it i (captures nss s)" for s
  proof (induction nss arbitrary: s)
    case (Cons n nss)
    from capture_idle [OF Cons.prems assms(1,2) it_def assms(3), of n] obtain r left s' where
      "capture_entry sha digest su preflight path x (idle n) s = (r, left, s')" "capturing sha digest it i s'" by blast
    with Cons.IH [of s'] show ?case by (simp add: captures_def history_def)
  qed (simp add: captures_def history_def)
  have res: "restoring sha digest it i s \<Longrightarrow> restoring sha digest it i (restorations mss s)" for s
  proof (induction mss arbitrary: s)
    case (Cons n mss)
    from restore_held [OF Cons.prems assms(2) it_def, of n] obtain r left s' where
      "restore_custody sha digest su (idle n) s = (r, left, s')" "restoring sha digest it i s'" by blast
    with Cons.IH [of s'] show ?case by (simp add: restorations_def history_def)
  qed (simp add: restorations_def history_def)
  have "capturing sha digest it i (fresh i)" unfolding fresh_def by (rule at_source) simp
  from capture_idle [OF cap [OF this] assms(1,2) it_def assms(3), of ns] assms(4) obtain k left s1 where
    c: "capture_entry sha digest su preflight path x (idle ns) (captures nss (fresh i)) = (Returned k, left, s1)"
    "restoring sha digest it i s1" "capturing sha digest it i s1" by blast
  have s1: "cs_source s1 = None" using capture_returns [OF c(1)] by auto
  from c(2) have h: "map_option core (cs_held s1) = Some (core i)" by (rule restoring.cases) (use s1 in auto)
  from restore_held [OF res [OF c(2)] assms(2) it_def, of ms] assms(5) c(1) s1 h show ?thesis by blast
qed

section \<open>An instance\<close>

definition demo_sha :: "string \<Rightarrow> string" where
  "demo_sha s = replicate (64 - length s) (CHR ''0'') @ s"

definition demo_entry :: custody_item where
  "demo_entry = \<lparr>ci_type = Regular, ci_dev = 1, ci_ino = 7, ci_mode = 420, ci_nlink = 1, ci_size = 2, ci_mtime = 5, ci_ctime = 6,
     ci_data = ''ab'', ci_uid = 1000, ci_gid = 1000, ci_xattrs = []\<rparr>"

definition demo_expected :: expected_item where
  "demo_expected = \<lparr>xi_type = Regular, xi_dev = 1, xi_ino = 7, xi_mode = 420, xi_nlink = 1, xi_size = 2, xi_mtime = 5, xi_ctime = 6,
     xi_sha = demo_sha ''ab'', xi_uid = 1000, xi_gid = 1000, xi_perm = 420, xi_mtime_ns = 5, xi_xattrs = []\<rparr>"

definition demo_support :: support where
  "demo_support = \<lparr>su_workspace = (1, 2), su_parent = (1, 3), su_custody = (1, 4), su_mount = 30\<rparr>"

lemma demo_matches: "matches_expected demo_sha demo_expected False demo_entry" and demo_record: "expected_record demo_expected = Inr demo_expected"
  by code_simp+

theorem custody_resumes_witness:
  "\<exists>k left s1. capture_entry demo_sha (\<lambda>_. ''d'') demo_support None ''a.py'' demo_expected (idle [1, 1, 1, 1, 1, 1])
      (history [(capture_entry demo_sha (\<lambda>_. ''d'') demo_support None ''a.py'' demo_expected, idle [1, 1, 1])] (fresh demo_entry)) = (Returned k, left, s1)
    \<and> map_option core (cs_held s1) = Some (core demo_entry)"
  using custody_resumes [OF demo_matches demo_record, of None demo_support "[1, 1, 1, 1, 1, 1]" "[1, 1, 1, 1, 1, 1]" "\<lambda>_. ''d''" "''a.py''" "[[1, 1, 1]]" "[]"]
  by auto

theorem capture_returns_expected_witness:
  "\<exists>k left s1. capture_entry demo_sha (\<lambda>_. ''d'') demo_support None ''a.py'' demo_expected (idle [1, 1, 1, 1, 1, 1]) (fresh demo_entry) = (Returned k, left, s1)
    \<and> (\<exists>h. cs_held s1 = Some h \<and> ci_data h = ''ab'')"
proof -
  let ?run = "capture_entry demo_sha (\<lambda>_. ''d'') demo_support None ''a.py'' demo_expected (idle [1, 1, 1, 1, 1, 1]) (fresh demo_entry)"
  have f: "fresh demo_entry = \<lparr>cs_source = Some demo_entry, cs_held = None, cs_intent = None, cs_captured = None, cs_restored = None\<rparr>" by (simp add: fresh_def)
  from capture_source [OF demo_matches demo_record refl, where j = None and preflight = None and su = demo_support and digest = "\<lambda>_. ''d''" and path = "''a.py''" and ns = "[1, 1, 1, 1, 1, 1]"] f
  obtain k left s1 where run: "?run = (Returned k, left, s1)" by auto
  have d: "demo_sha a = demo_sha ''ab'' \<Longrightarrow> length a = 2 \<Longrightarrow> a = ''ab''" for a by (simp add: demo_sha_def)
  from capture_returns_expected [OF run] obtain h where h: "cs_held s1 = Some h" by blast
  have "present (core demo_entry) (fresh demo_entry)" by (simp add: present_def fresh_def)
  with keeps_capture [of "core demo_entry"] run have "present (core demo_entry) s1 " by (auto simp: keeps_def careful_def idle_def)
  moreover have "cs_source s1 = None" using capture_returns [OF run] by blast
  ultimately have "core h = core demo_entry" using h by (auto simp: present_def)
  then have "ci_data (core h) = ci_data (core demo_entry)" by simp
  then have "ci_data h = ''ab''" by (simp add: core_def demo_entry_def)
  with run h show ?thesis by blast
qed

theorem custody_loses_nothing_witness:
  "present (core demo_entry) (history [(capture_entry demo_sha (\<lambda>_. ''d'') demo_support None ''a.py'' demo_expected,
      [(\<lambda>v. v, 1), (\<lambda>v. v, 1), (\<lambda>v. v, 1), (\<lambda>v. if v = None then Some (demo_entry\<lparr>ci_ino := 9\<rparr>) else v, 1), (\<lambda>v. v, 1)]),
     (restore_custody demo_sha (\<lambda>_. ''d'') demo_support, idle [1, 1, 1, 1])] (fresh demo_entry))"
proof (rule custody_loses_nothing)
  show "present (core demo_entry) (fresh demo_entry)" by (simp add: present_def fresh_def)
  fix m script
  let ?ops = "[(capture_entry demo_sha (\<lambda>_. ''d'') demo_support None ''a.py'' demo_expected,
      [(\<lambda>v. v, 1), (\<lambda>v. v, 1), (\<lambda>v. v, 1), (\<lambda>v. if v = None then Some (demo_entry\<lparr>ci_ino := 9\<rparr>) else v, 1), (\<lambda>v. v, 1)]),
     (restore_custody demo_sha (\<lambda>_. ''d'') demo_support, idle [1, 1, 1, 1])]"
  assume "(m, script) \<in> set ?ops"
  then consider "m = capture_entry demo_sha (\<lambda>_. ''d'') demo_support None ''a.py'' demo_expected" "\<forall>x \<in> set script. careful (core demo_entry) (fst x)"
    | "m = restore_custody demo_sha (\<lambda>_. ''d'') demo_support" "\<forall>x \<in> set script. careful (core demo_entry) (fst x)"
    by (auto simp: careful_def idle_def)
  then show "(\<forall>x \<in> set script. careful (core demo_entry) (fst x))
      \<and> ((\<exists>sha digest su preflight path x. m = capture_entry sha digest su preflight path x) \<or> (\<exists>sha digest su. m = restore_custody sha digest su))"
    by cases blast+
qed

end
