(* ===== verification/Relay_Ledger.thy ===== *)
theory Relay_Ledger
  imports Git_Remotes Scoped_HTTPS
begin

text \<open>
  \<open>agents/production_relay.py\<close> and the receiving handler \<open>internal_delegation\<close> of \<open>server.py\<close>: the durable mapping of
  relay requests to jobs, the checks on a relayed request, and what the isolated gateway does with one.  The job manager,
  the operator policy and the tools the handler calls answer through the environment of a call.
\<close>

section \<open>The ledger\<close>

record relay_row =
  rr_request :: string
  rr_remote :: "string option"
  rr_workspace :: string
  rr_agent :: string
  rr_active :: bool

type_synonym relay_rows = "relay_row list"

definition job_ref :: "string \<Rightarrow> bool" where
  "job_ref s \<longleftrightarrow> starts_with ''job_'' s \<and> class_match is_hex 24 24 (drop 4 s)"

definition validate_request_id :: "pyval \<Rightarrow> string result" where
  "validate_request_id v = (case v of PStr s \<Rightarrow> if class_match is_hex 32 32 s then Inr s else Inl PermissionError | _ \<Rightarrow> Inl PermissionError)"

definition row_of_request :: "string \<Rightarrow> relay_rows \<Rightarrow> relay_row option" where
  "row_of_request q rows = find (\<lambda>r. rr_request r = q) rows"

definition get_request :: "pyval \<Rightarrow> relay_rows \<Rightarrow> relay_row option result" where
  "get_request v rows = rbind (validate_request_id v) (\<lambda>q. Inr (row_of_request q rows))"

definition get_remote :: "string \<Rightarrow> relay_rows \<Rightarrow> relay_row option result" where
  "get_remote job rows = (if job_ref job then Inr (find (\<lambda>r. rr_remote r = Some job) rows) else Inl PermissionError)"

definition active_count :: "relay_rows \<Rightarrow> nat" where
  "active_count rows = length (filter rr_active rows)"

text \<open>\<open>reserve\<close>: one immediate transaction; \<open>None\<close> tells its caller to launch.\<close>

definition reserve :: "string \<Rightarrow> string \<Rightarrow> string \<Rightarrow> nat option \<Rightarrow> relay_rows \<Rightarrow> (relay_row option \<times> relay_rows) result" where
  "reserve q ws agent cap rows =
     rbind (validate_request_id (PStr q)) (\<lambda>_. case row_of_request q rows of
       Some r \<Rightarrow> if (rr_workspace r, rr_agent r) \<noteq> (ws, agent) then Inl PermissionError else Inr (Some r, rows)
     | None \<Rightarrow> if (case cap of None \<Rightarrow> False | Some n \<Rightarrow> n \<le> active_count rows) then Inl PermissionError
         else Inr (None, rows @ [\<lparr>rr_request = q, rr_remote = None, rr_workspace = ws, rr_agent = agent, rr_active = True\<rparr>]))"

definition active_jobs :: "relay_rows \<Rightarrow> string list" where
  "active_jobs rows = List.map_filter (\<lambda>r. if rr_active r then rr_remote r else None) rows"

definition mark_terminal :: "string \<Rightarrow> relay_rows \<Rightarrow> relay_rows" where
  "mark_terminal job = update_rows (\<lambda>r. rr_remote r = Some job) (rr_active_update (\<lambda>_. False))"

definition mark_no_launch :: "string \<Rightarrow> relay_rows \<Rightarrow> relay_rows" where
  "mark_no_launch q = update_rows (\<lambda>r. rr_request r = q \<and> rr_remote r = None) (rr_active_update (\<lambda>_. False))"

text \<open>\<open>register\<close>; the column of remote identifiers is unique.\<close>

definition relay_register :: "string \<Rightarrow> string \<Rightarrow> string \<Rightarrow> string \<Rightarrow> relay_rows \<Rightarrow> relay_rows result" where
  "relay_register q job ws agent rows =
     rbind (validate_request_id (PStr q)) (\<lambda>_.
       if \<not> job_ref job then Inl PermissionError
       else let taken = list_ex (\<lambda>r. rr_remote r = Some job) rows in
       (case row_of_request q rows of
         Some r \<Rightarrow>
           if (rr_workspace r, rr_agent r) \<noteq> (ws, agent) then Inl PermissionError
           else if rr_remote r = None then
             (if taken then Inl IntegrityError else Inr (update_rows (\<lambda>r. rr_request r = q) (rr_remote_update (\<lambda>_. Some job)) rows))
           else if rr_remote r \<noteq> Some job then Inl PermissionError else Inr rows
       | None \<Rightarrow> if taken then Inl IntegrityError
           else Inr (rows @ [\<lparr>rr_request = q, rr_remote = Some job, rr_workspace = ws, rr_agent = agent, rr_active = True\<rparr>])))"

section \<open>The checks on a request\<close>

definition MAX_TASK :: nat where
  "MAX_TASK = 24000"

definition ALLOWED_OPS :: "string list" where
  "ALLOWED_OPS = [''list_agents'', ''workspace_info'', ''dispatch_agent'', ''job_status'', ''job_output'', ''job_result'',
     ''job_cancel'', ''lookup_dispatch'', ''git_pull'']"

definition DISPATCH_FIELDS :: "string list" where
  "DISPATCH_FIELDS = [''agent'', ''task'', ''workspace_id'', ''purpose'', ''model'', ''reasoning_effort'', ''allow_commit'',
     ''allow_push'', ''read_only'', ''request_id'']"

text \<open>\<open>v in names\<close> for a set of strings: a list or dictionary cannot be hashed.\<close>

definition in_names :: "pyval \<Rightarrow> string list \<Rightarrow> bool result" where
  "in_names v names = (if unhashable v then Inl TypeError else Inr (is_pstr v \<and> the_str v \<in> set names))"

definition bad_metadata :: "pyval \<Rightarrow> bool" where
  "bad_metadata v \<longleftrightarrow> v \<noteq> PNone \<and> \<not> (is_pstr v \<and> length (the_str v) \<le> 512)"

definition validate_dispatch :: "pydict \<Rightarrow> string list \<Rightarrow> string list \<Rightarrow> pydict result" where
  "validate_dispatch data workspaces writers =
     (if \<not> field_names data \<subseteq> set DISPATCH_FIELDS then Inl PermissionError
      else rbind (in_names (dict_get data ''agent'') PUBLIC_AGENT_IDS) (\<lambda>known.
        if \<not> known then Inl PermissionError
        else rbind (in_names (dict_get data ''workspace_id'') workspaces) (\<lambda>inside.
          if \<not> inside then Inl PermissionError
          else if \<not> (is_pstr (dict_get data ''task'') \<and> 1 \<le> length (the_str (dict_get data ''task'')) \<and> length (the_str (dict_get data ''task'')) \<le> MAX_TASK)
          then Inl PermissionError
          else rbind (if ''request_id'' \<in> field_names data then validate_request_id (dict_get data ''request_id'') else Inr []) (\<lambda>_.
            if truthy (dict_get data ''allow_push'') then Inl PermissionError
            else if list_ex (\<lambda>k. bad_metadata (dict_get data k)) [''purpose'', ''model'', ''reasoning_effort''] then Inl PermissionError
            else (case get_default data ''read_only'' (PBool True) of
                PBool read_only \<Rightarrow>
                  if read_only \<and> truthy (dict_get data ''allow_commit'') then Inl PermissionError
                  else if \<not> read_only \<and> the_str (dict_get data ''workspace_id'') \<notin> set writers then Inl PermissionError
                  else Inr (dict_set ''read_only'' (PBool read_only) (dict_set ''allow_push'' (PBool False)
                    (dict_set ''allow_commit'' (PBool (\<not> read_only)) data)))
              | _ \<Rightarrow> Inl PermissionError)))))"

text \<open>A job request names the job, a cursor and a page size.\<close>

definition page_ok :: "pydict \<Rightarrow> bool" where
  "page_ok data \<longleftrightarrow> int_in 0 100000000 (get_default data ''cursor'' (PInt 0)) \<and> int_in 1 65536 (get_default data ''max_bytes'' (PInt 65536))"

definition job_fields_ok :: "pydict \<Rightarrow> bool" where
  "job_fields_ok data \<longleftrightarrow> field_names data \<subseteq> {''job_id'', ''cursor'', ''max_bytes''}"

definition validate_job_request :: "pydict \<Rightarrow> string result" where
  "validate_job_request data =
     (if \<not> job_fields_ok data then Inl PermissionError
      else (case get_default data ''job_id'' (PStr []) of
          PStr job \<Rightarrow> if \<not> job_ref job \<or> \<not> page_ok data then Inl PermissionError else Inr job
        | _ \<Rightarrow> Inl TypeError))"

definition NOT_LAUNCHED :: string where
  "NOT_LAUNCHED = ''Dispatch was rejected before a worker was launched.''"

definition no_launch_result :: "string \<Rightarrow> relay_row \<Rightarrow> pydict \<Rightarrow> pydict result" where
  "no_launch_result public row data =
     (if \<not> job_fields_ok data \<or> \<not> page_ok data then Inl PermissionError
      else Inr [(''job_id'', PStr public), (''status'', PStr ''failed''), (''launched'', PBool False), (''launch_status'', PStr ''not_launched''),
        (''exit_code'', PNone), (''workspace_id'', PStr (rr_workspace row)), (''agent'', PStr (rr_agent row)),
        (''failure_reason'', PStr ''dispatch_rejected_before_launch''), (''message'', PStr NOT_LAUNCHED), (''stdout'', PStr []),
        (''stderr'', PStr (take (nat (min (the_int (get_default data ''max_bytes'' (PInt 65536))) 32768)) NOT_LAUNCHED)),
        (''cursor'', get_default data ''cursor'' (PInt 0)), (''next_cursor'', get_default data ''cursor'' (PInt 0)), (''eof'', PBool True)])"

definition PULL_FIELDS :: "string list" where
  "PULL_FIELDS = [''workspace_id'', ''job_id'', ''remote'', ''branch'', ''mode'', ''prepare_only'', ''request_sha256'', ''approval_receipt'']"

definition remote_char :: "char \<Rightarrow> bool" where
  "remote_char c \<longleftrightarrow> is_alnum c \<or> c = CHR ''_'' \<or> c = CHR ''-''"

definition str_and :: "(string \<Rightarrow> bool) \<Rightarrow> pyval \<Rightarrow> bool" where
  "str_and P v \<longleftrightarrow> is_pstr v \<and> P (the_str v)"

definition digest_text :: "string \<Rightarrow> bool" where
  "digest_text = class_match is_hex 64 64"

definition validate_pull_request :: "pydict \<Rightarrow> string result" where
  "validate_pull_request data =
     (let clone = (dict_get data ''operation'' = PStr ''clone'');
          fields = set PULL_FIELDS \<union> (if clone then {''operation'', ''local_branch''} else {})
            \<union> (if ''repository'' \<in> field_names data then {''repository''} else {});
          receipt = the_str (dict_get data ''approval_receipt''); digest = the_str (dict_get data ''request_sha256'') in
      rbind (if ''repository'' \<in> field_names data then repository_relative (dict_get data ''repository'') else Inr []) (\<lambda>_.
        if field_names data \<noteq> fields \<or> \<not> str_and job_ref (dict_get data ''job_id'') \<or> \<not> is_pstr (dict_get data ''workspace_id'')
           \<or> \<not> str_and (class_match remote_char 1 128) (dict_get data ''remote'') \<or> \<not> str_and (ref_ok True) (dict_get data ''branch'')
           \<or> (if clone then dict_get data ''mode'' \<noteq> PNone \<or> \<not> str_and (ref_ok True) (dict_get data ''local_branch'')
              else \<not> str_and (\<lambda>m. m \<in> {''ff-only'', ''merge'', ''rebase''}) (dict_get data ''mode''))
           \<or> dict_get data ''prepare_only'' \<notin> {PBool True, PBool False}
           \<or> \<not> str_and (\<lambda>s. length s \<le> 8192) (dict_get data ''approval_receipt'') \<or> \<not> is_pstr (dict_get data ''request_sha256'')
        then Inl PermissionError
        else if dict_get data ''prepare_only'' = PBool True
        then (if receipt \<noteq> [] \<or> digest \<noteq> [] then Inl PermissionError else Inr (the_str (dict_get data ''job_id'')))
        else if (receipt \<noteq> [] \<or> digest \<noteq> []) \<and> \<not> digest_text digest then Inl PermissionError
        else Inr (the_str (dict_get data ''job_id''))))"

section \<open>The receiving gateway\<close>

text \<open>\<open>DevelopmentRuntime.require_production_egress\<close> on the installed runtime document.\<close>

definition require_production_egress :: "pydict \<Rightarrow> pyval option \<Rightarrow> string list result" where
  "require_production_egress config agent =
     (if dict_get config ''network_enabled'' \<noteq> PBool True \<or> dict_get config ''egress_policy'' \<noteq> PStr ''provider_origin'' then Inl PermissionError
      else (case dict_get config ''production_relay_agents'' of
          PList names \<Rightarrow>
            if names = [] \<or> list_ex (\<lambda>n. \<not> str_and (\<lambda>a. a \<in> set PUBLIC_AGENT_IDS) n) names \<or> \<not> distinct names then Inl PermissionError
            else if (case agent of None \<Rightarrow> False | Some PNone \<Rightarrow> False | Some a \<Rightarrow> a \<notin> set names) then Inl PermissionError
            else if dict_get config ''public_client_policy_required'' \<noteq> PBool True \<or> \<not> is_dict (dict_get config ''job_resources'') then Inl PermissionError
            else Inr (map the_str names)
        | _ \<Rightarrow> Inl PermissionError))"

text \<open>The operator scope of the relay, the workspaces it may write, the registry and the runtime document.\<close>

record relay_config =
  rc_scope :: "string list"
  rc_writers :: "string list"
  rc_registry :: registry
  rc_runtime :: pydict
  rc_clone_scopes :: "string list option"

text \<open>
  What a call meets: the job manager's status of a job, the operator check, the answers of the tools, and the jobs this
  process runs itself.  \<open>rc_clone_scopes\<close> are the workspaces with a public clone grant, \<open>None\<close> without a client policy.
\<close>

record relay_env =
  re_status :: "string \<Rightarrow> pydict result"
  re_check :: "pydict \<Rightarrow> unit result"
  re_launch :: "pydict \<Rightarrow> pydict result"
  re_tool :: "string \<Rightarrow> pydict \<Rightarrow> pydict result"
  re_agents :: "pydict list result"
  re_running :: "string list"

definition TERMINAL_TEXTS :: "string list" where
  "TERMINAL_TEXTS = [''completed'', ''failed'', ''timed_out'', ''cancelled'', ''output_limit_exceeded'', ''interrupted'', ''recovered'']"

definition is_terminal :: "pydict \<Rightarrow> bool" where
  "is_terminal d \<longleftrightarrow> str_and (\<lambda>s. s \<in> set TERMINAL_TEXTS) (dict_get d ''status'')"

text \<open>Completed jobs give their place back; an unknown job keeps it.\<close>

fun reconcile :: "(string \<Rightarrow> pydict result) \<Rightarrow> string list \<Rightarrow> relay_rows \<Rightarrow> unit result \<times> relay_rows" where
  "reconcile status [] rows = (Inr (), rows)"
| "reconcile status (job # jobs) rows = (case status job of
       Inl KeyError \<Rightarrow> reconcile status jobs rows
     | Inl e \<Rightarrow> (Inl e, rows)
     | Inr d \<Rightarrow> reconcile status jobs (if is_terminal d then mark_terminal job rows else rows))"

definition launch_refusal :: "py_error \<Rightarrow> bool" where
  "launch_refusal e \<longleftrightarrow> is_permission_error e \<or> e \<in> {ValueError, StaleFileError, JobCapacityError}"

text \<open>A reserved request: the operator check, the worker tool, and the record of its outcome.\<close>

definition finish_launch :: "string \<Rightarrow> string \<Rightarrow> string \<Rightarrow> pydict result \<Rightarrow> relay_rows \<Rightarrow> pydict result \<times> relay_rows" where
  "finish_launch q ws agent outcome rows = (case outcome of
       Inl e \<Rightarrow> (Inl e, if launch_refusal e then mark_no_launch q rows else rows)
     | Inr d \<Rightarrow> (case get_default d ''job_id'' (PStr []) of
           PStr job \<Rightarrow> if \<not> job_ref job then (Inl RuntimeError, rows)
             else (case relay_register q job ws agent rows of Inl e \<Rightarrow> (Inl e, rows) | Inr rows' \<Rightarrow> (Inr d, rows'))
         | _ \<Rightarrow> (Inl TypeError, rows)))"

text \<open>The dispatch branch; the last component lists the arguments handed to the worker tool.\<close>

definition dispatch_branch :: "relay_config \<Rightarrow> relay_env \<Rightarrow> pydict \<Rightarrow> relay_rows \<Rightarrow> pydict result \<times> relay_rows \<times> pydict list" where
  "dispatch_branch c v arguments rows =
     (case rbind (require_production_egress (rc_runtime c) (Some (get_default arguments ''agent'' (PStr [])))) (\<lambda>_.
           rbind (validate_dispatch arguments (rc_scope c) (rc_writers c)) (\<lambda>data.
           rbind (validate_request_id (dict_get data ''request_id'')) (\<lambda>q. Inr (q, dict_pop ''request_id'' data)))) of
        Inl e \<Rightarrow> (Inl e, rows, [])
      | Inr (q, data) \<Rightarrow>
          (let ws = the_str (dict_get data ''workspace_id''); agent = the_str (dict_get data ''agent'') in
           case reconcile (re_status v) (active_jobs rows) rows of
             (Inl e, rows1) \<Rightarrow> (Inl e, rows1, [])
           | (Inr _, rows1) \<Rightarrow> (case reserve q ws agent (Some 3) rows1 of
               Inl e \<Rightarrow> (Inl e, rows1, [])
             | Inr (Some prior, rows2) \<Rightarrow> (case rr_remote prior of
                   None \<Rightarrow> (Inl PermissionError, rows2, [])
                 | Some job \<Rightarrow> (rbind (re_tool v ''job_status'' [(''job_id'', PStr job)]) (\<lambda>d.
                     Inr (dict_set ''dispatch_id'' (PStr job) (dict_set ''job_id'' (PStr job) d))), rows2, []))
             | Inr (None, rows2) \<Rightarrow> (case re_check v data of
                   Inl e \<Rightarrow> (case finish_launch q ws agent (Inl e) rows2 of (r, rows3) \<Rightarrow> (r, rows3, []))
                 | Inr _ \<Rightarrow> (case finish_launch q ws agent (re_launch v data) rows2 of (r, rows3) \<Rightarrow> (r, rows3, [data]))))))"

definition lookup_branch :: "relay_config \<Rightarrow> pydict \<Rightarrow> relay_rows \<Rightarrow> pydict result" where
  "lookup_branch c arguments rows =
     (if field_names arguments \<noteq> {''request_id''} then Inl PermissionError
      else rbind (get_request (dict_get arguments ''request_id'') rows) (\<lambda>previous.
        if (case previous of None \<Rightarrow> False | Some r \<Rightarrow> rr_workspace r \<notin> set (rc_scope c)) then Inl PermissionError
        else Inr (case previous of
            Some r \<Rightarrow> (case rr_remote r of
                Some job \<Rightarrow> [(''job_id'', PStr job), (''status'', PStr ''known'')]
              | None \<Rightarrow> if \<not> rr_active r then [(''job_id'', PNone), (''status'', PStr ''not_launched''),
                    (''workspace_id'', PStr (rr_workspace r)), (''agent'', PStr (rr_agent r))]
                  else [(''job_id'', PNone), (''status'', PStr ''delivery_uncertain'')])
          | None \<Rightarrow> [(''job_id'', PNone), (''status'', PStr ''delivery_uncertain'')])))"

definition RECEIVING_SECURITY_PROFILE :: string where
  "RECEIVING_SECURITY_PROFILE = ''provider_origin_v1''"

definition info_branch :: "relay_config \<Rightarrow> pydict \<Rightarrow> pydict result" where
  "info_branch c arguments =
     (if field_names arguments \<noteq> {''workspace_id''} \<or> \<not> str_and (\<lambda>w. w \<in> set (rc_scope c)) (dict_get arguments ''workspace_id'') then Inl PermissionError
      else rbind (get (rc_registry c) (the_str (dict_get arguments ''workspace_id''))) (\<lambda>w.
        rbind (require_production_egress (rc_runtime c) None) (\<lambda>_.
        Inr [(''workspace_id'', PStr (ws_id w)), (''path'', PStr (ws_path w)), (''agent_dispatch'', PBool (allow_agent_dispatch w)),
          (''security_profile'', PStr RECEIVING_SECURITY_PROFILE), (''writable_transactions'', PBool (ws_id w \<in> set (rc_writers c)))])))"

definition pull_branch :: "relay_config \<Rightarrow> relay_env \<Rightarrow> pydict \<Rightarrow> relay_rows \<Rightarrow> pydict result" where
  "pull_branch c v arguments rows =
     rbind (validate_pull_request arguments) (\<lambda>job.
       let ws = the_str (dict_get arguments ''workspace_id'') in
       if dict_get arguments ''operation'' = PStr ''clone'' \<and> (case rc_clone_scopes c of None \<Rightarrow> True | Some names \<Rightarrow> ws \<notin> set names)
       then Inl PermissionError
       else rbind (get_remote job rows) (\<lambda>row. case row of
           None \<Rightarrow> Inl PermissionError
         | Some r \<Rightarrow> if rr_workspace r \<noteq> ws \<or> ws \<notin> set (rc_writers c) then Inl PermissionError
             else rbind (re_status v job) (\<lambda>d.
               if dict_get d ''workspace_id'' \<noteq> PStr (rr_workspace r) \<or> dict_get d ''agent'' \<noteq> PStr (rr_agent r)
                  \<or> dict_get d ''status'' \<noteq> PStr ''running'' then Inl PermissionError
               else re_tool v ''git_pull'' arguments)))"

definition cap_page :: "pydict \<Rightarrow> pydict" where
  "cap_page d = dict_set ''max_bytes'' (PInt (min (the_int (get_default d ''max_bytes'' (PInt 65536))) 32768)) d"

definition job_tool :: "relay_config \<Rightarrow> relay_env \<Rightarrow> string \<Rightarrow> string \<Rightarrow> pydict \<Rightarrow> relay_row \<Rightarrow> pydict result" where
  "job_tool c v operation job arguments owned =
     (if operation = ''job_status'' then re_tool v operation [(''job_id'', PStr job)]
      else if operation = ''job_output'' \<or> operation = ''job_result'' then re_tool v operation (cap_page arguments)
      else if operation = ''job_cancel'' then
        (if field_names arguments \<noteq> {''job_id''} \<or> rr_workspace owned \<notin> set (rc_scope c) then Inl PermissionError
         else rbind (re_status v job) (\<lambda>d.
           if (dict_get d ''workspace_id'', dict_get d ''agent'') \<noteq> (PStr (rr_workspace owned), PStr (rr_agent owned)) then Inl PermissionError
           else re_tool v operation [(''job_id'', PStr job)]))
      else Inl PermissionError)"

definition job_branch :: "relay_config \<Rightarrow> relay_env \<Rightarrow> string \<Rightarrow> pydict \<Rightarrow> relay_rows \<Rightarrow> pydict result \<times> relay_rows" where
  "job_branch c v operation arguments rows =
     (case rbind (validate_job_request arguments) (\<lambda>job. rbind (get_remote job rows) (\<lambda>row. case row of
             None \<Rightarrow> Inl PermissionError
           | Some owned \<Rightarrow> rbind (job_tool c v operation job arguments owned) (\<lambda>d. Inr (job, d)))) of
        Inl e \<Rightarrow> (Inl e, rows)
      | Inr (job, d) \<Rightarrow>
          if is_terminal d then (Inr d, mark_terminal job rows)
          else if dict_get d ''status'' = PStr ''running'' \<and> job \<notin> set (re_running v)
          then (Inr (dict_set ''status'' (PStr ''running_unverified'') d), rows)
          else (Inr d, rows))"

text \<open>What the caller sees: a document, the uniform refusal (403), or an error the application maps elsewhere.\<close>

datatype relay_reply = Reply pyval | Denied403 | Failed py_error

definition inventory_branch :: "relay_config \<Rightarrow> relay_env \<Rightarrow> pydict \<Rightarrow> pyval result" where
  "inventory_branch c v arguments =
     (if arguments \<noteq> [] then Inl PermissionError
      else rbind (require_production_egress (rc_runtime c) None) (\<lambda>approved.
        rbind (re_agents v) (\<lambda>agents.
        Inr (PList (map (\<lambda>row. PDict (if str_and (\<lambda>a. a \<in> set approved) (dict_get row ''agent'') then row
           else dict_set ''availability_reason'' (PStr ''Agent is not admitted for production delegation'')
             (dict_set ''delegatable'' (PBool False) row))) agents)))))"

definition handled :: "relay_config \<Rightarrow> relay_env \<Rightarrow> string \<Rightarrow> pydict \<Rightarrow> relay_rows \<Rightarrow> pyval result \<times> relay_rows \<times> pydict list" where
  "handled c v operation arguments rows =
     (let doc = (\<lambda>r. rbind r (\<lambda>d. Inr (PDict d))) in
      if operation = ''list_agents'' then (inventory_branch c v arguments, rows, [])
      else if operation = ''lookup_dispatch'' then (doc (lookup_branch c arguments rows), rows, [])
      else if operation = ''workspace_info'' then (doc (info_branch c arguments), rows, [])
      else if operation = ''dispatch_agent'' then (case dispatch_branch c v arguments rows of (r, rows', launched) \<Rightarrow> (doc r, rows', launched))
      else if operation = ''git_pull'' then (doc (pull_branch c v arguments rows), rows, [])
      else (case job_branch c v operation arguments rows of (r, rows') \<Rightarrow> (doc r, rows', [])))"

definition caught :: "py_error \<Rightarrow> bool" where
  "caught e \<longleftrightarrow> is_permission_error e \<or> e \<in> {ValueError, StaleFileError, KeyError}"

definition internal_delegation :: "relay_config \<Rightarrow> relay_env \<Rightarrow> pyval result \<Rightarrow> relay_rows \<Rightarrow> relay_reply \<times> relay_rows \<times> pydict list" where
  "internal_delegation c v payload rows =
     (let denied = (\<lambda>e. if caught e then Denied403 else Failed e) in
      case rbind payload (\<lambda>p. case p of
             PDict d \<Rightarrow>
               if field_names d \<noteq> {''operation'', ''args''} then Inl PermissionError
               else rbind (in_names (dict_get d ''operation'') ALLOWED_OPS) (\<lambda>known.
                 case dict_get d ''args'' of
                   PDict arguments \<Rightarrow> if known then Inr (the_str (dict_get d ''operation''), arguments) else Inl PermissionError
                 | _ \<Rightarrow> Inl PermissionError)
           | _ \<Rightarrow> Inl PermissionError) of
        Inl e \<Rightarrow> (denied e, rows, [])
      | Inr (operation, arguments) \<Rightarrow> (case handled c v operation arguments rows of
            (Inl e, rows', launched) \<Rightarrow> (denied e, rows', launched)
          | (Inr x, rows', launched) \<Rightarrow> (Reply x, rows', launched)))"

section \<open>Every request is launched at most once\<close>

text \<open>
  The transactions that handler calls of any number of gateway processes interleave: a reservation that tells its caller
  to launch, the record of a launch's outcome, the loss of a process between the two, and the end of a job.
\<close>

record relay_system =
  sys_rows :: relay_rows
  sys_flying :: "(string \<times> string \<times> string) list"

inductive relay_step :: "relay_system \<Rightarrow> string list \<Rightarrow> relay_system \<Rightarrow> bool" where
  reserved: "reserve q ws agent (Some 3) (sys_rows s) = Inr (None, rows) \<Longrightarrow>
     relay_step s [q] \<lparr>sys_rows = rows, sys_flying = (q, ws, agent) # sys_flying s\<rparr>"
| finished: "(q, ws, agent) \<in> set (sys_flying s) \<Longrightarrow> finish_launch q ws agent outcome (sys_rows s) = (r, rows) \<Longrightarrow>
     relay_step s [] \<lparr>sys_rows = rows, sys_flying = removeAll (q, ws, agent) (sys_flying s)\<rparr>"
| lost: "relay_step s [] (s\<lparr>sys_flying := removeAll launch (sys_flying s)\<rparr>)"
| ended: "relay_step s [] (s\<lparr>sys_rows := mark_terminal job (sys_rows s)\<rparr>)"

inductive relay_trace :: "relay_system \<Rightarrow> string list \<Rightarrow> relay_system \<Rightarrow> bool" where
  trace_none: "relay_trace s [] s"
| trace_step: "relay_step s as s1 \<Longrightarrow> relay_trace s1 bs s' \<Longrightarrow> relay_trace s (as @ bs) s'"

lemma relay_trace_append: "relay_trace s as s1 \<Longrightarrow> relay_trace s1 bs s' \<Longrightarrow> relay_trace s (as @ bs) s'"
  by (induction rule: relay_trace.induct) (simp, metis append.assoc trace_step)

lemma relay_trace_one: "relay_step s as s' \<Longrightarrow> relay_trace s as s'"
  using trace_step [OF _ trace_none] by fastforce

text \<open>Changes of the ledger that only free places and fill in job identifiers.\<close>

definition remotes :: "relay_rows \<Rightarrow> string list" where
  "remotes rows = List.map_filter rr_remote rows"

definition scopes :: "relay_rows \<Rightarrow> (string \<times> string \<times> string) list" where
  "scopes rows = map (\<lambda>r. (rr_request r, rr_workspace r, rr_agent r)) rows"

definition settles :: "relay_rows \<Rightarrow> relay_rows \<Rightarrow> bool" where
  "settles rows rows' \<longleftrightarrow> scopes rows' = scopes rows \<and> active_count rows' \<le> active_count rows
     \<and> (distinct (map rr_request rows) \<longrightarrow> distinct (remotes rows) \<longrightarrow> distinct (remotes rows'))"

lemma settles_refl: "settles rows rows"
  by (simp add: settles_def)

lemma scopes_requests: "map rr_request rows = map fst (scopes rows)"
  by (simp add: scopes_def comp_def)

lemma settles_requests: "settles rows rows' \<Longrightarrow> map rr_request rows' = map rr_request rows"
  by (simp add: settles_def scopes_requests)

lemma active_count_inactive: "active_count (update_rows P (rr_active_update (\<lambda>_. False)) rows) \<le> active_count rows"
  by (induction rows) (auto simp: active_count_def update_rows_def)

lemma remotes_inactive: "remotes (update_rows P (rr_active_update (\<lambda>_. b)) rows) = remotes rows"
  by (induction rows) (auto simp: remotes_def update_rows_def List.map_filter_def)

lemma scopes_update: "(\<And>r. (rr_request (f r), rr_workspace (f r), rr_agent (f r)) = (rr_request r, rr_workspace r, rr_agent r))
    \<Longrightarrow> scopes (update_rows P f rows) = scopes rows"
  by (auto simp: scopes_def update_rows_def)

lemma settles_marks: "settles rows (mark_terminal job rows)" "settles rows (mark_no_launch q rows)"
  unfolding settles_def mark_terminal_def mark_no_launch_def
  by (simp_all add: active_count_inactive remotes_inactive scopes_update)

lemma remotes_Some: "Some job \<in> rr_remote ` set rows \<longleftrightarrow> job \<in> set (remotes rows)"
  by (induction rows) (auto simp: remotes_def List.map_filter_def split: option.splits)

lemma distinct_remotes_filled:
  assumes "distinct (map rr_request rows)" and "distinct (remotes rows)" and "job \<notin> set (remotes rows)"
    and "\<forall>r \<in> set rows. rr_request r = q \<longrightarrow> rr_remote r = None"
  shows "distinct (remotes (update_rows (\<lambda>r. rr_request r = q) (rr_remote_update (\<lambda>_. Some job)) rows))
    \<and> set (remotes (update_rows (\<lambda>r. rr_request r = q) (rr_remote_update (\<lambda>_. Some job)) rows)) \<subseteq> insert job (set (remotes rows))"
  using assms
proof (induction rows)
  case (Cons r rows)
  have same: "update_rows (\<lambda>r. rr_request r = q) (rr_remote_update (\<lambda>_. Some job)) rows = rows" if "rr_request r = q"
    unfolding update_rows_def
  proof (rule map_idI)
    fix x assume "x \<in> set rows"
    then have "rr_request x \<noteq> q" using that Cons.prems(1) by (metis distinct.simps(2) imageI list.map(2) set_map)
    then show "(if rr_request x = q then rr_remote_update (\<lambda>_. Some job) x else x) = x" by simp
  qed
  have head: "remotes (x # ys) = (case rr_remote x of None \<Rightarrow> remotes ys | Some j \<Rightarrow> j # remotes ys)" for x ys
    by (simp add: remotes_def List.map_filter_def split: option.split)
  have rest: "update_rows P f (x # ys) = (if P x then f x else x) # update_rows P f ys" for P f x and ys :: relay_rows
    by (simp add: update_rows_def)
  show ?case
  proof (cases "rr_request r = q")
    case True
    with Cons.prems have "rr_remote r = None" by simp
    with True same Cons.prems(2,3) show ?thesis by (simp add: rest head)
  next
    case False
    have "distinct (remotes rows)" "job \<notin> set (remotes rows)" using Cons.prems(2,3) by (auto simp: head split: option.splits)
    then have IH: "distinct (remotes (update_rows (\<lambda>r. rr_request r = q) (rr_remote_update (\<lambda>_. Some job)) rows))"
      "set (remotes (update_rows (\<lambda>r. rr_request r = q) (rr_remote_update (\<lambda>_. Some job)) rows)) \<subseteq> insert job (set (remotes rows))"
      using Cons by simp_all
    show ?thesis using False IH Cons.prems(2,3) by (auto simp: rest head split: option.splits)
  qed
qed (simp add: remotes_def update_rows_def List.map_filter_def)

lemma settles_register:
  assumes "relay_register q job ws agent rows = Inr rows'" and "row_of_request q rows \<noteq> None"
  shows "settles rows rows'"
proof -
  from assms obtain r where r: "row_of_request q rows = Some r"
    "rows' = rows \<or> (rr_remote r = None \<and> \<not> list_ex (\<lambda>r. rr_remote r = Some job) rows
       \<and> rows' = update_rows (\<lambda>r. rr_request r = q) (rr_remote_update (\<lambda>_. Some job)) rows)"
    by (auto simp: relay_register_def Let_def split: option.splits if_splits)
  show ?thesis
  proof (cases "rows' = rows")
    case False
    with r have new: "rr_remote r = None" "job \<notin> set (remotes rows)"
      and rows': "rows' = update_rows (\<lambda>r. rr_request r = q) (rr_remote_update (\<lambda>_. Some job)) rows"
      by (auto simp: list_ex_iff remotes_Some [symmetric])
    have "active_count rows' = active_count rows" unfolding rows' by (induction rows) (auto simp: active_count_def update_rows_def)
    moreover have "scopes rows' = scopes rows" unfolding rows' by (rule scopes_update) simp
    moreover have "distinct (remotes rows')" if d: "distinct (map rr_request rows)" "distinct (remotes rows)"
    proof -
      have "\<forall>x \<in> set rows. rr_request x = q \<longrightarrow> rr_remote x = None"
        using r(1) new(1) d(1) find_key_mem [of _ rows rr_request] by (auto simp: row_of_request_def)
      with distinct_remotes_filled [OF d new(2)] show ?thesis unfolding rows' by blast
    qed
    ultimately show ?thesis by (simp add: settles_def)
  qed (simp add: settles_refl)
qed

lemma settles_finish:
  assumes "finish_launch q ws agent outcome rows = (r, rows')" and "row_of_request q rows \<noteq> None"
  shows "settles rows rows'"
  using assms settles_refl settles_marks settles_register
  by (auto simp: finish_launch_def split: sum.splits pyval.splits if_splits)

lemma reserve_new:
  "reserve q ws agent cap rows = Inr (None, rows') \<Longrightarrow> q \<notin> rr_request ` set rows \<and> (\<forall>n. cap = Some n \<longrightarrow> active_count rows < n)
     \<and> rows' = rows @ [\<lparr>rr_request = q, rr_remote = None, rr_workspace = ws, rr_agent = agent, rr_active = True\<rparr>]"
  by (auto simp: reserve_def row_of_request_def find_key_None split: option.splits if_splits)

definition relay_ok :: "relay_system \<Rightarrow> bool" where
  "relay_ok s \<longleftrightarrow> distinct (map rr_request (sys_rows s)) \<and> distinct (remotes (sys_rows s)) \<and> active_count (sys_rows s) \<le> 3
     \<and> set (sys_flying s) \<subseteq> set (scopes (sys_rows s))"

lemma relay_ok_settles: "relay_ok s \<Longrightarrow> settles (sys_rows s) rows \<Longrightarrow> set flying \<subseteq> set (sys_flying s) \<Longrightarrow> relay_ok \<lparr>sys_rows = rows, sys_flying = flying\<rparr>"
  using settles_requests [of "sys_rows s" rows] by (auto simp: relay_ok_def settles_def)

lemma flying_row: "relay_ok s \<Longrightarrow> (q, ws, agent) \<in> set (sys_flying s) \<Longrightarrow> row_of_request q (sys_rows s) \<noteq> None"
  unfolding relay_ok_def scopes_def row_of_request_def find_None_iff by auto

lemma relay_step_ok:
  assumes "relay_step s as s'" and "relay_ok s"
  shows "relay_ok s' \<and> rr_request ` set (sys_rows s') = rr_request ` set (sys_rows s) \<union> set as
    \<and> set as \<inter> rr_request ` set (sys_rows s) = {} \<and> distinct as"
  using assms(1)
proof cases
  case (reserved q ws agent rows)
  with reserve_new [OF reserved(3)] assms(2) show ?thesis
    by (auto simp: relay_ok_def active_count_def remotes_def scopes_def List.map_filter_def)
next
  case (finished q ws agent outcome r rows)
  have "settles (sys_rows s) rows" using settles_finish [OF finished(4)] flying_row [OF assms(2) finished(3)] by blast
  with finished assms(2) relay_ok_settles [OF assms(2) this, of "removeAll (q, ws, agent) (sys_flying s)"]
    arg_cong [OF settles_requests [OF this], of set] show ?thesis by auto
next
  case (lost launch)
  with relay_ok_settles [OF assms(2) settles_refl, of "removeAll launch (sys_flying s)"] show ?thesis by (cases s) auto
next
  case (ended job)
  with relay_ok_settles [OF assms(2) settles_marks(1), of "sys_flying s" job] arg_cong [OF settles_requests [OF settles_marks(1)], of set]
  show ?thesis by (cases s) auto
qed

lemma relay_trace_ok:
  "relay_trace s as s' \<Longrightarrow> relay_ok s \<Longrightarrow> relay_ok s' \<and> distinct as \<and> set as \<inter> rr_request ` set (sys_rows s) = {}
     \<and> rr_request ` set (sys_rows s') = rr_request ` set (sys_rows s) \<union> set as"
proof (induction rule: relay_trace.induct)
  case (trace_step s as s1 bs s')
  from relay_step_ok [OF trace_step(1,4)] trace_step(3) show ?case by auto
qed simp

text \<open>
  C35.  A relayed request launches at most one worker: under every interleaving of the transactions of any number of
  gateway processes, lost processes and lost answers included, the requests that were told to launch are pairwise
  different and never told again, at most three workers hold a place, and no job belongs to two requests.
\<close>
theorem relay_launches_once:
  assumes "relay_trace \<lparr>sys_rows = [], sys_flying = []\<rparr> launches s"
  shows "distinct launches \<and> set launches = rr_request ` set (sys_rows s) \<and> active_count (sys_rows s) \<le> 3
    \<and> distinct (map rr_request (sys_rows s)) \<and> distinct (remotes (sys_rows s))"
proof -
  have "relay_ok \<lparr>sys_rows = [], sys_flying = []\<rparr>" by (simp add: relay_ok_def active_count_def remotes_def List.map_filter_def)
  from relay_trace_ok [OF assms this] show ?thesis by (auto simp: relay_ok_def)
qed

section \<open>What the receiving gateway does with a request\<close>

lemma in_names_Inr: "in_names v names = Inr b \<Longrightarrow> b \<Longrightarrow> \<exists>s \<in> set names. v = PStr s"
  by (cases v) (auto simp: in_names_def unhashable_def split: if_splits)

lemma field_names_dict_set: "field_names (dict_set k v d) = insert k (field_names d)"
  by (simp add: field_names_def keys_dict_set)

lemma field_names_dict_pop: "field_names (dict_pop k d) = field_names d - {k}"
  by (auto simp: field_names_def dict_pop_def)

lemma dict_get_dict_pop: "dict_get (dict_pop k d) j = (if j = k then PNone else dict_get d j)"
  by (simp add: dict_get_def map_of_dict_pop)

text \<open>An accepted dispatch.\<close>

definition dispatch_in_scope :: "string list \<Rightarrow> string list \<Rightarrow> pydict \<Rightarrow> bool" where
  "dispatch_in_scope workspaces writers d \<longleftrightarrow> field_names d \<subseteq> set DISPATCH_FIELDS
     \<and> str_and (\<lambda>a. a \<in> set PUBLIC_AGENT_IDS) (dict_get d ''agent'') \<and> str_and (\<lambda>w. w \<in> set workspaces) (dict_get d ''workspace_id'')
     \<and> dict_get d ''allow_push'' = PBool False
     \<and> (\<exists>read_only. dict_get d ''read_only'' = PBool read_only \<and> dict_get d ''allow_commit'' = PBool (\<not> read_only)
          \<and> (\<not> read_only \<longrightarrow> the_str (dict_get d ''workspace_id'') \<in> set writers))"

lemma PBool_case_Inr: "(case v of PBool b \<Rightarrow> f b | _ \<Rightarrow> Inl e) = Inr y \<longleftrightarrow> (\<exists>b. v = PBool b \<and> f b = Inr y)"
  by (cases v) auto

lemma validate_dispatch_Inr:
  assumes "validate_dispatch data workspaces writers = Inr d"
  obtains read_only where "field_names data \<subseteq> set DISPATCH_FIELDS" "\<exists>a \<in> set PUBLIC_AGENT_IDS. dict_get data ''agent'' = PStr a"
    "\<exists>w \<in> set workspaces. dict_get data ''workspace_id'' = PStr w" "\<not> read_only \<longrightarrow> the_str (dict_get data ''workspace_id'') \<in> set writers"
    "d = dict_set ''read_only'' (PBool read_only) (dict_set ''allow_push'' (PBool False) (dict_set ''allow_commit'' (PBool (\<not> read_only)) data))"
proof -
  from assms obtain known inside q read_only where
    "field_names data \<subseteq> set DISPATCH_FIELDS" "in_names (dict_get data ''agent'') PUBLIC_AGENT_IDS = Inr known" known
    "in_names (dict_get data ''workspace_id'') workspaces = Inr inside" inside "\<not> read_only \<longrightarrow> the_str (dict_get data ''workspace_id'') \<in> set writers"
    "d = dict_set ''read_only'' (PBool read_only) (dict_set ''allow_push'' (PBool False) (dict_set ''allow_commit'' (PBool (\<not> read_only)) data))"
    unfolding validate_dispatch_def guard_Inr_iff rbind_Inr_iff PBool_case_Inr by blast
  with that [of read_only] in_names_Inr show thesis by blast
qed

lemma validate_dispatch_scope:
  assumes "validate_dispatch data workspaces writers = Inr d"
  shows "dispatch_in_scope workspaces writers d \<and> dict_get d ''agent'' = dict_get data ''agent''"
proof -
  from assms obtain read_only where a: "field_names data \<subseteq> set DISPATCH_FIELDS" "\<exists>a \<in> set PUBLIC_AGENT_IDS. dict_get data ''agent'' = PStr a"
    "\<exists>w \<in> set workspaces. dict_get data ''workspace_id'' = PStr w" "\<not> read_only \<longrightarrow> the_str (dict_get data ''workspace_id'') \<in> set writers"
    and d: "d = dict_set ''read_only'' (PBool read_only) (dict_set ''allow_push'' (PBool False) (dict_set ''allow_commit'' (PBool (\<not> read_only)) data))"
    by (rule validate_dispatch_Inr)
  have "field_names d \<subseteq> set DISPATCH_FIELDS" using a(1) unfolding d by (simp add: field_names_dict_set DISPATCH_FIELDS_def)
  with a show ?thesis unfolding dispatch_in_scope_def d by (auto simp: str_and_def)
qed

lemma reconcile_trace: "reconcile status jobs rows = (r, rows') \<Longrightarrow> relay_trace \<lparr>sys_rows = rows, sys_flying = fl\<rparr> [] \<lparr>sys_rows = rows', sys_flying = fl\<rparr>"
proof (induction jobs arbitrary: rows)
  case (Cons job jobs)
  have step: "relay_trace \<lparr>sys_rows = rows, sys_flying = fl\<rparr> [] \<lparr>sys_rows = mark_terminal job rows, sys_flying = fl\<rparr>"
    using relay_trace_one [OF ended [of "\<lparr>sys_rows = rows, sys_flying = fl\<rparr>" job]] by simp
  show ?case
  proof (cases "status job")
    case (Inl e)
    then show ?thesis using Cons.prems Cons.IH by (cases e) (simp_all add: trace_none)
  next
    case (Inr d)
    with Cons.prems have "reconcile status jobs (if is_terminal d then mark_terminal job rows else rows) = (r, rows')" by simp
    from Cons.IH [OF this] relay_trace_append [OF step] show ?thesis by (cases "is_terminal d") auto
  qed
qed (simp add: trace_none)

lemma ended_trace: "relay_trace \<lparr>sys_rows = rows, sys_flying = fl\<rparr> [] \<lparr>sys_rows = mark_terminal job rows, sys_flying = fl\<rparr>"
  using relay_trace_one [OF ended [of "\<lparr>sys_rows = rows, sys_flying = fl\<rparr>" job]] by simp

lemma dispatch_branch_facts:
  assumes "dispatch_branch c v arguments rows = (r, rows', launched)"
  shows "\<exists>evs. relay_trace \<lparr>sys_rows = rows, sys_flying = []\<rparr> evs \<lparr>sys_rows = rows', sys_flying = []\<rparr> \<and> length launched \<le> length evs \<and> length evs \<le> 1
    \<and> (\<forall>d \<in> set launched. dispatch_in_scope (rc_scope c) (rc_writers c) d \<and> ''request_id'' \<notin> field_names d \<and> re_check v d = Inr ()
         \<and> (\<exists>names. require_production_egress (rc_runtime c) None = Inr names \<and> the_str (dict_get d ''agent'') \<in> set names))"
proof (cases "launched = [] \<and> rows' = rows")
  case True
  then show ?thesis by (intro exI [of _ "[]"]) (simp add: trace_none)
next
  case False
  with assms obtain names q data0 data where g: "require_production_egress (rc_runtime c) (Some (get_default arguments ''agent'' (PStr []))) = Inr names"
    "validate_dispatch arguments (rc_scope c) (rc_writers c) = Inr data0" "data = dict_pop ''request_id'' data0"
    "rbind (require_production_egress (rc_runtime c) (Some (get_default arguments ''agent'' (PStr [])))) (\<lambda>_.
           rbind (validate_dispatch arguments (rc_scope c) (rc_writers c)) (\<lambda>data.
           rbind (validate_request_id (dict_get data ''request_id'')) (\<lambda>q. Inr (q, dict_pop ''request_id'' data)))) = Inr (q, data)"
    by (auto simp: dispatch_branch_def split: sum.splits)
  define ws agent where "ws = the_str (dict_get data ''workspace_id'')" and "agent = the_str (dict_get data ''agent'')"
  obtain r1 rows1 where rec: "reconcile (re_status v) (active_jobs rows) rows = (r1, rows1)" by fastforce
  note before = reconcile_trace [OF rec, of "[]"]
  consider (old) "rows' = rows1" "launched = []"
    | (new) rows2 outcome rr where "reserve q ws agent (Some 3) rows1 = Inr (None, rows2)" "finish_launch q ws agent outcome rows2 = (rr, rows')"
        "launched = [] \<or> (launched = [data] \<and> re_check v data = Inr ())"
  proof -
    have same: "reserve q ws agent (Some 3) rows1 = Inr (Some prior, rows2) \<Longrightarrow> rows2 = rows1" for prior rows2
      by (auto simp: reserve_def split: option.splits if_splits)
    from assms rec same show thesis
      unfolding dispatch_branch_def g(4) Let_def ws_def [symmetric] agent_def [symmetric] sum.case prod.case
      by (auto split: sum.splits option.splits prod.splits intro: old new)
  qed
  then show ?thesis
  proof cases
    case old
    with before show ?thesis by (intro exI [of _ "[]"]) simp
  next
    case new
    have "relay_trace \<lparr>sys_rows = rows1, sys_flying = []\<rparr> [q] \<lparr>sys_rows = rows2, sys_flying = [(q, ws, agent)]\<rparr>"
      using relay_trace_one [OF reserved [of q ws agent "\<lparr>sys_rows = rows1, sys_flying = []\<rparr>"]] new(1) by simp
    moreover have "relay_trace \<lparr>sys_rows = rows2, sys_flying = [(q, ws, agent)]\<rparr> [] \<lparr>sys_rows = rows', sys_flying = []\<rparr>"
      using relay_trace_one [OF finished [of q ws agent "\<lparr>sys_rows = rows2, sys_flying = [(q, ws, agent)]\<rparr>" outcome]] new(2) by simp
    ultimately have t: "relay_trace \<lparr>sys_rows = rows, sys_flying = []\<rparr> [q] \<lparr>sys_rows = rows', sys_flying = []\<rparr>"
      using relay_trace_append [OF before] relay_trace_append by fastforce
    have sc: "dispatch_in_scope (rc_scope c) (rc_writers c) data" "''request_id'' \<notin> field_names data"
      using conjunct1 [OF validate_dispatch_scope [OF g(2)]] unfolding g(3)
      by (auto simp: dispatch_in_scope_def dict_get_dict_pop field_names_dict_pop)
    have "dict_get data ''agent'' = get_default arguments ''agent'' (PStr [])"
    proof -
      have "dict_get data ''agent'' = dict_get arguments ''agent''" using validate_dispatch_scope [OF g(2)] unfolding g(3) dict_get_dict_pop
        by simp
      moreover have "dict_get data ''agent'' \<noteq> PNone" using sc(1) by (auto simp: dispatch_in_scope_def str_and_def)
      ultimately show ?thesis by (auto simp: dict_get_def get_default_def split: option.splits)
    qed
    moreover have "str_and (\<lambda>a. True) (dict_get data ''agent'')" using sc(1) by (simp add: dispatch_in_scope_def str_and_def)
    ultimately have "require_production_egress (rc_runtime c) None = Inr names \<and> the_str (dict_get data ''agent'') \<in> set names"
      using g(1) by (force simp: require_production_egress_def str_and_def is_pstr_iff image_iff split: pyval.splits if_splits)
    with t new(3) sc show ?thesis by (intro exI [of _ "[q]"]) auto
  qed
qed

text \<open>
  C36.  The receiving gateway stays inside the operator's relay scope: whatever it is sent, it hands at most one task to the
  worker tool, for an admitted named agent, in a workspace of the relay scope, never with push, with edits and commits
  only where the write scope has the workspace, and only after the operator's action check; and what it does to the
  ledger is a run of the transactions above in which that task is a reserved request.
\<close>
theorem relayed_dispatch_confined:
  assumes "internal_delegation c v payload rows = (reply, rows', launched)"
  shows "\<exists>evs. relay_trace \<lparr>sys_rows = rows, sys_flying = []\<rparr> evs \<lparr>sys_rows = rows', sys_flying = []\<rparr> \<and> length launched \<le> length evs \<and> length evs \<le> 1
    \<and> (\<forall>d \<in> set launched. dispatch_in_scope (rc_scope c) (rc_writers c) d \<and> ''request_id'' \<notin> field_names d \<and> re_check v d = Inr ()
         \<and> (\<exists>names. require_production_egress (rc_runtime c) None = Inr names \<and> the_str (dict_get d ''agent'') \<in> set names))"
proof -
  have quiet: ?thesis if "rows' = rows" "launched = []"
    using that by (intro exI [of _ "[]"]) (simp add: trace_none)
  have job: ?thesis if "job_branch c v operation arguments rows = (r, rows')" "launched = []" for operation arguments r
  proof -
    from that(1) obtain job where "rows' = rows \<or> rows' = mark_terminal job rows"
      by (auto simp: job_branch_def split: sum.splits prod.splits if_splits)
    with ended_trace [of rows "[]" job] that(2) quiet show ?thesis by (intro exI [of _ "[]"]) (auto simp: trace_none)
  qed
  have handled: ?thesis if "handled c v operation arguments rows = (r, rows', launched)" for operation arguments r
    using that quiet job dispatch_branch_facts [of c v arguments rows]
    by (auto simp: handled_def Let_def split: if_splits prod.splits)
  from assms quiet handled show ?thesis
    by (auto simp: internal_delegation_def Let_def split: sum.splits prod.splits)
qed

section \<open>An instance\<close>

definition demo_request_id :: string where
  "demo_request_id = replicate 32 (CHR ''a'')"

definition demo_job_ref :: string where
  "demo_job_ref = ''job_'' @ replicate 24 (CHR ''b'')"

definition demo_relay_config :: relay_config where
  "demo_relay_config = \<lparr>rc_scope = [''w''], rc_writers = [''w''], rc_registry = [],
     rc_runtime = [(''network_enabled'', PBool True), (''egress_policy'', PStr ''provider_origin''),
       (''production_relay_agents'', PList [PStr ''codex_impl'']), (''public_client_policy_required'', PBool True), (''job_resources'', PDict [])],
     rc_clone_scopes = None\<rparr>"

definition demo_relay_env :: relay_env where
  "demo_relay_env = \<lparr>re_status = (\<lambda>_. Inl KeyError), re_check = (\<lambda>_. Inr ()), re_launch = (\<lambda>_. Inr [(''job_id'', PStr demo_job_ref)]),
     re_tool = (\<lambda>_ _. Inr [(''status'', PStr ''running'')]), re_agents = Inr [], re_running = []\<rparr>"

definition demo_relay_args :: pydict where
  "demo_relay_args = [(''agent'', PStr ''codex_impl''), (''task'', PStr ''t''), (''workspace_id'', PStr ''w''), (''read_only'', PBool False)]"

definition demo_relay_call :: pyval where
  "demo_relay_call = PDict [(''operation'', PStr ''dispatch_agent''), (''args'', PDict (demo_relay_args @ [(''request_id'', PStr demo_request_id)]))]"

definition demo_relay_rows :: relay_rows where
  "demo_relay_rows = [\<lparr>rr_request = demo_request_id, rr_remote = Some demo_job_ref, rr_workspace = ''w'', rr_agent = ''codex_impl'', rr_active = True\<rparr>]"

lemma demo_relayed:
  "internal_delegation demo_relay_config demo_relay_env (Inr demo_relay_call) [] =
     (Reply (PDict [(''job_id'', PStr demo_job_ref)]), demo_relay_rows, [demo_relay_args @ [(''allow_commit'', PBool True), (''allow_push'', PBool False)]])"
  by code_simp

text \<open>The same request again finds its job and launches nothing.\<close>

lemma demo_relayed_again:
  "snd (internal_delegation demo_relay_config demo_relay_env (Inr demo_relay_call) demo_relay_rows) = (demo_relay_rows, [])"
  by code_simp

theorem relayed_dispatch_confined_witness:
  "\<exists>d. dispatch_in_scope (rc_scope demo_relay_config) (rc_writers demo_relay_config) d \<and> re_check demo_relay_env d = Inr ()"
  using relayed_dispatch_confined [OF demo_relayed] by auto

theorem relay_launches_once_witness:
  "\<exists>s. relay_trace \<lparr>sys_rows = [], sys_flying = []\<rparr> [demo_request_id] s \<and> active_count (sys_rows s) \<le> 3 \<and> sys_rows s = demo_relay_rows"
proof -
  let ?new = "[\<lparr>rr_request = demo_request_id, rr_remote = None, rr_workspace = ''w'', rr_agent = ''codex_impl'', rr_active = True\<rparr>]"
  have a: "reserve demo_request_id ''w'' ''codex_impl'' (Some 3) [] = Inr (None, ?new)" by code_simp
  have b: "finish_launch demo_request_id ''w'' ''codex_impl'' (Inr [(''job_id'', PStr demo_job_ref)]) ?new = (Inr [(''job_id'', PStr demo_job_ref)], demo_relay_rows)"
    by code_simp
  let ?mid = "\<lparr>sys_rows = ?new, sys_flying = [(demo_request_id, ''w'', ''codex_impl'')]\<rparr>"
  have "relay_step \<lparr>sys_rows = [], sys_flying = []\<rparr> [demo_request_id] ?mid"
    using reserved [of demo_request_id "''w''" "''codex_impl''" "\<lparr>sys_rows = [], sys_flying = []\<rparr>" ?new] a by simp
  moreover have "relay_step ?mid [] \<lparr>sys_rows = demo_relay_rows, sys_flying = []\<rparr>"
    using finished [of demo_request_id "''w''" "''codex_impl''" ?mid] b by simp
  ultimately have t: "relay_trace \<lparr>sys_rows = [], sys_flying = []\<rparr> [demo_request_id] \<lparr>sys_rows = demo_relay_rows, sys_flying = []\<rparr>"
    using trace_step [OF _ trace_step [OF _ trace_none]] by fastforce
  from relay_launches_once [OF t] t show ?thesis by auto
qed

end
