(* ===== verification/Relay_Client.thy ===== *)
theory Relay_Client
  imports Relay_Ledger
begin

text \<open>
  \<open>ProductionDelegationClient.call\<close> of \<open>agents/production_relay.py\<close>: the public gateway's side of the relay, with its own
  ledger.  The loopback HTTP exchange is a function argument (a connection that fails is \<open>NoAnswer\<close>); in the last
  sections it is the receiving handler behind a connection that loses requests and answers.  Calls run one at a time:
  nobody else writes this gateway's ledger during a call.
\<close>

section \<open>Exchanges\<close>

text \<open>An answer: its status, the length of its body, and the body as \<open>json.loads\<close> reads it.\<close>

datatype http_answer = NoAnswer | Answer int nat "pyval result"

type_synonym 'n transport = "string \<Rightarrow> pydict \<Rightarrow> 'n \<Rightarrow> http_answer \<times> 'n"

record 'n gateway =
  gt_rows :: relay_rows
  gt_net :: 'n
  gt_sent :: "(string \<times> pydict) list"

record relay_scope =
  rs_paths :: "(string \<times> string) list"
  rs_writers :: "(string \<times> string) list"

definition MAX_RELAY_REQUEST :: nat where
  "MAX_RELAY_REQUEST = 32768"

definition MAX_RELAY_RESPONSE :: nat where
  "MAX_RELAY_RESPONSE = 524288"

text \<open>
  One attempt.  \<open>Broken\<close> errors are caught by the retry: connection errors, other statuses, and a 403, which the code
  raises as a \<open>PermissionError\<close>, a subclass of \<open>OSError\<close>.  The rest leaves the call.
\<close>

datatype attempt = Got pyval | Broken py_error | Fatal py_error

definition read_answer :: "http_answer \<Rightarrow> attempt" where
  "read_answer a = (case a of
       NoAnswer \<Rightarrow> Broken OSError
     | Answer status len body \<Rightarrow>
         if MAX_RELAY_RESPONSE < len then Fatal ValueError
         else if status \<noteq> 200 then Broken (if status = 403 then PermissionError else OSError)
         else (case body of Inl e \<Rightarrow> Fatal e
           | Inr v \<Rightarrow> (case v of PList _ \<Rightarrow> Got v | PDict _ \<Rightarrow> Got v | _ \<Rightarrow> Fatal ValueError)))"

fun attempts :: "'n transport \<Rightarrow> nat \<Rightarrow> string \<Rightarrow> pydict \<Rightarrow> 'n gateway \<Rightarrow> attempt \<times> 'n gateway" where
  "attempts http 0 operation args g = (Broken OSError, g)"
| "attempts http (Suc n) operation args g =
     (case http operation args (gt_net g) of (a, net) \<Rightarrow>
        let g' = g\<lparr>gt_net := net, gt_sent := gt_sent g @ [(operation, args)]\<rparr> in
        (case read_answer a of
           Broken e \<Rightarrow> if n = 0 then (Broken e, g') else attempts http n operation args g'
         | r \<Rightarrow> (r, g')))"

text \<open>The request is encoded once; \<open>None\<close> is a dispatch whose delivery stays uncertain.\<close>

definition post :: "'n transport \<Rightarrow> string \<Rightarrow> pydict \<Rightarrow> 'n gateway \<Rightarrow> pyval option result \<times> 'n gateway" where
  "post http operation args g =
     (if MAX_RELAY_REQUEST < length (dump (PDict [(''operation'', PStr operation), (''args'', PDict args)])) then (Inl PermissionError, g)
      else (case attempts http (if operation = ''dispatch_agent'' then 2 else 1) operation args g of
          (Got v, g') \<Rightarrow> (Inr (Some v), g')
        | (Fatal e, g') \<Rightarrow> (Inl e, g')
        | (Broken e, g') \<Rightarrow>
            if operation \<in> {''git_pull'', ''job_cancel''} \<and> e = PermissionError then (Inl PermissionError, g')
            else if operation = ''dispatch_agent'' then (Inr None, g')
            else (Inl OSError, g')))"

section \<open>Calls\<close>

definition public_ref :: "string \<Rightarrow> string" where
  "public_ref q = ''rjob_'' @ q"

definition owned_request :: "pyval \<Rightarrow> relay_rows \<Rightarrow> string option" where
  "owned_request v rows = (case v of
       PStr s \<Rightarrow> if starts_with ''rjob_'' s \<and> class_match is_hex 32 32 (drop 5 s) \<and> row_of_request (drop 5 s) rows \<noteq> None
         then Some (drop 5 s) else None
     | _ \<Rightarrow> None)"

definition owns :: "pyval \<Rightarrow> relay_rows \<Rightarrow> bool" where
  "owns v rows \<longleftrightarrow> owned_request v rows \<noteq> None"

text \<open>A call that needs nothing afterwards: its document, or an error.\<close>

definition plain_post :: "'n transport \<Rightarrow> string \<Rightarrow> pydict \<Rightarrow> 'n gateway \<Rightarrow> pyval result \<times> 'n gateway" where
  "plain_post http operation args g = (case post http operation args g of
       (Inl e, g') \<Rightarrow> (Inl e, g') | (Inr None, g') \<Rightarrow> (Inl OSError, g') | (Inr (Some v), g') \<Rightarrow> (Inr v, g'))"

definition call_info :: "'n transport \<Rightarrow> relay_scope \<Rightarrow> pydict \<Rightarrow> 'n gateway \<Rightarrow> pyval result \<times> 'n gateway" where
  "call_info http sc data g =
     (if field_names data \<noteq> {''workspace_id''} then (Inl PermissionError, g)
      else case in_names (dict_get data ''workspace_id'') (map fst (rs_paths sc)) of
        Inl e \<Rightarrow> (Inl e, g)
      | Inr known \<Rightarrow> if \<not> known then (Inl PermissionError, g) else plain_post http ''workspace_info'' data g)"

definition call_lookup :: "'n transport \<Rightarrow> relay_scope \<Rightarrow> pydict \<Rightarrow> 'n gateway \<Rightarrow> pyval result \<times> 'n gateway" where
  "call_lookup http sc data g =
     (if field_names data \<noteq> {''request_id''} then (Inl PermissionError, g)
      else case get_request (dict_get data ''request_id'') (gt_rows g) of
        Inl e \<Rightarrow> (Inl e, g)
      | Inr owned \<Rightarrow> if (case owned of None \<Rightarrow> True | Some r \<Rightarrow> rr_workspace r \<notin> fst ` set (rs_paths sc)) then (Inl PermissionError, g)
          else plain_post http ''lookup_dispatch'' data g)"

text \<open>Both gateways must bind the workspace to the same root, and the receiver must confine its workers.\<close>

definition info_agrees :: "relay_scope \<Rightarrow> pydict \<Rightarrow> pyval \<Rightarrow> bool" where
  "info_agrees sc data remote \<longleftrightarrow> (case remote of
       PDict r \<Rightarrow> dict_get r ''workspace_id'' = dict_get data ''workspace_id'' \<and> truthy (dict_get r ''agent_dispatch'')
         \<and> (case map_of (rs_paths sc) (the_str (dict_get data ''workspace_id'')) of None \<Rightarrow> False | Some p \<Rightarrow> dict_get r ''path'' = PStr p)
         \<and> dict_get r ''security_profile'' = PStr RECEIVING_SECURITY_PROFILE
         \<and> (dict_get data ''read_only'' \<noteq> PBool True \<longrightarrow> dict_get r ''writable_transactions'' = PBool True)
     | _ \<Rightarrow> False)"

definition uncertain :: "string \<Rightarrow> pydict" where
  "uncertain public = [(''job_id'', PStr public), (''dispatch_id'', PStr public), (''status'', PStr ''delivery_uncertain''),
     (''message'', PStr ''Transport failed; check status before resubmitting'')]"

text \<open>After a dispatch was answered: the job is recorded and named by its public reference.\<close>

definition confirmed :: "string \<Rightarrow> pydict \<Rightarrow> pyval \<Rightarrow> relay_rows \<Rightarrow> (pydict \<times> relay_rows) result" where
  "confirmed q data v rows = (case v of
       PDict d \<Rightarrow> (case dict_get d ''job_id'' of
           PStr job \<Rightarrow> if \<not> job_ref job then Inl ValueError
             else rbind (relay_register q job (the_str (dict_get data ''workspace_id'')) (the_str (dict_get data ''agent'')) rows) (\<lambda>rows'. Inr (d, rows'))
         | _ \<Rightarrow> Inl ValueError)
     | _ \<Rightarrow> Inl AttributeError)"

definition accept_dispatch :: "string \<Rightarrow> pydict \<Rightarrow> pyval \<Rightarrow> 'n gateway \<Rightarrow> pyval result \<times> 'n gateway" where
  "accept_dispatch q data v g = (case confirmed q data v (gt_rows g) of
       Inl e \<Rightarrow> (Inl e, g)
     | Inr (d, rows) \<Rightarrow> (Inr (PDict (dict_set ''dispatch_id'' (PStr (public_ref q)) (dict_set ''job_id'' (PStr (public_ref q)) d))), g\<lparr>gt_rows := rows\<rparr>))"

text \<open>\<open>q\<close> is the fresh \<open>uuid4().hex\<close>.\<close>

definition call_dispatch :: "'n transport \<Rightarrow> relay_scope \<Rightarrow> string \<Rightarrow> pydict \<Rightarrow> 'n gateway \<Rightarrow> pyval result \<times> 'n gateway" where
  "call_dispatch http sc q data0 g =
     (case validate_dispatch data0 (map fst (rs_paths sc)) (map fst (rs_writers sc)) of
        Inl e \<Rightarrow> (Inl e, g)
      | Inr data \<Rightarrow> (case call_info http sc [(''workspace_id'', dict_get data ''workspace_id'')] g of
          (Inl e, g1) \<Rightarrow> (Inl e, g1)
        | (Inr remote, g1) \<Rightarrow>
            if \<not> info_agrees sc data remote then (Inl PermissionError, g1)
            else let args = dict_set ''request_id'' (PStr q) data in
            (case reserve q (the_str (dict_get data ''workspace_id'')) (the_str (dict_get data ''agent'')) None (gt_rows g1) of
               Inl e \<Rightarrow> (Inl e, g1)
             | Inr (_, rows) \<Rightarrow> (case post http ''dispatch_agent'' args (g1\<lparr>gt_rows := rows\<rparr>) of
                 (Inl e, g2) \<Rightarrow> (Inl e, g2)
               | (Inr None, g2) \<Rightarrow> (Inr (PDict (uncertain (public_ref q))), g2)
               | (Inr (Some v), g2) \<Rightarrow> accept_dispatch q args v g2))))"

definition call_pull :: "'n transport \<Rightarrow> relay_scope \<Rightarrow> pydict \<Rightarrow> 'n gateway \<Rightarrow> pyval result \<times> 'n gateway" where
  "call_pull http sc data g = (case owned_request (dict_get data ''job_id'') (gt_rows g) of
       None \<Rightarrow> (Inl PermissionError, g)
     | Some q \<Rightarrow> (case row_of_request q (gt_rows g) of
         None \<Rightarrow> (Inl PermissionError, g)
       | Some r \<Rightarrow> (case rr_remote r of
           None \<Rightarrow> (Inl PermissionError, g)
         | Some job \<Rightarrow>
             if dict_get data ''workspace_id'' \<noteq> PStr (rr_workspace r) \<or> rr_workspace r \<notin> fst ` set (rs_writers sc) then (Inl PermissionError, g)
             else let args = dict_set ''job_id'' (PStr job) data in
               (case validate_pull_request args of Inl e \<Rightarrow> (Inl e, g) | Inr _ \<Rightarrow> plain_post http ''git_pull'' args g))))"

text \<open>\<open>min(data.get("max_bytes", 65536), 32768)\<close>; a boolean stays and is refused by the check that follows.\<close>

definition capped_page :: "string \<Rightarrow> pydict \<Rightarrow> pydict result" where
  "capped_page operation data =
     (if operation \<notin> {''job_output'', ''job_result''} then Inr data
      else (case get_default data ''max_bytes'' (PInt 65536) of
          PInt n \<Rightarrow> Inr (dict_set ''max_bytes'' (PInt (min n 32768)) data)
        | PBool b \<Rightarrow> Inr (dict_set ''max_bytes'' (PBool b) data)
        | _ \<Rightarrow> Inl TypeError))"

definition follow_job :: "'n transport \<Rightarrow> string \<Rightarrow> string \<Rightarrow> string \<Rightarrow> pydict \<Rightarrow> 'n gateway \<Rightarrow> pyval result \<times> 'n gateway" where
  "follow_job http operation public job data g =
     (case rbind (capped_page operation (dict_set ''job_id'' (PStr job) data)) (\<lambda>d. rbind (validate_job_request d) (\<lambda>_. Inr d)) of
        Inl e \<Rightarrow> (Inl e, g)
      | Inr args \<Rightarrow> (case plain_post http operation args g of
          (Inr (PDict d), g') \<Rightarrow> (Inr (PDict (dict_set ''job_id'' (PStr public) d)), g')
        | (Inr _, g') \<Rightarrow> (Inl TypeError, g')
        | (Inl e, g') \<Rightarrow> (Inl e, g')))"

definition no_job_yet :: "string \<Rightarrow> pydict" where
  "no_job_yet public = [(''job_id'', PStr public), (''status'', PStr ''delivery_uncertain''),
     (''message'', PStr ''No confirmed remote job yet; retry status'')]"

text \<open>What a job call without a known remote job learns from the receiver.\<close>

definition recover_job :: "'n transport \<Rightarrow> string \<Rightarrow> string \<Rightarrow> string \<Rightarrow> relay_row \<Rightarrow> pydict \<Rightarrow> pyval \<Rightarrow> 'n gateway \<Rightarrow> pyval result \<times> 'n gateway" where
  "recover_job http operation public q row data recovery g =
     (let r = (case recovery of PDict d \<Rightarrow> d | _ \<Rightarrow> []); job = dict_get r ''job_id'' in
      if dict_get r ''status'' = PStr ''not_launched'' then
        (if field_names r \<noteq> {''job_id'', ''status'', ''workspace_id'', ''agent''} \<or> job \<noteq> PNone
            \<or> (dict_get r ''workspace_id'', dict_get r ''agent'') \<noteq> (PStr (rr_workspace row), PStr (rr_agent row)) then (Inl PermissionError, g)
         else (rbind (no_launch_result public row data) (\<lambda>d. Inr (PDict d)), g\<lparr>gt_rows := mark_no_launch q (gt_rows g)\<rparr>))
      else if \<not> truthy job then (Inr (PDict (no_job_yet public)), g)
      else (case job of
          PStr j \<Rightarrow>
            if \<not> job_ref j then (Inr (PDict (no_job_yet public)), g)
            else (case relay_register q j (rr_workspace row) (rr_agent row) (gt_rows g) of
                Inl e \<Rightarrow> (Inl e, g)
              | Inr rows \<Rightarrow> follow_job http operation public j data (g\<lparr>gt_rows := rows\<rparr>))
        | _ \<Rightarrow> (Inl TypeError, g)))"

definition call_job :: "'n transport \<Rightarrow> relay_scope \<Rightarrow> string \<Rightarrow> pydict \<Rightarrow> 'n gateway \<Rightarrow> pyval result \<times> 'n gateway" where
  "call_job http sc operation data g =
     (if operation = ''job_cancel'' \<and> field_names data \<noteq> {''job_id''} then (Inl PermissionError, g)
      else (case owned_request (dict_get data ''job_id'') (gt_rows g) of
          None \<Rightarrow> (Inl PermissionError, g)
        | Some q \<Rightarrow> (case row_of_request q (gt_rows g) of
            None \<Rightarrow> (Inl PermissionError, g)
          | Some row \<Rightarrow>
              if rr_workspace row \<notin> fst ` set (rs_paths sc) then (Inl PermissionError, g)
              else (case rr_remote row of
                  Some job \<Rightarrow> follow_job http operation (public_ref q) job data g
                | None \<Rightarrow>
                    if \<not> rr_active row then (rbind (no_launch_result (public_ref q) row data) (\<lambda>d. Inr (PDict d)), g)
                    else (case call_lookup http sc [(''request_id'', PStr q)] g of
                        (Inl e, g1) \<Rightarrow> (Inl e, g1)
                      | (Inr recovery, g1) \<Rightarrow> recover_job http operation (public_ref q) q row data recovery g1)))))"

definition relay_call :: "'n transport \<Rightarrow> relay_scope \<Rightarrow> string \<Rightarrow> string \<Rightarrow> pydict \<Rightarrow> 'n gateway \<Rightarrow> pyval result \<times> 'n gateway" where
  "relay_call http sc q operation data g =
     (if operation \<notin> set ALLOWED_OPS then (Inl PermissionError, g)
      else if operation = ''dispatch_agent'' then call_dispatch http sc q data g
      else if operation = ''lookup_dispatch'' then call_lookup http sc data g
      else if operation = ''workspace_info'' then call_info http sc data g
      else if operation = ''git_pull'' then call_pull http sc data g
      else if operation = ''list_agents'' then plain_post http operation data g
      else call_job http sc operation data g)"

section \<open>What a call sends\<close>

lemma attempts_sent:
  "attempts http n operation args g = (a, g') \<Longrightarrow> gt_rows g' = gt_rows g \<and> (\<exists>k \<le> n. gt_sent g' = gt_sent g @ replicate k (operation, args))"
proof (induction n arbitrary: g)
  case (Suc n)
  obtain ans net where h: "http operation args (gt_net g) = (ans, net)" by fastforce
  let ?g = "g\<lparr>gt_net := net, gt_sent := gt_sent g @ [(operation, args)]\<rparr>"
  have one: "gt_sent ?g = gt_sent g @ replicate 1 (operation, args)" by simp
  show ?case
  proof (cases "g' = ?g")
    case True
    with one show ?thesis by (intro conjI exI [of _ "1::nat"]) simp_all
  next
    case False
    with Suc.prems h have "attempts http n operation args ?g = (a, g')" by (auto simp: Let_def split: attempt.splits if_splits)
    from Suc.IH [OF this] obtain k where "gt_rows g' = gt_rows g" "k \<le> n" "gt_sent g' = gt_sent g @ (operation, args) # replicate k (operation, args)"
      by auto
    then show ?thesis by (intro conjI exI [of _ "Suc k"]) simp_all
  qed
qed auto

lemma post_sent:
  assumes "post http operation args g = (r, g')"
  shows "gt_rows g' = gt_rows g \<and> (\<exists>k \<le> 2. gt_sent g' = gt_sent g @ replicate k (operation, args) \<and> (operation \<noteq> ''dispatch_agent'' \<longrightarrow> k \<le> 1))"
proof (cases "g' = g")
  case True
  then show ?thesis by (intro conjI exI [of _ "0::nat"]) simp_all
next
  case False
  with assms obtain a where "attempts http (if operation = ''dispatch_agent'' then 2 else 1) operation args g = (a, g')"
    by (auto simp: post_def split: if_splits prod.splits attempt.splits)
  from attempts_sent [OF this] show ?thesis by (auto split: if_splits)
qed

lemma plain_post_sent:
  assumes "plain_post http operation args g = (r, g')" and "operation \<noteq> ''dispatch_agent''"
  shows "gt_rows g' = gt_rows g \<and> (\<exists>k \<le> 1. gt_sent g' = gt_sent g @ replicate k (operation, args))"
  using assms post_sent [of http operation args g] by (auto simp: plain_post_def split: prod.splits sum.splits option.splits)

text \<open>The messages a gateway may send: what each names is in its ledger and scope.\<close>

definition names_job :: "string set \<Rightarrow> relay_rows \<Rightarrow> pydict \<Rightarrow> bool" where
  "names_job workspaces rows args \<longleftrightarrow> (\<exists>r \<in> set rows. \<exists>job. rr_remote r = Some job \<and> dict_get args ''job_id'' = PStr job \<and> rr_workspace r \<in> workspaces)"

definition relay_permitted :: "relay_scope \<Rightarrow> string \<Rightarrow> relay_rows \<Rightarrow> string \<times> pydict \<Rightarrow> bool" where
  "relay_permitted sc q rows m \<longleftrightarrow> (case m of (operation, args) \<Rightarrow>
     operation = ''list_agents''
     \<or> (operation = ''workspace_info'' \<and> str_and (\<lambda>w. w \<in> fst ` set (rs_paths sc)) (dict_get args ''workspace_id''))
     \<or> (operation = ''lookup_dispatch'' \<and> (\<exists>r \<in> set rows. dict_get args ''request_id'' = PStr (rr_request r) \<and> rr_workspace r \<in> fst ` set (rs_paths sc)))
     \<or> (operation = ''dispatch_agent'' \<and> dispatch_in_scope (map fst (rs_paths sc)) (map fst (rs_writers sc)) args \<and> dict_get args ''request_id'' = PStr q)
     \<or> (operation = ''git_pull'' \<and> names_job (fst ` set (rs_writers sc)) rows args)
     \<or> (operation \<in> {''job_status'', ''job_output'', ''job_result'', ''job_cancel''} \<and> names_job (fst ` set (rs_paths sc)) rows args))"

definition sends :: "relay_scope \<Rightarrow> string \<Rightarrow> nat \<Rightarrow> 'n gateway \<Rightarrow> 'n gateway \<Rightarrow> bool" where
  "sends sc q n g g' \<longleftrightarrow> (\<exists>ms. gt_sent g' = gt_sent g @ ms \<and> length ms \<le> n \<and> (\<forall>m \<in> set ms. relay_permitted sc q (gt_rows g') m))"

lemma sends_none: "gt_sent g' = gt_sent g \<Longrightarrow> sends sc q n g g'"
  by (simp add: sends_def)

lemma sends_plain:
  assumes "plain_post http operation args g = (r, g')" and "operation \<noteq> ''dispatch_agent''" and "relay_permitted sc q (gt_rows g) (operation, args)"
  shows "sends sc q 1 g g' \<and> gt_rows g' = gt_rows g"
  using plain_post_sent [OF assms(1,2)] assms(3) by (auto simp: sends_def)

text \<open>Rows survive: what a later state adds keeps the permission of what was sent before.\<close>

definition keeps_rows :: "relay_rows \<Rightarrow> relay_rows \<Rightarrow> bool" where
  "keeps_rows rows rows' \<longleftrightarrow> (\<forall>r \<in> set rows. \<exists>r' \<in> set rows'. rr_request r' = rr_request r \<and> rr_workspace r' = rr_workspace r
     \<and> (rr_remote r \<noteq> None \<longrightarrow> rr_remote r' = rr_remote r))"

lemma names_job_kept: "names_job ws rows args \<Longrightarrow> keeps_rows rows rows' \<Longrightarrow> names_job ws rows' args"
  unfolding names_job_def keeps_rows_def by (metis option.distinct(1))

lemma named_request_kept:
  "\<exists>r \<in> set rows. v = PStr (rr_request r) \<and> rr_workspace r \<in> ws \<Longrightarrow> keeps_rows rows rows'
     \<Longrightarrow> \<exists>r \<in> set rows'. v = PStr (rr_request r) \<and> rr_workspace r \<in> ws"
  unfolding keeps_rows_def by metis

lemma relay_permitted_kept:
  assumes "relay_permitted sc q rows m" and "keeps_rows rows rows'"
  shows "relay_permitted sc q rows' m"
proof (cases m)
  case (Pair operation args)
  note job = names_job_kept [OF _ assms(2), of _ args]
  note request = named_request_kept [OF _ assms(2), of "dict_get args ''request_id''" "fst ` set (rs_paths sc)"]
  from assms(1) show ?thesis unfolding relay_permitted_def Pair prod.case
    by (elim disjE) (simp_all add: job request)
qed

lemma sends_trans:
  "sends sc q a g g1 \<Longrightarrow> keeps_rows (gt_rows g1) (gt_rows g2) \<Longrightarrow> sends sc q b g1 g2 \<Longrightarrow> a + b \<le> n \<Longrightarrow> sends sc q n g g2"
  unfolding sends_def using relay_permitted_kept by fastforce

lemma keeps_rows_refl: "keeps_rows rows rows"
  by (auto simp: keeps_rows_def)

lemma relay_register_row:
  assumes "relay_register q job ws agent rows = Inr rows'" and "row_of_request q rows = Some row" and "rr_remote row = None"
  shows "\<exists>r \<in> set rows'. rr_request r = q \<and> rr_workspace r = rr_workspace row \<and> rr_remote r = Some job"
proof -
  have "row \<in> set rows" "rr_request row = q" using find_SomeD [OF assms(2) [unfolded row_of_request_def]] by auto
  with assms show ?thesis
    by (auto simp: relay_register_def Let_def set_update_rows split: if_splits intro!: bexI [of _ "row\<lparr>rr_remote := Some job\<rparr>"] image_eqI [of _ _ row])
qed

lemma owned_request_row: "owned_request v rows = Some q \<Longrightarrow> row_of_request q rows = Some r \<Longrightarrow> r \<in> set rows \<and> rr_request r = q \<and> v = PStr (public_ref q)"
  using find_SomeD [of "\<lambda>r. rr_request r = q" rows r]
  by (auto simp: owned_request_def row_of_request_def public_ref_def starts_with_iff split: pyval.splits if_splits)

section \<open>The calls\<close>

definition client_keys :: "relay_rows \<Rightarrow> bool" where
  "client_keys rows \<longleftrightarrow> distinct (map rr_request rows)"

text \<open>What every call keeps: keys, rows, and the permission of what it sends.\<close>

definition relays :: "relay_scope \<Rightarrow> string \<Rightarrow> nat \<Rightarrow> 'n gateway \<Rightarrow> 'n gateway \<Rightarrow> bool" where
  "relays sc q n g g' \<longleftrightarrow> client_keys (gt_rows g') \<and> keeps_rows (gt_rows g) (gt_rows g') \<and> sends sc q n g g'"

lemma keeps_rows_trans: "keeps_rows a b \<Longrightarrow> keeps_rows b c \<Longrightarrow> keeps_rows a c"
  unfolding keeps_rows_def by metis

lemma relays_trans: "relays sc q a g g1 \<Longrightarrow> relays sc q b g1 g2 \<Longrightarrow> a + b \<le> n \<Longrightarrow> relays sc q n g g2"
  unfolding relays_def using sends_trans keeps_rows_trans by blast

lemma relays_refl: "client_keys (gt_rows g) \<Longrightarrow> relays sc q n g g"
  by (simp add: relays_def keeps_rows_refl sends_none)

lemma relays_plain:
  assumes "plain_post http operation args g = (r, g')" and "operation \<noteq> ''dispatch_agent''" and "relay_permitted sc q (gt_rows g) (operation, args)"
    and "client_keys (gt_rows g)"
  shows "relays sc q 1 g g'"
  using sends_plain [OF assms(1-3)] assms(4) by (auto simp: relays_def keeps_rows_refl)

lemma relays_rows: "client_keys rows \<Longrightarrow> keeps_rows (gt_rows g) rows \<Longrightarrow> relays sc q n g (g\<lparr>gt_rows := rows\<rparr>)"
  by (simp add: relays_def sends_none)

lemma keeps_update:
  "\<forall>r \<in> set rows. P r \<longrightarrow> rr_request (f r) = rr_request r \<and> rr_workspace (f r) = rr_workspace r \<and> (rr_remote r \<noteq> None \<longrightarrow> rr_remote (f r) = rr_remote r)
     \<Longrightarrow> keeps_rows rows (update_rows P f rows)"
proof (unfold keeps_rows_def set_update_rows, intro ballI)
  fix r assume a: "\<forall>r \<in> set rows. P r \<longrightarrow> rr_request (f r) = rr_request r \<and> rr_workspace (f r) = rr_workspace r \<and> (rr_remote r \<noteq> None \<longrightarrow> rr_remote (f r) = rr_remote r)"
    and r: "r \<in> set rows"
  from r have "(if P r then f r else r) \<in> (\<lambda>r. if P r then f r else r) ` set rows" by blast
  moreover from a r have "rr_request (if P r then f r else r) = rr_request r \<and> rr_workspace (if P r then f r else r) = rr_workspace r
      \<and> (rr_remote r \<noteq> None \<longrightarrow> rr_remote (if P r then f r else r) = rr_remote r)" by simp
  ultimately show "\<exists>r' \<in> (\<lambda>r. if P r then f r else r) ` set rows. rr_request r' = rr_request r \<and> rr_workspace r' = rr_workspace r
      \<and> (rr_remote r \<noteq> None \<longrightarrow> rr_remote r' = rr_remote r)" by (rule bexI [rotated])
qed

lemma mark_no_launch_kept: "keeps_rows rows (mark_no_launch q rows) \<and> (client_keys rows \<longrightarrow> client_keys (mark_no_launch q rows))"
  using settles_requests [OF settles_marks(2)] unfolding mark_no_launch_def client_keys_def
  by (auto intro!: keeps_update)

lemma reserve_kept:
  assumes "reserve q ws agent cap rows = Inr (old, rows')" and "client_keys rows"
  shows "keeps_rows rows rows' \<and> client_keys rows' \<and> row_of_request q rows' \<noteq> None"
proof (cases old)
  case None
  with reserve_new assms show ?thesis by (fastforce simp: client_keys_def keeps_rows_def row_of_request_def find_key_None)
next
  case (Some r)
  with assms show ?thesis by (auto simp: reserve_def keeps_rows_refl split: option.splits if_splits)
qed

lemma register_kept:
  assumes "relay_register q job ws agent rows = Inr rows'" and "client_keys rows" and "row_of_request q rows \<noteq> None"
  shows "keeps_rows rows rows' \<and> client_keys rows'"
proof
  show "client_keys rows'" using settles_requests [OF settles_register [OF assms(1,3)]] assms(2) by (simp add: client_keys_def)
  from assms(1,3) obtain r where r: "row_of_request q rows = Some r"
    "rows' = rows \<or> (rr_remote r = None \<and> rows' = update_rows (\<lambda>r. rr_request r = q) (rr_remote_update (\<lambda>_. Some job)) rows)"
    by (auto simp: relay_register_def Let_def split: option.splits if_splits)
  have "x = r" if "x \<in> set rows" "rr_request x = q" for x
    using find_key_mem [of x rows rr_request] that assms(2) r(1) by (simp add: client_keys_def row_of_request_def)
  with r(2) show "keeps_rows rows rows'" by (auto intro!: keeps_update keeps_rows_refl)
qed

lemma info_relays:
  assumes "call_info http sc data g = (r, g')" and "client_keys (gt_rows g)"
  shows "relays sc q 1 g g' \<and> gt_rows g' = gt_rows g"
proof (cases "g' = g")
  case True
  with relays_refl [OF assms(2)] show ?thesis by simp
next
  case False
  with assms(1) have c: "in_names (dict_get data ''workspace_id'') (map fst (rs_paths sc)) = Inr True" "plain_post http ''workspace_info'' data g = (r, g')"
    by (auto simp: call_info_def split: sum.splits if_splits)
  from in_names_Inr [OF c(1)] have p: "relay_permitted sc q (gt_rows g) (''workspace_info'', data)" by (force simp: relay_permitted_def str_and_def)
  show ?thesis using relays_plain [OF c(2) _ p assms(2)] sends_plain [OF c(2) _ p] by simp
qed

lemma lookup_relays:
  assumes "call_lookup http sc data g = (r, g')" and "client_keys (gt_rows g)"
  shows "relays sc q 1 g g' \<and> gt_rows g' = gt_rows g"
proof (cases "g' = g")
  case True
  with relays_refl [OF assms(2)] show ?thesis by simp
next
  case False
  with assms(1) obtain row where c: "get_request (dict_get data ''request_id'') (gt_rows g) = Inr (Some row)" "rr_workspace row \<in> fst ` set (rs_paths sc)"
    "plain_post http ''lookup_dispatch'' data g = (r, g')"
    by (auto simp: call_lookup_def split: sum.splits if_splits option.splits)
  have "row \<in> set (gt_rows g) \<and> dict_get data ''request_id'' = PStr (rr_request row)"
    using c(1) by (auto simp: get_request_def row_of_request_def validate_request_id_def dest: find_SomeD split: pyval.splits if_splits)
  with c(2) have p: "relay_permitted sc q (gt_rows g) (''lookup_dispatch'', data)" by (auto simp: relay_permitted_def)
  show ?thesis using relays_plain [OF c(3) _ p assms(2)] sends_plain [OF c(3) _ p] by simp
qed

lemma follow_relays:
  assumes "follow_job http operation public job data g = (r, g')" and "client_keys (gt_rows g)"
    and "operation \<in> {''job_status'', ''job_output'', ''job_result'', ''job_cancel''}"
    and "\<exists>row \<in> set (gt_rows g). rr_remote row = Some job \<and> rr_workspace row \<in> fst ` set (rs_paths sc)"
  shows "relays sc q 1 g g' \<and> (\<forall>v. r = Inr v \<longrightarrow> (\<exists>d. v = PDict d \<and> dict_get d ''job_id'' = PStr public))"
proof (cases "rbind (capped_page operation (dict_set ''job_id'' (PStr job) data)) (\<lambda>d. rbind (validate_job_request d) (\<lambda>_. Inr d))")
  case (Inl e)
  with assms(1) relays_refl [OF assms(2)] show ?thesis by (auto simp: follow_job_def)
next
  case (Inr args)
  then have "dict_get args ''job_id'' = PStr job"
    by (auto simp: capped_page_def split: if_splits pyval.splits)
  with assms(3,4) have p: "relay_permitted sc q (gt_rows g) (operation, args)" by (auto simp: relay_permitted_def names_job_def)
  obtain r1 where c: "plain_post http operation args g = (r1, g')" "r = Inl TypeError \<or> (\<exists>e. r = Inl e) \<or> (\<exists>d. r = Inr (PDict (dict_set ''job_id'' (PStr public) d)))"
    using assms(1) Inr by (auto simp: follow_job_def split: prod.splits sum.splits pyval.splits)
  from relays_plain [OF c(1) _ p assms(2)] assms(3) c(2) show ?thesis by auto
qed

lemma pull_relays:
  assumes "call_pull http sc data g = (r, g')" and "client_keys (gt_rows g)"
  shows "relays sc q 1 g g'"
proof (cases "g' = g")
  case True
  with relays_refl [OF assms(2)] show ?thesis by simp
next
  case False
  with assms(1) obtain q' row job where o: "owned_request (dict_get data ''job_id'') (gt_rows g) = Some q'" "row_of_request q' (gt_rows g) = Some row"
    "rr_remote row = Some job" "rr_workspace row \<in> fst ` set (rs_writers sc)" "plain_post http ''git_pull'' (dict_set ''job_id'' (PStr job) data) g = (r, g')"
    by (auto simp: call_pull_def Let_def split: option.splits if_splits sum.splits)
  have "relay_permitted sc q (gt_rows g) (''git_pull'', dict_set ''job_id'' (PStr job) data)"
    using owned_request_row [OF o(1,2)] o(3,4) by (auto simp: relay_permitted_def names_job_def)
  from relays_plain [OF o(5) _ this assms(2)] show ?thesis by simp
qed

lemma no_launch_named:
  "rbind (no_launch_result public row data) (\<lambda>d. Inr (PDict d)) = Inr v \<Longrightarrow> \<exists>d. v = PDict d \<and> dict_get d ''job_id'' = PStr public"
  by (auto simp: no_launch_result_def dict_get_def split: if_splits)

lemma no_job_yet_named [simp]: "dict_get (no_job_yet public) ''job_id'' = PStr public" "dict_get (uncertain public) ''job_id'' = PStr public"
  by (simp_all add: no_job_yet_def uncertain_def dict_get_def)

lemma recover_relays:
  assumes "recover_job http operation (public_ref q') q' row data recovery g = (r, g')" and "client_keys (gt_rows g)"
    and "operation \<in> {''job_status'', ''job_output'', ''job_result'', ''job_cancel''}"
    and "row_of_request q' (gt_rows g) = Some row" and "rr_remote row = None" and "rr_workspace row \<in> fst ` set (rs_paths sc)"
  shows "relays sc q 1 g g' \<and> (\<forall>v. r = Inr v \<longrightarrow> (\<exists>d. v = PDict d \<and> dict_get d ''job_id'' = PStr (public_ref q')))"
proof -
  let ?r = "case recovery of PDict d \<Rightarrow> d | _ \<Rightarrow> []"
  have mark: "relays sc q 1 g (g\<lparr>gt_rows := mark_no_launch q' (gt_rows g)\<rparr>)"
    using relays_rows mark_no_launch_kept assms(2) by blast
  note here = relays_refl [OF assms(2), of sc q 1]
  consider (none) "dict_get ?r ''status'' = PStr ''not_launched''" | (found) j where "dict_get ?r ''status'' \<noteq> PStr ''not_launched''" "dict_get ?r ''job_id'' = PStr j" "job_ref j"
    | (other) "dict_get ?r ''status'' \<noteq> PStr ''not_launched''" "\<nexists>j. dict_get ?r ''job_id'' = PStr j \<and> job_ref j" by blast
  then show ?thesis
  proof cases
    case none
    have "(if b then (Inl PermissionError, g) else p) = (r, g') \<longleftrightarrow> (if b then r = Inl PermissionError \<and> g' = g else p = (r, g'))" for b p
      by auto
    with assms(1) none have e: "(r = Inl PermissionError \<and> g' = g)
        \<or> (r = rbind (no_launch_result (public_ref q') row data) (\<lambda>d. Inr (PDict d)) \<and> g' = g\<lparr>gt_rows := mark_no_launch q' (gt_rows g)\<rparr>)"
      unfolding recover_job_def Let_def by (simp only: if_True simp_thms prod.inject split: if_split_asm)
    with no_launch_named [of "public_ref q'" row data] here mark show ?thesis by auto
  next
    case other
    with assms(1) here show ?thesis unfolding recover_job_def Let_def by (auto split: if_split_asm pyval.split_asm)
  next
    case found
    have "truthy (PStr j)" using found(3) by (auto simp: job_ref_def starts_with_def)
    with found assms(1) have s: "(case relay_register q' j (rr_workspace row) (rr_agent row) (gt_rows g) of Inl e \<Rightarrow> (Inl e, g)
        | Inr rows \<Rightarrow> follow_job http operation (public_ref q') j data (g\<lparr>gt_rows := rows\<rparr>)) = (r, g')"
      by (simp add: recover_job_def Let_def)
    show ?thesis
    proof (cases "relay_register q' j (rr_workspace row) (rr_agent row) (gt_rows g)")
      case (Inl e)
      with s here show ?thesis by auto
    next
      case (Inr rows)
      with s have f: "follow_job http operation (public_ref q') j data (g\<lparr>gt_rows := rows\<rparr>) = (r, g')" by simp
      from register_kept [OF Inr assms(2)] assms(4) have k: "keeps_rows (gt_rows g) rows" "client_keys rows" by auto
      from relay_register_row [OF Inr assms(4,5)] assms(6)
      have "\<exists>row \<in> set rows. rr_remote row = Some j \<and> rr_workspace row \<in> fst ` set (rs_paths sc)" by metis
      with follow_relays [OF f _ assms(3)] k(2) have l: "relays sc q 1 (g\<lparr>gt_rows := rows\<rparr>) g'"
        "\<forall>v. r = Inr v \<longrightarrow> (\<exists>d. v = PDict d \<and> dict_get d ''job_id'' = PStr (public_ref q'))" by auto
      from relays_trans [OF relays_rows [OF k(2,1), of sc q 0] l(1)] l(2) show ?thesis by simp
    qed
  qed
qed

lemma job_relays:
  assumes "call_job http sc operation data g = (r, g')" and "client_keys (gt_rows g)"
    and "operation \<in> {''job_status'', ''job_output'', ''job_result'', ''job_cancel''}"
  shows "relays sc q 2 g g' \<and> (\<forall>v. r = Inr v \<longrightarrow> (\<exists>d q'. v = PDict d \<and> dict_get d ''job_id'' = PStr (public_ref q') \<and> dict_get data ''job_id'' = PStr (public_ref q')))"
proof (cases "\<exists>e. (r, g') = (Inl e, g)")
  case True
  with relays_refl [OF assms(2), of sc q 2] show ?thesis by auto
next
  case False
  with assms(1) obtain q' row where o: "owned_request (dict_get data ''job_id'') (gt_rows g) = Some q'" "row_of_request q' (gt_rows g) = Some row"
    "rr_workspace row \<in> fst ` set (rs_paths sc)"
    and c: "(case rr_remote row of Some job \<Rightarrow> follow_job http operation (public_ref q') job data g
       | None \<Rightarrow> if \<not> rr_active row then (rbind (no_launch_result (public_ref q') row data) (\<lambda>d. Inr (PDict d)), g)
           else (case call_lookup http sc [(''request_id'', PStr q')] g of (Inl e, g1) \<Rightarrow> (Inl e, g1)
             | (Inr recovery, g1) \<Rightarrow> recover_job http operation (public_ref q') q' row data recovery g1)) = (r, g')"
    by (auto simp: call_job_def split: option.splits if_splits)
  note named = owned_request_row [OF o(1,2)]
  show ?thesis
  proof (cases "rr_remote row")
    case (Some job)
    with c have f: "follow_job http operation (public_ref q') job data g = (r, g')" by simp
    have "\<exists>row \<in> set (gt_rows g). rr_remote row = Some job \<and> rr_workspace row \<in> fst ` set (rs_paths sc)" using Some named o(3) by blast
    from follow_relays [OF f assms(2,3) this, of q] named
    show ?thesis using relays_trans [OF relays_refl [OF assms(2), of sc q 0], of 1 g' 2] by auto
  next
    case None
    show ?thesis
    proof (cases "rr_active row")
      case False
      with c None have e: "r = rbind (no_launch_result (public_ref q') row data) (\<lambda>d. Inr (PDict d))" "g' = g" by auto
      have "\<forall>v. r = Inr v \<longrightarrow> (\<exists>d. v = PDict d \<and> dict_get d ''job_id'' = PStr (public_ref q'))"
        unfolding e(1) using no_launch_named by blast
      with e(2) relays_refl [OF assms(2), of sc q 2] named show ?thesis by blast
    next
      case True
      obtain r1 g1 where l: "call_lookup http sc [(''request_id'', PStr q')] g = (r1, g1)" by fastforce
      from lookup_relays [OF l assms(2)] have k: "relays sc q 1 g g1" "gt_rows g1 = gt_rows g" by auto
      show ?thesis
      proof (cases r1)
        case (Inl e)
        with c None True l have "r = Inl e" "g' = g1" by auto
        with relays_trans [OF k(1) relays_refl, of 1 2] assms(2) k(2) show ?thesis by auto
      next
        case (Inr recovery)
        with c None True l have "recover_job http operation (public_ref q') q' row data recovery g1 = (r, g')" by simp
        from recover_relays [OF this _ assms(3) _ None o(3)] k(2) assms(2) o(2)
        have "relays sc q 1 g1 g'" "\<forall>v. r = Inr v \<longrightarrow> (\<exists>d. v = PDict d \<and> dict_get d ''job_id'' = PStr (public_ref q'))" by auto
        with relays_trans [OF k(1), of 1 g' 2] named show ?thesis by auto
      qed
    qed
  qed
qed

lemma accept_relays:
  assumes "accept_dispatch q data v g = (r, g')" and "client_keys (gt_rows g)" and "row_of_request q (gt_rows g) \<noteq> None"
  shows "relays sc q 0 g g' \<and> (\<forall>v. r = Inr v \<longrightarrow> (\<exists>d. v = PDict d \<and> dict_get d ''job_id'' = PStr (public_ref q)))"
proof (cases "confirmed q data v (gt_rows g)")
  case (Inl e)
  with assms(1) relays_refl [OF assms(2), of sc q 0] show ?thesis by (auto simp: accept_dispatch_def)
next
  case (Inr p)
  then obtain d rows job where a: "p = (d, rows)"
    "relay_register q job (the_str (dict_get data ''workspace_id'')) (the_str (dict_get data ''agent'')) (gt_rows g) = Inr rows"
    by (auto simp: confirmed_def split: pyval.split_asm if_split_asm)
  have e: "r = Inr (PDict (dict_set ''dispatch_id'' (PStr (public_ref q)) (dict_set ''job_id'' (PStr (public_ref q)) d)))" "g' = g\<lparr>gt_rows := rows\<rparr>"
    using assms(1) unfolding accept_dispatch_def Inr a(1) by simp_all
  have "relays sc q 0 g g'" unfolding e(2) using register_kept [OF a(2) assms(2,3)] relays_rows by blast
  then show ?thesis unfolding e(1) by simp
qed

lemma dispatch_relays:
  assumes "call_dispatch http sc q data0 g = (r, g')" and "client_keys (gt_rows g)"
  shows "relays sc q 3 g g' \<and> (\<forall>v. r = Inr v \<longrightarrow> (\<exists>d. v = PDict d \<and> dict_get d ''job_id'' = PStr (public_ref q)))"
proof (cases "\<exists>e. (r, g') = (Inl e, g)")
  case True
  with relays_refl [OF assms(2), of sc q 3] show ?thesis by auto
next
  case False
  with assms(1) obtain data r1 g1 where v: "validate_dispatch data0 (map fst (rs_paths sc)) (map fst (rs_writers sc)) = Inr data"
    "call_info http sc [(''workspace_id'', dict_get data ''workspace_id'')] g = (r1, g1)"
    by (fastforce simp: call_dispatch_def split: sum.splits)
  from info_relays [OF v(2) assms(2)] have k: "relays sc q 1 g g1" "client_keys (gt_rows g1)" using assms(2) by auto
  show ?thesis
  proof (cases "\<exists>e. (r, g') = (Inl e, g1)")
    case True
    with relays_trans [OF k(1) relays_refl [OF k(2), of sc q 0], of 3] show ?thesis by auto
  next
    case False
    let ?args = "dict_set ''request_id'' (PStr q) data"
    from False assms(1) v obtain old rows r2 g2 where s: "reserve q (the_str (dict_get data ''workspace_id'')) (the_str (dict_get data ''agent'')) None (gt_rows g1) = Inr (old, rows)"
      "post http ''dispatch_agent'' ?args (g1\<lparr>gt_rows := rows\<rparr>) = (r2, g2)"
      and c: "(case r2 of Inl e \<Rightarrow> (Inl e, g2) | Inr None \<Rightarrow> (Inr (PDict (uncertain (public_ref q))), g2) | Inr (Some v) \<Rightarrow> accept_dispatch q ?args v g2) = (r, g')"
      by (cases "reserve q (the_str (dict_get data ''workspace_id'')) (the_str (dict_get data ''agent'')) None (gt_rows g1)")
        (auto simp: call_dispatch_def Let_def split: sum.split_asm if_split_asm prod.split_asm)
    from reserve_kept [OF s(1) k(2)] have n: "keeps_rows (gt_rows g1) rows" "client_keys rows" "row_of_request q rows \<noteq> None" by auto
    have "dispatch_in_scope (map fst (rs_paths sc)) (map fst (rs_writers sc)) data" using validate_dispatch_scope [OF v(1)] by blast
    then have "relay_permitted sc q rows (''dispatch_agent'', ?args)"
      by (auto simp: relay_permitted_def dispatch_in_scope_def field_names_dict_set DISPATCH_FIELDS_def)
    with post_sent [OF s(2)] have p: "gt_rows g2 = rows" "sends sc q 2 (g1\<lparr>gt_rows := rows\<rparr>) g2" by (auto simp: sends_def)
    have "relays sc q 2 (g1\<lparr>gt_rows := rows\<rparr>) g2" using p n(2) by (simp add: relays_def keeps_rows_refl)
    have "relays sc q 1 g (g1\<lparr>gt_rows := rows\<rparr>)" by (rule relays_trans [OF k(1) relays_rows [OF n(2,1), of sc q 0]]) simp
    from relays_trans [OF this \<open>relays sc q 2 (g1\<lparr>gt_rows := rows\<rparr>) g2\<close>, of 3] have sent: "relays sc q 3 g g2" by simp
    show ?thesis
    proof (cases "\<exists>v. r2 = Inr (Some v)")
      case True
      with c obtain v where "accept_dispatch q ?args v g2 = (r, g')" by auto
      from accept_relays [OF this, of sc] p(1) n relays_trans [OF sent, of 0 g' 3] show ?thesis by auto
    next
      case False
      with c have "g' = g2" "\<forall>v. r = Inr v \<longrightarrow> v = PDict (uncertain (public_ref q))" by (auto split: sum.splits option.splits)
      with sent show ?thesis by auto
    qed
  qed
qed

text \<open>
  The public gateway relays only inside its own scope: whatever call arrives and whatever the receiving side
  answers, a call sends at most three messages; each is the inventory, a question about a workspace or a request of the
  ledger in scope, a job operation or a pull on a job the ledger records for a workspace in scope, or a dispatch to an
  admitted agent in scope and without push, under the fresh identifier of this call.  The ledger loses no request and
  changes no known job, and a caller sees a job only by the public reference of its request.
\<close>
theorem gateway_relay_confined:
  assumes "relay_call http sc q operation data g = (r, g')" and "client_keys (gt_rows g)"
  shows "(\<exists>ms. gt_sent g' = gt_sent g @ ms \<and> length ms \<le> 3 \<and> (\<forall>m \<in> set ms. relay_permitted sc q (gt_rows g') m))
    \<and> client_keys (gt_rows g') \<and> keeps_rows (gt_rows g) (gt_rows g')
    \<and> (\<forall>v. r = Inr v \<and> operation = ''dispatch_agent'' \<longrightarrow> (\<exists>d. v = PDict d \<and> dict_get d ''job_id'' = PStr (public_ref q)))
    \<and> (\<forall>v. r = Inr v \<and> operation \<in> {''job_status'', ''job_output'', ''job_result'', ''job_cancel''} \<longrightarrow>
         (\<exists>d q'. v = PDict d \<and> dict_get d ''job_id'' = PStr (public_ref q') \<and> dict_get data ''job_id'' = PStr (public_ref q')))"
proof -
  have weaken: "relays sc q 3 g g'" if "relays sc q n g g'" "n \<le> 3" for n
    using relays_trans [OF that(1) relays_refl, of 0 3] that by (simp add: relays_def)
  have ops: "operation \<notin> set ALLOWED_OPS \<or> operation = ''dispatch_agent'' \<or> operation = ''lookup_dispatch'' \<or> operation = ''workspace_info''
      \<or> operation = ''git_pull'' \<or> operation = ''list_agents'' \<or> operation \<in> {''job_status'', ''job_output'', ''job_result'', ''job_cancel''}"
    unfolding ALLOWED_OPS_def list.set insert_iff by argo
  then show ?thesis
  proof (elim disjE, goal_cases)
    case 1
    with assms(1) have "r = Inl PermissionError" "g' = g" by (simp_all add: relay_call_def)
    with relays_refl [OF assms(2), of sc q 3] show ?thesis by (simp add: relays_def sends_def)
  next
    case 2
    with assms(1) have "call_dispatch http sc q data g = (r, g')" by (simp add: relay_call_def ALLOWED_OPS_def)
    from dispatch_relays [OF this assms(2)] 2 show ?thesis by (simp add: relays_def sends_def)
  next
    case 3
    with assms(1) have "call_lookup http sc data g = (r, g')" by (simp add: relay_call_def ALLOWED_OPS_def)
    from weaken [OF conjunct1 [OF lookup_relays [OF this assms(2)]]] 3 show ?thesis by (simp add: relays_def sends_def)
  next
    case 4
    with assms(1) have "call_info http sc data g = (r, g')" by (simp add: relay_call_def ALLOWED_OPS_def)
    from weaken [OF conjunct1 [OF info_relays [OF this assms(2)]]] 4 show ?thesis by (simp add: relays_def sends_def)
  next
    case 5
    with assms(1) have "call_pull http sc data g = (r, g')" by (simp add: relay_call_def ALLOWED_OPS_def)
    from weaken [OF pull_relays [OF this assms(2)]] 5 show ?thesis by (simp add: relays_def sends_def)
  next
    case 6
    with assms(1) have c: "plain_post http operation data g = (r, g')" by (simp add: relay_call_def ALLOWED_OPS_def)
    have "relay_permitted sc q (gt_rows g) (operation, data)" using 6 by (simp add: relay_permitted_def)
    from weaken [OF relays_plain [OF c _ this assms(2)]] 6 show ?thesis by (simp add: relays_def sends_def)
  next
    case 7
    with assms(1) have c: "call_job http sc operation data g = (r, g')" by (auto simp: relay_call_def ALLOWED_OPS_def)
    have "operation \<noteq> ''dispatch_agent''" using 7 by auto
    with job_relays [OF c assms(2) 7, of q] weaken [of 2] show ?thesis by (simp add: relays_def sends_def)
  qed
qed

section \<open>Both gateways\<close>

text \<open>
  The receiving handler behind a connection that may lose a request or an answer; \<open>len\<close> is the length of an encoded
  answer.
\<close>

datatype link_fault = Through | RequestLost | AnswerLost

record receiver =
  rv_rows :: relay_rows
  rv_launched :: "pydict list"
  rv_faults :: "link_fault list"

definition http_of :: "(pyval \<Rightarrow> nat) \<Rightarrow> relay_reply \<Rightarrow> http_answer" where
  "http_of len reply = (case reply of
       Reply x \<Rightarrow> Answer 200 (len x) (Inr x) | Denied403 \<Rightarrow> Answer 403 0 (Inl ValueError) | Failed e \<Rightarrow> Answer 500 0 (Inl ValueError))"

definition receiver_link :: "relay_config \<Rightarrow> relay_env \<Rightarrow> (pyval \<Rightarrow> nat) \<Rightarrow> receiver transport" where
  "receiver_link c v len operation args net =
     (let fault = (case rv_faults net of [] \<Rightarrow> Through | f # fs \<Rightarrow> f); net1 = net\<lparr>rv_faults := tl (rv_faults net)\<rparr> in
      if fault = RequestLost then (NoAnswer, net1)
      else (case internal_delegation c v (Inr (PDict [(''operation'', PStr operation), (''args'', PDict args)])) (rv_rows net) of
          (reply, rows, launched) \<Rightarrow> (if fault = AnswerLost then NoAnswer else http_of len reply,
             net1\<lparr>rv_rows := rows, rv_launched := rv_launched net @ launched\<rparr>)))"

abbreviation requests :: "relay_rows \<Rightarrow> string set" where
  "requests rows \<equiv> rr_request ` set rows"

text \<open>One exchange: a launch is of a request the ledger did not hold, and the ledger holds it afterwards.\<close>

definition launches_new :: "string \<Rightarrow> nat \<Rightarrow> relay_rows \<Rightarrow> relay_rows \<Rightarrow> bool" where
  "launches_new q n rows rows' \<longleftrightarrow> requests rows \<subseteq> requests rows' \<and> n \<le> 1 \<and> (n = 1 \<longrightarrow> q \<notin> requests rows \<and> q \<in> requests rows')"

lemma launches_new_none: "requests rows \<subseteq> requests rows' \<Longrightarrow> launches_new q 0 rows rows'"
  by (simp add: launches_new_def)

lemma finish_requests:
  assumes "finish_launch q ws agent outcome rows = (r, rows')" and "row_of_request q rows \<noteq> None"
  shows "requests rows' = requests rows"
  using arg_cong [OF settles_requests [OF settles_finish [OF assms]], of set] by simp

lemma reconcile_requests: "reconcile status jobs rows = (r, rows') \<Longrightarrow> requests rows' = requests rows"
proof -
  have mark: "requests (mark_terminal job rows) = requests rows" for job rows
    using arg_cong [OF settles_requests [OF settles_marks(1)], of set] by simp
  show "reconcile status jobs rows = (r, rows') \<Longrightarrow> requests rows' = requests rows"
  proof (induction jobs arbitrary: rows)
    case (Cons job jobs)
    from Cons.prems have "rows' = rows \<or> reconcile status jobs rows = (r, rows') \<or> reconcile status jobs (mark_terminal job rows) = (r, rows')"
      by (auto split: sum.splits py_error.splits if_splits)
    with Cons.IH [of rows] Cons.IH [of "mark_terminal job rows"] mark [of job rows] show ?case by metis
  qed simp
qed

lemma dispatch_launches_new:
  assumes "dispatch_branch c v arguments rows = (r, rows', launched)" and "dict_get arguments ''request_id'' = PStr q"
  shows "launches_new q (length launched) rows rows'"
proof (cases "launched = [] \<and> rows' = rows")
  case True
  then show ?thesis by (simp add: launches_new_def)
next
  case False
  with assms(1) obtain data q' where d: "validate_dispatch arguments (rc_scope c) (rc_writers c) = Inr data" "validate_request_id (dict_get data ''request_id'') = Inr q'"
    "rbind (require_production_egress (rc_runtime c) (Some (get_default arguments ''agent'' (PStr [])))) (\<lambda>_.
           rbind (validate_dispatch arguments (rc_scope c) (rc_writers c)) (\<lambda>data.
           rbind (validate_request_id (dict_get data ''request_id'')) (\<lambda>q. Inr (q, dict_pop ''request_id'' data)))) = Inr (q', dict_pop ''request_id'' data)"
    by (auto simp: dispatch_branch_def split: sum.splits)
  obtain read_only where "data = dict_set ''read_only'' (PBool read_only) (dict_set ''allow_push'' (PBool False) (dict_set ''allow_commit'' (PBool (\<not> read_only)) arguments))"
    using d(1) by (rule validate_dispatch_Inr)
  with assms(2) d(2) have q: "q' = q" by (auto simp: validate_request_id_def split: if_splits)
  obtain r1 rows1 where rec: "reconcile (re_status v) (active_jobs rows) rows = (r1, rows1)" by fastforce
  define ws agent where "ws = the_str (dict_get (dict_pop ''request_id'' data) ''workspace_id'')" and "agent = the_str (dict_get (dict_pop ''request_id'' data) ''agent'')"
  consider (old) "rows' = rows1" "launched = []"
    | (new) rows2 outcome rr where "reserve q ws agent (Some 3) rows1 = Inr (None, rows2)" "finish_launch q ws agent outcome rows2 = (rr, rows')" "length launched \<le> 1"
  proof -
    have same: "reserve q ws agent (Some 3) rows1 = Inr (Some prior, rows2) \<Longrightarrow> rows2 = rows1" for prior rows2
      by (auto simp: reserve_def split: option.splits if_splits)
    from assms(1) rec same show thesis
      unfolding dispatch_branch_def d(3) q Let_def ws_def [symmetric] agent_def [symmetric] sum.case prod.case
      by (auto split: sum.splits option.splits prod.splits intro: old new)
  qed
  then show ?thesis
  proof cases
    case old
    with reconcile_requests [OF rec] show ?thesis by (simp add: launches_new_none)
  next
    case new
    from reserve_new [OF new(1)] have r: "q \<notin> requests rows" "requests rows2 = insert q (requests rows)" using reconcile_requests [OF rec] by auto
    then have "row_of_request q rows2 \<noteq> None" by (simp add: row_of_request_def find_key_None)
    from finish_requests [OF new(2) this] r new(3) show ?thesis by (auto simp: launches_new_def)
  qed
qed

text \<open>One exchange of a dispatch, and of the question before it.\<close>

abbreviation relay_message :: "string \<Rightarrow> pydict \<Rightarrow> pyval" where
  "relay_message operation args \<equiv> PDict [(''operation'', PStr operation), (''args'', PDict args)]"

lemma received_dispatch:
  assumes "dispatch_branch c v args rows = (r, rows', launched)"
  shows "snd (internal_delegation c v (Inr (relay_message ''dispatch_agent'' args)) rows) = (rows', launched)"
proof -
  have "handled c v ''dispatch_agent'' args rows = (rbind r (\<lambda>d. Inr (PDict d)), rows', launched)"
    using assms by (simp add: handled_def)
  then show ?thesis
    by (cases r) (simp_all add: internal_delegation_def Let_def field_names_def dict_get_def in_names_def unhashable_def ALLOWED_OPS_def insert_commute)
qed

lemma received_info:
  "snd (internal_delegation c v (Inr (relay_message ''workspace_info'' args)) rows) = (rows, [])"
proof -
  have "handled c v ''workspace_info'' args rows = (rbind (info_branch c args) (\<lambda>d. Inr (PDict d)), rows, [])"
    by (simp add: handled_def)
  then show ?thesis
    by (cases "info_branch c args") (simp_all add: internal_delegation_def Let_def field_names_def dict_get_def in_names_def unhashable_def ALLOWED_OPS_def insert_commute)
qed

lemma link_state:
  assumes "receiver_link c v len operation args net = (a, net')"
    and "snd (internal_delegation c v (Inr (relay_message operation args)) (rv_rows net)) = (rows, launched)"
  shows "rv_launched net' = rv_launched net \<and> rv_rows net' = rv_rows net \<or> rv_launched net' = rv_launched net @ launched \<and> rv_rows net' = rows"
  using assms by (auto simp: receiver_link_def Let_def split: if_split_asm prod.split_asm)

lemma link_launches:
  assumes "receiver_link c v len ''dispatch_agent'' args net = (a, net')" and "dict_get args ''request_id'' = PStr q"
  shows "\<exists>new. rv_launched net' = rv_launched net @ new \<and> launches_new q (length new) (rv_rows net) (rv_rows net')"
proof -
  obtain r rows launched where d: "dispatch_branch c v args (rv_rows net) = (r, rows, launched)"
    by (cases "dispatch_branch c v args (rv_rows net)") auto
  from link_state [OF assms(1) received_dispatch [OF d]] dispatch_launches_new [OF d assms(2)] launches_new_none [of "rv_rows net" "rv_rows net" q]
  show ?thesis by auto
qed

lemma link_quiet:
  assumes "receiver_link c v len ''workspace_info'' args net = (a, net')"
  shows "rv_launched net' = rv_launched net \<and> rv_rows net' = rv_rows net"
  using link_state [OF assms received_info] by auto

lemma launches_new_trans: "launches_new q a x y \<Longrightarrow> launches_new q b y z \<Longrightarrow> launches_new q (a + b) x z"
proof -
  have "X \<subseteq> Y \<and> a \<le> 1 \<and> (a = 1 \<longrightarrow> q \<notin> X \<and> q \<in> Y) \<Longrightarrow> Y \<subseteq> Z \<and> b \<le> 1 \<and> (b = 1 \<longrightarrow> q \<notin> Y \<and> q \<in> Z)
      \<Longrightarrow> X \<subseteq> Z \<and> a + b \<le> 1 \<and> (a + b = 1 \<longrightarrow> q \<notin> X \<and> q \<in> Z)" for X Y Z :: "string set"
    by (cases "a = 0"; cases "b = 0") auto
  then show "launches_new q a x y \<Longrightarrow> launches_new q b y z \<Longrightarrow> launches_new q (a + b) x z" unfolding launches_new_def .
qed

lemma attempts_launch:
  assumes "attempts (receiver_link c v len) n ''dispatch_agent'' args g = (a, g')" and "dict_get args ''request_id'' = PStr q"
  shows "\<exists>new. rv_launched (gt_net g') = rv_launched (gt_net g) @ new \<and> launches_new q (length new) (rv_rows (gt_net g)) (rv_rows (gt_net g'))"
  using assms
proof (induction n arbitrary: g)
  case 0
  then show ?case by (auto intro!: launches_new_none)
next
  case (Suc n)
  obtain ans net where h: "receiver_link c v len ''dispatch_agent'' args (gt_net g) = (ans, net)" by fastforce
  let ?g = "g\<lparr>gt_net := net, gt_sent := gt_sent g @ [(''dispatch_agent'', args)]\<rparr>"
  from link_launches [OF h Suc.prems(2)] obtain one where one: "rv_launched net = rv_launched (gt_net g) @ one"
    "launches_new q (length one) (rv_rows (gt_net g)) (rv_rows net)" by blast
  show ?case
  proof (cases "g' = ?g")
    case True
    with one show ?thesis by auto
  next
    case False
    with Suc.prems(1) h have "attempts (receiver_link c v len) n ''dispatch_agent'' args ?g = (a, g')"
      by (auto simp: Let_def split: attempt.splits if_splits)
    from Suc.IH [OF this Suc.prems(2)] obtain more where more: "rv_launched (gt_net g') = rv_launched net @ more"
      "launches_new q (length more) (rv_rows net) (rv_rows (gt_net g'))" by auto
    from launches_new_trans [OF one(2) more(2)] one(1) more(1) show ?thesis by (intro exI [of _ "one @ more"]) simp
  qed
qed

lemma post_launches:
  assumes "post (receiver_link c v len) ''dispatch_agent'' args g = (r, g')" and "dict_get args ''request_id'' = PStr q"
  shows "\<exists>new. rv_launched (gt_net g') = rv_launched (gt_net g) @ new \<and> launches_new q (length new) (rv_rows (gt_net g)) (rv_rows (gt_net g'))"
proof (cases "g' = g")
  case True
  then show ?thesis by (auto intro!: launches_new_none)
next
  case False
  with assms(1) obtain a where "attempts (receiver_link c v len) 2 ''dispatch_agent'' args g = (a, g')"
    by (auto simp: post_def split: if_splits prod.splits attempt.splits)
  from attempts_launch [OF this assms(2)] show ?thesis .
qed

lemma info_quiet:
  assumes "call_info (receiver_link c v len) sc data g = (r, g')"
  shows "rv_launched (gt_net g') = rv_launched (gt_net g) \<and> rv_rows (gt_net g') = rv_rows (gt_net g)"
proof (cases "g' = g")
  case False
  with assms have "plain_post (receiver_link c v len) ''workspace_info'' data g = (r, g')" by (auto simp: call_info_def split: sum.splits if_splits)
  with False obtain r1 where "post (receiver_link c v len) ''workspace_info'' data g = (r1, g')"
    by (auto simp: plain_post_def split: prod.splits sum.splits option.splits)
  with False obtain a where "attempts (receiver_link c v len) 1 ''workspace_info'' data g = (a, g')"
    by (auto simp: post_def split: if_splits prod.splits attempt.splits)
  then obtain ans net where "receiver_link c v len ''workspace_info'' data (gt_net g) = (ans, net)" "gt_net g' = net"
    by (auto simp: Let_def split: prod.splits attempt.splits)
  with link_quiet show ?thesis by metis
qed simp

lemma call_dispatch_net:
  assumes "call_dispatch http sc q data g = (r, g')"
  obtains (info) data1 r1 g1 where "call_info http sc [(''workspace_id'', dict_get data1 ''workspace_id'')] g = (r1, g1)" "g' = g1"
    | (refused) "g' = g"
    | (posted) data1 r1 g1 rows r2 g2 where "call_info http sc [(''workspace_id'', dict_get data1 ''workspace_id'')] g = (r1, g1)"
        "post http ''dispatch_agent'' (dict_set ''request_id'' (PStr q) data1) (g1\<lparr>gt_rows := rows\<rparr>) = (r2, g2)" "gt_net g' = gt_net g2"
proof (cases "validate_dispatch data (map fst (rs_paths sc)) (map fst (rs_writers sc))")
  case (Inl e)
  with assms refused show thesis by (simp add: call_dispatch_def)
next
  case v: (Inr d)
  obtain r1 g1 where i: "call_info http sc [(''workspace_id'', dict_get d ''workspace_id'')] g = (r1, g1)" by fastforce
  show thesis
  proof (cases "g' = g1")
    case False
    with assms v i obtain remote where "r1 = Inr remote" "info_agrees sc d remote"
      by (auto simp: call_dispatch_def split: sum.splits if_splits)
    with assms v i False obtain old rows where s: "reserve q (the_str (dict_get d ''workspace_id'')) (the_str (dict_get d ''agent'')) None (gt_rows g1) = Inr (old, rows)"
      by (cases "reserve q (the_str (dict_get d ''workspace_id'')) (the_str (dict_get d ''agent'')) None (gt_rows g1)") (auto simp: call_dispatch_def)
    obtain r2 g2 where p: "post http ''dispatch_agent'' (dict_set ''request_id'' (PStr q) d) (g1\<lparr>gt_rows := rows\<rparr>) = (r2, g2)" by fastforce
    have "gt_net g3 = gt_net g2" if "accept_dispatch q a w g2 = (r3, g3)" for a w r3 g3
      using that by (auto simp: accept_dispatch_def split: sum.splits)
    with assms v i s p \<open>r1 = Inr remote\<close> \<open>info_agrees sc d remote\<close> have "gt_net g' = gt_net g2"
      by (auto simp: call_dispatch_def Let_def split: sum.splits option.splits)
    with i p posted show thesis by blast
  qed (use i info in blast)
qed

text \<open>
  One relayed dispatch launches at most one worker, whatever the connection loses: of the two deliveries of a request
  only the first to arrive finds it absent from the receiver's ledger, and the caller whose answer was lost is told that
  the delivery is uncertain, under the reference by which the job can be found again.
\<close>
theorem relayed_dispatch_once:
  assumes "call_dispatch (receiver_link c v len) sc q data g = (r, g')"
  shows "\<exists>new. rv_launched (gt_net g') = rv_launched (gt_net g) @ new \<and> length new \<le> 1
    \<and> (new \<noteq> [] \<longrightarrow> q \<notin> requests (rv_rows (gt_net g)) \<and> q \<in> requests (rv_rows (gt_net g')))"
proof -
  have quiet: ?thesis if "rv_launched (gt_net g') = rv_launched (gt_net g)"
    using that by simp
  from assms show ?thesis
  proof (cases rule: call_dispatch_net)
    case (info data1 r1 g1)
    with info_quiet [OF info(1)] quiet show ?thesis by simp
  next
    case (posted data1 r1 g1 rows r2 g2)
    from post_launches [OF posted(2), of q] posted(3) info_quiet [OF posted(1)] obtain new where
      new: "rv_launched (gt_net g') = rv_launched (gt_net g) @ new" "launches_new q (length new) (rv_rows (gt_net g)) (rv_rows (gt_net g'))" by auto
    then have "new \<noteq> [] \<Longrightarrow> length new = 1" by (cases new) (auto simp: launches_new_def)
    with new show ?thesis unfolding launches_new_def by (intro exI [of _ new]) auto
  qed (use quiet in simp)
qed

section \<open>An instance\<close>

text \<open>A writable dispatch whose first answer is lost: the second delivery finds the job, which the caller sees by its reference.\<close>

definition demo_receiver_config :: relay_config where
  "demo_receiver_config = demo_relay_config\<lparr>rc_registry := [(''w'', demo_repo_workspace\<lparr>allow_agent_dispatch := True\<rparr>)]\<rparr>"

definition demo_link :: "link_fault list \<Rightarrow> receiver" where
  "demo_link faults = \<lparr>rv_rows = [], rv_launched = [], rv_faults = faults\<rparr>"

definition demo_scope :: relay_scope where
  "demo_scope = \<lparr>rs_paths = [(''w'', ''/srv/w'')], rs_writers = [(''w'', ''/srv/w'')]\<rparr>"

definition demo_call :: "link_fault list \<Rightarrow> pyval result \<times> receiver gateway" where
  "demo_call faults = relay_call (receiver_link demo_receiver_config demo_relay_env (\<lambda>_. 100)) demo_scope demo_request_id ''dispatch_agent'' demo_relay_args
     \<lparr>gt_rows = [], gt_net = demo_link faults, gt_sent = []\<rparr>"

lemma demo_answer_lost:
  "map_prod id (\<lambda>g. (gt_rows g, rv_rows (gt_net g), length (rv_launched (gt_net g)), map fst (gt_sent g))) (demo_call [Through, AnswerLost]) =
     (Inr (PDict [(''status'', PStr ''running''), (''job_id'', PStr (public_ref demo_request_id)), (''dispatch_id'', PStr (public_ref demo_request_id))]),
      demo_relay_rows, demo_relay_rows, 1, [''workspace_info'', ''dispatch_agent'', ''dispatch_agent''])"
  by code_simp

text \<open>Both answers lost: the worker runs once, and the caller gets the reference to ask with.\<close>

lemma demo_answers_lost:
  "map_prod id (\<lambda>g. (map rr_remote (gt_rows g), rv_rows (gt_net g), length (rv_launched (gt_net g)))) (demo_call [Through, AnswerLost, AnswerLost]) =
     (Inr (PDict (uncertain (public_ref demo_request_id))), [None], demo_relay_rows, 1)"
  by code_simp

end
