(* ===== verification/Spec2Isabelle.thy ===== *)
theory Spec2Isabelle
  imports Tool_Gate Sandbox_Args Git_Wire Git_Remotes Https_Download Worker_Calls Egress_Payload Leases Patches Custody Relay_Client
begin

text \<open>
  AgentPorter is a gateway that lets remote clients and delegated coding agents work in owner workspaces.  A request
  passes the HTTP middleware (credentials, address allowlist, rate limit, body limit), then the tool gate, which asks
  the operator's action policy and the client's policy before it runs a tool; tools read and edit files inside a
  workspace root, run commands in a Bubblewrap sandbox as jobs under a slot limit, fetch from reviewed public hosts,
  and perform Git operations that the owner has approved.  Delegated workers reach Git only through a per-job
  service, their model provider only through a relay, and a public gateway hands work to an isolated one through a
  ledger.  The development follows these parts; all Python sources are under \<open>src/agentporter/\<close>.

  \<^bold>\<open>Theories, in the order of their imports.\<close>

  \<^item> \<open>Prelude\<close>: results (\<open>py_error + 'a\<close>), guards, Python values and dictionaries as association lists in
    insertion order, the string operations the code uses, counted pattern matching, byte lengths, the decoding of
    UTF-8 with replacement characters, tables of rows.
  \<^item> \<open>Paths\<close> (\<open>workspaces/paths.py\<close>): a file system of directories, files and symbolic links;
    \<open>normpath\<close>, \<open>realpath\<close>, \<open>validate_workspace_path\<close>; confinement, and termination for every request and every
    file system, link cycles included.
  \<^item> \<open>Ingress\<close> (\<open>auth.py\<close>, \<open>middleware.py\<close>): bearer and client credentials, the middleware stack, the sliding
    window limiter with its idle sweep, the buffered body.
  \<^item> \<open>Roster\<close>, \<open>Registry\<close>, \<open>Action_Policy\<close>, \<open>Client_Policy\<close> (\<open>agents/roster.py\<close>, \<open>agents/policy.py\<close>,
    \<open>models.py\<close>, \<open>workspaces/registry.py\<close>, \<open>action_policy.py\<close>, \<open>client_policy.py\<close>): the documents, their
    loading and validation, and the decisions.  \<open>Action_Policy\<close> orders the modes by an instance of \<open>linorder\<close>;
    \<open>Client_Policy\<close> follows the job ownership table over any sequence of served calls, policy changes and restarts.
  \<^item> \<open>Tool_Gate\<close> (\<open>server.py\<close>): the monitored tool and the startup guards, over the interface of both policies.
  \<^item> \<open>Jobs\<close> (\<open>tools/jobs.py\<close>, \<open>admission.py\<close>, \<open>git_admission.py\<close>, and the job rows of
    \<open>sandbox/workspace_recovery.py\<close> and \<open>git_clone_recovery.py\<close>): the database of jobs and admissions, one definition
    per transaction, a step relation over launches, monitors, cancellations, Git operations, owner recovery and
    restarts; live jobs hold slots, except strays, whose launching call lost its slot before it could mark the row.
    Output is read back in pages, each decoded on its own.
  \<^item> \<open>Sandbox_Args\<close> (\<open>sandbox/bubblewrap.py\<close>, \<open>tooling.py\<close>, \<open>tools/execution.py\<close>): the sandbox command line, for
    a workspace path or descriptor, the output collector, the launch of offline jobs with its admission slot.
  \<^item> \<open>Git_Wire\<close> (\<open>git_smart_http.py\<close>): packet lines, advertisements, push, receipts of the smart HTTP protocol.
  \<^item> \<open>Json\<close>: the subset of \<open>json\<close> the code relies on, with exact integers; texts with fractions or exponents give
    the value \<open>OutsideModel\<close>.  Its parser runs on fuel \<open>2 * length + 2\<close>, which is proved enough.
  \<^item> \<open>Host_Files\<close>: results of \<open>stat\<close> and of pinned reads, shared by the policies of the owner.
  \<^item> \<open>Git_Approvals\<close> (\<open>git_approvals.py\<close>): canonical requests, receipts, the ledger of spent nonces.
  \<^item> \<open>Git_Remotes\<close> (\<open>git_policy.py\<close>, \<open>git_remote_policy.py\<close>, \<open>git_authorizations.py\<close>): owner policy files,
    grants, the authorisation of an operation and the inbound claims.
  \<^item> \<open>Scoped_HTTPS\<close> and \<open>Https_Download\<close> (\<open>scoped_https.py\<close>, \<open>scoped_https_worker.py\<close>, \<open>https_download.py\<close>):
    reviewed fetches, their isolated worker with both of its output streams, and downloads published without
    overwriting.
  \<^item> \<open>Worker_RPC\<close>, \<open>Worker_Table\<close>, \<open>Worker_Calls\<close> (\<open>worker_git_rpc.py\<close>): the Git service of delegated workers.  A
    call is a sequence of sections under one lock; \<open>Worker_Table\<close> makes every section a labelled step and proves
    single dispatch and the bounds over all interleavings, \<open>Worker_Calls\<close> proves what one frame can make the backend do.
  \<^item> \<open>Sockets\<close>: byte strings and streams of receive events.
  \<^item> \<open>Egress\<close> (\<open>agents/development_egress.py\<close>) and \<open>Provider_Egress\<close> (\<open>agents/provider_egress.py\<close>,
    \<open>agents/parallel_search.py\<close>): the CONNECT endpoint, the endpoint of the local model service, the provider relay
    with its rules, rewritten header, payload checks and chunked decoder.  An endpoint returns the writes it attempts.
    \<open>Egress_Confined\<close> proves what leaves and where to, \<open>Egress_Payload\<close> what a forwarded payload can ask for.
  \<^item> \<open>Shared_Access\<close>, \<open>Work_Tree\<close>, \<open>Work_Files\<close>, \<open>Work_Writes\<close> (\<open>workspaces/shared_access.py\<close>,
    \<open>workspaces/bounded.py\<close>, \<open>sandbox/workspace_delta.py\<close>, \<open>tools/files.py\<close>): access lists, the tree of a workspace
    with its bounded listing and the check of a job's overlay, bounded reads, and the atomic write, moves and trash,
    between whose system calls other processes change the directory.
  \<^item> \<open>Leases\<close> and \<open>Patches\<close> (\<open>workspaces/leases.py\<close>, \<open>workspaces/patching.py\<close>): the lock of a workspace and the
    refusal while a publication is unfinished; the parser of patch targets and the staged application.
  \<^item> \<open>Custody\<close> (\<open>sandbox/workspace_custody.py\<close>): capture and restoration of an entry as runs that may die before any
    system call, with the owner acting in between.
  \<^item> \<open>Relay_Ledger\<close> and \<open>Relay_Client\<close> (\<open>agents/production_relay.py\<close>, the handler \<open>internal_delegation\<close> of
    \<open>server.py\<close>): the ledger with a step relation over any number of gateway processes, the receiving handler, the
    calls of the public gateway, and both behind a connection that loses requests and answers.

  \<^bold>\<open>What the lemmas show.\<close>  Each theory first models, then proves its invariants, and ends with the properties and
  an instance on concrete data.  Properties are of four kinds: confinement (nothing outside the root, the scope, the
  grant or the reviewed hosts is reached), single use (approvals, claims, dispatches, launches), outcomes (what an
  operation leaves behind on every branch, interruptions included) and round trips (packets, requests, output pages).

  \<^bold>\<open>Conventions.\<close>  A raise is \<open>Inl\<close> of an error; a handler that mutates returns the new state.  What the code gets
  from outside is an argument: results of system calls, clocks, hash functions (\<open>sha\<close>), signature checks
  (\<open>verify\<close>), calendars (\<open>utc\<close>), the Git backend, the bytes of sockets, and the actions of other threads between two
  sections under a lock.  Laws that a proof needs of such an argument (for instance that a digest has 64 hexadecimal
  characters) are hypotheses of the theorem, with a witness that instantiates them.  Strings are lists of characters;
  where the code counts UTF-8 bytes the model does so with \<open>utf8_len\<close>.  Python integers are unbounded and are \<open>int\<close> or
  \<open>nat\<close> here; wall-clock times are integers except in the rate limiter, where they are reals.  Link resolution takes
  its fuel from the finite set of links, and any more fuel is proved to give the same result.

  \<^bold>\<open>Interfaces.\<close>  Where one component relies on another the contract is a locale, interpreted on the definitions of
  the provider, and the properties use the interpreted facts.

  \<^bold>\<open>Not modelled.\<close>  Parts whose effect lies in another program or in the kernel: mounts and the publication protocol of
  job overlays, Git's own repositories and the generated programs that run inside Git, cgroups and process handles,
  TLS and certificates, the socket loops and thread pools.  Their results are arguments of the parts that use them.
  Also left out are the assembly of agent launches, the orchestration of the approved Git commands around their modelled
  authorities, the owner's offline reconciliation commands, configuration files and the command line, the REST routes,
  log lines, and the release scripts.  JSON texts with fractions, exponents or code points above 255 are outside the
  model where they are read: the model refuses them where the code may accept them.
\<close>

end
